(* ===== verification/Agent_Prelude.thy ===== *)
theory Agent_Prelude
  imports Main "HOL-Library.Word" "HOL-Library.List_Lexorder" "HOL-Library.Char_ord"
begin

text \<open>
  The vocabulary every component of the host agent shares: time as the Rust standard library
  counts it, strings as UTF-8 byte lists with the \<open>str\<close> operations the agent calls, and the
  generic list lemmas the component proofs lean on.
\<close>

section \<open>Rule collections\<close>

named_theorems time_simps \<open>conversions between durations and their units\<close>
named_theorems text_simps \<open>string operations on literals and concatenations\<close>
named_theorems num_simps \<open>decimal printing and parsing\<close>

section \<open>Time\<close>

text \<open>
  \<open>Duration\<close> is an unsigned number of nanoseconds, \<open>Instant\<close> a monotonic reading in the same
  unit, \<open>SystemTime\<close> a signed distance from the Unix epoch. On the platforms the agent ships
  for, an \<open>Instant\<close> holds its seconds in an \<open>i64\<close>, and \<open>Instant + Duration\<close> panics when the
  sum does not fit; the panic is \<open>None\<close>.
\<close>

type_synonym duration = nat
type_synonym instant = nat
type_synonym system_time = int
type_synonym bytes = string

definition secs :: "nat \<Rightarrow> duration" where
  "secs n = n * 1000000000"

definition millis :: "nat \<Rightarrow> duration" where
  "millis n = n * 1000000"

definition as_secs :: "duration \<Rightarrow> nat" where
  "as_secs d = d div 1000000000"

definition u64_max :: nat where
  "u64_max = 18446744073709551615"

definition u32_max :: nat where
  "u32_max = 4294967295"

definition instant_limit :: nat where
  "instant_limit = 9223372036854775808 * 1000000000"

definition instant_add :: "instant \<Rightarrow> duration \<Rightarrow> instant option" where
  "instant_add t d = (if t + d < instant_limit then Some (t + d) else None)"

definition duration_since :: "system_time \<Rightarrow> system_time \<Rightarrow> duration" where
  \<comment> \<open>\<open>duration_since(..).unwrap_or_default()\<close>: zero when the clock stepped back\<close>
  "duration_since now t = nat (now - t)"

lemma instant_add_Some [simp]:
  "instant_add t d = Some u \<longleftrightarrow> u = t + d \<and> t + d < instant_limit"
  by (auto simp: instant_add_def)

lemma instant_add_None: "instant_add t d = None \<longleftrightarrow> instant_limit \<le> t + d"
  by (simp add: instant_add_def not_less)

lemma secs_mono [simp]: "secs a \<le> secs b \<longleftrightarrow> a \<le> b"
  by (simp add: secs_def)

lemma secs_less [simp]: "secs a < secs b \<longleftrightarrow> a < b"
  by (simp add: secs_def)

lemma secs_inj [simp]: "secs a = secs b \<longleftrightarrow> a = b"
  by (simp add: secs_def)

lemma secs_eq_0 [simp]: "secs a = 0 \<longleftrightarrow> a = 0"
  by (simp add: secs_def)

lemma as_secs_secs [simp, time_simps]: "as_secs (secs n) = n"
  by (simp add: as_secs_def secs_def)

lemma secs_add [time_simps]: "secs (a + b) = secs a + secs b"
  by (simp add: secs_def algebra_simps)

lemma duration_since_self [simp]: "duration_since t t = 0"
  by (simp add: duration_since_def)

section \<open>Error texts\<close>

text \<open>
  A message is the fixed text of the source, or one of its \<open>format!\<close> templates with the values
  formatted into it. Formatting foreign values (a status line, an operating system error) is
  not reproduced; the agent never reads a formatted message back.
\<close>

datatype error_text = Text string | Format string "string list"

datatype io_kind = NotFound | AlreadyExists | PermissionDenied | OtherIo

section \<open>Lists\<close>

lemma sorted_wrt_filter: "sorted_wrt P xs \<Longrightarrow> sorted_wrt P (filter Q xs)"
  by (induction xs) auto

lemma find_None_iff_all: "find P xs = None \<longleftrightarrow> (\<forall>x\<in>set xs. \<not> P x)"
  by (induction xs) auto

lemma find_SomeD: "find P xs = Some x \<Longrightarrow> x \<in> set xs \<and> P x"
  by (induction xs) (auto split: if_splits)

lemma find_distinct_key:
  "\<lbrakk>distinct (map k xs); x \<in> set xs\<rbrakk> \<Longrightarrow> find (\<lambda>y. k y = k x) xs = Some x"
  by (induction xs) (auto simp: rev_image_eqI)

lemma sum_list_filter_split:
  "sum_list (map f xs) = sum_list (map f (filter P xs)) + sum_list (map f (filter (\<lambda>x. \<not> P x) xs))"
  for f :: "'a \<Rightarrow> nat"
  by (induction xs) auto

lemma length_filter_split:
  "length xs = length (filter P xs) + length (filter (\<lambda>x. \<not> P x) xs)"
  by (induction xs) auto

lemma member_le_sum_list_map: "x \<in> set xs \<Longrightarrow> f x \<le> sum_list (map f xs)"
  for f :: "'a \<Rightarrow> nat"
  by (induction xs) auto

section \<open>Strings\<close>

text \<open>
  A Rust \<open>str\<close> is its UTF-8 bytes, so \<open>len\<close> is \<^const>\<open>length\<close>; \<open>chars().count()\<close> counts the
  bytes that start a character.
\<close>

definition byte_of :: "char \<Rightarrow> nat" where
  "byte_of c = of_char c"

definition is_continuation :: "char \<Rightarrow> bool" where
  "is_continuation c = (128 \<le> byte_of c \<and> byte_of c < 192)"

definition char_count :: "string \<Rightarrow> nat" where
  "char_count s = length (filter (\<lambda>c. \<not> is_continuation c) s)"

definition is_ascii_lowercase :: "char \<Rightarrow> bool" where
  "is_ascii_lowercase c = (97 \<le> byte_of c \<and> byte_of c \<le> 122)"

definition is_ascii_uppercase :: "char \<Rightarrow> bool" where
  "is_ascii_uppercase c = (65 \<le> byte_of c \<and> byte_of c \<le> 90)"

definition is_ascii_digit :: "char \<Rightarrow> bool" where
  "is_ascii_digit c = (48 \<le> byte_of c \<and> byte_of c \<le> 57)"

definition is_ascii_alphabetic :: "char \<Rightarrow> bool" where
  "is_ascii_alphabetic c = (is_ascii_lowercase c \<or> is_ascii_uppercase c)"

definition is_ascii_alphanumeric :: "char \<Rightarrow> bool" where
  "is_ascii_alphanumeric c = (is_ascii_alphabetic c \<or> is_ascii_digit c)"

definition is_ascii_whitespace :: "char \<Rightarrow> bool" where
  \<comment> \<open>space, tab, line feed, form feed, carriage return: not the vertical tab\<close>
  "is_ascii_whitespace c = (byte_of c \<in> {32, 9, 10, 12, 13})"

definition to_ascii_uppercase :: "char \<Rightarrow> char" where
  "to_ascii_uppercase c = (if is_ascii_lowercase c then char_of (byte_of c - 32) else c)"

definition to_ascii_lowercase :: "char \<Rightarrow> char" where
  "to_ascii_lowercase c = (if is_ascii_uppercase c then char_of (byte_of c + 32) else c)"

fun strip_prefix :: "string \<Rightarrow> string \<Rightarrow> string option" where
  "strip_prefix [] s = Some s"
| "strip_prefix (p # ps) [] = None"
| "strip_prefix (p # ps) (c # cs) = (if p = c then strip_prefix ps cs else None)"

definition starts_with :: "string \<Rightarrow> string \<Rightarrow> bool" where
  "starts_with p s = (strip_prefix p s \<noteq> None)"

definition strip_suffix :: "string \<Rightarrow> string \<Rightarrow> string option" where
  "strip_suffix p s = map_option rev (strip_prefix (rev p) (rev s))"

fun split_once :: "char \<Rightarrow> string \<Rightarrow> (string \<times> string) option" where
  "split_once d [] = None"
| "split_once d (c # cs) =
     (if c = d then Some ([], cs)
      else map_option (\<lambda>(a, b). (c # a, b)) (split_once d cs))"

fun split_on :: "char \<Rightarrow> string \<Rightarrow> string list" where
  "split_on d [] = [[]]"
| "split_on d (c # cs) =
     (if c = d then [] # split_on d cs
      else (case split_on d cs of [] \<Rightarrow> [[c]] | w # ws \<Rightarrow> (c # w) # ws))"

lemma strip_prefix_iff [text_simps]: "strip_prefix p s = Some r \<longleftrightarrow> s = p @ r"
  by (induction p s rule: strip_prefix.induct) auto

lemma strip_prefix_append [simp]: "strip_prefix p (p @ r) = Some r"
  by (simp add: strip_prefix_iff)

lemma starts_with_iff: "starts_with p s \<longleftrightarrow> (\<exists>r. s = p @ r)"
  by (auto simp: starts_with_def strip_prefix_iff)

lemma strip_suffix_iff [text_simps]: "strip_suffix p s = Some r \<longleftrightarrow> s = r @ p"
  by (simp add: strip_suffix_def strip_prefix_iff) (metis rev_append rev_rev_ident)

lemma split_once_SomeD: "split_once d s = Some (a, b) \<Longrightarrow> s = a @ d # b \<and> d \<notin> set a"
  by (induction s arbitrary: a) (auto split: if_splits)

lemma split_once_append [simp]: "d \<notin> set a \<Longrightarrow> split_once d (a @ d # b) = Some (a, b)"
  by (induction a) auto

lemma split_once_None [text_simps]: "split_once d s = None \<longleftrightarrow> d \<notin> set s"
  by (induction s) auto

lemma split_on_not_Nil [simp]: "split_on d s \<noteq> []"
  by (induction s) (auto split: list.splits)

lemma split_on_no_delim: "w \<in> set (split_on d s) \<Longrightarrow> d \<notin> set w"
  by (induction s arbitrary: w) (auto split: if_splits list.splits)

lemma split_on_append: "d \<notin> set a \<Longrightarrow> split_on d (a @ d # b) = a # split_on d b"
  by (induction a) auto

lemma split_on_single: "d \<notin> set a \<Longrightarrow> split_on d a = [a]"
  by (induction a) auto

section \<open>Unicode white space\<close>

text \<open>
  \<open>str::trim\<close> removes characters with the Unicode property White\_Space. \<open>ws_len\<close> is the
  number of bytes of such a character at the front of a byte list, and zero when there is none.
\<close>

fun ws_len :: "nat list \<Rightarrow> nat" where
  "ws_len (a # b # c # _) =
     (if a \<in> {9, 10, 11, 12, 13, 32} then 1
      else if a = 194 \<and> b \<in> {133, 160} then 2
      else if (a = 225 \<and> b = 154 \<and> c = 128)
           \<or> (a = 226 \<and> b = 128 \<and> (128 \<le> c \<and> c \<le> 138 \<or> c \<in> {168, 169, 175}))
           \<or> (a = 226 \<and> b = 129 \<and> c = 159)
           \<or> (a = 227 \<and> b = 128 \<and> c = 128) then 3
      else 0)"
| "ws_len (a # b # _) =
     (if a \<in> {9, 10, 11, 12, 13, 32} then 1
      else if a = 194 \<and> b \<in> {133, 160} then 2 else 0)"
| "ws_len (a # _) = (if a \<in> {9, 10, 11, 12, 13, 32} then 1 else 0)"
| "ws_len [] = 0"

fun ws_len_rev :: "nat list \<Rightarrow> nat" where
  \<comment> \<open>the same for a white space character at the end, its bytes read backwards\<close>
  "ws_len_rev (c # b # a # _) =
     (if c \<in> {9, 10, 11, 12, 13, 32} then 1
      else if b = 194 \<and> c \<in> {133, 160} then 2
      else if ws_len [a, b, c] = 3 then 3 else 0)"
| "ws_len_rev (c # b # _) =
     (if c \<in> {9, 10, 11, 12, 13, 32} then 1
      else if b = 194 \<and> c \<in> {133, 160} then 2 else 0)"
| "ws_len_rev (c # _) = (if c \<in> {9, 10, 11, 12, 13, 32} then 1 else 0)"
| "ws_len_rev [] = 0"

function trim_start :: "string \<Rightarrow> string" where
  "trim_start s =
     (let n = ws_len (map byte_of s) in
      if n = 0 \<or> s = [] then s else trim_start (drop n s))"
  by pat_completeness auto
termination
  by (relation "measure length") auto

function trim_start_rev :: "string \<Rightarrow> string" where
  "trim_start_rev s =
     (let n = ws_len_rev (map byte_of s) in
      if n = 0 \<or> s = [] then s else trim_start_rev (drop n s))"
  by pat_completeness auto
termination
  by (relation "measure length") auto

declare trim_start.simps [simp del] trim_start_rev.simps [simp del]

definition trim_end :: "string \<Rightarrow> string" where
  "trim_end s = rev (trim_start_rev (rev s))"

definition trim :: "string \<Rightarrow> string" where
  "trim s = trim_end (trim_start s)"

lemma trim_start_suffix: "\<exists>p. s = p @ trim_start s"
proof (induction s rule: trim_start.induct)
  case (1 s)
  show ?case
  proof (cases "ws_len (map byte_of s) = 0 \<or> s = []")
    case True
    then show ?thesis by (subst trim_start.simps) (auto simp: Let_def)
  next
    case False
    then obtain p where "drop (ws_len (map byte_of s)) s = p @ trim_start (drop (ws_len (map byte_of s)) s)"
      using "1.IH"[OF refl] by blast
    moreover have "trim_start s = trim_start (drop (ws_len (map byte_of s)) s)"
      using False by (subst trim_start.simps) (simp add: Let_def)
    ultimately have "s = (take (ws_len (map byte_of s)) s @ p) @ trim_start s"
      by (metis append_assoc append_take_drop_id)
    then show ?thesis by blast
  qed
qed

lemma trim_start_rev_suffix: "\<exists>p. s = p @ trim_start_rev s"
proof (induction s rule: trim_start_rev.induct)
  case (1 s)
  show ?case
  proof (cases "ws_len_rev (map byte_of s) = 0 \<or> s = []")
    case True
    then show ?thesis by (subst trim_start_rev.simps) (auto simp: Let_def)
  next
    case False
    then obtain p where "drop (ws_len_rev (map byte_of s)) s
        = p @ trim_start_rev (drop (ws_len_rev (map byte_of s)) s)"
      using "1.IH"[OF refl] by blast
    moreover have "trim_start_rev s = trim_start_rev (drop (ws_len_rev (map byte_of s)) s)"
      using False by (subst trim_start_rev.simps) (simp add: Let_def)
    ultimately have "s = (take (ws_len_rev (map byte_of s)) s @ p) @ trim_start_rev s"
      by (metis append_assoc append_take_drop_id)
    then show ?thesis by blast
  qed
qed

lemma trim_infix: "\<exists>p q. s = p @ trim s @ q"
proof -
  obtain p where p: "s = p @ trim_start s" using trim_start_suffix by blast
  obtain q where "rev (trim_start s) = q @ trim_start_rev (rev (trim_start s))"
    using trim_start_rev_suffix by blast
  then have "trim_start s = trim s @ rev q"
    by (metis rev_append rev_rev_ident trim_def trim_end_def)
  then show ?thesis using p by metis
qed

section \<open>Limits\<close>

text \<open>What the server accepts as one observation (\<open>payload.rs\<close>).\<close>

definition max_observation_bytes :: nat where "max_observation_bytes = 256000"

end
