(* ===== verification/Decimal.thy ===== *)
theory Decimal
  imports Agent_Prelude
begin

text \<open>
  Unsigned decimal numbers as the agent formats and parses them: \<open>to_string\<close>, the zero-padded
  \<open>{:020}\<close> of queue file names, and \<open>str::parse\<close> on unsigned types, which takes an optional
  plus sign, refuses an empty or non-digit text, and refuses a value that overflows the type.
\<close>

section \<open>Printing\<close>

definition digit_char :: "nat \<Rightarrow> char" where
  "digit_char d = char_of (48 + d)"

definition digit_value :: "char \<Rightarrow> nat" where
  "digit_value c = byte_of c - 48"

fun dec :: "nat \<Rightarrow> string" where
  "dec n = (if n < 10 then [digit_char n] else dec (n div 10) @ [digit_char (n mod 10)])"

declare dec.simps [simp del]

definition zero_padded :: "nat \<Rightarrow> nat \<Rightarrow> string" where
  "zero_padded width n = replicate (width - length (dec n)) (digit_char 0) @ dec n"

section \<open>Parsing\<close>

definition decimal_value :: "string \<Rightarrow> nat" where
  "decimal_value s = foldl (\<lambda>a c. 10 * a + digit_value c) 0 s"

definition parse_uint :: "nat \<Rightarrow> string \<Rightarrow> nat option" where
  "parse_uint limit s =
     (let ds = (case s of c # cs \<Rightarrow> if c = CHR ''+'' then cs else s | [] \<Rightarrow> [])
      in if ds = [] \<or> \<not> list_all is_ascii_digit ds then None
         else if decimal_value ds \<le> limit then Some (decimal_value ds) else None)"

section \<open>Digits\<close>

lemma byte_of_digit_char [simp]: "d < 10 \<Longrightarrow> byte_of (digit_char d) = 48 + d"
  by (simp add: byte_of_def digit_char_def of_char_of)

lemma digit_value_digit_char [simp]: "d < 10 \<Longrightarrow> digit_value (digit_char d) = d"
  by (simp add: digit_value_def)

lemma is_ascii_digit_digit_char [simp]: "d < 10 \<Longrightarrow> is_ascii_digit (digit_char d)"
  by (simp add: is_ascii_digit_def)

lemma digit_value_less: "is_ascii_digit c \<Longrightarrow> digit_value c < 10"
  by (auto simp: is_ascii_digit_def digit_value_def)

lemma byte_of_inject: "byte_of a = byte_of b \<longleftrightarrow> a = b"
  by (simp add: byte_of_def)

lemma digit_char_digit_value: "is_ascii_digit c \<Longrightarrow> digit_char (digit_value c) = c"
  by (simp add: is_ascii_digit_def digit_value_def digit_char_def byte_of_def)

lemma dec_not_Nil [simp]: "dec n \<noteq> []"
  by (subst dec.simps) simp

lemma dec_digits: "list_all is_ascii_digit (dec n)"
proof (induction n rule: dec.induct)
  case (1 n)
  then show ?case by (subst dec.simps) simp
qed

lemma zero_padded_digits [num_simps]: "list_all is_ascii_digit (zero_padded w n)"
  using dec_digits[of n] by (auto simp: zero_padded_def list_all_iff)

lemma digit_not_plus: "is_ascii_digit c \<Longrightarrow> c \<noteq> CHR ''+''"
  by (auto simp: is_ascii_digit_def byte_of_def)

lemma digit_not_dash: "is_ascii_digit c \<Longrightarrow> c \<noteq> CHR ''-''"
  by (auto simp: is_ascii_digit_def byte_of_def)

lemma decimal_value_snoc [simp]: "decimal_value (s @ [c]) = 10 * decimal_value s + digit_value c"
  by (simp add: decimal_value_def)

lemma decimal_value_Nil [simp]: "decimal_value [] = 0"
  by (simp add: decimal_value_def)

lemma decimal_value_append:
  "decimal_value (s @ t) = decimal_value s * 10 ^ length t + decimal_value t"
proof (induction t rule: rev_induct)
  case Nil
  then show ?case by simp
next
  case (snoc c t)
  then show ?case
    by (simp flip: append_assoc add: algebra_simps)
qed

lemma decimal_value_zeros: "decimal_value (replicate k (digit_char 0)) = 0"
  by (induction k) (auto simp: replicate_append_same[symmetric] simp del: replicate_Suc simp: replicate_Suc)

lemma decimal_value_dec [simp, num_simps]: "decimal_value (dec n) = n"
proof (induction n rule: dec.induct)
  case (1 n)
  then show ?case by (subst dec.simps) (auto simp: decimal_value_def)
qed

lemma decimal_value_zero_padded [simp, num_simps]: "decimal_value (zero_padded w n) = n"
  by (simp add: zero_padded_def decimal_value_append decimal_value_zeros)

lemma decimal_value_less: "list_all is_ascii_digit s \<Longrightarrow> decimal_value s < 10 ^ length s"
proof (induction s rule: rev_induct)
  case Nil
  then show ?case by simp
next
  case (snoc c s)
  then have "decimal_value s < 10 ^ length s" and "digit_value c < 10"
    by (simp_all add: digit_value_less)
  then show ?case by simp
qed

lemma length_dec_le: "n < 10 ^ k \<Longrightarrow> 0 < k \<Longrightarrow> length (dec n) \<le> k"
proof (induction n arbitrary: k rule: dec.induct)
  case (1 n)
  show ?case
  proof (cases "n < 10")
    case True
    then show ?thesis using "1.prems" by (subst dec.simps) simp
  next
    case False
    then obtain j where k: "k = Suc j" and j: "0 < j"
      using "1.prems" by (cases k; cases "k - 1") auto
    have "n div 10 < 10 ^ j"
      using "1.prems"(1) k by (simp add: less_mult_imp_div_less mult.commute)
    then have "length (dec (n div 10)) \<le> j"
      using "1.IH"[OF False] j by blast
    then show ?thesis using False k by (subst dec.simps) simp
  qed
qed

lemma length_zero_padded: "n < 10 ^ w \<Longrightarrow> 0 < w \<Longrightarrow> length (zero_padded w n) = w"
  using length_dec_le[of n w] by (simp add: zero_padded_def)

section \<open>Round trips\<close>

lemma parse_uint_digits:
  assumes "list_all is_ascii_digit s" and "s \<noteq> []" and "decimal_value s \<le> limit"
  shows "parse_uint limit s = Some (decimal_value s)"
proof -
  obtain c cs where s: "s = c # cs" using assms(2) by (cases s) auto
  then have "c \<noteq> CHR ''+''" using assms(1) digit_not_plus by auto
  then show ?thesis using assms s by (simp add: parse_uint_def)
qed

lemma parse_uint_dec [simp, num_simps]: "n \<le> limit \<Longrightarrow> parse_uint limit (dec n) = Some n"
  using parse_uint_digits[of "dec n" limit] by (simp add: dec_digits)

lemma parse_uint_zero_padded [simp, num_simps]:
  "n \<le> limit \<Longrightarrow> parse_uint limit (zero_padded w n) = Some n"
  using parse_uint_digits[of "zero_padded w n" limit]
  by (simp add: zero_padded_digits) (simp add: zero_padded_def)

lemma parse_uint_le: "parse_uint limit s = Some n \<Longrightarrow> n \<le> limit"
  by (auto simp: parse_uint_def Let_def split: if_splits)

text \<open>
  \<open>version.to_string() != raw_version\<close> rejects what \<open>parse\<close> tolerates: a text equals the
  printed form of its value only without a sign and without leading zeros.
\<close>

lemma dec_inject [simp]: "dec m = dec n \<longleftrightarrow> m = n"
  by (metis decimal_value_dec)

section \<open>Zero padding keeps the order\<close>

lemma less_digit_strings:
  assumes "length s = length t" and "list_all is_ascii_digit s" and "list_all is_ascii_digit t"
  shows "s < t \<longleftrightarrow> decimal_value s < decimal_value t"
  using assms
proof (induction s t rule: list_induct2)
  case Nil
  then show ?case by simp
next
  case (Cons c s d t)
  have IH: "s < t \<longleftrightarrow> decimal_value s < decimal_value t"
    using Cons by simp
  have vs: "decimal_value (c # s) = digit_value c * 10 ^ length s + decimal_value s"
    and vt: "decimal_value (d # t) = digit_value d * 10 ^ length s + decimal_value t"
    using decimal_value_append[of "[c]" s] decimal_value_append[of "[d]" t] Cons.hyps
    by (simp_all add: decimal_value_def)
  have bs: "decimal_value s < 10 ^ length s" and bt: "decimal_value t < 10 ^ length s"
    using decimal_value_less[of s] decimal_value_less[of t] Cons.prems Cons.hyps by simp_all
  have cd: "c < d \<longleftrightarrow> digit_value c < digit_value d" "c = d \<longleftrightarrow> digit_value c = digit_value d"
    using Cons.prems digit_char_digit_value
    by (auto simp: less_char_def byte_of_def is_ascii_digit_def digit_value_def)
      (metis byte_of_def digit_char_digit_value digit_value_def is_ascii_digit_def)
  consider "digit_value c < digit_value d" | "digit_value c = digit_value d"
    | "digit_value d < digit_value c" by linarith
  then show ?case
  proof cases
    case 1
    then have "Suc (digit_value c) * 10 ^ length s \<le> digit_value d * 10 ^ length s"
      by (intro mult_right_mono) auto
    then have "decimal_value (c # s) < decimal_value (d # t)" using vs vt bs by simp
    then show ?thesis using 1 cd by (simp add: Cons_less_Cons)
  next
    case 2
    then show ?thesis using cd vs vt IH by (simp add: Cons_less_Cons)
  next
    case 3
    then have "Suc (digit_value d) * 10 ^ length s \<le> digit_value c * 10 ^ length s"
      by (intro mult_right_mono) auto
    then have "\<not> decimal_value (c # s) < decimal_value (d # t)" using vs vt bt by simp
    then show ?thesis using 3 cd by (simp add: Cons_less_Cons)
  qed
qed

lemma zero_padded_less:
  assumes "m < 10 ^ w" and "n < 10 ^ w" and "0 < w"
  shows "zero_padded w m < zero_padded w n \<longleftrightarrow> m < n"
  using assms less_digit_strings[of "zero_padded w m" "zero_padded w n"]
  by (simp add: length_zero_padded zero_padded_digits)

lemma append_less_append_same_length:
  "length a = length b \<Longrightarrow> a < b \<Longrightarrow> a @ x < b @ y"
  for a b :: "'a :: linorder list"
  by (induction a b rule: list_induct2) auto

end
