(* ===== verification/Text_Json.thy ===== *)
theory Text_Json
  imports Decimal
begin

text \<open>
  UTF-8 as \<open>String::from_utf8\<close> and \<open>String::from_utf8_lossy\<close> decide it, and the JSON values the
  agent inspects. The JSON reader itself is the serde\_json crate: it is an argument of the
  definitions that call it.
\<close>

section \<open>UTF-8\<close>

text \<open>
  \<open>utf8_step bs\<close> is the length of the character at the front and \<open>True\<close>, or, where no
  character starts there, the length of the longest prefix that could still have started one
  and \<open>False\<close>.
\<close>

definition continuation :: "nat \<Rightarrow> bool" where
  "continuation b = (128 \<le> b \<and> b \<le> 191)"

definition second_byte :: "nat \<Rightarrow> nat \<Rightarrow> bool" where
  "second_byte a b =
     (if a = 224 then 160 \<le> b \<and> b \<le> 191
      else if a = 237 then 128 \<le> b \<and> b \<le> 159
      else if a = 240 then 144 \<le> b \<and> b \<le> 191
      else if a = 244 then 128 \<le> b \<and> b \<le> 143
      else continuation b)"

definition utf8_step :: "nat list \<Rightarrow> nat \<times> bool" where
  "utf8_step bs =
     (case bs of
        [] \<Rightarrow> (0, False)
      | a # r \<Rightarrow>
          if a < 128 then (1, True)
          else if 194 \<le> a \<and> a \<le> 223 then
            (case r of b # _ \<Rightarrow> if continuation b then (2, True) else (1, False) | [] \<Rightarrow> (1, False))
          else if 224 \<le> a \<and> a \<le> 239 then
            (case r of
               [] \<Rightarrow> (1, False)
             | b # r2 \<Rightarrow> if \<not> second_byte a b then (1, False)
                 else (case r2 of [] \<Rightarrow> (2, False)
                       | c # _ \<Rightarrow> if continuation c then (3, True) else (2, False)))
          else if 240 \<le> a \<and> a \<le> 244 then
            (case r of
               [] \<Rightarrow> (1, False)
             | b # r2 \<Rightarrow> if \<not> second_byte a b then (1, False)
                 else (case r2 of [] \<Rightarrow> (2, False)
                       | c # r3 \<Rightarrow> if \<not> continuation c then (2, False)
                           else (case r3 of [] \<Rightarrow> (3, False)
                                 | d # _ \<Rightarrow> if continuation d then (4, True) else (3, False))))
          else (1, False))"

lemma utf8_step_pos: "bs \<noteq> [] \<Longrightarrow> 0 < fst (utf8_step bs)"
  by (cases bs) (auto simp: utf8_step_def split: list.splits)

function valid_utf8 :: "bytes \<Rightarrow> bool" where
  "valid_utf8 s =
     (if s = [] then True
      else (let (n, ok) = utf8_step (map byte_of s) in ok \<and> valid_utf8 (drop n s)))"
  by pat_completeness auto
termination
proof (relation "measure length", goal_cases)
  case 1
  show ?case by simp
next
  case (2 s x n ok)
  then have "0 < n" using utf8_step_pos[of "map byte_of s"] by (metis fst_conv map_is_Nil_conv)
  then show ?case using 2 by simp
qed

declare valid_utf8.simps [simp del]

definition replacement_character :: bytes where
  \<comment> \<open>U+FFFD\<close>
  "replacement_character = [char_of (239::nat), char_of (191::nat), char_of (189::nat)]"

function from_utf8_lossy :: "bytes \<Rightarrow> string" where
  "from_utf8_lossy s =
     (if s = [] then []
      else (let (n, ok) = utf8_step (map byte_of s) in
            (if ok then take n s else replacement_character) @ from_utf8_lossy (drop n s)))"
  by pat_completeness auto
termination
proof (relation "measure length", goal_cases)
  case 1
  show ?case by simp
next
  case (2 s x n ok)
  then have "0 < n" using utf8_step_pos[of "map byte_of s"] by (metis fst_conv map_is_Nil_conv)
  then show ?case using 2 by simp
qed

declare from_utf8_lossy.simps [simp del]

definition from_utf8 :: "bytes \<Rightarrow> string option" where
  "from_utf8 s = (if valid_utf8 s then Some s else None)"

lemma from_utf8_lossy_valid: "valid_utf8 s \<Longrightarrow> from_utf8_lossy s = s"
proof (induction s rule: valid_utf8.induct)
  case (1 s)
  show ?case
  proof (cases "s = []")
    case True
    then show ?thesis by (simp add: from_utf8_lossy.simps)
  next
    case False
    obtain n ok where st: "utf8_step (map byte_of s) = (n, ok)" by fastforce
    then have ok: "ok" and v: "valid_utf8 (drop n s)"
      using "1.prems" False by (simp_all add: valid_utf8.simps[of s])
    then have "from_utf8_lossy (drop n s) = drop n s"
      using "1.IH"[OF False refl] st by simp
    then show ?thesis using False st ok by (subst from_utf8_lossy.simps) simp
  qed
qed

lemma valid_utf8_ascii: "list_all (\<lambda>c. byte_of c < 128) s \<Longrightarrow> valid_utf8 s"
proof (induction s)
  case Nil
  then show ?case by (simp add: valid_utf8.simps)
next
  case (Cons c s)
  then show ?case by (subst valid_utf8.simps) (simp add: utf8_step_def)
qed

text \<open>\<open>chars().take(n)\<close>: each character is its first byte and the continuation bytes after it.\<close>

function take_chars :: "nat \<Rightarrow> string \<Rightarrow> string" where
  "take_chars 0 s = []"
| "take_chars (Suc n) [] = []"
| "take_chars (Suc n) (c # cs) =
     c # takeWhile is_continuation cs @ take_chars n (dropWhile is_continuation cs)"
  by pat_completeness auto
termination
  by (relation "measure fst") auto

section \<open>JSON values\<close>

text \<open>
  The variants of \<open>serde_json::Value\<close>. A number is kept as its JSON text, which is what
  \<open>Number::to_string\<close> gives back. An object lists its members, one per key.
\<close>

datatype json =
    JNull
  | JBool bool
  | JNumber string
  | JString string
  | JArray "json list"
  | JObject "(string \<times> json) list"

fun json_get :: "string \<Rightarrow> json \<Rightarrow> json option" where
  "json_get k (JObject ms) = map_of ms k"
| "json_get k _ = None"

fun json_at :: "nat \<Rightarrow> json \<Rightarrow> json option" where
  "json_at i (JArray vs) = (if i < length vs then Some (vs ! i) else None)"
| "json_at i _ = None"

fun json_as_str :: "json \<Rightarrow> string option" where
  "json_as_str (JString s) = Some s"
| "json_as_str _ = None"

fun json_as_array :: "json \<Rightarrow> json list option" where
  "json_as_array (JArray vs) = Some vs"
| "json_as_array _ = None"

end
