(* ===== verification/Files.thy ===== *)
theory Files
  imports Text_Json
begin

text \<open>
  A directory as the agent's on-disk stores use it through \<open>std::fs\<close>. The content is the list of
  its names in the order \<open>read_dir\<close> reports them. Every system call first takes the next event
  of the environment: nothing happens, the call fails with an error kind (a failing write having
  put some bytes on disk first), or another process changed the directory in the meantime. An
  exhausted list of events means nothing more happens. \<open>Special\<close> is a symbolic link or a device,
  which can be unlinked and replaced but is no regular file.
\<close>

section \<open>Directories and events\<close>

datatype node =
    File (file_body: bytes) (modified: system_time)
  | Folder (modified: system_time)
  | Special (modified: system_time)

type_synonym directory = "(string \<times> node) list"

datatype event = Calm | Fault io_kind nat | Elsewhere directory

record disk =
  d_files :: directory
  d_events :: "event list"
  d_clock :: system_time

definition next_event :: "disk \<Rightarrow> (io_kind \<times> nat) option \<times> disk" where
  "next_event d =
     (case d_events d of
        [] \<Rightarrow> (None, d)
      | Calm # es \<Rightarrow> (None, d\<lparr>d_events := es\<rparr>)
      | Fault k n # es \<Rightarrow> (Some (k, n), d\<lparr>d_events := es\<rparr>)
      | Elsewhere files # es \<Rightarrow> (None, d\<lparr>d_files := files, d_events := es\<rparr>))"

definition to_str :: "string \<Rightarrow> string option" where
  "to_str name = (if valid_utf8 name then Some name else None)"

section \<open>System calls\<close>

text \<open>
  The kinds of error \<open>std::fs\<close> reports are the ones the agent tells apart. A name is bound to at
  most one node: \<open>put\<close> replaces, \<open>unlink\<close> removes.
\<close>

definition unlink :: "string \<Rightarrow> directory \<Rightarrow> directory" where
  "unlink name fs = filter (\<lambda>(n, _). n \<noteq> name) fs"

definition put :: "string \<Rightarrow> node \<Rightarrow> directory \<Rightarrow> directory" where
  "put name node fs = unlink name fs @ [(name, node)]"

definition fs_read_dir :: "disk \<Rightarrow> (io_kind + string list) \<times> disk" where
  "fs_read_dir d = (case next_event d of
     (Some (k, _), d) \<Rightarrow> (Inl k, d) | (None, d) \<Rightarrow> (Inr (map fst (d_files d)), d))"

definition fs_metadata :: "string \<Rightarrow> disk \<Rightarrow> (io_kind + node) \<times> disk" where
  "fs_metadata name d = (case next_event d of
     (Some (k, _), d) \<Rightarrow> (Inl k, d)
   | (None, d) \<Rightarrow> ((case map_of (d_files d) name of None \<Rightarrow> Inl NotFound | Some node \<Rightarrow> Inr node), d))"

definition fs_read :: "string \<Rightarrow> disk \<Rightarrow> (io_kind + bytes) \<times> disk" where
  "fs_read name d = (case next_event d of
     (Some (k, _), d) \<Rightarrow> (Inl k, d)
   | (None, d) \<Rightarrow> ((case map_of (d_files d) name of
        None \<Rightarrow> Inl NotFound
      | Some (File body _) \<Rightarrow> Inr body
      | Some _ \<Rightarrow> Inl OtherIo), d))"

definition fs_remove_file :: "string \<Rightarrow> disk \<Rightarrow> (io_kind + unit) \<times> disk" where
  "fs_remove_file name d = (case next_event d of
     (Some (k, _), d) \<Rightarrow> (Inl k, d)
   | (None, d) \<Rightarrow>
       (case map_of (d_files d) name of
          None \<Rightarrow> (Inl NotFound, d)
        | Some (Folder _) \<Rightarrow> (Inl OtherIo, d)
        | Some _ \<Rightarrow> (Inr (), d\<lparr>d_files := unlink name (d_files d)\<rparr>)))"

definition fs_create_new :: "string \<Rightarrow> disk \<Rightarrow> (io_kind + unit) \<times> disk" where
  "fs_create_new name d = (case next_event d of
     (Some (k, _), d) \<Rightarrow> (Inl k, d)
   | (None, d) \<Rightarrow>
       (if map_of (d_files d) name = None
        then (Inr (), d\<lparr>d_files := put name (File [] (d_clock d)) (d_files d)\<rparr>)
        else (Inl AlreadyExists, d)))"

text \<open>
  Writing through an open handle: the bytes go to the file as long as the name still denotes one.
\<close>

definition overwrite :: "string \<Rightarrow> bytes \<Rightarrow> disk \<Rightarrow> disk" where
  "overwrite name body d =
     (case map_of (d_files d) name of
        Some (File _ _) \<Rightarrow> d\<lparr>d_files := put name (File body (d_clock d)) (d_files d)\<rparr>
      | _ \<Rightarrow> d)"

definition fs_write_all :: "string \<Rightarrow> bytes \<Rightarrow> disk \<Rightarrow> (io_kind + unit) \<times> disk" where
  "fs_write_all name body d = (case next_event d of
     (Some (k, n), d) \<Rightarrow> (Inl k, overwrite name (take n body) d)
   | (None, d) \<Rightarrow> (Inr (), overwrite name body d))"

definition fs_sync :: "disk \<Rightarrow> (io_kind + unit) \<times> disk" where
  "fs_sync d = (case next_event d of (Some (k, _), d) \<Rightarrow> (Inl k, d) | (None, d) \<Rightarrow> (Inr (), d))"

definition fs_rename :: "string \<Rightarrow> string \<Rightarrow> disk \<Rightarrow> (io_kind + unit) \<times> disk" where
  "fs_rename old new d = (case next_event d of
     (Some (k, _), d) \<Rightarrow> (Inl k, d)
   | (None, d) \<Rightarrow>
       (case map_of (d_files d) old of
          None \<Rightarrow> (Inl NotFound, d)
        | Some node \<Rightarrow>
            if is_Folder node \<noteq> pred_option is_Folder (map_of (d_files d) new) \<and> map_of (d_files d) new \<noteq> None
            then (Inl OtherIo, d)
            else (Inr (), d\<lparr>d_files := put new node (unlink old (d_files d))\<rparr>)))"

section \<open>Laws of the directory\<close>

lemma map_of_unlink [simp]:
  "map_of (unlink a fs) b = (if a = b then None else map_of fs b)"
  by (induction fs) (auto simp: unlink_def)

lemma map_of_put [simp]:
  "map_of (put a node fs) b = (if a = b then Some node else map_of fs b)"
  by (auto simp: put_def map_add_def split: option.splits)

lemma fst_set_unlink [simp]: "fst ` set (unlink a fs) = fst ` set fs - {a}"
  by (auto simp: unlink_def image_iff)

lemma distinct_unlink [intro]: "distinct (map fst fs) \<Longrightarrow> distinct (map fst (unlink a fs))"
  by (induction fs) (auto simp: unlink_def image_iff)

lemma distinct_put [intro]: "distinct (map fst fs) \<Longrightarrow> distinct (map fst (put a node fs))"
  using distinct_unlink[of fs a] by (auto simp: put_def)

lemma unlink_absent: "map_of fs a = None \<Longrightarrow> unlink a fs = fs"
  unfolding unlink_def by (rule filter_True) (auto simp: map_of_eq_None_iff image_iff)

lemma unlink_append [simp]: "unlink a (fs @ gs) = unlink a fs @ unlink a gs"
  by (simp add: unlink_def)

lemma next_event_calm [simp]: "d_events d = [] \<Longrightarrow> next_event d = (None, d)"
  by (simp add: next_event_def)

lemmas fs_defs = fs_read_dir_def fs_metadata_def fs_read_def fs_remove_file_def fs_create_new_def
  fs_write_all_def fs_sync_def fs_rename_def

end
