(* ===== verification/Retry.thy ===== *)
theory Retry
  imports Text_Json
begin

text \<open>
  The failure classification and the bounded retry loop of \<^verbatim>\<open>agent/src/transport.rs\<close>. The
  environment of the loop (clock, request, sleep, shutdown flag) is a record of functions on a
  state, as the closures of the source are.
\<close>

section \<open>Failures\<close>

datatype failure_class = Transient | PayloadRejected | Permanent

record transport_error =
  te_message :: error_text
  te_kind :: failure_class
  te_status :: "nat option"
  te_retry_not_before :: "instant option"
  te_moved :: bool
  te_collector_kind_conflict :: bool

definition transport_error_new :: "error_text \<Rightarrow> failure_class \<Rightarrow> transport_error" where
  "transport_error_new m k =
     \<lparr>te_message = m, te_kind = k, te_status = None, te_retry_not_before = None,
      te_moved = False, te_collector_kind_conflict = False\<rparr>"

definition with_status :: "transport_error \<Rightarrow> nat \<Rightarrow> transport_error" where
  "with_status e st = e\<lparr>te_status := Some st\<rparr>"

definition cancelled_error :: transport_error where
  "cancelled_error = transport_error_new (Text ''HTTP delivery cancelled'') Permanent"

definition transient :: "transport_error \<Rightarrow> bool" where
  "transient e = (te_kind e = Transient)"

definition is_cancelled :: "transport_error \<Rightarrow> bool" where
  "is_cancelled e = (te_message e = Text ''HTTP delivery cancelled'')"

section \<open>Classifying a response\<close>

definition is_success :: "nat \<Rightarrow> bool" where
  "is_success st = (200 \<le> st \<and> st \<le> 299)"

definition is_server_error :: "nat \<Rightarrow> bool" where
  "is_server_error st = (500 \<le> st \<and> st \<le> 599)"

definition moved :: "(string \<Rightarrow> json option) \<Rightarrow> nat \<Rightarrow> string \<Rightarrow> bool" where
  "moved from_str st excerpt =
     (st = 410 \<and>
      (case from_str excerpt of
         None \<Rightarrow> False
       | Some body \<Rightarrow> Option.bind (json_get ''error'' body) json_as_str = Some ''moved''))"

definition rejects_path :: "(string \<Rightarrow> json option) \<Rightarrow> string \<Rightarrow> string \<Rightarrow> bool" where
  "rejects_path from_str excerpt path =
     (case Option.bind (from_str excerpt)
             (\<lambda>body. Option.bind (json_get ''errors'' body) json_as_array) of
        None \<Rightarrow> False
      | Some errors \<Rightarrow>
          list_ex (\<lambda>error. Option.bind (json_get ''path'' error) json_as_str = Some path) errors)"

definition failure_kind :: "(string \<Rightarrow> json option) \<Rightarrow> nat \<Rightarrow> string \<Rightarrow> failure_class" where
  "failure_kind from_str st excerpt =
     (if st = 408 \<or> st = 429 then Transient
      else if st = 410 \<and> moved from_str st excerpt then Transient
      else if is_server_error st then Transient
      else if st = 400 \<or> st = 413 \<or> st = 422 then PayloadRejected
      else if st = 409 \<and> (rejects_path from_str excerpt ''observation_id''
                         \<or> rejects_path from_str excerpt ''replay_id'') then PayloadRejected
      else Permanent)"

definition max_error_body :: nat where "max_error_body = 512"
definition max_response_body :: nat where "max_response_body = 1024 * 1024"

text \<open>
  A response as the HTTP library hands it over: the status, the \<open>Retry-After\<close> header where it
  is readable text, the body bytes that arrive, and whether reading them ends in an error.
\<close>

record response =
  resp_status :: nat
  resp_retry_after :: "string option"
  resp_body :: bytes
  resp_body_fails :: bool

definition bounded_error_excerpt :: "response \<Rightarrow> string" where
  "bounded_error_excerpt r = from_utf8_lossy (take max_error_body (resp_body r))"

definition retry_after ::
  "(string \<Rightarrow> int option) \<Rightarrow> system_time \<Rightarrow> instant \<Rightarrow> string \<Rightarrow> instant option" where
  "retry_after parse_from_rfc2822 utc_now now value =
     (case parse_uint u64_max value of
        Some seconds \<Rightarrow> instant_add now (secs seconds)
      | None \<Rightarrow>
          (case parse_from_rfc2822 value of
             None \<Rightarrow> None
           | Some date \<Rightarrow> instant_add now (duration_since date utc_now)))"

definition status_error ::
  "(string \<Rightarrow> json option) \<Rightarrow> (string \<Rightarrow> int option) \<Rightarrow> system_time \<Rightarrow> instant \<Rightarrow> response
   \<Rightarrow> transport_error" where
  "status_error from_str rfc2822 utc_now now r =
     (let st = resp_status r; excerpt = bounded_error_excerpt r in
      (with_status
         (transport_error_new
            (Format ''server returned {status}; response excerpt: {excerpt:?}'' [dec st, excerpt])
            (failure_kind from_str st excerpt)) st)
      \<lparr>te_retry_not_before := Option.bind (resp_retry_after r) (retry_after rfc2822 utc_now now),
       te_moved := moved from_str st excerpt,
       te_collector_kind_conflict := (st = 409 \<and> rejects_path from_str excerpt ''collector.kind'')\<rparr>)"

definition response_result ::
  "(string \<Rightarrow> json option) \<Rightarrow> (string \<Rightarrow> int option) \<Rightarrow> system_time \<Rightarrow> instant \<Rightarrow> response
   \<Rightarrow> transport_error + unit" where
  "response_result from_str rfc2822 utc_now now r =
     (if is_success (resp_status r) then Inr () else Inl (status_error from_str rfc2822 utc_now now r))"

definition read_bounded :: "response \<Rightarrow> nat \<Rightarrow> transport_error + bytes" where
  "read_bounded r limit =
     (let bytes = take (limit + 1) (resp_body r) in
      if resp_body_fails r \<and> length (resp_body r) \<le> limit
      then Inl (transport_error_new (Format ''cannot read server response: {error}'' []) Transient)
      else if limit < length bytes
      then Inl (transport_error_new (Format ''server response exceeds {limit} bytes'' [dec limit]) Permanent)
      else Inr bytes)"

definition response_body ::
  "(string \<Rightarrow> json option) \<Rightarrow> (string \<Rightarrow> int option) \<Rightarrow> system_time \<Rightarrow> instant \<Rightarrow> response
   \<Rightarrow> transport_error + bytes" where
  "response_body from_str rfc2822 utc_now now r =
     (if \<not> is_success (resp_status r) then Inl (status_error from_str rfc2822 utc_now now r)
      else read_bounded r max_response_body)"

section \<open>The retry loop\<close>

definition delivery_budget :: duration where "delivery_budget = secs 25"
definition backoff_slice :: duration where "backoff_slice = millis 25"
definition first_delay :: duration where "first_delay = millis 250"
definition max_delay :: duration where "max_delay = secs 8"

record ('s, 'a) retry_env =
  r_now :: "'s \<Rightarrow> instant"
  r_operation :: "'s \<Rightarrow> (transport_error + 'a) \<times> 's"
  r_sleep :: "duration \<Rightarrow> 's \<Rightarrow> 's"
  r_cancelled :: "'s \<Rightarrow> bool \<times> 's"

text \<open>The backoff sleeps in slices and asks for shutdown before each; \<open>False\<close>: it was cancelled.\<close>

function backoff_sleep ::
  "('s \<Rightarrow> bool \<times> 's) \<Rightarrow> (duration \<Rightarrow> 's \<Rightarrow> 's) \<Rightarrow> duration \<Rightarrow> 's \<Rightarrow> bool \<times> 's" where
  "backoff_sleep cancelled sleep remaining s =
     (if remaining = 0 then (True, s)
      else (case cancelled s of
              (True, s) \<Rightarrow> (False, s)
            | (False, s) \<Rightarrow>
                let slice = min remaining backoff_slice
                in backoff_sleep cancelled sleep (remaining - slice) (sleep slice s)))"
  by pat_completeness auto
termination
  by (relation "measure (\<lambda>(_, _, remaining, _). remaining)") (auto simp: backoff_slice_def millis_def)

declare backoff_sleep.simps [simp del]

definition retry_delay :: "instant \<Rightarrow> duration \<Rightarrow> transport_error \<Rightarrow> duration" where
  "retry_delay now delay e =
     max delay (case te_retry_not_before e of None \<Rightarrow> 0 | Some at \<Rightarrow> at - now)"

text \<open>
  One pass of the loop is attempt number \<open>attempt\<close>; \<open>None\<close> is the \<open>unreachable!\<close> after the
  loop.
\<close>

function retry_loop ::
  "('s, 'a) retry_env \<Rightarrow> nat \<Rightarrow> duration \<Rightarrow> duration \<Rightarrow> instant \<Rightarrow> nat \<Rightarrow> duration \<Rightarrow> 's
   \<Rightarrow> (transport_error + 'a) option \<times> 's" where
  "retry_loop env attempts timeout budget started attempt delay s =
     (if attempts < attempt then (None, s)
      else (case r_cancelled env s of
        (True, s) \<Rightarrow> (Some (Inl cancelled_error), s)
      | (False, s) \<Rightarrow>
          (case r_operation env s of
            (Inr v, s) \<Rightarrow> (Some (Inr v), s)
          | (Inl e, s) \<Rightarrow>
              if \<not> transient e \<or> te_moved e \<or> attempt = attempts then (Some (Inl e), s)
              else
                let pause = retry_delay (r_now env s) delay e in
                if budget < (r_now env s - started) + pause + timeout then (Some (Inl e), s)
                else (case backoff_sleep (r_cancelled env) (r_sleep env) pause s of
                  (False, s) \<Rightarrow> (Some (Inl cancelled_error), s)
                | (True, s) \<Rightarrow>
                    if budget < (r_now env s - started) + timeout then (Some (Inl e), s)
                    else retry_loop env attempts timeout budget started (Suc attempt)
                           (min (delay * 2) max_delay) s))))"
  by pat_completeness auto
termination
  by (relation "measure (\<lambda>(_, attempts, _, _, _, attempt, _, _). Suc attempts - attempt)") auto

declare retry_loop.simps [simp del]

definition retry_with_budget ::
  "('s, 'a) retry_env \<Rightarrow> nat \<Rightarrow> duration \<Rightarrow> duration \<Rightarrow> 's \<Rightarrow> (transport_error + 'a) option \<times> 's" where
  "retry_with_budget env attempts timeout budget s =
     retry_loop env attempts timeout budget (r_now env s) 1 first_delay s"

definition retry ::
  "('s, 'a) retry_env \<Rightarrow> nat \<Rightarrow> duration \<Rightarrow> 's \<Rightarrow> (transport_error + 'a) option \<times> 's" where
  "retry env attempts timeout s = retry_with_budget env attempts timeout delivery_budget s"

section \<open>Invariants of a delivery\<close>

text \<open>
  What every step of an environment keeps, a whole delivery keeps: the interface between the
  retry loop and the operations that run under it.
\<close>

locale retry_invariant =
  fixes env :: "('s, 'a) retry_env" and I :: "'s \<Rightarrow> bool"
  assumes operation_keeps: "I s \<Longrightarrow> I (snd (r_operation env s))"
    and sleep_keeps: "I s \<Longrightarrow> I (r_sleep env d s)"
    and cancelled_keeps: "I s \<Longrightarrow> I (snd (r_cancelled env s))"
begin

lemma backoff_keeps: "I s \<Longrightarrow> I (snd (backoff_sleep (r_cancelled env) (r_sleep env) d s))"
proof (induction d arbitrary: s rule: less_induct)
  case (less d)
  obtain b s1 where c: "r_cancelled env s = (b, s1)" by fastforce
  then have s1: "I s1" using cancelled_keeps[OF less.prems] by simp
  have "0 < d \<Longrightarrow> d - min d backoff_slice < d" by (simp add: backoff_slice_def millis_def)
  then show ?case
    using less.prems s1 less.IH[OF _ sleep_keeps[OF s1], of "d - min d backoff_slice" "min d backoff_slice"] c
    by (subst backoff_sleep.simps) (auto simp: Let_def split: bool.split)
qed

lemma loop_keeps: "I s \<Longrightarrow> I (snd (retry_loop env attempts timeout budget started attempt delay s))"
proof (induction "Suc attempts - attempt" arbitrary: attempt delay s)
  case 0
  then show ?case by (simp add: retry_loop.simps[of _ attempts _ _ _ attempt])
next
  case (Suc n)
  have rec: "I t \<Longrightarrow> I (snd (retry_loop env attempts timeout budget started (Suc attempt) d t))" for d t
    using Suc.hyps by (intro Suc.hyps(1)) simp
  obtain b s1 where c: "r_cancelled env s = (b, s1)" by fastforce
  then have s1: "I s1" using cancelled_keeps[OF Suc.prems] by simp
  obtain r s2 where op: "r_operation env s1 = (r, s2)" by fastforce
  then have s2: "I s2" using operation_keeps[OF s1] by simp
  show ?case
  proof (cases r)
    case (Inr v)
    then show ?thesis
      using c op s1 s2 Suc.prems by (simp add: retry_loop.simps[of _ attempts _ _ _ attempt] split: bool.split)
  next
    case (Inl e)
    obtain p s3 where "backoff_sleep (r_cancelled env) (r_sleep env) (retry_delay (r_now env s2) delay e) s2 = (p, s3)"
      by fastforce
    moreover from this have "I s3" using backoff_keeps[OF s2, of "retry_delay (r_now env s2) delay e"] by simp
    ultimately show ?thesis
      using c op s1 s2 Suc.prems rec Inl
      by (simp add: retry_loop.simps[of _ attempts _ _ _ attempt] Let_def split: bool.split)
  qed
qed

lemma retry_keeps:
  "I s \<Longrightarrow> I (snd (retry_with_budget env attempts timeout budget s))"
  "I s \<Longrightarrow> I (snd (retry env attempts timeout s))"
  by (simp_all add: retry_def retry_with_budget_def loop_keeps)

end

section \<open>Recording the attempts\<close>

text \<open>
  To speak about the requests a run makes, the same loop runs in an environment that also logs
  when each request started and how it ended.
\<close>

type_synonym 'a attempt_log = "(instant \<times> (transport_error + 'a)) list"

definition recording ::
  "('s, 'a) retry_env \<Rightarrow> ('s \<times> 'a attempt_log, 'a) retry_env" where
  "recording env =
     \<lparr>r_now = (\<lambda>(s, log). r_now env s),
      r_operation = (\<lambda>(s, log). let (r, s') = r_operation env s in (r, (s', log @ [(r_now env s, r)]))),
      r_sleep = (\<lambda>d (s, log). (r_sleep env d s, log)),
      r_cancelled = (\<lambda>(s, log). let (b, s') = r_cancelled env s in (b, (s', log)))\<rparr>"

text \<open>What the loop relies on: asking for shutdown takes no time, a sleep lasts at least as long as asked.\<close>

definition fair_clock :: "('s, 'a) retry_env \<Rightarrow> bool" where
  "fair_clock env \<longleftrightarrow>
     (\<forall>s. r_now env (snd (r_cancelled env s)) = r_now env s) \<and>
     (\<forall>d s. r_now env s + d \<le> r_now env (r_sleep env d s)) \<and>
     (\<forall>s. r_now env s \<le> r_now env (snd (r_operation env s)))"

lemma recording_simps [simp]:
  "r_now (recording env) (s, log) = r_now env s"
  "r_sleep (recording env) d (s, log) = (r_sleep env d s, log)"
  "r_cancelled (recording env) (s, log) = (fst (r_cancelled env s), (snd (r_cancelled env s), log))"
  "r_operation (recording env) (s, log) =
     (fst (r_operation env s), (snd (r_operation env s), log @ [(r_now env s, fst (r_operation env s))]))"
  by (simp_all add: recording_def split_beta Let_def)

lemma backoff_sleep_unfold:
  "backoff_sleep c sl 0 s = (True, s)"
  "0 < d \<Longrightarrow> c s = (True, s1) \<Longrightarrow> backoff_sleep c sl d s = (False, s1)"
  "0 < d \<Longrightarrow> c s = (False, s1) \<Longrightarrow> backoff_sleep c sl d s =
     backoff_sleep c sl (d - min d backoff_slice) (sl (min d backoff_slice) s1)"
  by (simp_all add: backoff_sleep.simps[where s = s] Let_def)

lemma backoff_slice_shrinks: "0 < d \<Longrightarrow> d - min d backoff_slice < d"
  by (simp add: backoff_slice_def millis_def)

lemma backoff_sleep_recording:
  "backoff_sleep (r_cancelled (recording env)) (r_sleep (recording env)) d (s, log) =
     (let (b, s') = backoff_sleep (r_cancelled env) (r_sleep env) d s in (b, (s', log)))"
proof (induction d arbitrary: s rule: less_induct)
  case (less d)
  obtain b s1 where c: "r_cancelled env s = (b, s1)" by fastforce
  show ?case
  proof (cases "d = 0 \<or> b")
    case True
    then show ?thesis using c by (cases "d = 0") (simp_all add: backoff_sleep_unfold)
  next
    case False
    then show ?thesis
      using c less[OF backoff_slice_shrinks, of "r_sleep env (min d backoff_slice) s1"]
      by (simp add: backoff_sleep_unfold)
  qed
qed

lemma backoff_sleep_lasts:
  assumes "fair_clock env" and "backoff_sleep (r_cancelled env) (r_sleep env) d s = (True, s')"
  shows "r_now env s + d \<le> r_now env s'"
  using assms(2)
proof (induction d arbitrary: s rule: less_induct)
  case (less d)
  obtain b s1 where c: "r_cancelled env s = (b, s1)" by fastforce
  show ?case
  proof (cases "d = 0 \<or> b")
    case True
    then show ?thesis using c less.prems by (cases "d = 0") (simp_all add: backoff_sleep_unfold)
  next
    case False
    let ?k = "min d backoff_slice"
    have "r_now env (r_sleep env ?k s1) + (d - ?k) \<le> r_now env s'"
      using less.IH[OF backoff_slice_shrinks] less.prems c False by (simp add: backoff_sleep_unfold)
    moreover have "r_now env s1 = r_now env s"
      using assms(1) c unfolding fair_clock_def by (metis snd_conv)
    moreover have "r_now env s1 + ?k \<le> r_now env (r_sleep env ?k s1)"
      using assms(1) by (simp add: fair_clock_def)
    ultimately show ?thesis by linarith
  qed
qed

section \<open>Properties of the loop\<close>

text \<open>
  The verdict of one attempt: whether the loop goes on, and with which pause.
\<close>

definition retries_after :: "transport_error + 'a \<Rightarrow> bool" where
  "retries_after r = (case r of Inl e \<Rightarrow> transient e \<and> \<not> te_moved e | Inr _ \<Rightarrow> False)"

definition not_before :: "transport_error + 'a \<Rightarrow> instant" where
  "not_before r =
     (case r of Inl e \<Rightarrow> (case te_retry_not_before e of None \<Rightarrow> 0 | Some at \<Rightarrow> at) | Inr _ \<Rightarrow> 0)"

lemma retry_delay_reaches: "not_before (Inl e) \<le> now + retry_delay now delay e"
  by (auto simp: not_before_def retry_delay_def split: option.splits)

text \<open>The shape of a log: at most \<open>n\<close> attempts, each timely, each but the last retryable.\<close>

definition log_ok :: "instant \<Rightarrow> duration \<Rightarrow> duration \<Rightarrow> nat \<Rightarrow> 'a attempt_log \<Rightarrow> bool" where
  "log_ok started timeout budget n log \<longleftrightarrow>
     length log \<le> n \<and>
     (\<forall>(at, r) \<in> set log. (at - started) + timeout \<le> budget) \<and>
     (\<forall>(at, r) \<in> set (butlast log). retries_after r) \<and>
     successively (\<lambda>(_, r) (at', _). not_before r \<le> at') log"

definition starts_after :: "instant \<Rightarrow> 'a attempt_log \<Rightarrow> bool" where
  "starts_after t log \<longleftrightarrow> (case log of [] \<Rightarrow> True | (at, _) # _ \<Rightarrow> t \<le> at)"

lemma log_ok_Nil [simp]: "log_ok started timeout budget n []"
  by (simp add: log_ok_def)

lemma log_ok_single [simp]:
  "log_ok started timeout budget (Suc n) [(at, r)] \<longleftrightarrow> (at - started) + timeout \<le> budget"
  by (simp add: log_ok_def)

lemma log_ok_Cons:
  assumes "log_ok started timeout budget n log" and "(at - started) + timeout \<le> budget"
    and "retries_after r" and "starts_after (not_before r) log"
  shows "log_ok started timeout budget (Suc n) ((at, r) # log)"
  using assms by (cases log) (auto simp: log_ok_def starts_after_def)

lemma retry_loop_log:
  assumes "fair_clock env"
    and "retry_loop (recording env) attempts timeout budget started attempt delay (s, log0) = (res, (s', log'))"
    and "(r_now env s - started) + timeout \<le> budget"
  shows "\<exists>log. log' = log0 @ log \<and> log_ok started timeout budget (Suc attempts - attempt) log
    \<and> starts_after (r_now env s) log
    \<and> (attempt \<le> attempts \<longrightarrow> res = Some (Inl cancelled_error) \<or> log \<noteq> [] \<and> res = Some (snd (last log)))"
  using assms(2,3)
proof (induction "Suc attempts - attempt" arbitrary: attempt delay s log0)
  case 0
  then show ?case by (auto simp: retry_loop.simps starts_after_def)
next
  case (Suc n)
  then have le: "attempt \<le> attempts" by simp
  obtain b s1 where c: "r_cancelled env s = (b, s1)" by fastforce
  have now1: "r_now env s1 = r_now env s"
    using assms(1) c unfolding fair_clock_def by (metis snd_conv)
  show ?case
  proof (cases b)
    case True
    then show ?thesis using Suc.prems c le
      by (auto simp: retry_loop.simps[where attempt = attempt] starts_after_def)
  next
    case False
    obtain r s2 where op: "r_operation env s1 = (r, s2)" by fastforce
    let ?entry = "(r_now env s1, r)"
    have timely: "(r_now env s1 - started) + timeout \<le> budget" using Suc.prems now1 by simp
    note unf = retry_loop.simps[where attempt = attempt and s = "(s, log0)" and env = "recording env"]
    consider (ends) "log' = log0 @ [?entry]" "res = Some r \<or> res = Some (Inl cancelled_error)"
      | (goes_on) e s3 where "r = Inl e" "transient e" "\<not> te_moved e" "attempt \<noteq> attempts"
        "backoff_sleep (r_cancelled env) (r_sleep env) (retry_delay (r_now env s2) delay e) s2 = (True, s3)"
        "(r_now env s3 - started) + timeout \<le> budget"
        "retry_loop (recording env) attempts timeout budget started (Suc attempt)
           (min (delay * 2) max_delay) (s3, log0 @ [?entry]) = (res, (s', log'))"
      using Suc.prems(1) le c False op
      by (auto simp: unf backoff_sleep_recording Let_def not_less
          split: sum.splits if_splits prod.splits bool.splits)
    then show ?thesis
    proof cases
      case ends
      then show ?thesis using timely now1 Suc.hyps(2)
        by (auto simp: starts_after_def intro!: exI[of _ "[?entry]"] simp flip: Suc.hyps(2))
    next
      case goes_on
      have n: "n = Suc attempts - Suc attempt" using Suc.hyps(2) by simp
      obtain log where log: "log' = (log0 @ [?entry]) @ log"
        and ok: "log_ok started timeout budget (Suc attempts - Suc attempt) log"
        and after: "starts_after (r_now env s3) log"
        and res: "Suc attempt \<le> attempts \<longrightarrow>
           res = Some (Inl cancelled_error) \<or> log \<noteq> [] \<and> res = Some (snd (last log))"
        using Suc.hyps(1)[OF n goes_on(7,6)] by auto
      have "not_before r \<le> r_now env s2 + retry_delay (r_now env s2) delay e"
        unfolding goes_on(1) by (rule retry_delay_reaches)
      then have "not_before r \<le> r_now env s3"
        using backoff_sleep_lasts[OF assms(1) goes_on(5)] by linarith
      then have "starts_after (not_before r) log"
        using after by (auto simp: starts_after_def split: list.splits)
      then have "log_ok started timeout budget (Suc (Suc attempts - Suc attempt)) (?entry # log)"
        using log_ok_Cons[OF ok timely] goes_on(1-3) by (simp add: retries_after_def)
      moreover have "Suc (Suc attempts - Suc attempt) = Suc attempts - attempt"
        using le by simp
      ultimately show ?thesis
        using log res goes_on(4) le now1
        by (intro exI[of _ "?entry # log"]) (auto simp: starts_after_def)
    qed
  qed
qed

text \<open>Recording changes nothing of the run.\<close>

lemma retry_loop_recording:
  "retry_loop env attempts timeout budget started attempt delay s =
     (let (res, (s', _)) = retry_loop (recording env) attempts timeout budget started attempt delay (s, log)
      in (res, s'))"
proof (induction "Suc attempts - attempt" arbitrary: attempt delay s log)
  case 0
  then show ?case by (simp add: retry_loop.simps[of _ attempts])
next
  case (Suc n)
  have rec: "retry_loop env attempts timeout budget started (Suc attempt) d s =
     (let (res, (s', _)) = retry_loop (recording env) attempts timeout budget started (Suc attempt) d (s, l)
      in (res, s'))" for d s l
    using Suc.hyps by (intro Suc.hyps(1)) simp
  obtain b s1 where c: "r_cancelled env s = (b, s1)" by fastforce
  obtain r s2 where op: "r_operation env s1 = (r, s2)" by fastforce
  show ?case
  proof (cases "attempts < attempt \<or> b")
    case True
    then show ?thesis using c by (auto simp: retry_loop.simps[of _ attempts _ _ _ attempt])
  next
    case False
    show ?thesis
    proof (cases r)
      case (Inl e)
      obtain p s3 where "backoff_sleep (r_cancelled env) (r_sleep env) (retry_delay (r_now env s2) delay e) s2 = (p, s3)"
        by fastforce
      then show ?thesis
        using c op False Inl rec[of "min (delay * 2) max_delay" s3 "log @ [(r_now env s1, Inl e)]"]
        by (simp add: retry_loop.simps[of _ attempts _ _ _ attempt] backoff_sleep_recording Let_def
            split: bool.split)
    qed (use c op False in \<open>simp add: retry_loop.simps[of _ attempts _ _ _ attempt]\<close>)
  qed
qed

text \<open>
  C8. Take a clock on which sleeping lasts as long as asked and a request timeout within the
  budget. A delivery then makes at most \<open>attempts\<close> requests, and at least one unless it is
  cancelled first; each starts early enough that its timeout still fits in the budget; every
  request but the last ended in a transient failure that is not a move; and none starts before
  the \<open>Retry-After\<close> deadline of the one before it. The delivery ends with the result of its last
  request or with the cancellation, never in the \<open>unreachable!\<close> branch.
\<close>

theorem retry_with_budget_correct:
  assumes "fair_clock env" and "timeout \<le> budget" and "1 \<le> attempts"
    and "retry_with_budget (recording env) attempts timeout budget (s, []) = (res, (s', log))"
  shows "retry_with_budget env attempts timeout budget s = (res, s')
    \<and> log_ok (r_now env s) timeout budget attempts log
    \<and> (res = Some (Inl cancelled_error) \<or> log \<noteq> [] \<and> res = Some (snd (last log)))"
proof -
  have run: "retry_loop (recording env) attempts timeout budget (r_now env s) 1 first_delay (s, []) =
      (res, (s', log))"
    using assms(4) by (simp add: retry_with_budget_def)
  have "retry_with_budget env attempts timeout budget s = (res, s')"
    using retry_loop_recording[of env attempts timeout budget "r_now env s" 1 first_delay s "[]"] run
    by (simp add: retry_with_budget_def)
  then show ?thesis using retry_loop_log[OF assms(1) run] assms(2,3) by auto
qed

text \<open>
  A server that answers 503 with a deadline two seconds ahead and then accepts; the state is the
  clock and the number of requests so far.
\<close>

definition sample_env :: "(instant \<times> nat, unit) retry_env" where
  "sample_env =
     \<lparr>r_now = fst,
      r_operation = (\<lambda>(t, n).
        (if n = 0 then Inl (transport_error_new (Text ''busy'') Transient
                              \<lparr>te_retry_not_before := Some (t + secs 2)\<rparr>)
         else Inr (), (t + millis 1, Suc n))),
      r_sleep = (\<lambda>d (t, n). (t + d, n)),
      r_cancelled = (\<lambda>s. (False, s))\<rparr>"

lemma sample_env_simps [simp]:
  "r_now sample_env (t, n) = t"
  "r_cancelled sample_env u = (False, u)"
  "r_operation sample_env (t, n) =
     (if n = 0 then Inl (transport_error_new (Text ''busy'') Transient
                           \<lparr>te_retry_not_before := Some (t + secs 2)\<rparr>)
      else Inr (), (t + millis 1, Suc n))"
  by (simp_all add: sample_env_def)

lemma sample_env_fair: "fair_clock sample_env"
  by (simp add: fair_clock_def sample_env_def millis_def)

lemma backoff_sleep_sample:
  "backoff_sleep (r_cancelled (recording sample_env)) (r_sleep (recording sample_env)) d ((t, n), log) =
     (True, ((t + d, n), log))"
proof (induction d arbitrary: t rule: less_induct)
  case (less d)
  show ?case
  proof (cases "d = 0")
    case False
    then show ?thesis
      using less[OF backoff_slice_shrinks, of "t + min d backoff_slice"]
      by (simp add: backoff_sleep.simps[of _ _ d] sample_env_def Let_def)
  qed (simp add: backoff_sleep_unfold)
qed

definition sample_log :: "unit attempt_log" where
  "sample_log =
     [(0, Inl (transport_error_new (Text ''busy'') Transient\<lparr>te_retry_not_before := Some (secs 2)\<rparr>)),
      (secs 2, Inr ())]"

lemma retry_loop_second:
  "retry_loop (recording sample_env) 3 5000000000 25000000000 0 (Suc (Suc 0)) delay ((t, Suc 0), log) =
     (Some (Inr ()), ((t + 1000000, 2), log @ [(t, Inr ())]))"
  by (subst retry_loop.simps) (simp add: millis_def)

lemma sample_run:
  "retry_with_budget (recording sample_env) 3 (secs 5) delivery_budget ((0, 0), []) =
     (Some (Inr ()), ((secs 2 + millis 1, 2), sample_log))"
  unfolding retry_with_budget_def
  by (subst retry_loop.simps)
    (simp add: backoff_sleep_sample retry_loop_second sample_log_def transient_def
      transport_error_new_def retry_delay_def delivery_budget_def first_delay_def secs_def
      millis_def max_delay_def Let_def)

theorem retry_with_budget_correct_witness:
  "log_ok 0 (secs 5) delivery_budget 3 sample_log \<and> length sample_log = 2"
  using retry_with_budget_correct[OF sample_env_fair _ _ sample_run]
  by (simp add: sample_env_def sample_log_def delivery_budget_def secs_def)

end
