(* ===== verification/Scheduler.thy ===== *)
theory Scheduler
  imports Agent_Prelude
begin

text \<open>
  \<^verbatim>\<open>agent/src/cancellation.rs\<close> and \<^verbatim>\<open>agent/src/scheduler.rs\<close>: the shared shutdown flag with its
  optional deadline, and the four periodic deadlines of the daemon. The clock is an argument,
  as in the source, and a panicking \<open>Instant + Duration\<close> makes the operation \<open>None\<close>.
\<close>

section \<open>Cancellation\<close>

record cancellation =
  cancelled_flag :: bool
  deadline :: "instant option"

definition cancellation_default :: cancellation where
  "cancellation_default = \<lparr>cancelled_flag = False, deadline = None\<rparr>"

definition with_deadline :: "instant \<Rightarrow> cancellation" where
  "with_deadline d = cancellation_default\<lparr>deadline := Some d\<rparr>"

definition cancel :: "cancellation \<Rightarrow> cancellation" where
  "cancel c = c\<lparr>cancelled_flag := True\<rparr>"

definition cancelled :: "cancellation \<Rightarrow> instant \<Rightarrow> bool" where
  "cancelled c now =
     (cancelled_flag c \<or> (case deadline c of None \<Rightarrow> False | Some d \<Rightarrow> d \<le> now))"

lemma cancelled_cancel [simp]: "cancelled (cancel c) now"
  by (simp add: cancelled_def cancel_def)

lemma cancelled_mono: "cancelled c t \<Longrightarrow> t \<le> u \<Longrightarrow> cancelled c u"
  by (auto simp: cancelled_def split: option.splits)

lemma cancelled_with_deadline [simp]: "cancelled (with_deadline d) now \<longleftrightarrow> d \<le> now"
  by (simp add: cancelled_def with_deadline_def cancellation_default_def)

section \<open>Scheduler\<close>

datatype job = CheckIn | Inventory | Reload | Flush

record scheduler =
  checkin :: instant
  inventory :: instant
  reload :: instant
  flush_at :: instant

definition scheduler_new ::
  "instant \<Rightarrow> duration \<Rightarrow> duration \<Rightarrow> duration \<Rightarrow> duration \<Rightarrow> scheduler option" where
  "scheduler_new now checkin_every inventory_every reload_every flush_every =
     Option.bind (instant_add now checkin_every) (\<lambda>c.
     Option.bind (instant_add now inventory_every) (\<lambda>i.
     Option.bind (instant_add now reload_every) (\<lambda>r.
     Option.bind (instant_add now flush_every) (\<lambda>f.
       Some \<lparr>checkin = c, inventory = i, reload = r, flush_at = f\<rparr>))))"

definition due :: "scheduler \<Rightarrow> instant \<Rightarrow> job list" where
  "due s now =
     map fst (filter (\<lambda>(job, at). at \<le> now)
       [(CheckIn, checkin s), (Inventory, inventory s), (Reload, reload s), (Flush, flush_at s)])"

text \<open>
  The iterator asks the shutdown flag before it yields each job; \<open>stopped k\<close> is what the
  \<open>k\<close>-th question answers.
\<close>

fun take_until_cancelled :: "(nat \<Rightarrow> bool) \<Rightarrow> nat \<Rightarrow> 'a list \<Rightarrow> 'a list" where
  "take_until_cancelled stopped k [] = []"
| "take_until_cancelled stopped k (x # xs) =
     (if stopped k then [] else x # take_until_cancelled stopped (Suc k) xs)"

definition due_until_cancelled :: "scheduler \<Rightarrow> instant \<Rightarrow> (nat \<Rightarrow> bool) \<Rightarrow> job list" where
  "due_until_cancelled s now stopped = take_until_cancelled stopped 0 (due s now)"

definition reschedule :: "scheduler \<Rightarrow> job \<Rightarrow> instant \<Rightarrow> duration \<Rightarrow> scheduler option" where
  "reschedule s job now interval =
     Option.bind (instant_add now interval) (\<lambda>next. Some
       (case job of
          CheckIn \<Rightarrow> s\<lparr>checkin := next\<rparr>
        | Inventory \<Rightarrow> s\<lparr>inventory := next\<rparr>
        | Reload \<Rightarrow> s\<lparr>reload := next\<rparr>
        | Flush \<Rightarrow> s\<lparr>flush_at := next\<rparr>))"

definition refresh_intervals ::
  "scheduler \<Rightarrow> instant \<Rightarrow> duration \<Rightarrow> duration \<Rightarrow> duration \<Rightarrow> duration \<Rightarrow> scheduler option" where
  "refresh_intervals s now old_checkin new_checkin old_inventory new_inventory =
     Option.bind
       (if old_checkin \<noteq> new_checkin
        then Option.bind (instant_add now new_checkin)
               (\<lambda>next. Some (s\<lparr>checkin := min (checkin s) next\<rparr>))
        else Some s)
       (\<lambda>s. if old_inventory \<noteq> new_inventory then reschedule s Inventory now new_inventory
             else Some s)"

definition wait :: "scheduler \<Rightarrow> instant \<Rightarrow> duration" where
  "wait s now = Min {checkin s, inventory s, reload s, flush_at s} - now"

definition deadline_of :: "scheduler \<Rightarrow> job \<Rightarrow> instant" where
  \<comment> \<open>the field of \<open>Scheduler\<close> that holds a job's next deadline\<close>
  "deadline_of s job =
     (case job of CheckIn \<Rightarrow> checkin s | Inventory \<Rightarrow> inventory s
      | Reload \<Rightarrow> reload s | Flush \<Rightarrow> flush_at s)"

section \<open>Due jobs\<close>

lemma set_due: "job \<in> set (due s now) \<longleftrightarrow> deadline_of s job \<le> now"
  by (cases job) (auto simp: due_def deadline_of_def)

lemma due_Nil: "due s now = [] \<longleftrightarrow> (\<forall>job. now < deadline_of s job)"
proof -
  have "due s now = [] \<longleftrightarrow> (\<forall>job. job \<notin> set (due s now))"
    by (cases "due s now") auto
  then show ?thesis by (simp add: set_due not_le)
qed

lemma deadline_of_range: "range (deadline_of s) = {checkin s, inventory s, reload s, flush_at s}"
proof -
  have "(UNIV :: job set) = {CheckIn, Inventory, Reload, Flush}"
    using job.exhaust by auto
  then have "range (deadline_of s) = deadline_of s ` {CheckIn, Inventory, Reload, Flush}"
    by (rule arg_cong)
  then show ?thesis by (simp add: deadline_of_def)
qed

lemma wait_alt: "wait s now = Min (range (deadline_of s)) - now"
  by (simp add: wait_def deadline_of_range)

lemma take_until_cancelled_prefix: "\<exists>rest. xs = take_until_cancelled stopped k xs @ rest"
  by (induction stopped k xs rule: take_until_cancelled.induct) auto

lemma due_in_order: "\<exists>js. sorted_wrt (\<lambda>a b. a < b) js \<and>
    due s now = map (\<lambda>i. [CheckIn, Inventory, Reload, Flush] ! i) js"
proof -
  let ?ts = "[checkin s, inventory s, reload s, flush_at s]"
  have "due s now = map (\<lambda>i. [CheckIn, Inventory, Reload, Flush] ! i) (filter (\<lambda>i. ?ts ! i \<le> now) [0, 1, 2, 3])"
    by (simp add: due_def)
  moreover have "sorted_wrt (<) (filter (\<lambda>i. ?ts ! i \<le> now) [0, 1, 2, 3 :: nat])"
    by (rule sorted_wrt_filter) simp
  ultimately show ?thesis by blast
qed

lemma deadline_of_reschedule:
  "reschedule s job now d = Some s' \<Longrightarrow>
   deadline_of s' j = (if j = job then now + d else deadline_of s j)"
  by (cases job; cases j) (auto simp: reschedule_def deadline_of_def bind_eq_Some_conv)

lemma deadline_of_refresh:
  assumes "refresh_intervals s now oc nc oi ni = Some s'"
  shows "deadline_of s' CheckIn = (if oc = nc then checkin s else min (checkin s) (now + nc))"
    and "deadline_of s' Inventory = (if oi = ni then inventory s else now + ni)"
    and "deadline_of s' Reload = reload s" and "deadline_of s' Flush = flush_at s"
  using assms
  by (auto simp: refresh_intervals_def reschedule_def deadline_of_def bind_eq_Some_conv
      split: if_splits)

section \<open>Properties\<close>

text \<open>
  Sleeping for \<open>wait\<close> is exact: no deadline passes while the daemon sleeps, and at least
  one job is due when it wakes.
\<close>

lemma wait_is_time_to_next_job: "due s (now + d) = [] \<longleftrightarrow> d < wait s now"
proof -
  have fin: "finite (range (deadline_of s))" and ne: "range (deadline_of s) \<noteq> {}"
    by (simp_all add: deadline_of_range)
  have "due s (now + d) = [] \<longleftrightarrow> (\<forall>t \<in> range (deadline_of s). now + d < t)"
    by (auto simp: due_Nil)
  also have "\<dots> \<longleftrightarrow> now + d < Min (range (deadline_of s))"
    using fin ne by simp
  also have "\<dots> \<longleftrightarrow> d < wait s now"
    by (auto simp: wait_alt)
  finally show ?thesis .
qed

text \<open>
  A configuration refresh may bring a check-in forward but never postpones one that was
  already promised, keeps the inventory deadline unless its interval changed, and leaves the
  reload and flush deadlines alone.
\<close>

lemma refresh_never_postpones_checkin:
  assumes "refresh_intervals s now old_c new_c old_i new_i = Some s'"
  shows "deadline_of s' CheckIn \<le> deadline_of s CheckIn
    \<and> (old_c \<noteq> new_c \<longrightarrow> deadline_of s' CheckIn \<le> now + new_c)
    \<and> (old_i = new_i \<longrightarrow> deadline_of s' Inventory = deadline_of s Inventory)
    \<and> deadline_of s' Reload = deadline_of s Reload
    \<and> deadline_of s' Flush = deadline_of s Flush"
  unfolding deadline_of_refresh[OF assms] by (simp add: deadline_of_def)

end
