(* ===== verification/Disk_Queue.thy ===== *)
theory Disk_Queue
  imports Files Retry Scheduler "HOL-Library.Product_Lexorder"
begin

text \<open>
  The bounded on-disk queues of \<open>src/agent/src/queue.rs\<close>: one directory per kind, one file per
  entry, named so that names sort in queue order. The identifiers the server deduplicates on are
  \<open>uuid::Uuid\<close> values; that crate's parser is the parameter \<open>is_uuid\<close> and a fresh random
  identifier is an argument. File sizes add up to less than \<open>2 ^ 64\<close> on any file system, so sums
  of sizes are plain naturals; sequence numbers, which are read back from names, keep their
  64-bit wrap-around.
\<close>

section \<open>Kinds, limits, counters\<close>

definition flush_interval :: duration where "flush_interval = secs 120"
definition entry_suffix :: string where "entry_suffix = ''.json''"
definition temporary_prefix :: string where "temporary_prefix = ''.tmp-''"
definition abandoned_temporary_age :: duration where "abandoned_temporary_age = secs 600"

datatype queue_kind = Observations | Telemetry

fun queue_name :: "queue_kind \<Rightarrow> string" where
  "queue_name Observations = ''observation''"
| "queue_name Telemetry = ''telemetry''"

fun queue_directory :: "queue_kind \<Rightarrow> string" where
  "queue_directory Observations = ''observations''"
| "queue_directory Telemetry = ''telemetry''"

record queue_limits =
  max_entries :: nat
  max_bytes :: nat
  max_age :: duration

definition default_queue_limits :: queue_limits where
  "default_queue_limits =
     \<lparr>max_entries = 512, max_bytes = 64 * 1024 * 1024, max_age = secs (7 * 24 * 60 * 60)\<rparr>"

definition telemetry_queue_limits :: queue_limits where
  "telemetry_queue_limits =
     \<lparr>max_entries = 8192, max_bytes = 64 * 1024 * 1024, max_age = secs (24 * 60 * 60)\<rparr>"

fun default_limits :: "queue_kind \<Rightarrow> queue_limits" where
  "default_limits Observations = default_queue_limits"
| "default_limits Telemetry = telemetry_queue_limits"

record queue_counters =
  dropped_for_space :: nat
  expired :: nat
  rejected :: nat
  unreadable :: nat
  dropped_range :: "(system_time \<times> system_time) option"

definition no_counters :: queue_counters where
  "no_counters =
     \<lparr>dropped_for_space = 0, expired = 0, rejected = 0, unreadable = 0, dropped_range = None\<rparr>"

definition note_dropped :: "system_time \<Rightarrow> queue_counters \<Rightarrow> queue_counters" where
  "note_dropped queued_at c =
     c\<lparr>dropped_range := Some (case dropped_range c of
        Some (earliest, latest) \<Rightarrow> (min earliest queued_at, max latest queued_at)
      | None \<Rightarrow> (queued_at, queued_at))\<rparr>"

record queue_health =
  h_entries :: nat
  h_bytes :: nat
  h_oldest_queued_at :: "system_time option"
  h_counters :: queue_counters

definition oldest_age :: "queue_health \<Rightarrow> system_time \<Rightarrow> duration option" where
  "oldest_age h now = map_option (duration_since now) (h_oldest_queued_at h)"

record drained =
  delivered :: nat
  drained_rejected :: nat
  blocked :: "transport_error option"

definition no_drained :: drained where
  "no_drained = \<lparr>delivered = 0, drained_rejected = 0, blocked = None\<rparr>"

datatype queue_error = QueueError error_text

definition io_error :: "string \<Rightarrow> string \<Rightarrow> io_kind \<Rightarrow> queue_error" where
  "io_error action path k = QueueError (Format ''cannot {action} {path}: {error}'' [action, path])"

section \<open>Entries and their names\<close>

text \<open>An entry's path is its name in the queue's directory.\<close>

record entry =
  e_name :: string
  e_sequence :: nat
  e_queued_at :: system_time
  e_bytes :: nat

definition entry_age :: "entry \<Rightarrow> system_time \<Rightarrow> duration" where
  "entry_age e now = duration_since now (e_queued_at e)"

definition entry_name :: "nat \<Rightarrow> system_time \<Rightarrow> string \<Rightarrow> string" where
  "entry_name sequence queued_at entry_id =
     zero_padded 20 sequence @ ''-'' @ zero_padded 12 (as_secs (duration_since queued_at 0))
       @ ''-'' @ entry_id @ entry_suffix"

definition parse_entry_name :: "(string \<Rightarrow> bool) \<Rightarrow> string \<Rightarrow> (nat \<times> system_time) option" where
  "parse_entry_name is_uuid name =
     Option.bind (strip_suffix entry_suffix name) (\<lambda>stem.
     Option.bind (split_once CHR ''-'' stem) (\<lambda>(sequence, rest).
     Option.bind (split_once CHR ''-'' rest) (\<lambda>(seconds, entry_id).
       if length sequence \<noteq> 20 \<or> length seconds \<noteq> 12 \<or> \<not> is_uuid entry_id then None
       else Option.bind (parse_uint u64_max seconds) (\<lambda>n.
            Option.bind (parse_uint u64_max sequence) (\<lambda>k.
              Some (k, int (secs n)))))))"

section \<open>The queue\<close>

record disk_queue =
  q_kind :: queue_kind
  q_directory :: string
  q_limits :: queue_limits
  q_next_sequence :: nat
  q_counters :: queue_counters
  q_monitor :: "queue_health option"

definition u64_succ :: "nat \<Rightarrow> nat" where
  "u64_succ n = (n + 1) mod 2 ^ 64"

definition remove :: "string \<Rightarrow> disk \<Rightarrow> (queue_error + bool) \<times> disk" where
  "remove name d = (case fs_remove_file name d of
     (Inr _, d) \<Rightarrow> (Inr True, d)
   | (Inl k, d) \<Rightarrow> (if k = NotFound then Inr False else Inl (io_error ''remove queued entry'' name k), d))"

text \<open>The listing: each step of the iterator may fail; names the queue did not choose are skipped.\<close>

fun entries_loop ::
  "(string \<Rightarrow> bool) \<Rightarrow> string \<Rightarrow> string list \<Rightarrow> disk \<Rightarrow> (queue_error + entry list) \<times> disk" where
  "entries_loop is_uuid path [] d = (Inr [], d)"
| "entries_loop is_uuid path (name # names) d =
     (case next_event d of
        (Some (k, _), d) \<Rightarrow> (Inl (io_error ''list queue'' path k), d)
      | (None, d) \<Rightarrow>
          (case Option.bind (to_str name) (parse_entry_name is_uuid) of
             None \<Rightarrow> entries_loop is_uuid path names d
           | Some (sequence, queued_at) \<Rightarrow>
               (case fs_metadata name d of
                  (Inr (File body _), d) \<Rightarrow>
                    (case entries_loop is_uuid path names d of
                       (Inr es, d) \<Rightarrow>
                         (Inr (\<lparr>e_name = name, e_sequence = sequence, e_queued_at = queued_at,
                                e_bytes = length body\<rparr> # es), d)
                     | (Inl e, d) \<Rightarrow> (Inl e, d))
                | (_, d) \<Rightarrow> entries_loop is_uuid path names d)))"

definition entries :: "(string \<Rightarrow> bool) \<Rightarrow> string \<Rightarrow> disk \<Rightarrow> (queue_error + entry list) \<times> disk" where
  "entries is_uuid path d = (case fs_read_dir d of
     (Inl k, d) \<Rightarrow> (Inl (io_error ''list queue'' path k), d)
   | (Inr names, d) \<Rightarrow>
       (case entries_loop is_uuid path names d of
          (Inl e, d) \<Rightarrow> (Inl e, d)
        | (Inr es, d) \<Rightarrow> (Inr (sort_key (\<lambda>e. (e_sequence e, e_name e)) es), d)))"

definition health ::
  "(string \<Rightarrow> bool) \<Rightarrow> disk_queue \<Rightarrow> disk \<Rightarrow> (queue_error + queue_health) \<times> disk" where
  "health is_uuid q d = (case entries is_uuid (q_directory q) d of
     (Inl e, d) \<Rightarrow> (Inl e, d)
   | (Inr es, d) \<Rightarrow>
       (Inr \<lparr>h_entries = length es, h_bytes = sum_list (map e_bytes es),
             h_oldest_queued_at = (case es of [] \<Rightarrow> None | e # _ \<Rightarrow> Some (e_queued_at e)),
             h_counters = q_counters q\<rparr>, d))"

definition publish_health :: "(string \<Rightarrow> bool) \<Rightarrow> disk_queue \<Rightarrow> disk \<Rightarrow> disk_queue \<times> disk" where
  "publish_health is_uuid q d = (case health is_uuid q d of
     (Inr h, d) \<Rightarrow> (q\<lparr>q_monitor := Some h\<rparr>, d) | (Inl _, d) \<Rightarrow> (q, d))"

fun expire_loop ::
  "(string \<Rightarrow> bool) \<Rightarrow> entry list \<Rightarrow> disk_queue \<Rightarrow> disk \<Rightarrow> (queue_error + unit) \<times> disk_queue \<times> disk" where
  "expire_loop is_uuid [] q d = (Inr (), q, d)"
| "expire_loop is_uuid (e # es) q d = (case remove (e_name e) d of
     (Inl err, d) \<Rightarrow> (Inl err, q, d)
   | (Inr removed, d) \<Rightarrow>
       let c = q_counters q;
           q = (if removed then q\<lparr>q_counters := note_dropped (e_queued_at e) (c\<lparr>expired := expired c + 1\<rparr>)\<rparr> else q);
           (q, d) = publish_health is_uuid q d
       in expire_loop is_uuid es q d)"

definition expire ::
  "(string \<Rightarrow> bool) \<Rightarrow> entry list \<Rightarrow> system_time \<Rightarrow> disk_queue \<Rightarrow> disk
   \<Rightarrow> (queue_error + entry list) \<times> disk_queue \<times> disk" where
  "expire is_uuid es now q d =
     (let (old, current) = partition (\<lambda>e. max_age (q_limits q) < entry_age e now) es in
      case expire_loop is_uuid old q d of
        (Inl err, q, d) \<Rightarrow> (Inl err, q, d)
      | (Inr _, q, d) \<Rightarrow> (Inr current, q, d))"

section \<open>Writing an entry\<close>

definition create_private_file :: "string \<Rightarrow> disk \<Rightarrow> (queue_error + unit) \<times> disk" where
  "create_private_file path d = (case fs_create_new path d of
     (Inr _, d) \<Rightarrow> (Inr (), d) | (Inl k, d) \<Rightarrow> (Inl (io_error ''create queued entry'' path k), d))"

definition sync_directory :: "string \<Rightarrow> disk \<Rightarrow> (queue_error + unit) \<times> disk" where
  "sync_directory path d = (case fs_sync d of
     (Inr _, d) \<Rightarrow> (Inr (), d) | (Inl k, d) \<Rightarrow> (Inl (io_error ''sync queue directory'' path k), d))"

definition write_steps ::
  "string \<Rightarrow> string \<Rightarrow> string \<Rightarrow> bytes \<Rightarrow> disk \<Rightarrow> (queue_error + unit) \<times> disk" where
  "write_steps directory temporary path body d =
     (case create_private_file temporary d of
        (Inl e, d) \<Rightarrow> (Inl e, d)
      | (Inr _, d) \<Rightarrow>
     (case fs_write_all temporary body d of
        (Inl k, d) \<Rightarrow> (Inl (io_error ''write queued entry'' temporary k), d)
      | (Inr _, d) \<Rightarrow>
     (case fs_sync d of
        (Inl k, d) \<Rightarrow> (Inl (io_error ''write queued entry'' temporary k), d)
      | (Inr _, d) \<Rightarrow>
     (case fs_rename temporary path d of
        (Inl k, d) \<Rightarrow> (Inl (io_error ''persist queued entry'' path k), d)
      | (Inr _, d) \<Rightarrow> sync_directory directory d))))"

definition write_atomically ::
  "string \<Rightarrow> string \<Rightarrow> string \<Rightarrow> bytes \<Rightarrow> disk \<Rightarrow> (queue_error + unit) \<times> disk" where
  "write_atomically directory temporary_id path body d =
     (let temporary = temporary_prefix @ temporary_id in
      case write_steps directory temporary path body d of
        (Inr _, d) \<Rightarrow> (Inr (), d)
      | (Inl e, d) \<Rightarrow> (Inl e, snd (fs_remove_file temporary d)))"

section \<open>Enqueue\<close>

fun make_room ::
  "(string \<Rightarrow> bool) \<Rightarrow> entry list \<Rightarrow> nat \<Rightarrow> nat \<Rightarrow> nat \<Rightarrow> disk_queue \<Rightarrow> disk
   \<Rightarrow> (queue_error + unit) \<times> disk_queue \<times> disk" where
  "make_room is_uuid [] sz remaining bytes q d = (Inr (), q, d)"
| "make_room is_uuid (oldest # es) sz remaining bytes q d =
     (if remaining < max_entries (q_limits q) \<and> bytes + sz \<le> max_bytes (q_limits q)
      then (Inr (), q, d)
      else (case remove (e_name oldest) d of
        (Inl err, d) \<Rightarrow> (Inl err, q, d)
      | (Inr removed, d) \<Rightarrow>
          let c = q_counters q;
              q = (if removed
                   then q\<lparr>q_counters := note_dropped (e_queued_at oldest)
                            (c\<lparr>dropped_for_space := dropped_for_space c + 1\<rparr>)\<rparr>
                   else q);
              (q, d) = publish_health is_uuid q d
          in make_room is_uuid es sz (remaining - 1) (bytes - e_bytes oldest) q d))"

definition enqueue ::
  "(string \<Rightarrow> bool) \<Rightarrow> string \<Rightarrow> string \<Rightarrow> bytes \<Rightarrow> system_time \<Rightarrow> disk_queue \<Rightarrow> disk
   \<Rightarrow> (queue_error + unit) \<times> disk_queue \<times> disk" where
  "enqueue is_uuid temporary_id entry_id body now q d =
     (let sz = length body in
      if max_bytes (q_limits q) < sz
      then (Inl (QueueError (Format ''{} entry of {size} bytes exceeds the {}-byte queue limit''
              [queue_name (q_kind q), dec sz, dec (max_bytes (q_limits q))])), q, d)
      else (case entries is_uuid (q_directory q) d of
        (Inl err, d) \<Rightarrow> (Inl err, q, d)
      | (Inr es, d) \<Rightarrow>
      (case expire is_uuid es now q d of
        (Inl err, q, d) \<Rightarrow> (Inl err, q, d)
      | (Inr es, q, d) \<Rightarrow>
          let sequence = max (q_next_sequence q)
                (if es = [] then 0 else u64_succ (e_sequence (last es)))
          in (case make_room is_uuid es sz (length es) (sum_list (map e_bytes es)) q d of
            (Inl err, q, d) \<Rightarrow> (Inl err, q, d)
          | (Inr _, q, d) \<Rightarrow>
              let (written, d) = write_atomically (q_directory q) temporary_id
                    (entry_name sequence now entry_id) body d;
                  q = (if isl written then q else q\<lparr>q_next_sequence := u64_succ sequence\<rparr>);
                  (q, d) = publish_health is_uuid q d
              in (written, q, d)))))"

section \<open>Drain\<close>

text \<open>
  \<open>deliver\<close> is the caller's closure and \<open>stop\<close> the cancellation token; both run in the
  caller's world \<open>w\<close>. \<open>remove(&entry.path)?\<close> leaves the pass early with the error, losing the
  tally.
\<close>

fun drain_loop ::
  "(string \<Rightarrow> bool) \<Rightarrow> nat \<Rightarrow> ('w \<Rightarrow> bool \<times> 'w) \<Rightarrow> (bytes \<Rightarrow> 'w \<Rightarrow> (transport_error + unit) \<times> 'w)
   \<Rightarrow> entry list \<Rightarrow> nat \<Rightarrow> drained \<Rightarrow> disk_queue \<Rightarrow> disk \<Rightarrow> 'w
   \<Rightarrow> (queue_error + drained) \<times> disk_queue \<times> disk \<times> 'w" where
  "drain_loop is_uuid limit stop deliver [] offered tally q d w = (Inr tally, q, d, w)"
| "drain_loop is_uuid limit stop deliver (e # es) offered tally q d w =
     (case stop w of
        (True, w) \<Rightarrow> (Inr tally, q, d, w)
      | (False, w) \<Rightarrow>
     (if limit \<le> offered then (Inr tally, q, d, w)
      else (case fs_read (e_name e) d of
        (Inl k, d) \<Rightarrow>
          (if k = NotFound
           then let (q, d) = publish_health is_uuid q d
                in drain_loop is_uuid limit stop deliver es offered tally q d w
           else (case remove (e_name e) d of
             (Inl err, d) \<Rightarrow> (Inl err, q, d, w)
           | (Inr removed, d) \<Rightarrow>
               let c = q_counters q;
                   q = (if removed then q\<lparr>q_counters := c\<lparr>unreadable := unreadable c + 1\<rparr>\<rparr> else q);
                   (q, d) = publish_health is_uuid q d
               in drain_loop is_uuid limit stop deliver es offered tally q d w))
      | (Inr body, d) \<Rightarrow>
          (case deliver body w of
            (Inr _, w) \<Rightarrow>
              (case remove (e_name e) d of
                 (Inl err, d) \<Rightarrow> (Inl err, q, d, w)
               | (Inr _, d) \<Rightarrow>
                   let tally = tally\<lparr>delivered := delivered tally + 1\<rparr>;
                       (q, d) = publish_health is_uuid q d
                   in drain_loop is_uuid limit stop deliver es (offered + 1) tally q d w)
          | (Inl err, w) \<Rightarrow>
              if te_kind err = PayloadRejected
              then (case remove (e_name e) d of
                (Inl err, d) \<Rightarrow> (Inl err, q, d, w)
              | (Inr removed, d) \<Rightarrow>
                  let c = q_counters q;
                      q = (if removed then q\<lparr>q_counters := c\<lparr>rejected := rejected c + 1\<rparr>\<rparr> else q);
                      tally = (if removed then tally\<lparr>drained_rejected := drained_rejected tally + 1\<rparr> else tally);
                      (q, d) = publish_health is_uuid q d
                  in drain_loop is_uuid limit stop deliver es (offered + 1) tally q d w)
              else (Inr (tally\<lparr>blocked := Some err\<rparr>), q, d, w)))))"

definition drain_at_most ::
  "(string \<Rightarrow> bool) \<Rightarrow> system_time \<Rightarrow> nat \<Rightarrow> ('w \<Rightarrow> bool \<times> 'w)
   \<Rightarrow> (bytes \<Rightarrow> 'w \<Rightarrow> (transport_error + unit) \<times> 'w) \<Rightarrow> disk_queue \<Rightarrow> disk \<Rightarrow> 'w
   \<Rightarrow> (queue_error + drained) \<times> disk_queue \<times> disk \<times> 'w" where
  "drain_at_most is_uuid now limit stop deliver q d w =
     (case entries is_uuid (q_directory q) d of
        (Inl err, d) \<Rightarrow> (Inl err, q, d, w)
      | (Inr es, d) \<Rightarrow>
     (case expire is_uuid es now q d of
        (Inl err, q, d) \<Rightarrow> (Inl err, q, d, w)
      | (Inr es, q, d) \<Rightarrow>
     (case drain_loop is_uuid limit stop deliver es 0 no_drained q d w of
        (Inl err, q, d, w) \<Rightarrow> (Inl err, q, d, w)
      | (Inr tally, q, d, w) \<Rightarrow>
          let (q, d) = publish_health is_uuid q d in (Inr tally, q, d, w))))"

definition drain ::
  "(string \<Rightarrow> bool) \<Rightarrow> system_time \<Rightarrow> ('w \<Rightarrow> bool \<times> 'w)
   \<Rightarrow> (bytes \<Rightarrow> 'w \<Rightarrow> (transport_error + unit) \<times> 'w) \<Rightarrow> disk_queue \<Rightarrow> disk \<Rightarrow> 'w
   \<Rightarrow> (queue_error + drained) \<times> disk_queue \<times> disk \<times> 'w" where
  "drain is_uuid now = drain_at_most is_uuid now u64_max"

section \<open>Opening a queue\<close>

fun abandoned_loop :: "system_time \<Rightarrow> string list \<Rightarrow> disk \<Rightarrow> (queue_error + unit) \<times> disk" where
  "abandoned_loop now [] d = (Inr (), d)"
| "abandoned_loop now (name # names) d =
     (case next_event d of
        (Some _, d) \<Rightarrow> abandoned_loop now names d
      | (None, d) \<Rightarrow>
     (if \<not> pred_option (starts_with temporary_prefix) (to_str name) then abandoned_loop now names d
      else (case fs_metadata name d of
        (Inr node, d) \<Rightarrow>
          (if abandoned_temporary_age < duration_since now (modified node)
           then (case remove name d of
             (Inl err, d) \<Rightarrow> (Inl err, d) | (Inr _, d) \<Rightarrow> abandoned_loop now names d)
           else abandoned_loop now names d)
      | (Inl _, d) \<Rightarrow> abandoned_loop now names d)))"

definition remove_abandoned_temporaries :: "string \<Rightarrow> system_time \<Rightarrow> disk \<Rightarrow> (queue_error + unit) \<times> disk" where
  "remove_abandoned_temporaries path now d = (case fs_read_dir d of
     (Inl k, d) \<Rightarrow> (Inl (io_error ''list queue'' path k), d)
   | (Inr names, d) \<Rightarrow> abandoned_loop now names d)"

text \<open>What the queue's path denotes before the agent creates it.\<close>

datatype place = Missing | Directory | LinkToDirectory | Occupied

definition create_dir_all :: "place \<Rightarrow> disk \<Rightarrow> (io_kind + place) \<times> disk" where
  "create_dir_all place d = (case next_event d of
     (Some (k, _), d) \<Rightarrow> (Inl k, d)
   | (None, d) \<Rightarrow>
       (case place of
          Missing \<Rightarrow> (Inr Directory, d\<lparr>d_files := []\<rparr>)
        | Occupied \<Rightarrow> (Inl AlreadyExists, d)
        | _ \<Rightarrow> (Inr place, d)))"

definition open_queue ::
  "(string \<Rightarrow> bool) \<Rightarrow> string \<Rightarrow> place \<Rightarrow> queue_kind \<Rightarrow> queue_limits \<Rightarrow> queue_health option \<Rightarrow> system_time
   \<Rightarrow> disk \<Rightarrow> (queue_error + disk_queue) \<times> disk" where
  "open_queue is_uuid state_directory place kind limits monitor now d =
     (let directory = state_directory @ ''/'' @ queue_directory kind; name = queue_name kind in
      case create_dir_all place d of
        (Inl k, d) \<Rightarrow> (Inl (io_error (''create '' @ name @ '' queue'') directory k), d)
      | (Inr place, d) \<Rightarrow>
     (case next_event d of
        (Some (k, _), d) \<Rightarrow> (Inl (io_error (''inspect '' @ name @ '' queue'') directory k), d)
      | (None, d) \<Rightarrow>
     (if place \<noteq> Directory
      then (Inl (QueueError (Format ''{name} queue {} is not a directory'' [name, directory])), d)
      else (case next_event d of
        (Some (k, _), d) \<Rightarrow> (Inl (io_error ''protect queue directory'' directory k), d)
      | (None, d) \<Rightarrow>
     (case sync_directory state_directory d of
        (Inl e, d) \<Rightarrow> (Inl e, d)
      | (Inr _, d) \<Rightarrow>
     (case remove_abandoned_temporaries directory now d of
        (Inl e, d) \<Rightarrow> (Inl e, d)
      | (Inr _, d) \<Rightarrow>
     (case entries is_uuid directory d of
        (Inl e, d) \<Rightarrow> (Inl e, d)
      | (Inr es, d) \<Rightarrow>
          let q = \<lparr>q_kind = kind, q_directory = directory, q_limits = limits,
                   q_next_sequence = (if es = [] then 0 else u64_succ (e_sequence (last es))),
                   q_counters = no_counters, q_monitor = monitor\<rparr>;
              (q, d) = publish_health is_uuid q d
          in (Inr q, d))))))))"

end
