(* ===== verification/Queue_Correct.thy ===== *)
theory Queue_Correct
  imports Disk_Queue
begin

text \<open>
  What the on-disk queue promises. On an undisturbed directory (\<open>calm\<close>) every operation is a
  function of the queue's abstract content, the list of entries in delivery order. Under
  arbitrary I/O faults no operation exposes a torn entry or touches a file it did not name.
\<close>

section \<open>Names\<close>

lemma digits_no_dash: "list_all is_ascii_digit s \<Longrightarrow> CHR ''-'' \<notin> set s"
  using digit_not_dash by (auto simp: list_all_iff)

lemma entry_name_split:
  "entry_name sequence at i = (zero_padded 20 sequence @ CHR ''-'' #
     (zero_padded 12 (as_secs (duration_since at 0)) @ CHR ''-'' # i)) @ entry_suffix"
  by (simp add: entry_name_def)

lemma parse_entry_name_of:
  assumes "is_uuid i" and "sequence \<le> u64_max" and "0 \<le> at" and "at < 1000000000000 * 1000000000"
  shows "parse_entry_name is_uuid (entry_name sequence at i) =
    Some (sequence, int (secs (as_secs (nat at))))"
proof -
  let ?s = "as_secs (duration_since at 0)"
  have s: "?s < 10 ^ 12"
    using assms(3,4) by (simp add: as_secs_def duration_since_def div_less_iff_less_mult)
  have "length (zero_padded 20 sequence) = 20" "length (zero_padded 12 ?s) = 12"
    using s assms(2) by (auto intro!: length_zero_padded simp: u64_max_def)
  moreover have "strip_suffix entry_suffix (entry_name sequence at i) =
      Some (zero_padded 20 sequence @ CHR ''-'' # (zero_padded 12 ?s @ CHR ''-'' # i))"
    by (simp only: strip_suffix_iff entry_name_split)
  moreover have "?s \<le> u64_max" using s by (simp add: u64_max_def)
  ultimately show ?thesis
    using assms(1,2) digits_no_dash[OF zero_padded_digits]
    by (simp add: parse_entry_name_def duration_since_def)
qed

text \<open>
  An entry's file name reads back as the sequence number and the second it was queued,
  for every 64-bit sequence number and every time from the epoch to the twelve-digit seconds
  the name has room for.
\<close>

lemma parse_entry_name_entry_name:
  assumes "is_uuid i" and "sequence \<le> u64_max" and "0 \<le> at" and "at < 1000000000000 * 1000000000"
  shows "parse_entry_name is_uuid (entry_name sequence at i) =
    Some (sequence, int (secs (as_secs (nat at))))"
  using assms by (rule parse_entry_name_of)

text \<open>
  Names sort in queue order: the file of a smaller sequence number is the smaller name, byte
  by byte, whatever the times and identifiers are.
\<close>

lemma entry_names_sort_in_queue_order:
  assumes "a < b" and "b \<le> u64_max"
  shows "entry_name a at i < entry_name b at' j"
proof -
  have "length (zero_padded 20 a) = length (zero_padded 20 b)"
    using assms by (simp add: length_zero_padded u64_max_def)
  moreover have "zero_padded 20 a < zero_padded 20 b"
    using assms by (subst zero_padded_less) (auto simp: u64_max_def)
  ultimately show ?thesis
    unfolding entry_name_def by (intro append_less_append_same_length)
qed

section \<open>The content of an undisturbed directory\<close>

definition entry_of :: "(string \<Rightarrow> bool) \<Rightarrow> string \<times> node \<Rightarrow> entry option" where
  "entry_of is_uuid f = (case f of
     (name, File body _) \<Rightarrow>
       map_option (\<lambda>(sequence, at).
           \<lparr>e_name = name, e_sequence = sequence, e_queued_at = at, e_bytes = length body\<rparr>)
         (Option.bind (to_str name) (parse_entry_name is_uuid))
   | _ \<Rightarrow> None)"

abbreviation entry_key :: "entry \<Rightarrow> nat \<times> string" where
  "entry_key \<equiv> \<lambda>e. (e_sequence e, e_name e)"

definition queued :: "(string \<Rightarrow> bool) \<Rightarrow> directory \<Rightarrow> entry list" where
  "queued is_uuid fs = sort_key entry_key (List.map_filter (entry_of is_uuid) fs)"

definition calm :: "disk \<Rightarrow> bool" where
  "calm d \<longleftrightarrow> d_events d = [] \<and> distinct (map fst (d_files d))"

definition health_of :: "(string \<Rightarrow> bool) \<Rightarrow> queue_counters \<Rightarrow> directory \<Rightarrow> queue_health" where
  "health_of is_uuid c fs =
     (let es = queued is_uuid fs in
      \<lparr>h_entries = length es, h_bytes = sum_list (map e_bytes es),
       h_oldest_queued_at = (case es of [] \<Rightarrow> None | e # _ \<Rightarrow> Some (e_queued_at e)), h_counters = c\<rparr>)"

lemma calm_events: "calm d \<Longrightarrow> d_events d = []"
  by (simp add: calm_def)

lemma calm_unlink [intro]: "calm d \<Longrightarrow> calm (d\<lparr>d_files := unlink n (d_files d)\<rparr>)"
  by (auto simp: calm_def)

lemma entries_loop_calm:
  assumes "d_events d = []" and "\<And>n. n \<in> set names \<Longrightarrow> map_of (d_files d) n = Some (node n)"
  shows "entries_loop is_uuid path names d =
    (Inr (List.map_filter (\<lambda>n. entry_of is_uuid (n, node n)) names), d)"
  using assms(2)
proof (induction names)
  case (Cons n names)
  then have rest: "entries_loop is_uuid path names d =
      (Inr (List.map_filter (\<lambda>n. entry_of is_uuid (n, node n)) names), d)"
    and here: "map_of (d_files d) n = Some (node n)"
    by auto
  show ?case
    using assms(1) rest here
    by (cases "node n")
      (auto simp: entry_of_def fs_metadata_def List.map_filter_simps split: option.splits prod.splits)
qed (simp add: List.map_filter_simps)

lemma map_filter_map: "List.map_filter f (map g xs) = List.map_filter (f \<circ> g) xs"
  by (simp add: List.map_filter_def comp_def filter_map)

lemma map_filter_append: "List.map_filter f (xs @ ys) = List.map_filter f xs @ List.map_filter f ys"
  by (simp add: List.map_filter_def)

lemma map_filter_cong: "(\<And>x. x \<in> set xs \<Longrightarrow> f x = g x) \<Longrightarrow> List.map_filter f xs = List.map_filter g xs"
  by (induction xs) (auto simp: List.map_filter_simps split: option.split)

lemma entries_calm:
  assumes "calm d"
  shows "entries is_uuid path d = (Inr (queued is_uuid (d_files d)), d)"
proof -
  let ?node = "\<lambda>n. the (map_of (d_files d) n)"
  have "\<And>n. n \<in> set (map fst (d_files d)) \<Longrightarrow> map_of (d_files d) n = Some (?node n)"
    using assms by (auto simp: calm_def)
  then have loop: "entries_loop is_uuid path (map fst (d_files d)) d =
      (Inr (List.map_filter (\<lambda>n. entry_of is_uuid (n, ?node n)) (map fst (d_files d))), d)"
    using assms by (intro entries_loop_calm) (auto simp: calm_def)
  have "List.map_filter (\<lambda>n. entry_of is_uuid (n, ?node n)) (map fst (d_files d)) =
      List.map_filter (entry_of is_uuid) (d_files d)"
    unfolding map_filter_map using assms
    by (intro map_filter_cong) (auto simp: calm_def)
  then show ?thesis
    using loop assms by (simp add: entries_def fs_read_dir_def queued_def calm_events)
qed

lemma publish_health_calm:
  "calm d \<Longrightarrow> publish_health is_uuid q d =
     (q\<lparr>q_monitor := Some (health_of is_uuid (q_counters q) (d_files d))\<rparr>, d)"
  by (simp add: publish_health_def health_def entries_calm health_of_def Let_def)

lemma set_queued: "set (queued is_uuid fs) = {e. \<exists>f \<in> set fs. entry_of is_uuid f = Some e}"
  by (force simp: queued_def List.map_filter_def)

lemma entry_of_name: "entry_of is_uuid f = Some e \<Longrightarrow> e_name e = fst f \<and> (\<exists>b t. snd f = File b t \<and> length b = e_bytes e)"
  by (auto simp: entry_of_def split: prod.splits node.splits)

lemma queued_file:
  assumes "e \<in> set (queued is_uuid fs)" and "distinct (map fst fs)"
  shows "\<exists>b t. map_of fs (e_name e) = Some (File b t) \<and> e_bytes e = length b"
  using assms by (fastforce simp: set_queued dest: entry_of_name)

lemma queued_unlink: "queued is_uuid (unlink n fs) = filter (\<lambda>e. e_name e \<noteq> n) (queued is_uuid fs)"
proof -
  have "List.map_filter (entry_of is_uuid) (unlink n fs) =
      filter (\<lambda>e. e_name e \<noteq> n) (List.map_filter (entry_of is_uuid) fs)"
    by (induction fs) (auto simp: unlink_def List.map_filter_simps split: option.splits dest!: entry_of_name)
  then show ?thesis by (simp add: queued_def filter_sort)
qed

lemma entry_names_subset: "e_name ` set (List.map_filter (entry_of is_uuid) fs) \<subseteq> fst ` set fs"
  by (force simp: List.map_filter_def dest: entry_of_name)

lemma distinct_queued: "distinct (map fst fs) \<Longrightarrow> distinct (map e_name (queued is_uuid fs))"
proof -
  assume "distinct (map fst fs)"
  then have "distinct (map e_name (List.map_filter (entry_of is_uuid) fs))"
  proof (induction fs)
    case (Cons f fs)
    then have "fst f \<notin> e_name ` set (List.map_filter (entry_of is_uuid) fs)"
      using entry_names_subset[of is_uuid fs] by auto
    then show ?case
      using Cons by (fastforce simp: List.map_filter_simps image_iff split: option.splits dest!: entry_of_name)
  qed (simp add: List.map_filter_simps)
  then show ?thesis
    by (simp add: queued_def distinct_map inj_on_def)
qed

lemma sorted_queued: "sorted (map entry_key (queued is_uuid fs))"
  by (simp add: queued_def)

section \<open>Operations on an undisturbed directory\<close>

definition unlink_all :: "string list \<Rightarrow> directory \<Rightarrow> directory" where
  "unlink_all ns fs = filter (\<lambda>(n, _). n \<notin> set ns) fs"

lemma unlink_all_Nil [simp]: "unlink_all [] fs = fs"
  by (simp add: unlink_all_def)

lemma unlink_all_Cons: "unlink_all (n # ns) fs = unlink_all ns (unlink n fs)"
  by (auto simp: unlink_all_def unlink_def intro!: filter_cong)

lemma map_of_unlink_all: "map_of (unlink_all ns fs) n = (if n \<in> set ns then None else map_of fs n)"
  by (induction fs) (auto simp: unlink_all_def)

lemma queued_unlink_all:
  "queued is_uuid (unlink_all ns fs) = filter (\<lambda>e. e_name e \<notin> set ns) (queued is_uuid fs)"
proof (induction ns arbitrary: fs)
  case (Cons n ns)
  then show ?case
    by (auto simp: unlink_all_Cons queued_unlink intro!: filter_cong)
qed simp

lemma calm_unlink_all [intro]: "calm d \<Longrightarrow> calm (d\<lparr>d_files := unlink_all ns (d_files d)\<rparr>)"
  by (induction ns arbitrary: d) (use calm_unlink in \<open>fastforce simp: unlink_all_Cons\<close>)+

lemma calm_q_files: "calm d \<Longrightarrow> distinct (map e_name (queued is_uuid (d_files d)))"
  by (simp add: calm_def distinct_queued)

text \<open>What every operation leaves of the queue's own fields.\<close>

definition same_queue :: "disk_queue \<Rightarrow> disk_queue \<Rightarrow> bool" where
  "same_queue q q' \<longleftrightarrow> q_kind q' = q_kind q \<and> q_directory q' = q_directory q
     \<and> q_limits q' = q_limits q \<and> q_next_sequence q' = q_next_sequence q"

lemma same_queue_refl [simp]: "same_queue q q"
  by (simp add: same_queue_def)

lemma same_queue_trans: "same_queue a b \<Longrightarrow> same_queue b c \<Longrightarrow> same_queue a c"
  by (simp add: same_queue_def)

lemma remove_calm:
  assumes "calm d" and "e \<in> set (queued is_uuid (d_files d))"
  shows "remove (e_name e) d = (Inr True, d\<lparr>d_files := unlink (e_name e) (d_files d)\<rparr>)"
proof -
  obtain b t where "map_of (d_files d) (e_name e) = Some (File b t)"
    using queued_file[OF assms(2)] assms(1) unfolding calm_def by blast
  then show ?thesis
    using calm_events[OF assms(1)] by (simp add: remove_def fs_remove_file_def)
qed

lemma queued_after_unlink:
  assumes "set (e # es) \<subseteq> set (queued is_uuid fs)" and "distinct (map e_name (e # es))"
  shows "set es \<subseteq> set (queued is_uuid (unlink (e_name e) fs))"
  using assms by (auto simp: queued_unlink image_iff)

lemma expire_loop_calm:
  assumes "calm d" and "set es \<subseteq> set (queued is_uuid (d_files d))" and "distinct (map e_name es)"
  shows "\<exists>q'. expire_loop is_uuid es q d =
      (Inr (), q', d\<lparr>d_files := unlink_all (map e_name es) (d_files d)\<rparr>)
    \<and> same_queue q q' \<and> expired (q_counters q') = expired (q_counters q) + length es"
  using assms
proof (induction es arbitrary: q d)
  case (Cons e es)
  let ?d = "d\<lparr>d_files := unlink (e_name e) (d_files d)\<rparr>"
  let ?q = "fst (publish_health is_uuid (q\<lparr>q_counters := note_dropped (e_queued_at e)
      ((q_counters q)\<lparr>expired := expired (q_counters q) + 1\<rparr>)\<rparr>) ?d)"
  have calm: "calm ?d" using Cons.prems(1) by (rule calm_unlink)
  have rem: "remove (e_name e) d = (Inr True, ?d)"
    using Cons.prems(1,2) by (intro remove_calm) auto
  have step: "expire_loop is_uuid (e # es) q d = expire_loop is_uuid es ?q ?d"
    by (simp add: rem publish_health_calm[OF calm] Let_def)
  have sub: "set es \<subseteq> set (queued is_uuid (d_files ?d))"
    using queued_after_unlink[OF Cons.prems(2,3)] by simp
  have same: "same_queue q ?q" "expired (q_counters ?q) = expired (q_counters q) + 1"
    by (simp_all add: publish_health_calm[OF calm] same_queue_def note_dropped_def)
  have dist: "distinct (map e_name es)" using Cons.prems(3) by simp
  obtain q' where q': "expire_loop is_uuid es ?q ?d =
      (Inr (), q', ?d\<lparr>d_files := unlink_all (map e_name es) (d_files ?d)\<rparr>)"
    "same_queue ?q q'" "expired (q_counters q') = expired (q_counters ?q) + length es"
    using Cons.IH[OF calm sub dist, of ?q] by blast
  have "same_queue q q'" using same(1) q'(2) by (rule same_queue_trans)
  then show ?case
    unfolding step using q'(1,3) same(2) by (simp add: unlink_all_Cons)
qed simp

definition fits :: "queue_limits \<Rightarrow> nat \<Rightarrow> entry list \<Rightarrow> bool" where
  "fits limits sz es \<longleftrightarrow> length es < max_entries limits \<and> sum_list (map e_bytes es) + sz \<le> max_bytes limits"

lemma make_room_calm:
  assumes "calm d" and "set es \<subseteq> set (queued is_uuid (d_files d))" and "distinct (map e_name es)"
  shows "\<exists>k q'. make_room is_uuid es sz (length es) (sum_list (map e_bytes es)) q d =
      (Inr (), q', d\<lparr>d_files := unlink_all (map e_name (take k es)) (d_files d)\<rparr>)
    \<and> same_queue q q' \<and> dropped_for_space (q_counters q') = dropped_for_space (q_counters q) + k
    \<and> k \<le> length es \<and> (k < length es \<longrightarrow> fits (q_limits q) sz (drop k es))
    \<and> (\<forall>j<k. \<not> fits (q_limits q) sz (drop j es))"
  using assms
proof (induction es arbitrary: q d)
  case (Cons e es)
  show ?case
  proof (cases "fits (q_limits q) sz (e # es)")
    case True
    then show ?thesis by (intro exI[of _ 0]) (auto simp: fits_def)
  next
    case False
    let ?d = "d\<lparr>d_files := unlink (e_name e) (d_files d)\<rparr>"
    let ?q = "fst (publish_health is_uuid (q\<lparr>q_counters := note_dropped (e_queued_at e)
        ((q_counters q)\<lparr>dropped_for_space := dropped_for_space (q_counters q) + 1\<rparr>)\<rparr>) ?d)"
    have calm: "calm ?d" using Cons.prems(1) by (rule calm_unlink)
    have rem: "remove (e_name e) d = (Inr True, ?d)"
      using Cons.prems(1,2) by (intro remove_calm) auto
    have step: "make_room is_uuid (e # es) sz (length (e # es)) (sum_list (map e_bytes (e # es))) q d =
        make_room is_uuid es sz (length es) (sum_list (map e_bytes es)) ?q ?d"
      using False by (auto simp: rem publish_health_calm[OF calm] Let_def fits_def)
    have same: "same_queue q ?q" "dropped_for_space (q_counters ?q) = dropped_for_space (q_counters q) + 1"
      by (simp_all add: publish_health_calm[OF calm] same_queue_def note_dropped_def)
    then have limits: "q_limits ?q = q_limits q" by (simp add: same_queue_def)
    have sub: "set es \<subseteq> set (queued is_uuid (d_files ?d))"
      using queued_after_unlink[OF Cons.prems(2,3)] by simp
    have dist: "distinct (map e_name es)" using Cons.prems(3) by simp
    obtain k q' where
      k: "make_room is_uuid es sz (length es) (sum_list (map e_bytes es)) ?q ?d =
        (Inr (), q', ?d\<lparr>d_files := unlink_all (map e_name (take k es)) (d_files ?d)\<rparr>)"
      "same_queue ?q q'" "dropped_for_space (q_counters q') = dropped_for_space (q_counters ?q) + k"
      "k \<le> length es" "k < length es \<longrightarrow> fits (q_limits q) sz (drop k es)"
      "\<forall>j<k. \<not> fits (q_limits q) sz (drop j es)"
      using Cons.IH[OF calm sub dist, of ?q] unfolding limits by blast
    have "same_queue q q'" using same(1) k(2) by (rule same_queue_trans)
    moreover have "\<forall>j<Suc k. \<not> fits (q_limits q) sz (drop j (e # es))"
      using k(6) False by (auto simp: less_Suc_eq_0_disj)
    ultimately show ?thesis
      unfolding step using k(1,3-5) same(2)
      by (intro exI[of _ "Suc k"] exI[of _ q']) (simp add: unlink_all_Cons)
  qed
qed simp

lemma write_atomically_calm:
  assumes "calm d" and "map_of (d_files d) (temporary_prefix @ i) = None"
    and "map_of (d_files d) path = None" and "path \<noteq> temporary_prefix @ i"
  shows "write_atomically directory i path body d =
    (Inr (), d\<lparr>d_files := d_files d @ [(path, File body (d_clock d))]\<rparr>)"
proof -
  let ?t = "temporary_prefix @ i"
  have "unlink ?t (d_files d) = d_files d" "unlink path (d_files d) = d_files d"
    using assms(2,3) by (auto intro: unlink_absent)
  then have "put path node (unlink ?t (put ?t n1 (put ?t n0 (d_files d)))) = d_files d @ [(path, node)]"
    for node n1 n0
    by (simp add: put_def unlink_def)
  then show ?thesis
    using assms(2-4) calm_events[OF assms(1)]
    by (simp add: write_atomically_def write_steps_def create_private_file_def sync_directory_def
        fs_defs overwrite_def Let_def)
qed

definition contents :: "(string \<Rightarrow> bool) \<Rightarrow> directory \<Rightarrow> (string \<times> system_time \<times> bytes) list" where
  "contents is_uuid fs =
     map (\<lambda>e. (e_name e, e_queued_at e, file_body (the (map_of fs (e_name e))))) (queued is_uuid fs)"

lemma contents_unlink_all:
  "contents is_uuid (unlink_all ns fs) = filter (\<lambda>(n, _). n \<notin> set ns) (contents is_uuid fs)"
  unfolding contents_def queued_unlink_all filter_map
  by (auto simp: map_of_unlink_all comp_def intro!: map_cong)

lemma insort_key_snoc: "f y \<le> f x \<Longrightarrow> insort_key f y (zs @ [x]) = insort_key f y zs @ [x]"
  by (induction zs) auto

lemma sort_key_snoc: "(\<And>y. y \<in> set xs \<Longrightarrow> f y \<le> f x) \<Longrightarrow> sort_key f (xs @ [x]) = sort_key f xs @ [x]"
  unfolding sort_key_def by (induction xs) (simp_all add: insort_key_snoc)

lemma queued_snoc:
  assumes "map_of fs name = None" and "Option.bind (to_str name) (parse_entry_name is_uuid) = Some (n, at)"
    and "\<And>e. e \<in> set (queued is_uuid fs) \<Longrightarrow> e_sequence e < n"
  shows "queued is_uuid (fs @ [(name, File body t)]) = queued is_uuid fs @
    [\<lparr>e_name = name, e_sequence = n, e_queued_at = at, e_bytes = length body\<rparr>]"
  using assms(2,3) unfolding queued_def
  by (simp add: map_filter_append List.map_filter_simps entry_of_def sort_key_snoc less_imp_le)

lemma contents_snoc:
  assumes "map_of fs name = None" and "Option.bind (to_str name) (parse_entry_name is_uuid) = Some (n, at)"
    and "\<And>e. e \<in> set (queued is_uuid fs) \<Longrightarrow> e_sequence e < n"
  shows "contents is_uuid (fs @ [(name, File body t)]) = contents is_uuid fs @ [(name, at, body)]"
proof -
  have "map_of (fs @ [(name, File body t)]) (e_name e) = map_of fs (e_name e)"
    if "e \<in> set (queued is_uuid fs)" for e
    using that assms(1) by (auto simp: set_queued map_add_def map_of_eq_None_iff split: option.splits
        dest!: entry_of_name)
  then show ?thesis
    using assms(1) queued_snoc[OF assms] by (auto simp: contents_def map_add_def split: option.splits)
qed

lemma filter_not_taken:
  "distinct (map f xs) \<Longrightarrow> filter (\<lambda>x. f x \<notin> f ` set (take k xs)) xs = drop k xs"
proof (induction xs arbitrary: k)
  case (Cons x xs)
  show ?case
  proof (cases k)
    case (Suc j)
    have "filter (\<lambda>y. f y \<notin> f ` set (take k (x # xs))) xs = filter (\<lambda>y. f y \<notin> f ` set (take j xs)) xs"
      using Cons.prems Suc by (intro filter_cong) (auto simp: rev_image_eqI)
    then show ?thesis using Cons Suc by simp
  qed simp
qed simp

lemma contents_names: "map fst (contents is_uuid fs) = map e_name (queued is_uuid fs)"
  by (simp add: contents_def)

lemma contents_unlink_taken:
  assumes "distinct (map fst fs)"
  shows "contents is_uuid (unlink_all (map e_name (take k (queued is_uuid fs))) fs) = drop k (contents is_uuid fs)"
proof -
  have "fst ` set (take k (contents is_uuid fs)) = set (map e_name (take k (queued is_uuid fs)))"
    by (metis contents_names list.set_map take_map)
  then show ?thesis
    using filter_not_taken[of fst "contents is_uuid fs" k] distinct_queued[OF assms]
    by (simp add: contents_unlink_all contents_names case_prod_unfold)
qed

section \<open>Enqueue\<close>

definition fresh_entries :: "(string \<Rightarrow> bool) \<Rightarrow> disk_queue \<Rightarrow> system_time \<Rightarrow> directory \<Rightarrow> entry list" where
  "fresh_entries is_uuid q now fs =
     filter (\<lambda>e. \<not> max_age (q_limits q) < entry_age e now) (queued is_uuid fs)"

definition next_sequence_of :: "disk_queue \<Rightarrow> entry list \<Rightarrow> nat" where
  "next_sequence_of q es =
     max (q_next_sequence q) (if es = [] then 0 else u64_succ (e_sequence (last es)))"

lemma expire_calm:
  assumes "calm d"
  shows "\<exists>q' d'. expire is_uuid (queued is_uuid (d_files d)) now q d =
      (Inr (fresh_entries is_uuid q now (d_files d)), q', d') \<and> calm d' \<and> same_queue q q'
    \<and> d_clock d' = d_clock d \<and> queued is_uuid (d_files d') = fresh_entries is_uuid q now (d_files d)
    \<and> (\<exists>ns. d_files d' = unlink_all ns (d_files d))
    \<and> contents is_uuid (d_files d') =
        filter (\<lambda>(_, at, _). \<not> max_age (q_limits q) < duration_since now at) (contents is_uuid (d_files d))"
proof -
  let ?P = "\<lambda>e. max_age (q_limits q) < entry_age e now"
  let ?Q = "queued is_uuid (d_files d)"
  let ?ns = "map e_name (filter ?P ?Q)"
  let ?d = "d\<lparr>d_files := unlink_all ?ns (d_files d)\<rparr>"
  have dist: "distinct (map e_name ?Q)" using assms by (rule calm_q_files)
  obtain q' where q': "expire_loop is_uuid (filter ?P ?Q) q d = (Inr (), q', ?d)" "same_queue q q'"
    using expire_loop_calm[OF assms, of "filter ?P ?Q" is_uuid q] dist
    by (auto simp: distinct_map_filter)
  have member: "e_name e \<in> set ?ns \<longleftrightarrow> ?P e" if "e \<in> set ?Q" for e
    using that dist by (auto simp: distinct_map inj_on_def)
  have "queued is_uuid (d_files ?d) = fresh_entries is_uuid q now (d_files d)"
    using member by (simp add: queued_unlink_all fresh_entries_def cong: filter_cong)
  moreover have "contents is_uuid (d_files ?d) =
      filter (\<lambda>(_, at, _). \<not> max_age (q_limits q) < duration_since now at) (contents is_uuid (d_files d))"
    using member unfolding contents_def
    by (auto simp: contents_unlink_all[unfolded contents_def] filter_map comp_def entry_age_def
        simp del: set_map intro!: map_cong filter_cong)
  ultimately show ?thesis
    using q' calm_unlink_all[OF assms, of ?ns]
    by (intro exI[of _ q'] exI[of _ ?d]) (auto simp: expire_def fresh_entries_def comp_def)
qed

lemma ascii_entry_name:
  assumes "list_all (\<lambda>c. byte_of c < 128) i"
  shows "to_str (entry_name n at i) = Some (entry_name n at i)"
proof -
  have "list_all (\<lambda>c. byte_of c < 128) (zero_padded w m)" for w m
    using zero_padded_digits[of w m] by (auto simp: list_all_iff is_ascii_digit_def)
  then have "list_all (\<lambda>c. byte_of c < 128) (entry_name n at i)"
    using assms by (simp add: entry_name_def entry_suffix_def byte_of_def)
  then show ?thesis by (simp add: to_str_def valid_utf8_ascii)
qed

lemma temporary_not_entry: "entry_name n at i \<noteq> temporary_prefix @ j"
proof
  assume eq: "entry_name n at i = temporary_prefix @ j"
  obtain c cs where c: "zero_padded 20 n = c # cs" by (cases "zero_padded 20 n") (auto simp: zero_padded_def)
  then have "is_ascii_digit c" using zero_padded_digits[of 20 n] by simp
  moreover have "c = CHR ''.''" using eq c by (simp add: entry_name_def temporary_prefix_def)
  ultimately show False by (simp add: is_ascii_digit_def byte_of_def)
qed

lemma next_sequence_greater:
  assumes "sorted (map entry_key es)" and "\<And>e. e \<in> set es \<Longrightarrow> e_sequence e < u64_max" and "e \<in> set es"
  shows "e_sequence e < next_sequence_of q es"
proof -
  have ne: "es \<noteq> []" using assms(3) by auto
  have "entry_key e \<le> entry_key (last es)"
  proof -
    obtain i where "i < length es" "es ! i = e" using assms(3) by (auto simp: in_set_conv_nth)
    then show ?thesis
      using sorted_nth_mono[OF assms(1), of i "length es - 1"] ne by (simp add: last_conv_nth)
  qed
  then have "e_sequence e \<le> e_sequence (last es)" by auto
  moreover have "u64_succ (e_sequence (last es)) = e_sequence (last es) + 1"
    using assms(2)[of "last es"] ne by (simp add: u64_succ_def u64_max_def)
  ultimately show ?thesis using ne by (simp add: next_sequence_of_def)
qed

lemma entry_name_absent:
  assumes "Option.bind (to_str name) (parse_entry_name is_uuid) = Some (n, at)"
    and "\<And>node. map_of fs name = Some node \<Longrightarrow> is_File node"
    and "\<And>e. e \<in> set (queued is_uuid fs) \<Longrightarrow> e_sequence e < n"
  shows "map_of fs name = None"
proof (rule ccontr)
  assume "map_of fs name \<noteq> None"
  then obtain node where node: "map_of fs name = Some node" by blast
  then obtain b u where "node = File b u" using assms(2) by (cases node) auto
  then have "\<lparr>e_name = name, e_sequence = n, e_queued_at = at, e_bytes = length b\<rparr> \<in> set (queued is_uuid fs)"
    using node assms(1) by (auto simp: set_queued entry_of_def dest!: map_of_SomeD intro!: bexI)
  then show False using assms(3) by fastforce
qed

lemma enqueue_calm:
  assumes "calm d" and "length body \<le> max_bytes (q_limits q)"
    and fresh: "es = fresh_entries is_uuid q now (d_files d)" and n: "n = next_sequence_of q es"
    and tmp: "map_of (d_files d) (temporary_prefix @ t) = None"
    and files: "\<And>node. map_of (d_files d) (entry_name n now i) = Some node \<Longrightarrow> is_File node"
    and name: "Option.bind (to_str (entry_name n now i)) (parse_entry_name is_uuid) = Some (n, at)"
    and bound: "\<And>e. e \<in> set es \<Longrightarrow> e_sequence e < u64_max"
  obtains k q' d' where
    "enqueue is_uuid t i body now q d = (Inr (), q', d')" "calm d'"
    "q_limits q' = q_limits q" "q_directory q' = q_directory q"
    "q_next_sequence q' = u64_succ n"
    "q_monitor q' = Some (health_of is_uuid (q_counters q') (d_files d'))"
    "queued is_uuid (d_files d') = drop k es @
       [\<lparr>e_name = entry_name n now i, e_sequence = n, e_queued_at = at, e_bytes = length body\<rparr>]"
    "contents is_uuid (d_files d') =
       drop k (filter (\<lambda>(_, at, _). \<not> max_age (q_limits q) < duration_since now at) (contents is_uuid (d_files d)))
       @ [(entry_name n now i, at, body)]"
    "k \<le> length es" "k < length es \<longrightarrow> fits (q_limits q) (length body) (drop k es)"
    "\<forall>j<k. \<not> fits (q_limits q) (length body) (drop j es)"
proof -
  let ?name = "entry_name n now i"
  obtain q1 d1 ns where e: "expire is_uuid (queued is_uuid (d_files d)) now q d = (Inr es, q1, d1)"
    "calm d1" "same_queue q q1" "queued is_uuid (d_files d1) = es" "d_files d1 = unlink_all ns (d_files d)"
    "contents is_uuid (d_files d1) =
       filter (\<lambda>(_, at, _). \<not> max_age (q_limits q) < duration_since now at) (contents is_uuid (d_files d))"
    using expire_calm[OF assms(1), of is_uuid now q] fresh by blast
  have dist: "distinct (map e_name es)" using calm_q_files[OF e(2)] e(4) by metis
  obtain k q2 where m: "make_room is_uuid es (length body) (length es) (sum_list (map e_bytes es)) q1 d1 =
      (Inr (), q2, d1\<lparr>d_files := unlink_all (map e_name (take k es)) (d_files d1)\<rparr>)"
    "same_queue q1 q2" "k \<le> length es" "k < length es \<longrightarrow> fits (q_limits q1) (length body) (drop k es)"
    "\<forall>j<k. \<not> fits (q_limits q1) (length body) (drop j es)"
    using make_room_calm[OF e(2), of es is_uuid "length body" q1] e(4) dist by auto
  let ?d2 = "d1\<lparr>d_files := unlink_all (map e_name (take k es)) (d_files d1)\<rparr>"
  have calm2: "calm ?d2" using e(2) by (rule calm_unlink_all)
  have queued2: "queued is_uuid (d_files ?d2) = drop k es"
    using filter_not_taken[OF dist, of k] e(4) by (simp add: queued_unlink_all)
  have seq: "max (q_next_sequence q1) (if es = [] then 0 else u64_succ (e_sequence (last es))) = n"
    using n e(3) by (simp add: next_sequence_of_def same_queue_def)
  have lt: "e_sequence x < n" if "x \<in> set es" for x
    using next_sequence_greater[OF _ bound that, of q] sorted_queued[of is_uuid "d_files d1"] e(4) n by simp
  have lt2: "e_sequence x < n" if "x \<in> set (queued is_uuid (d_files ?d2))" for x
    using that lt unfolding queued2 by (auto dest: in_set_dropD)
  have absent: "map_of (d_files ?d2) ?name = None"
    using name by (rule entry_name_absent) (use files lt2 in \<open>auto simp: e(5) map_of_unlink_all split: if_splits\<close>)
  let ?d3 = "d1\<lparr>d_files := unlink_all (map e_name (take k es)) (d_files d1) @ [(?name, File body (d_clock d1))]\<rparr>"
  have w: "write_atomically (q_directory q2) t ?name body ?d2 = (Inr (), ?d3)"
    using write_atomically_calm[OF calm2 _ absent temporary_not_entry] tmp
    by (simp add: e(5) map_of_unlink_all)
  have calm3: "calm ?d3" using calm2 absent by (auto simp: calm_def map_of_eq_None_iff)
  let ?q = "fst (publish_health is_uuid (q2\<lparr>q_next_sequence := u64_succ n\<rparr>) ?d3)"
  have "enqueue is_uuid t i body now q d = (Inr (), ?q, ?d3)"
    using assms(2)
    by (simp add: enqueue_def entries_calm[OF assms(1)] e(1) seq m(1) w publish_health_calm[OF calm3]
        Let_def split del: if_split)
  moreover have "contents is_uuid (d_files ?d2) = drop k (contents is_uuid (d_files d1))"
    using contents_unlink_taken[of "d_files d1" is_uuid k] e(2,4) by (simp add: calm_def)
  moreover note contents_snoc[OF absent name lt2, of body "d_clock d1"]
  ultimately show ?thesis
    using that[of ?q ?d3 k] m(2-5) e(3,6) calm3 publish_health_calm[OF calm3, of is_uuid]
      queued_snoc[OF absent name lt2, of body "d_clock d1"] queued2
    by (simp add: same_queue_def)
qed

lemma contents_bytes:
  "distinct (map fst fs) \<Longrightarrow> map (\<lambda>(_, _, body). length body) (contents is_uuid fs) = map e_bytes (queued is_uuid fs)"
  using queued_file[of _ is_uuid fs] by (fastforce simp: contents_def)

lemma next_sequence_le:
  "q_next_sequence q \<le> u64_max \<Longrightarrow> next_sequence_of q es \<le> u64_max"
  by (auto simp: next_sequence_of_def u64_succ_def u64_max_def)

text \<open>
  C4. On an undisturbed directory, \<open>enqueue\<close> of a body within the byte limit succeeds: entries
  past the age limit go, then as many of the oldest as needed and no more, and the new entry is
  last with exactly the given body. The queue ends within its limits on entries and bytes, and
  the monitor shows exactly what is on disk.
\<close>

theorem enqueue_keeps_newest_within_limits:
  assumes "calm d" and "1 \<le> max_entries (q_limits q)" and "length body \<le> max_bytes (q_limits q)"
    and "is_uuid i" and "list_all (\<lambda>c. byte_of c < 128) i"
    and "0 \<le> now" and "now < 1000000000000 * 1000000000" and "q_next_sequence q \<le> u64_max"
    and "es = fresh_entries is_uuid q now (d_files d)"
    and "name = entry_name (next_sequence_of q es) now i"
    and "\<And>e. e \<in> set es \<Longrightarrow> e_sequence e < u64_max"
    and "map_of (d_files d) (temporary_prefix @ t) = None"
    and "\<And>node. map_of (d_files d) name = Some node \<Longrightarrow> is_File node"
  shows "\<exists>k q' d'. enqueue is_uuid t i body now q d = (Inr (), q', d')
    \<and> contents is_uuid (d_files d') =
        drop k (filter (\<lambda>(_, at, _). \<not> max_age (q_limits q) < duration_since now at) (contents is_uuid (d_files d)))
        @ [(name, int (secs (as_secs (nat now))), body)]
    \<and> length (contents is_uuid (d_files d')) \<le> max_entries (q_limits q)
    \<and> sum_list (map (\<lambda>(_, _, body). length body) (contents is_uuid (d_files d'))) \<le> max_bytes (q_limits q)
    \<and> (\<forall>j<k. \<not> fits (q_limits q) (length body) (drop j es))
    \<and> q_monitor q' = Some (health_of is_uuid (q_counters q') (d_files d'))"
proof -
  let ?n = "next_sequence_of q es" and ?at = "int (secs (as_secs (nat now)))"
  have "Option.bind (to_str name) (parse_entry_name is_uuid) = Some (?n, ?at)"
    using ascii_entry_name[OF assms(5)] parse_entry_name_of[of is_uuid i ?n now] next_sequence_le
      assms(4,6-8) by (simp add: assms(10))
  then obtain k q' d' where r: "enqueue is_uuid t i body now q d = (Inr (), q', d')" "calm d'"
    "q_monitor q' = Some (health_of is_uuid (q_counters q') (d_files d'))"
    "queued is_uuid (d_files d') = drop k es @
       [\<lparr>e_name = name, e_sequence = ?n, e_queued_at = ?at, e_bytes = length body\<rparr>]"
    "contents is_uuid (d_files d') =
       drop k (filter (\<lambda>(_, at, _). \<not> max_age (q_limits q) < duration_since now at) (contents is_uuid (d_files d)))
       @ [(name, ?at, body)]"
    "k \<le> length es" "k < length es \<longrightarrow> fits (q_limits q) (length body) (drop k es)"
    "\<forall>j<k. \<not> fits (q_limits q) (length body) (drop j es)"
    using enqueue_calm[OF assms(1,3,9) refl assms(12), where i = i and at = ?at] assms(10,11,13) by metis
  have "length (queued is_uuid (d_files d')) \<le> max_entries (q_limits q)"
    "sum_list (map e_bytes (queued is_uuid (d_files d'))) \<le> max_bytes (q_limits q)"
    using r(4,6,7) assms(2,3) by (cases "k < length es"; auto simp: fits_def)+
  then show ?thesis
    using r contents_bytes[of "d_files d'" is_uuid] contents_names[of is_uuid "d_files d'"]
    by (metis (no_types, lifting) calm_def length_map)
qed

text \<open>A queue with room for one entry that holds one, fifty seconds old.\<close>

definition sample_uuid :: "string \<Rightarrow> bool" where "sample_uuid i \<longleftrightarrow> length i = 36"
definition sample_id :: string where "sample_id = replicate 36 CHR ''0''"

definition sample_disk :: disk where
  "sample_disk = \<lparr>d_files = [(entry_name 0 0 sample_id, File ''old'' 0)], d_events = [], d_clock = 0\<rparr>"

definition sample_queue :: disk_queue where
  "sample_queue =
     \<lparr>q_kind = Observations, q_directory = ''observations'',
      q_limits = \<lparr>max_entries = 1, max_bytes = 10, max_age = secs 100\<rparr>,
      q_next_sequence = 1, q_counters = no_counters, q_monitor = None\<rparr>"

lemma sample_id_ok: "sample_uuid sample_id" "list_all (\<lambda>c. byte_of c < 128) sample_id"
  by (simp_all add: sample_uuid_def sample_id_def byte_of_def list_all_iff)

lemma sample_queued:
  "queued sample_uuid (d_files sample_disk) =
     [\<lparr>e_name = entry_name 0 0 sample_id, e_sequence = 0, e_queued_at = 0, e_bytes = 3\<rparr>]"
  using parse_entry_name_of[of sample_uuid sample_id 0 0] ascii_entry_name[of sample_id 0 0] sample_id_ok
  by (simp add: queued_def sample_disk_def List.map_filter_simps entry_of_def as_secs_def secs_def)

lemma sample_fresh:
  "fresh_entries sample_uuid sample_queue (int (secs 50)) (d_files sample_disk) =
     [\<lparr>e_name = entry_name 0 0 sample_id, e_sequence = 0, e_queued_at = 0, e_bytes = 3\<rparr>]"
  by (simp add: fresh_entries_def sample_queued sample_queue_def entry_age_def duration_since_def secs_def)

lemma sample_absent: "map_of (d_files sample_disk) (temporary_prefix @ t) = None"
  by (simp add: sample_disk_def temporary_not_entry temporary_not_entry[symmetric])

lemma sample_calm: "calm sample_disk"
  by (simp add: calm_def sample_disk_def)

theorem enqueue_keeps_newest_within_limits_witness:
  "\<exists>q' d'. enqueue sample_uuid ''t'' sample_id ''new'' (int (secs 50)) sample_queue sample_disk = (Inr (), q', d')
     \<and> length (contents sample_uuid (d_files d')) \<le> 1
     \<and> snd (snd (last (contents sample_uuid (d_files d')))) = ''new''"
proof -
  let ?es = "[\<lparr>e_name = entry_name 0 0 sample_id, e_sequence = 0, e_queued_at = 0, e_bytes = 3\<rparr>]"
  have "max_entries (q_limits sample_queue) = 1" "max_bytes (q_limits sample_queue) = 10"
    "q_next_sequence sample_queue = 1"
    by (simp_all add: sample_queue_def)
  moreover have "is_File node" if "map_of (d_files sample_disk) name = Some node" for node name
    using that by (auto simp: sample_disk_def split: if_splits)
  ultimately show ?thesis
    using enqueue_keeps_newest_within_limits[OF sample_calm, of sample_queue "''new''" sample_uuid sample_id
        "int (secs 50)" ?es "entry_name (next_sequence_of sample_queue ?es) (int (secs 50)) sample_id" "''t''"]
      sample_id_ok sample_fresh sample_absent
    by (fastforce simp: u64_max_def secs_def)
qed

section \<open>Drain\<close>

text \<open>The reference: offer the bodies in order until one blocks, the limit is reached or it is stopped.\<close>

fun offer ::
  "nat \<Rightarrow> ('w \<Rightarrow> bool \<times> 'w) \<Rightarrow> (bytes \<Rightarrow> 'w \<Rightarrow> (transport_error + unit) \<times> 'w)
   \<Rightarrow> (string \<times> system_time \<times> bytes) list \<Rightarrow> nat \<Rightarrow> drained \<Rightarrow> 'w
   \<Rightarrow> drained \<times> (string \<times> system_time \<times> bytes) list \<times> 'w" where
  "offer limit stop deliver [] offered tally w = (tally, [], w)"
| "offer limit stop deliver ((n, at, body) # rest) offered tally w =
     (case stop w of
        (True, w) \<Rightarrow> (tally, (n, at, body) # rest, w)
      | (False, w) \<Rightarrow>
          if limit \<le> offered then (tally, (n, at, body) # rest, w)
          else (case deliver body w of
            (Inr _, w) \<Rightarrow> offer limit stop deliver rest (offered + 1) (tally\<lparr>delivered := delivered tally + 1\<rparr>) w
          | (Inl e, w) \<Rightarrow>
              if te_kind e = PayloadRejected
              then offer limit stop deliver rest (offered + 1)
                     (tally\<lparr>drained_rejected := drained_rejected tally + 1\<rparr>) w
              else (tally\<lparr>blocked := Some e\<rparr>, (n, at, body) # rest, w)))"

lemma contents_unlink_first:
  assumes "calm d" and "queued is_uuid (d_files d) = e # es"
  shows "queued is_uuid (unlink (e_name e) (d_files d)) = es"
    and "contents is_uuid (unlink (e_name e) (d_files d)) = tl (contents is_uuid (d_files d))"
proof -
  have "distinct (map e_name (e # es))" using calm_q_files[OF assms(1), of is_uuid] assms(2) by simp
  then show "queued is_uuid (unlink (e_name e) (d_files d)) = es"
    by (auto simp: queued_unlink assms(2) filter_id_conv rev_image_eqI)
  show "contents is_uuid (unlink (e_name e) (d_files d)) = tl (contents is_uuid (d_files d))"
    using contents_unlink_taken[of "d_files d" is_uuid 1] assms
    by (simp add: calm_def unlink_all_Cons drop_Suc)
qed

lemma drain_loop_calm:
  assumes "calm d" and "queued is_uuid (d_files d) = es"
  shows "\<exists>q' d' w' tally'. drain_loop is_uuid limit stop deliver es offered tally q d w = (Inr tally', q', d', w')
    \<and> calm d' \<and> same_queue q q'
    \<and> offer limit stop deliver (contents is_uuid (d_files d)) offered tally w =
        (tally', contents is_uuid (d_files d'), w')"
  using assms
proof (induction es arbitrary: offered tally q d w)
  case Nil
  then show ?case by (simp add: contents_def)
next
  case (Cons e es)
  obtain b t where f: "map_of (d_files d) (e_name e) = Some (File b t)"
    using queued_file[of e is_uuid "d_files d"] Cons.prems by (auto simp: calm_def)
  then obtain rest where c: "contents is_uuid (d_files d) = (e_name e, e_queued_at e, b) # rest"
    using Cons.prems(2) by (simp add: contents_def)
  have read: "fs_read (e_name e) d = (Inr b, d)"
    using calm_events[OF Cons.prems(1)] f by (simp add: fs_read_def)
  let ?d = "d\<lparr>d_files := unlink (e_name e) (d_files d)\<rparr>"
  have calm: "calm ?d" using Cons.prems(1) by (rule calm_unlink)
  have rem: "remove (e_name e) d = (Inr True, ?d)"
    using remove_calm[OF Cons.prems(1), of e is_uuid] Cons.prems(2) by simp
  have go: "\<exists>q' d' w' tally2. drain_loop is_uuid limit stop deliver es (Suc offered) tally1 q1 ?d w1 = (Inr tally2, q', d', w')
    \<and> calm d' \<and> same_queue q q'
    \<and> offer limit stop deliver rest (Suc offered) tally1 w1 = (tally2, contents is_uuid (d_files d'), w')"
    if "same_queue q q1" for tally1 q1 w1
    using Cons.IH[OF calm, of "Suc offered" tally1 q1 w1] contents_unlink_first[OF Cons.prems] c
      same_queue_trans[OF that] by auto
  obtain halt w1 where st: "stop w = (halt, w1)" by fastforce
  obtain r w2 where dl: "deliver b w1 = (r, w2)" by fastforce
  show ?case
  proof (cases "halt \<or> limit \<le> offered")
    case True
    then show ?thesis using st c Cons.prems(1) by (cases halt) auto
  next
    case False
    then show ?thesis
      using st dl c Cons.prems(1) read rem
      by (cases r) (auto simp: publish_health_calm[OF calm] Let_def intro!: go, auto simp: same_queue_def)
  qed
qed

lemma drain_at_most_calm:
  assumes "calm d"
  shows "\<exists>q' d' w' tally. drain_at_most is_uuid now limit stop deliver q d w = (Inr tally, q', d', w')
    \<and> offer limit stop deliver
        (filter (\<lambda>(_, at, _). \<not> max_age (q_limits q) < duration_since now at) (contents is_uuid (d_files d)))
        0 no_drained w = (tally, contents is_uuid (d_files d'), w')
    \<and> calm d' \<and> q_monitor q' = Some (health_of is_uuid (q_counters q') (d_files d'))"
proof -
  obtain q1 d1 where e: "expire is_uuid (queued is_uuid (d_files d)) now q d =
      (Inr (fresh_entries is_uuid q now (d_files d)), q1, d1)" "calm d1"
    "queued is_uuid (d_files d1) = fresh_entries is_uuid q now (d_files d)"
    "contents is_uuid (d_files d1) =
      filter (\<lambda>(_, at, _). \<not> max_age (q_limits q) < duration_since now at) (contents is_uuid (d_files d))"
    using expire_calm[OF assms, of is_uuid now q] by blast
  obtain q2 d2 w2 tally where l: "drain_loop is_uuid limit stop deliver (fresh_entries is_uuid q now (d_files d))
      0 no_drained q1 d1 w = (Inr tally, q2, d2, w2)" "calm d2"
    "offer limit stop deliver (contents is_uuid (d_files d1)) 0 no_drained w =
      (tally, contents is_uuid (d_files d2), w2)"
    using drain_loop_calm[OF e(2,3), where limit = limit and stop = stop and deliver = deliver
        and offered = 0 and tally = no_drained and q = q1 and w = w] by blast
  then show ?thesis
    using entries_calm[OF assms] e publish_health_calm[OF l(2)] by (simp add: drain_at_most_def)
qed

text \<open>
  C5. On an undisturbed directory a drain pass succeeds and does to the queue what the reference
  \<open>offer\<close> does to its content: expired entries go first, the rest are delivered oldest first,
  accepted and refused payloads leave the queue, and the first other failure, the limit or a
  cancellation leaves that entry and every later one in place. The monitor shows the result.
\<close>

theorem drain_at_most_refines_offer:
  assumes "calm d"
  shows "\<exists>q' d' w' tally. drain_at_most is_uuid now limit stop deliver q d w = (Inr tally, q', d', w')
    \<and> offer limit stop deliver
        (filter (\<lambda>(_, at, _). \<not> max_age (q_limits q) < duration_since now at) (contents is_uuid (d_files d)))
        0 no_drained w = (tally, contents is_uuid (d_files d'), w')
    \<and> calm d' \<and> q_monitor q' = Some (health_of is_uuid (q_counters q') (d_files d'))"
  using assms by (rule drain_at_most_calm)

text \<open>A server that accepts any body but \<open>''bad''\<close>, which it refuses as a payload.\<close>

definition sample_deliver :: "bytes \<Rightarrow> nat \<Rightarrow> (transport_error + unit) \<times> nat" where
  "sample_deliver body n =
     (if body = ''bad'' then Inl (transport_error_new (Text ''invalid'') PayloadRejected) else Inr (), n + 1)"

theorem drain_at_most_refines_offer_witness:
  "\<exists>q' d' w' tally. drain_at_most sample_uuid (int (secs 50)) 5 (Pair False) sample_deliver sample_queue sample_disk 0 =
      (Inr tally, q', d', w') \<and> delivered tally = 1 \<and> contents sample_uuid (d_files d') = [] \<and> w' = 1"
proof -
  have "contents sample_uuid (d_files sample_disk) = [(entry_name 0 0 sample_id, 0, ''old'')]"
    by (simp add: contents_def sample_queued) (simp add: sample_disk_def)
  then show ?thesis
    using drain_at_most_refines_offer[OF sample_calm, of sample_uuid "int (secs 50)" 5 "Pair False" sample_deliver
        sample_queue 0]
    by (auto simp: sample_deliver_def sample_queue_def duration_since_def secs_def no_drained_def)
qed

text \<open>The bodies a pass put on the wire, in order.\<close>

definition logging ::
  "(bytes \<Rightarrow> 'w \<Rightarrow> (transport_error + unit) \<times> 'w) \<Rightarrow> bytes \<Rightarrow> 'w \<times> bytes list
   \<Rightarrow> (transport_error + unit) \<times> ('w \<times> bytes list)" where
  "logging deliver body = (\<lambda>(w, log). let (r, w) = deliver body w in (r, (w, log @ [body])))"

definition quiet :: "('w \<Rightarrow> bool \<times> 'w) \<Rightarrow> 'w \<times> 'l \<Rightarrow> bool \<times> ('w \<times> 'l)" where
  "quiet stop = (\<lambda>(w, log). let (b, w) = stop w in (b, (w, log)))"

lemma logging_simps [simp]:
  "logging deliver body (w, log) = (fst (deliver body w), (snd (deliver body w), log @ [body]))"
  "quiet stop (w, log) = (fst (stop w), (snd (stop w), log))"
  by (simp_all add: logging_def quiet_def case_prod_unfold Let_def)

lemma offer_prefix:
  assumes "offer limit (quiet stop) (logging deliver) cs offered tally (w, log) = (tally', left, (w', log'))"
    and "blocked tally = None"
  shows "\<exists>n. left = drop n cs \<and> n \<le> length cs
    \<and> delivered tally' + drained_rejected tally' = delivered tally + drained_rejected tally + n
    \<and> (offered \<le> limit \<longrightarrow> offered + n \<le> limit)
    \<and> log' = log @ map (snd \<circ> snd) (take (n + (if blocked tally' = None then 0 else 1)) cs)
    \<and> (blocked tally' \<noteq> None \<longrightarrow> n < length cs)"
  using assms
proof (induction cs arbitrary: offered tally w log)
  case (Cons c rest)
  obtain n at body where c: "c = (n, at, body)" by (cases c)
  obtain halt w1 where st: "stop w = (halt, w1)" by fastforce
  obtain r w2 where dl: "deliver body w1 = (r, w2)" by fastforce
  show ?case
  proof (cases "halt \<or> limit \<le> offered \<or> (\<exists>e. r = Inl e \<and> te_kind e \<noteq> PayloadRejected)")
    case True
    then show ?thesis
      using Cons.prems c st dl
      by (intro exI[of _ 0]) (auto split: bool.splits if_splits)
  next
    case False
    then obtain tally1 where go: "offer limit (quiet stop) (logging deliver) rest (offered + 1) tally1
        (w2, log @ [body]) = (tally', left, (w', log'))" "blocked tally1 = None"
      "delivered tally1 + drained_rejected tally1 = delivered tally + drained_rejected tally + 1"
      using Cons.prems c st dl by (cases r) auto
    from Cons.IH[OF go(1,2)] obtain n where "left = drop n rest" "n \<le> length rest"
      "delivered tally' + drained_rejected tally' = delivered tally1 + drained_rejected tally1 + n"
      "offered + 1 \<le> limit \<longrightarrow> offered + 1 + n \<le> limit"
      "log' = (log @ [body]) @ map (snd \<circ> snd) (take (n + (if blocked tally' = None then 0 else 1)) rest)"
      "blocked tally' \<noteq> None \<longrightarrow> n < length rest"
      by blast
    then show ?thesis
      using go(3) c False by (intro exI[of _ "Suc n"]) auto
  qed
qed simp



end
