(* ===== verification/Queue_Faults.thy ===== *)
theory Queue_Faults
  imports Queue_Correct
begin

text \<open>
  The queue on a directory whose system calls may fail at any point, in any combination, with no
  other process interfering. Whatever happens, an operation changes only files of its own: it
  removes entries, it leaves at most its own temporary file behind, and an entry that appears is
  complete.
\<close>

section \<open>Evolution of a directory\<close>

definition undisturbed :: "disk \<Rightarrow> bool" where
  "undisturbed d \<longleftrightarrow> (\<forall>files. Elsewhere files \<notin> set (d_events d))"

text \<open>From \<open>d\<close> to \<open>d'\<close> a name keeps its node or ends with one that \<open>W\<close> allows.\<close>

definition evolves :: "(string \<Rightarrow> node option \<Rightarrow> bool) \<Rightarrow> disk \<Rightarrow> disk \<Rightarrow> bool" where
  "evolves W d d' \<longleftrightarrow> undisturbed d \<longrightarrow>
     undisturbed d' \<and> (\<forall>n. map_of (d_files d') n = map_of (d_files d) n \<or> W n (map_of (d_files d') n))"

lemma evolves_refl [intro, simp]: "evolves W d d"
  by (simp add: evolves_def)

lemma evolves_trans [trans]: "evolves W a b \<Longrightarrow> evolves W b c \<Longrightarrow> evolves W a c"
  unfolding evolves_def by metis

lemma evolves_mono: "evolves V d d' \<Longrightarrow> (\<And>n v. V n v \<Longrightarrow> W n v) \<Longrightarrow> evolves W d d'"
  unfolding evolves_def by blast

abbreviation unchanged :: "disk \<Rightarrow> disk \<Rightarrow> bool" where
  "unchanged \<equiv> evolves (\<lambda>_ _. False)"

lemma evolves_unchanged: "unchanged d d' \<Longrightarrow> evolves W d d'"
  by (erule evolves_mono) simp

lemma unchanged_files: "unchanged d d' \<Longrightarrow> undisturbed d \<Longrightarrow> map_of (d_files d') = map_of (d_files d) \<and> undisturbed d'"
  by (auto simp: evolves_def)

lemma next_event_unchanged: "unchanged d (snd (next_event d))"
  by (auto simp: evolves_def undisturbed_def next_event_def split: list.splits event.splits)

lemma fs_reads_unchanged:
  "unchanged d (snd (fs_read_dir d))" "unchanged d (snd (fs_metadata n d))"
  "unchanged d (snd (fs_read n d))" "unchanged d (snd (fs_sync d))"
  using next_event_unchanged[of d] by (auto simp: fs_defs split: prod.splits option.splits)

lemma fs_remove_file_evolves: "evolves (\<lambda>n v. n = name \<and> v = None) d (snd (fs_remove_file name d))"
proof -
  obtain x d1 where n: "next_event d = (x, d1)" by fastforce
  then have 1: "evolves (\<lambda>n v. n = name \<and> v = None) d d1"
    using next_event_unchanged[of d] by (metis evolves_unchanged snd_conv)
  have 2: "evolves (\<lambda>n v. n = name \<and> v = None) d1 (d1\<lparr>d_files := unlink name (d_files d1)\<rparr>)"
    by (simp add: evolves_def undisturbed_def)
  show ?thesis
    using n 1 evolves_trans[OF 1 2] by (simp add: fs_remove_file_def split: option.split node.split)
qed

lemma remove_disk: "snd (remove name d) = snd (fs_remove_file name d)"
  by (simp add: remove_def split: prod.split sum.split)

lemma remove_evolves: "evolves (\<lambda>n v. n = name \<and> v = None) d (snd (remove name d))"
  unfolding remove_disk by (rule fs_remove_file_evolves)

lemma entries_loop_unchanged:
  "unchanged d (snd (entries_loop is_uuid path names d))"
proof (induction names arbitrary: d)
  case (Cons n names)
  obtain x d1 where e: "next_event d = (x, d1)" by fastforce
  obtain m d2 where m: "fs_metadata n d1 = (m, d2)" by fastforce
  have 1: "unchanged d d1" using next_event_unchanged[of d] e by simp
  have 2: "unchanged d1 d2" using fs_reads_unchanged(2)[of d1 n] m by simp
  obtain r3 d3 where 3: "entries_loop is_uuid path names d1 = (r3, d3)" by fastforce
  obtain r4 d4 where 4: "entries_loop is_uuid path names d2 = (r4, d4)" by fastforce
  have "unchanged d d3" using evolves_trans[OF 1 Cons.IH[of d1]] 3 by simp
  moreover have "unchanged d d4" using evolves_trans[OF evolves_trans[OF 1 2] Cons.IH[of d2]] 4 by simp
  ultimately show ?case
    using e m 1 3 4
    by (cases "Option.bind (to_str n) (parse_entry_name is_uuid)"; cases x; cases m; cases "projr m"; cases r4) auto
qed simp

lemma entries_unchanged: "unchanged d (snd (entries is_uuid path d))"
proof -
  obtain r d1 where r: "fs_read_dir d = (r, d1)" by fastforce
  obtain r2 d2 where l: "entries_loop is_uuid path (projr r) d1 = (r2, d2)" by fastforce
  have 1: "unchanged d d1" using fs_reads_unchanged(1)[of d] r by simp
  moreover have "unchanged d d2"
    using evolves_trans[OF 1 entries_loop_unchanged[of d1 is_uuid path "projr r"]] l by simp
  ultimately show ?thesis
    using r l by (cases r) (simp_all add: entries_def split: sum.split)
qed

lemma publish_health_unchanged: "unchanged d (snd (publish_health is_uuid q d))"
proof -
  obtain r d1 where r: "entries is_uuid (q_directory q) d = (r, d1)" by fastforce
  then have "unchanged d d1" using entries_unchanged[of d is_uuid "q_directory q"] by simp
  then show ?thesis using r by (cases r) (simp_all add: publish_health_def health_def)
qed

section \<open>Removals\<close>

definition is_entry :: "(string \<Rightarrow> bool) \<Rightarrow> string \<Rightarrow> bool" where
  "is_entry is_uuid n \<longleftrightarrow> Option.bind (to_str n) (parse_entry_name is_uuid) \<noteq> None"

definition gone :: "(string \<Rightarrow> bool) \<Rightarrow> string \<Rightarrow> node option \<Rightarrow> bool" where
  "gone is_uuid n v \<longleftrightarrow> is_entry is_uuid n \<and> v = None"

lemma remove_gone:
  "remove name d = (r, d') \<Longrightarrow> is_entry is_uuid name \<Longrightarrow> evolves (gone is_uuid) d d'"
  using remove_evolves[of name d] by (auto simp: gone_def elim: evolves_mono)

lemma publish_gone: "publish_health is_uuid q d = (q', d') \<Longrightarrow> evolves W d d'"
  using evolves_unchanged[OF publish_health_unchanged[of d is_uuid q]] by simp

lemma entries_loop_named:
  "entries_loop is_uuid path names d = (Inr es, d') \<Longrightarrow> e \<in> set es \<Longrightarrow> is_entry is_uuid (e_name e)"
  by (induction names arbitrary: d es d')
    (auto simp: is_entry_def split: prod.splits option.splits sum.splits node.splits)

lemma entries_named:
  assumes "entries is_uuid path d = (Inr es, d')" and "e \<in> set es"
  shows "is_entry is_uuid (e_name e)"
  using assms entries_loop_named[of is_uuid path _ _ _ _ e]
  by (fastforce simp: entries_def split: prod.splits sum.splits)

lemma expire_loop_gone:
  "expire_loop is_uuid es q d = (r, q', d') \<Longrightarrow> (\<And>e. e \<in> set es \<Longrightarrow> is_entry is_uuid (e_name e))
   \<Longrightarrow> evolves (gone is_uuid) d d' \<and> q_directory q' = q_directory q"
proof (induction es arbitrary: q d)
  case (Cons e es)
  obtain x d1 where rem: "remove (e_name e) d = (x, d1)" by fastforce
  have 1: "evolves (gone is_uuid) d d1" using remove_gone[OF rem] Cons.prems(2) by simp
  show ?case
  proof (cases x)
    case (Inl err)
    then show ?thesis using Cons.prems(1) rem 1 by simp
  next
    case (Inr removed)
    let ?c = "q_counters q"
    let ?q = "if removed then q\<lparr>q_counters := note_dropped (e_queued_at e) (?c\<lparr>expired := expired ?c + 1\<rparr>)\<rparr> else q"
    obtain q2 d2 where pub: "publish_health is_uuid ?q d1 = (q2, d2)" by fastforce
    then have dir: "q_directory q2 = q_directory q"
      by (auto simp: publish_health_def split: prod.splits sum.splits if_splits)
    have "expire_loop is_uuid es q2 d2 = (r, q', d')"
      using Cons.prems(1) rem Inr pub by (simp add: Let_def)
    then show ?thesis
      using Cons.IH[of q2 d2] Cons.prems(2) evolves_trans[OF 1 evolves_trans[OF publish_gone[OF pub]]] dir
      by simp
  qed
qed simp

lemma expire_gone:
  assumes "expire is_uuid es now q d = (r, q', d')" and "\<And>e. e \<in> set es \<Longrightarrow> is_entry is_uuid (e_name e)"
  shows "evolves (gone is_uuid) d d' \<and> q_directory q' = q_directory q
    \<and> (\<forall>es'. r = Inr es' \<longrightarrow> set es' \<subseteq> set es)"
proof -
  let ?old = "filter (\<lambda>e. max_age (q_limits q) < entry_age e now) es"
  obtain x q1 d1 where l: "expire_loop is_uuid ?old q d = (x, q1, d1)" by (metis prod_cases3)
  then have "evolves (gone is_uuid) d d1 \<and> q_directory q1 = q_directory q"
    using expire_loop_gone[OF l] assms(2) by simp
  then show ?thesis using assms(1) l by (cases x) (auto simp: expire_def comp_def)
qed

lemma make_room_gone:
  "make_room is_uuid es sz remaining bytes q d = (r, q', d') \<Longrightarrow> (\<And>e. e \<in> set es \<Longrightarrow> is_entry is_uuid (e_name e))
   \<Longrightarrow> evolves (gone is_uuid) d d' \<and> q_directory q' = q_directory q"
proof (induction es arbitrary: remaining bytes q d)
  case (Cons e es)
  obtain x d1 where rem: "remove (e_name e) d = (x, d1)" by fastforce
  have 1: "evolves (gone is_uuid) d d1" using remove_gone[OF rem] Cons.prems(2) by simp
  show ?case
  proof (cases "remaining < max_entries (q_limits q) \<and> bytes + sz \<le> max_bytes (q_limits q) \<or> isl x")
    case True
    then show ?thesis using Cons.prems(1) rem 1 by (auto simp: isl_def split: if_splits)
  next
    case False
    then obtain removed where x: "x = Inr removed" by (cases x) auto
    let ?c = "q_counters q"
    let ?q = "if removed then q\<lparr>q_counters := note_dropped (e_queued_at e)
      (?c\<lparr>dropped_for_space := dropped_for_space ?c + 1\<rparr>)\<rparr> else q"
    obtain q2 d2 where pub: "publish_health is_uuid ?q d1 = (q2, d2)" by fastforce
    then have dir: "q_directory q2 = q_directory q"
      by (auto simp: publish_health_def split: prod.splits sum.splits if_splits)
    have "make_room is_uuid es sz (remaining - 1) (bytes - e_bytes e) q2 d2 = (r, q', d')"
      using Cons.prems(1) rem x pub False by (auto simp: Let_def split: if_splits)
    then show ?thesis
      using Cons.IH Cons.prems(2) evolves_trans[OF 1 evolves_trans[OF publish_gone[OF pub]]] dir by simp
  qed
qed simp

section \<open>Writing\<close>

lemma fs_create_new_evolves:
  assumes "fs_create_new t d = (r, d')"
  shows "evolves (\<lambda>n _. n = t) d d'"
    and "r = Inr x \<Longrightarrow> \<exists>b u. map_of (d_files d') t = Some (File b u)"
proof -
  obtain e d1 where n: "next_event d = (e, d1)" by fastforce
  have 1: "evolves (\<lambda>n _. n = t) d d1" using next_event_unchanged[of d] n by (metis evolves_unchanged snd_conv)
  have 2: "evolves (\<lambda>n _. n = t) d1 (d1\<lparr>d_files := put t node (d_files d1)\<rparr>)" for node
    by (simp add: evolves_def undisturbed_def)
  show "evolves (\<lambda>n _. n = t) d d'"
    using assms n 1 evolves_trans[OF 1 2] by (auto simp: fs_create_new_def split: option.splits if_splits)
  show "r = Inr x \<Longrightarrow> \<exists>b u. map_of (d_files d') t = Some (File b u)"
    using assms n by (auto simp: fs_create_new_def split: option.splits if_splits)
qed

lemma fs_write_all_evolves:
  assumes "fs_write_all t body d = (r, d')"
  shows "evolves (\<lambda>n _. n = t) d d'"
    and "r = Inr x \<Longrightarrow> undisturbed d \<Longrightarrow> map_of (d_files d) t = Some (File b u) \<Longrightarrow>
      \<exists>u. map_of (d_files d') t = Some (File body u)"
proof -
  obtain e d1 where n: "next_event d = (e, d1)" by fastforce
  have u: "unchanged d d1" using next_event_unchanged[of d] n by simp
  then have 1: "evolves (\<lambda>n _. n = t) d d1" by (rule evolves_unchanged)
  have 2: "evolves (\<lambda>n _. n = t) d1 (overwrite t b d1)" for b
    by (auto simp: evolves_def undisturbed_def overwrite_def split: option.splits node.splits)
  show "evolves (\<lambda>n _. n = t) d d'"
    using assms n evolves_trans[OF 1 2] by (auto simp: fs_write_all_def split: option.splits)
  show "r = Inr x \<Longrightarrow> undisturbed d \<Longrightarrow> map_of (d_files d) t = Some (File b u) \<Longrightarrow>
      \<exists>u. map_of (d_files d') t = Some (File body u)"
    using assms n unchanged_files[OF u] by (auto simp: fs_write_all_def overwrite_def split: option.splits)
qed

lemma fs_rename_evolves:
  assumes "fs_rename t path d = (r, d')" and "map_of (d_files d) t = Some (File body u)"
  shows "evolves (\<lambda>n v. n = t \<or> n = path \<and> v = Some (File body u)) d d'"
    and "r = Inr x \<Longrightarrow> undisturbed d \<Longrightarrow> map_of (d_files d') path = Some (File body u)"
proof -
  obtain e d1 where n: "next_event d = (e, d1)" by fastforce
  have u: "unchanged d d1" using next_event_unchanged[of d] n by simp
  show "evolves (\<lambda>n v. n = t \<or> n = path \<and> v = Some (File body u)) d d'"
    using assms n unchanged_files[OF u]
    by (auto simp: fs_rename_def evolves_def undisturbed_def split: option.splits if_splits)
  show "r = Inr x \<Longrightarrow> undisturbed d \<Longrightarrow> map_of (d_files d') path = Some (File body u)"
    using assms n unchanged_files[OF u] by (auto simp: fs_rename_def split: option.splits if_splits)
qed

definition written :: "string \<Rightarrow> string \<Rightarrow> bytes \<Rightarrow> string \<Rightarrow> node option \<Rightarrow> bool" where
  "written t path body n v \<longleftrightarrow> n = t \<or> n = path \<and> (\<exists>u. v = Some (File body u))"

lemma write_steps_written:
  assumes "write_steps directory t path body d = (r, d')" and "undisturbed d"
  shows "evolves (written t path body) d d'"
    and "r = Inr x \<Longrightarrow> \<exists>u. map_of (d_files d') path = Some (File body u)"
proof -
  let ?W = "written t path body"
  have W: "evolves (\<lambda>n _. n = t) a b \<Longrightarrow> evolves ?W a b" for a b
    by (erule evolves_mono) (simp add: written_def)
  obtain r1 d1 where s1: "fs_create_new t d = (r1, d1)" by fastforce
  obtain r2 d2 where s2: "fs_write_all t body d1 = (r2, d2)" by fastforce
  obtain r3 d3 where s3: "fs_sync d2 = (r3, d3)" by fastforce
  obtain r4 d4 where s4: "fs_rename t path d3 = (r4, d4)" by fastforce
  obtain r5 d5 where s5: "fs_sync d4 = (r5, d5)" by fastforce
  have e1: "evolves ?W d d1" using fs_create_new_evolves(1)[OF s1] by (rule W)
  have e2: "evolves ?W d d2" using evolves_trans[OF e1 W[OF fs_write_all_evolves(1)[OF s2]]] .
  have u3: "unchanged d2 d3" "unchanged d4 d5" using fs_reads_unchanged(4) s3 s5 by (metis snd_conv)+
  have e3: "evolves ?W d d3" using evolves_trans[OF e2 evolves_unchanged[OF u3(1)]] .
  have und: "undisturbed d1" "undisturbed d2" "undisturbed d3"
    using e1 e2 e3 assms(2) by (auto simp: evolves_def)
  have full: "\<exists>u. map_of (d_files d3) t = Some (File body u)" if "r1 = Inr x1" "r2 = Inr x2" for x1 x2
    using fs_create_new_evolves(2)[OF s1 that(1)] fs_write_all_evolves(2)[OF s2 that(2) und(1)]
      unchanged_files[OF u3(1) und(2)] by auto
  have e4: "evolves ?W d d4" "undisturbed d4 \<and> (\<forall>x4. r4 = Inr x4 \<longrightarrow> (\<exists>u. map_of (d_files d4) path = Some (File body u)))"
    if r12: "r1 = Inr x1" "r2 = Inr x2" for x1 x2
  proof -
    obtain u where u: "map_of (d_files d3) t = Some (File body u)" using full[OF r12] by blast
    have "evolves ?W d3 d4" using fs_rename_evolves(1)[OF s4 u] by (rule evolves_mono) (auto simp: written_def)
    then show "evolves ?W d d4" by (rule evolves_trans[OF e3])
    then show "undisturbed d4 \<and> (\<forall>x4. r4 = Inr x4 \<longrightarrow> (\<exists>u. map_of (d_files d4) path = Some (File body u)))"
      using fs_rename_evolves(2)[OF s4 u _ und(3)] assms(2) by (auto simp: evolves_def)
  qed
  note defs = write_steps_def create_private_file_def sync_directory_def
  show "evolves ?W d d'"
    using assms(1) s1 s2 s3 s4 s5 e1 e2 e3 e4(1) evolves_trans[OF e4(1) evolves_unchanged[OF u3(2)]]
    by (auto simp: defs split: sum.splits)
  show "r = Inr x \<Longrightarrow> \<exists>u. map_of (d_files d') path = Some (File body u)"
    using assms(1) s1 s2 s3 s4 s5 e4(2) unchanged_files[OF u3(2)] by (auto simp: defs split: sum.splits)
qed

lemma write_atomically_written:
  assumes "write_atomically directory i path body d = (r, d')" and "undisturbed d"
  shows "evolves (written (temporary_prefix @ i) path body) d d'"
    and "r = Inr x \<Longrightarrow> \<exists>u. map_of (d_files d') path = Some (File body u)"
proof -
  let ?t = "temporary_prefix @ i"
  obtain r1 d1 where s: "write_steps directory ?t path body d = (r1, d1)" by fastforce
  note w = write_steps_written[OF s assms(2)]
  have "evolves (written ?t path body) d1 (snd (fs_remove_file ?t d1))"
    using fs_remove_file_evolves by (rule evolves_mono) (simp add: written_def)
  with w(1) have "evolves (written ?t path body) d (snd (fs_remove_file ?t d1))" by (rule evolves_trans)
  then show "evolves (written ?t path body) d d'"
    using assms(1) s w(1) by (auto simp: write_atomically_def Let_def split: sum.splits)
  show "r = Inr x \<Longrightarrow> \<exists>u. map_of (d_files d') path = Some (File body u)"
    using assms(1) s w(2) by (auto simp: write_atomically_def Let_def split: sum.splits)
qed

section \<open>Enqueue and drain under faults\<close>

text \<open>An enqueue either stops while making room or goes on to write one entry.\<close>

lemma enqueue_phases:
  assumes "enqueue is_uuid t i body now q d = (r, q', d')"
  obtains (early) "isl r" "evolves (gone is_uuid) d d'"
  | (wrote) s d3 d4 p where "evolves (gone is_uuid) d d3"
      "write_atomically p t (entry_name s now i) body d3 = (r, d4)" "unchanged d4 d'"
proof (cases "max_bytes (q_limits q) < length body")
  case True
  then show ?thesis using early assms by (auto simp: enqueue_def)
next
  case False
  obtain r1 d1 where s1: "entries is_uuid (q_directory q) d = (r1, d1)" by fastforce
  have e1: "evolves (gone is_uuid) d d1"
    using entries_unchanged[of d is_uuid "q_directory q"] s1 by (metis evolves_unchanged snd_conv)
  show ?thesis
  proof (cases r1)
    case (Inl err)
    then show ?thesis using early assms False s1 e1 by (auto simp: enqueue_def)
  next
    case r1: (Inr es)
    have named: "is_entry is_uuid (e_name e)" if "e \<in> set es" for e
      using entries_named[of is_uuid "q_directory q" d es d1 e] s1 r1 that by simp
    obtain r2 q2 d2 where s2: "expire is_uuid es now q d1 = (r2, q2, d2)" by (metis prod_cases3)
    have e2: "evolves (gone is_uuid) d d2"
      using evolves_trans[OF e1] expire_gone[OF s2 named] by blast
    show ?thesis
    proof (cases r2)
      case (Inl err)
      then show ?thesis using early assms False s1 r1 s2 e2 by (auto simp: enqueue_def)
    next
      case r2: (Inr es2)
      obtain r3 q3 d3 where s3: "make_room is_uuid es2 (length body) (length es2) (sum_list (map e_bytes es2)) q2 d2 =
          (r3, q3, d3)" by (metis prod_cases3)
      have "e \<in> set es2 \<Longrightarrow> is_entry is_uuid (e_name e)" for e
        using expire_gone[OF s2 named] r2 named by blast
      then have e3: "evolves (gone is_uuid) d d3" using evolves_trans[OF e2] make_room_gone[OF s3] by blast
      show ?thesis
      proof (cases r3)
        case (Inl err)
        then show ?thesis using early assms False s1 r1 s2 r2 s3 e3 by (auto simp: enqueue_def Let_def)
      next
        case r3: (Inr v)
        let ?s = "max (q_next_sequence q2) (if es2 = [] then 0 else u64_succ (e_sequence (last es2)))"
        obtain r4 d4 where s4: "write_atomically (q_directory q3) t (entry_name ?s now i) body d3 = (r4, d4)" by fastforce
        let ?q = "if isl r4 then q3 else q3\<lparr>q_next_sequence := u64_succ ?s\<rparr>"
        have "r = r4" "d' = snd (publish_health is_uuid ?q d4)"
          using assms False s1 r1 s2 r2 s3 r3 s4
          by (auto simp: enqueue_def Let_def simp del: if_split split: prod.splits)
        then show ?thesis using wrote[OF e3] s4 publish_health_unchanged by blast
      qed
    qed
  qed
qed

text \<open>
  C9. Whatever system calls fail during \<open>enqueue\<close>, every file either keeps its content, or is a
  queue entry that was removed, or is the operation's own temporary file, or is the new entry
  with its complete body: no torn entry and no change to a file the queue did not name. And when
  \<open>enqueue\<close> reports success, the complete entry is there.
\<close>

theorem enqueue_never_tears:
  assumes "undisturbed d" and "enqueue is_uuid t i body now q d = (r, q', d')"
  shows "(\<forall>n. map_of (d_files d') n = map_of (d_files d) n
      \<or> is_entry is_uuid n \<and> map_of (d_files d') n = None
      \<or> n = temporary_prefix @ t
      \<or> (\<exists>s u. n = entry_name s now i \<and> map_of (d_files d') n = Some (File body u)))
    \<and> (r = Inr () \<longrightarrow> (\<exists>s u. map_of (d_files d') (entry_name s now i) = Some (File body u)))"
  using assms(2)
proof (cases rule: enqueue_phases)
  case early
  then show ?thesis using assms(1) by (auto simp: evolves_def gone_def)
next
  case (wrote s d3 d4 p)
  then have u: "undisturbed d3" using assms(1) by (auto simp: evolves_def)
  note w = write_atomically_written[OF wrote(2) u]
  have "undisturbed d4" using w(1) u by (simp add: evolves_def)
  then have same: "map_of (d_files d') = map_of (d_files d4)" using unchanged_files[OF wrote(3)] by simp
  show ?thesis
  proof (intro conjI allI impI)
    fix n
    show "map_of (d_files d') n = map_of (d_files d) n
      \<or> is_entry is_uuid n \<and> map_of (d_files d') n = None
      \<or> n = temporary_prefix @ t
      \<or> (\<exists>s u. n = entry_name s now i \<and> map_of (d_files d') n = Some (File body u))"
      using wrote(1) w(1) assms(1) u unfolding same evolves_def written_def gone_def by metis
  next
    assume "r = Inr ()"
    then show "\<exists>s u. map_of (d_files d') (entry_name s now i) = Some (File body u)"
      using w(2) same by auto
  qed
qed

text \<open>The sample queue on a disk that fails the write after two bytes.\<close>

definition faulty_disk :: disk where
  "faulty_disk = sample_disk\<lparr>d_events := replicate 9 Calm @ [Fault OtherIo 2]\<rparr>"

theorem enqueue_never_tears_witness:
  "case enqueue sample_uuid ''t'' sample_id ''new'' (int (secs 50)) sample_queue faulty_disk of
     (r, q', d') \<Rightarrow> map_of (d_files d') ''README'' = None"
proof -
  obtain r q' d' where e: "enqueue sample_uuid ''t'' sample_id ''new'' (int (secs 50)) sample_queue faulty_disk = (r, q', d')"
    by (metis prod_cases3)
  have u: "undisturbed faulty_disk" by (auto simp: undisturbed_def faulty_disk_def)
  have ne: "entry_name s at i \<noteq> ''README''" for s at i
    by (auto simp: entry_name_def entry_suffix_def dest: arg_cong[of _ _ last])
  have "map_of (d_files faulty_disk) ''README'' = None"
    using ne[of 0 0 sample_id] by (simp add: faulty_disk_def sample_disk_def)
  moreover have "''README'' \<noteq> temporary_prefix @ ''t''" by (simp add: temporary_prefix_def)
  ultimately have "map_of (d_files d') ''README'' = None"
    using enqueue_never_tears[OF u e] ne by metis
  then show ?thesis using e by simp
qed

lemma drain_loop_gone:
  assumes "drain_loop is_uuid limit stop deliver es offered tally q d w = (r, q', d', w')"
    and "\<And>e. e \<in> set es \<Longrightarrow> is_entry is_uuid (e_name e)"
  shows "evolves (gone is_uuid) d d'"
  using assms
proof (induction es arbitrary: offered tally q d w)
  case (Cons e es)
  obtain halt w1 where st: "stop w = (halt, w1)" by fastforce
  obtain x d1 where rd: "fs_read (e_name e) d = (x, d1)" by fastforce
  obtain y w2 where dl: "deliver (projr x) w1 = (y, w2)" by fastforce
  obtain z d2 where rem: "remove (e_name e) d1 = (z, d2)" by fastforce
  have 1: "evolves (gone is_uuid) d d1" using fs_reads_unchanged(3)[of d "e_name e"] rd by (metis evolves_unchanged snd_conv)
  have 2: "evolves (gone is_uuid) d d2" using evolves_trans[OF 1 remove_gone[OF rem]] Cons.prems(2) by simp
  have IH: "evolves (gone is_uuid) d d'"
    if "drain_loop is_uuid limit stop deliver es o1 t1 (fst (publish_health is_uuid q1 d0)) (snd (publish_health is_uuid q1 d0)) v = (r, q', d', w')"
      "evolves (gone is_uuid) d d0" for o1 t1 q1 d0 v
  proof -
    have "evolves (gone is_uuid) (snd (publish_health is_uuid q1 d0)) d'"
      using Cons.IH[OF that(1)] Cons.prems(2) by simp
    then show ?thesis
      by (rule evolves_trans[OF evolves_trans[OF that(2) evolves_unchanged[OF publish_health_unchanged]]])
  qed
  show ?case
  proof (cases "halt \<or> limit \<le> offered")
    case True
    then show ?thesis using Cons.prems(1) st by (cases halt) auto
  next
    case False
    then show ?thesis
      using Cons.prems(1) st rd dl rem 1 2
      by (cases x; cases y; cases z)
        (auto simp: Let_def case_prod_unfold split: if_splits intro: IH[OF _ 1] IH[OF _ 2])
  qed
qed simp

text \<open>
  C24. Whatever system calls fail during a drain pass, it only ever removes queue entries: every
  file that is not an entry, and every entry it does not remove, keeps its exact content.
\<close>

theorem drain_touches_only_entries:
  assumes "undisturbed d" and "drain_at_most is_uuid now limit stop deliver q d w = (r, q', d', w')"
  shows "map_of (d_files d') n = map_of (d_files d) n \<or> is_entry is_uuid n \<and> map_of (d_files d') n = None"
proof -
  obtain r1 d1 where s1: "entries is_uuid (q_directory q) d = (r1, d1)" by fastforce
  have e1: "evolves (gone is_uuid) d d1"
    using entries_unchanged[of d is_uuid "q_directory q"] s1 by (metis evolves_unchanged snd_conv)
  have "evolves (gone is_uuid) d d'"
  proof (cases r1)
    case (Inl err)
    then show ?thesis using assms(2) s1 e1 by (auto simp: drain_at_most_def)
  next
    case r1: (Inr es)
    have named: "is_entry is_uuid (e_name e)" if "e \<in> set es" for e
      using entries_named[of is_uuid "q_directory q" d es d1 e] s1 r1 that by simp
    obtain r2 q2 d2 where s2: "expire is_uuid es now q d1 = (r2, q2, d2)" by (metis prod_cases3)
    have e2: "evolves (gone is_uuid) d d2" using evolves_trans[OF e1] expire_gone[OF s2 named] by blast
    show ?thesis
    proof (cases r2)
      case (Inl err)
      then show ?thesis using assms(2) s1 r1 s2 e2 by (auto simp: drain_at_most_def)
    next
      case r2: (Inr es2)
      obtain r3 q3 d3 w3 where s3: "drain_loop is_uuid limit stop deliver es2 0 no_drained q2 d2 w = (r3, q3, d3, w3)"
        by (metis prod_cases4)
      have "e \<in> set es2 \<Longrightarrow> is_entry is_uuid (e_name e)" for e
        using expire_gone[OF s2 named] r2 named by blast
      then have e3: "evolves (gone is_uuid) d d3" using evolves_trans[OF e2 drain_loop_gone[OF s3]] by simp
      have "evolves (gone is_uuid) d (snd (publish_health is_uuid q3 d3))"
        using evolves_trans[OF e3 evolves_unchanged[OF publish_health_unchanged]] .
      then show ?thesis
        using assms(2) s1 r1 s2 r2 s3 e3
        by (cases r3) (auto simp: drain_at_most_def Let_def split: prod.splits)
    qed
  qed
  then show ?thesis using assms(1) by (auto simp: evolves_def gone_def)
qed

theorem drain_touches_only_entries_witness:
  "case drain_at_most sample_uuid (int (secs 50)) 5 (Pair False) sample_deliver sample_queue faulty_disk 0 of
     (r, q', d', w') \<Rightarrow> map_of (d_files d') (entry_name 0 0 sample_id) \<in> {Some (File ''old'' 0), None}"
proof -
  obtain r q' d' w' where e:
    "drain_at_most sample_uuid (int (secs 50)) 5 (Pair False) sample_deliver sample_queue faulty_disk 0 = (r, q', d', w')"
    by (metis prod_cases4)
  have "undisturbed faulty_disk" by (auto simp: undisturbed_def faulty_disk_def)
  then show ?thesis
    using drain_touches_only_entries[OF _ e, of "entry_name 0 0 sample_id"] e
    by (auto simp: faulty_disk_def sample_disk_def)
qed

end
