(* ===== verification/Transport.thy ===== *)
theory Transport
  imports Retry Scheduler
begin

text \<open>
  The HTTP client of \<open>src/agent/src/transport.rs\<close>: the URLs and credentials a request carries,
  the per-class retry deadlines and the move signal that clones of a client share, and the
  requests the agent makes. \<open>url::Url\<close>, \<open>reqwest\<close>, \<open>serde_json\<close> and \<open>chrono\<close> are parameters:
  a parser returns an option, the network is a function of the request and the world. The
  \<open>Arc\<close> cells clones share are addresses into a store, so that sharing is visible.
\<close>

section \<open>URLs\<close>

text \<open>What \<open>url::Url\<close> reports of a parsed address.\<close>

record url =
  u_scheme :: string
  u_host :: "string option"
  u_username :: string
  u_password :: "string option"
  u_path :: string
  u_query :: "string option"
  u_fragment :: "string option"

definition permanent :: "error_text \<Rightarrow> transport_error" where
  "permanent msg = transport_error_new msg Permanent"

definition split_scheme :: "string \<Rightarrow> string option" where
  \<comment> \<open>what follows the first \<open>://\<close>\<close>
  "split_scheme s =
     (case dropWhile (\<lambda>n. \<not> starts_with ''://'' (drop n s)) [0..<length s] of
        [] \<Rightarrow> None | n # _ \<Rightarrow> Some (drop (n + 3) s))"

definition origin_url ::
  "(string \<Rightarrow> url option) \<Rightarrow> string \<Rightarrow> bool \<Rightarrow> string \<Rightarrow> transport_error + url" where
  "origin_url parse value allow_insecure_http name =
     (let has_explicit_authority =
        (case split_scheme value of None \<Rightarrow> False | Some a \<Rightarrow> a \<noteq> [] \<and> \<not> starts_with ''/'' a) in
      case parse value of
        None \<Rightarrow> Inl (permanent (Format ''invalid {name}'' [name]))
      | Some url \<Rightarrow>
          if u_scheme url = ''http'' \<and> \<not> allow_insecure_http
          then Inl (permanent (Format ''{name} must use HTTPS unless insecure HTTP is explicitly enabled'' [name]))
          else if \<not> has_explicit_authority \<or> u_scheme url \<notin> {''http'', ''https''} \<or> u_host url = None
            \<or> u_username url \<noteq> [] \<or> u_password url \<noteq> None \<or> u_query url \<noteq> None
            \<or> u_fragment url \<noteq> None \<or> u_path url \<noteq> ''/''
          then Inl (permanent (Format
            ''{name} must be an HTTP(S) origin without credentials, path, query, or fragment'' [name]))
          else Inr url)"

definition endpoint_url :: "(url \<Rightarrow> string \<Rightarrow> url option) \<Rightarrow> url \<Rightarrow> string \<Rightarrow> transport_error + url" where
  "endpoint_url join base path =
     (case join base path of
        None \<Rightarrow> Inl (permanent (Text ''cannot construct Renga API endpoint URL''))
      | Some url \<Rightarrow> Inr url)"

definition checkin_path :: string where "checkin_path = ''/api/v1/agent/checkins''"
definition observation_path :: string where "observation_path = ''/api/v1/observations''"
definition telemetry_path :: string where "telemetry_path = ''/api/v1/telemetry''"
definition job_lease_path :: string where "job_lease_path = ''/api/v1/agent/jobs/lease''"
definition home_path :: string where "home_path = ''/api/v1/agent/home''"

section \<open>Clients\<close>

record client_config =
  renga_url :: string
  allow_insecure_http :: bool
  intake_api_key :: string
  installation_id :: string
  request_timeout :: duration
  max_retry_attempts :: nat

record client_settings =
  cs_home :: url
  cs_intake_api_key :: string
  cs_installation_id :: string
  cs_request_timeout :: duration
  cs_max_retry_attempts :: nat

text \<open>The third-party functions a client is built with.\<close>

record http_lib =
  l_parse :: "string \<Rightarrow> url option"
  l_join :: "url \<Rightarrow> string \<Rightarrow> url option"
  l_header_value :: "string \<Rightarrow> bool"
  l_tls :: "transport_error + unit"
  l_build :: "transport_error + unit"
  l_json :: "string \<Rightarrow> json option"
  l_rfc2822 :: "string \<Rightarrow> int option"

definition settings_new :: "http_lib \<Rightarrow> 'x client_config_scheme \<Rightarrow> string \<Rightarrow> transport_error + client_settings" where
  "settings_new lib config home =
     (case origin_url (l_parse lib) home (allow_insecure_http config) ''home URL'' of
        Inl e \<Rightarrow> Inl e
      | Inr url \<Rightarrow> Inr \<lparr>cs_home = url, cs_intake_api_key = intake_api_key config,
          cs_installation_id = installation_id config, cs_request_timeout = request_timeout config,
          cs_max_retry_attempts = max_retry_attempts config\<rparr>)"

record http_client =
  hc_settings :: client_settings
  hc_checkin_url :: url
  hc_observation_url :: url
  hc_telemetry_url :: url
  hc_lease_url :: url
  hc_authorization :: string
  hc_installation_id :: string
  hc_installation_key :: "string option"
  hc_moved :: nat
  hc_retry_not_before :: nat

text \<open>
  The store of shared cells: move signals and retry deadlines by address. \<open>Arc::default()\<close> takes
  the next free address.
\<close>

record cells =
  c_next :: nat
  c_moved :: "nat \<Rightarrow> bool"
  c_deadlines :: "nat \<Rightarrow> string \<rightharpoonup> instant"

definition from_settings ::
  "http_lib \<Rightarrow> client_settings \<Rightarrow> cells \<Rightarrow> (transport_error + http_client) \<times> cells" where
  "from_settings lib st cells =
     (let ep = endpoint_url (l_join lib) (cs_home st); auth = ''Bearer '' @ cs_intake_api_key st in
      case ep checkin_path of Inl e \<Rightarrow> (Inl e, cells) | Inr checkin_url \<Rightarrow>
     (case ep observation_path of Inl e \<Rightarrow> (Inl e, cells) | Inr observation_url \<Rightarrow>
     (case ep telemetry_path of Inl e \<Rightarrow> (Inl e, cells) | Inr telemetry_url \<Rightarrow>
     (case ep job_lease_path of Inl e \<Rightarrow> (Inl e, cells) | Inr lease_url \<Rightarrow>
      if \<not> l_header_value lib auth then (Inl (permanent (Text ''invalid intake API key'')), cells)
      else if \<not> l_header_value lib (cs_installation_id st)
      then (Inl (permanent (Text ''invalid installation ID'')), cells)
      else (case l_tls lib of Inl e \<Rightarrow> (Inl e, cells) | Inr _ \<Rightarrow>
           (case l_build lib of Inl e \<Rightarrow> (Inl e, cells) | Inr _ \<Rightarrow>
             let a = c_next cells in
             (Inr \<lparr>hc_settings = st, hc_checkin_url = checkin_url, hc_observation_url = observation_url,
                   hc_telemetry_url = telemetry_url, hc_lease_url = lease_url, hc_authorization = auth,
                   hc_installation_id = cs_installation_id st, hc_installation_key = None,
                   hc_moved = a, hc_retry_not_before = a\<rparr>,
              cells\<lparr>c_next := a + 1, c_moved := (c_moved cells)(a := False),
                    c_deadlines := (c_deadlines cells)(a := Map.empty)\<rparr>)))))))"

text \<open>\<open>home.as_str()\<close> is an argument: how a URL prints is the crate's.\<close>

definition for_home ::
  "http_lib \<Rightarrow> 'x client_config_scheme \<Rightarrow> string \<Rightarrow> cells \<Rightarrow> (transport_error + http_client) \<times> cells" where
  "for_home lib config home cells =
     (case settings_new lib config home of
        Inl e \<Rightarrow> (Inl e, cells) | Inr st \<Rightarrow> from_settings lib st cells)"

definition http_client_new ::
  "http_lib \<Rightarrow> (url \<Rightarrow> string) \<Rightarrow> 'x client_config_scheme \<Rightarrow> cells \<Rightarrow> (transport_error + http_client) \<times> cells" where
  "http_client_new lib as_str config cells =
     (case origin_url (l_parse lib) (renga_url config) (allow_insecure_http config) ''Renga server URL'' of
        Inl e \<Rightarrow> (Inl e, cells) | Inr base \<Rightarrow> for_home lib config (as_str base) cells)"

definition sends_like :: "http_client \<Rightarrow> http_client \<Rightarrow> bool" where
  "sends_like c other \<longleftrightarrow> hc_settings c = hc_settings other \<and> hc_installation_key c = hc_installation_key other"

definition with_installation_key :: "http_client \<Rightarrow> string \<Rightarrow> http_client" where
  "with_installation_key c key = c\<lparr>hc_installation_key := Some key\<rparr>"

definition take_moved :: "http_client \<Rightarrow> cells \<Rightarrow> bool \<times> cells" where
  "take_moved c cells =
     (c_moved cells (hc_moved c), cells\<lparr>c_moved := (c_moved cells)(hc_moved c := False)\<rparr>)"

definition sharing_moved_signal :: "http_client \<Rightarrow> http_client \<Rightarrow> http_client" where
  "sharing_moved_signal c previous =
     (if cs_home (hc_settings c) = cs_home (hc_settings previous)
      then c\<lparr>hc_moved := hc_moved previous, hc_retry_not_before := hc_retry_not_before previous\<rparr> else c)"

definition noting_moved ::
  "http_client \<Rightarrow> (transport_error + 'a) option \<Rightarrow> cells \<Rightarrow> (transport_error + 'a) option \<times> cells" where
  "noting_moved c result cells =
     (case result of
        Some (Inl e) \<Rightarrow> (result, if te_moved e then cells\<lparr>c_moved := (c_moved cells)(hc_moved c := True)\<rparr> else cells)
      | _ \<Rightarrow> (result, cells))"

section \<open>Retry deadlines\<close>

definition retry_class :: "url \<Rightarrow> string" where
  "retry_class url =
     (let path = u_path url in
      if path = observation_path then ''observations''
      else if path = telemetry_path then ''telemetry''
      else if path = checkin_path then ''checkins''
      else if path = job_lease_path then ''leases''
      else if strip_suffix ''/claims'' path \<noteq> None then ''claims''
      else ''reports'')"

definition check_retry_deadline :: "http_client \<Rightarrow> url \<Rightarrow> instant \<Rightarrow> cells \<Rightarrow> transport_error option" where
  "check_retry_deadline c url now cells =
     (case c_deadlines cells (hc_retry_not_before c) (retry_class url) of
        Some at \<Rightarrow>
          (if now < at
           then Some (with_status (transport_error_new (Text ''server requested retry later'') Transient) 429
                        \<lparr>te_retry_not_before := Some at\<rparr>)
           else None)
      | None \<Rightarrow> None)"

definition remember_retry_deadline :: "http_client \<Rightarrow> url \<Rightarrow> transport_error + 'a \<Rightarrow> cells \<Rightarrow> cells" where
  "remember_retry_deadline c url result cells =
     (case result of
        Inl e \<Rightarrow>
          (case te_retry_not_before e of
             None \<Rightarrow> cells
           | Some at \<Rightarrow>
               let a = hc_retry_not_before c; k = retry_class url; m = c_deadlines cells a in
               cells\<lparr>c_deadlines := (c_deadlines cells)(a := m(k \<mapsto>
                 (case m k of Some existing \<Rightarrow> max existing at | None \<Rightarrow> at)))\<rparr>)
      | Inr _ \<Rightarrow> cells)"

section \<open>Requests\<close>

datatype http_method = Get | Post

record request =
  rq_method :: http_method
  rq_url :: url
  rq_headers :: "(string \<times> string) list"
  rq_body :: bytes
  rq_timeout :: duration

text \<open>What \<open>reqwest::Error\<close> tells about a request that got no response.\<close>

record request_failure =
  rf_timeout :: bool
  rf_connect :: bool
  rf_request :: bool

definition request_error :: "request_failure \<Rightarrow> transport_error" where
  "request_error f = transport_error_new (Format ''HTTP request failed: {error}'' [])
     (if rf_timeout f \<or> rf_connect f \<or> rf_request f then Transient else Permanent)"

record 'w net =
  n_now :: "'w \<Rightarrow> instant"
  n_utc :: "'w \<Rightarrow> system_time"
  n_send :: "request \<Rightarrow> 'w \<Rightarrow> (request_failure + response) \<times> 'w"
  n_sleep :: "duration \<Rightarrow> 'w \<Rightarrow> 'w"

text \<open>
  The retried operation of a POST: refused by a deadline in force, or sent and read with the
  response reader of the caller (\<open>response_result\<close> or \<open>response_body\<close>).
\<close>

definition post_attempt ::
  "'w net \<Rightarrow> http_client \<Rightarrow> url \<Rightarrow> (system_time \<Rightarrow> instant \<Rightarrow> response \<Rightarrow> transport_error + 'a)
   \<Rightarrow> duration \<Rightarrow> bytes \<Rightarrow> 'w \<times> cells \<Rightarrow> (transport_error + 'a) \<times> 'w \<times> cells" where
  "post_attempt net c url read timeout body s =
     (case check_retry_deadline c url (n_now net (fst s)) (snd s) of
        Some e \<Rightarrow> (Inl e, s)
      | None \<Rightarrow>
          (case n_send net
             \<lparr>rq_method = Post, rq_url = url,
              rq_headers = [(''authorization'', hc_authorization c), (''x-renga-installation-id'', hc_installation_id c),
                            (''content-type'', ''application/json'')],
              rq_body = body, rq_timeout = timeout\<rparr> (fst s) of
             (Inl f, w) \<Rightarrow> (Inl (request_error f), w, snd s)
           | (Inr response, w) \<Rightarrow>
               let result = read (n_utc net w) (n_now net w) response
               in (result, w, remember_retry_deadline c url result (snd s))))"

definition client_env ::
  "'w net \<Rightarrow> ('w \<Rightarrow> bool \<times> 'w) \<Rightarrow> ('w \<times> cells \<Rightarrow> (transport_error + 'a) \<times> 'w \<times> cells)
   \<Rightarrow> ('w \<times> cells, 'a) retry_env" where
  "client_env net stop operation =
     \<lparr>r_now = (\<lambda>s. n_now net (fst s)), r_operation = operation,
      r_sleep = (\<lambda>d s. (n_sleep net d (fst s), snd s)),
      r_cancelled = (\<lambda>s. let (b, w) = stop (fst s) in (b, (w, snd s)))\<rparr>"

definition post_encoded_while ::
  "http_lib \<Rightarrow> 'w net \<Rightarrow> http_client \<Rightarrow> url \<Rightarrow> bytes \<Rightarrow> ('w \<Rightarrow> bool \<times> 'w) \<Rightarrow> 'w \<times> cells
   \<Rightarrow> (transport_error + unit) option \<times> 'w \<times> cells" where
  "post_encoded_while lib net c url body stop s =
     (let timeout = min (cs_request_timeout (hc_settings c)) delivery_budget;
          operation = post_attempt net c url (response_result (l_json lib) (l_rfc2822 lib)) timeout body;
          (result, (w, cells)) = retry (client_env net stop operation)
            (cs_max_retry_attempts (hc_settings c)) timeout s;
          (result, cells) = noting_moved c result cells
      in (result, (w, cells)))"

text \<open>\<open>shutdown\<close> is the daemon's cancellation, \<open>stop\<close> that of the operation on whose behalf it posts.\<close>

definition post_encoded_observation ::
  "http_lib \<Rightarrow> 'w net \<Rightarrow> ('w \<Rightarrow> bool \<times> 'w) \<Rightarrow> http_client \<Rightarrow> bytes \<Rightarrow> 'w \<times> cells
   \<Rightarrow> (transport_error + unit) option \<times> 'w \<times> cells" where
  "post_encoded_observation lib net shutdown c body s =
     post_encoded_while lib net c (hc_observation_url c) body shutdown s"

definition either_cancelled :: "('w \<Rightarrow> bool \<times> 'w) \<Rightarrow> ('w \<Rightarrow> bool \<times> 'w) \<Rightarrow> 'w \<Rightarrow> bool \<times> 'w" where
  "either_cancelled shutdown stop w = (case shutdown w of (True, w) \<Rightarrow> (True, w) | (False, w) \<Rightarrow> stop w)"

definition post_encoded_observation_with_cancellation ::
  "http_lib \<Rightarrow> 'w net \<Rightarrow> ('w \<Rightarrow> bool \<times> 'w) \<Rightarrow> http_client \<Rightarrow> bytes \<Rightarrow> ('w \<Rightarrow> bool \<times> 'w) \<Rightarrow> 'w \<times> cells
   \<Rightarrow> (transport_error + unit) option \<times> 'w \<times> cells" where
  "post_encoded_observation_with_cancellation lib net shutdown c body stop s =
     post_encoded_while lib net c (hc_observation_url c) body (either_cancelled shutdown stop) s"

definition drop_conflicting :: "transport_error + unit \<Rightarrow> transport_error + unit" where
  "drop_conflicting r = (case r of
     Inl e \<Rightarrow> Inl (if te_collector_kind_conflict e then e\<lparr>te_kind := PayloadRejected\<rparr> else e)
   | Inr u \<Rightarrow> Inr u)"

definition post_encoded_telemetry ::
  "http_lib \<Rightarrow> 'w net \<Rightarrow> ('w \<Rightarrow> bool \<times> 'w) \<Rightarrow> http_client \<Rightarrow> bytes \<Rightarrow> 'w \<times> cells
   \<Rightarrow> (transport_error + unit) option \<times> 'w \<times> cells" where
  "post_encoded_telemetry lib net shutdown c body s =
     (let (result, s) = post_encoded_while lib net c (hc_telemetry_url c) body shutdown s
      in (map_option drop_conflicting result, s))"

text \<open>The operation of a POST whose body is read: \<open>value\<close> is the payload as \<open>serde_json\<close> encodes it.\<close>

definition reading_attempt ::
  "http_lib \<Rightarrow> 'w net \<Rightarrow> http_client \<Rightarrow> url \<Rightarrow> duration \<Rightarrow> duration \<Rightarrow> bytes \<Rightarrow> 'w \<times> cells
   \<Rightarrow> (transport_error + bytes) \<times> 'w \<times> cells" where
  "reading_attempt lib net c url budget timeout value s =
     (if budget = 0
      then (Inl (transport_error_new (Text ''job lease delivery budget expired'') Transient), s)
      else post_attempt net c url (response_body (l_json lib) (l_rfc2822 lib)) timeout value s)"

definition post_reading_with_budget ::
  "http_lib \<Rightarrow> 'w net \<Rightarrow> ('w \<Rightarrow> bool \<times> 'w) \<Rightarrow> http_client \<Rightarrow> url \<Rightarrow> bytes \<Rightarrow> duration \<Rightarrow> 'w \<times> cells
   \<Rightarrow> (transport_error + bytes) option \<times> 'w \<times> cells" where
  "post_reading_with_budget lib net shutdown c url value budget s =
     (let budget = min budget delivery_budget;
          timeout = min (cs_request_timeout (hc_settings c)) budget;
          (result, (w, cells)) = retry_with_budget
            (client_env net shutdown (reading_attempt lib net c url budget timeout value))
            (cs_max_retry_attempts (hc_settings c)) timeout budget s;
          (result, cells) = noting_moved c result cells
      in (result, (w, cells)))"

definition post_reading ::
  "http_lib \<Rightarrow> 'w net \<Rightarrow> ('w \<Rightarrow> bool \<times> 'w) \<Rightarrow> http_client \<Rightarrow> url \<Rightarrow> bytes \<Rightarrow> 'w \<times> cells
   \<Rightarrow> (transport_error + bytes) option \<times> 'w \<times> cells" where
  "post_reading lib net shutdown c url value s =
     post_reading_with_budget lib net shutdown c url value delivery_budget s"

definition decode :: "(bytes \<Rightarrow> 'r option) \<Rightarrow> string \<Rightarrow> transport_error + bytes \<Rightarrow> transport_error + 'r" where
  "decode from_slice msg result = (case result of
     Inl e \<Rightarrow> Inl e
   | Inr body \<Rightarrow> (case from_slice body of None \<Rightarrow> Inl (permanent (Format msg [])) | Some v \<Rightarrow> Inr v))"

definition post_json ::
  "http_lib \<Rightarrow> 'w net \<Rightarrow> ('w \<Rightarrow> bool \<times> 'w) \<Rightarrow> (bytes \<Rightarrow> 'r option) \<Rightarrow> http_client \<Rightarrow> url \<Rightarrow> bytes
   \<Rightarrow> 'w \<times> cells \<Rightarrow> (transport_error + 'r) option \<times> 'w \<times> cells" where
  "post_json lib net shutdown from_slice c url value s =
     (let (result, s) = post_reading lib net shutdown c url value s
      in (map_option (decode from_slice ''cannot parse server response: {error}'') result, s))"

definition post_checkin ::
  "http_lib \<Rightarrow> 'w net \<Rightarrow> ('w \<Rightarrow> bool \<times> 'w) \<Rightarrow> (bytes \<Rightarrow> 'r option) \<Rightarrow> 'r \<Rightarrow> http_client \<Rightarrow> bytes
   \<Rightarrow> 'w \<times> cells \<Rightarrow> (transport_error + 'r) option \<times> 'w \<times> cells" where
  "post_checkin lib net shutdown from_slice empty_ack c value s =
     (let (result, s) = post_reading lib net shutdown c (hc_checkin_url c) value s
      in (map_option (map_sum id (\<lambda>body. case from_slice body of None \<Rightarrow> empty_ack | Some ack \<Rightarrow> ack)) result, s))"

section \<open>Jobs\<close>

record job_offer =
  o_job_id :: string
  o_capability :: string
  o_lease_token :: string
  o_nonce :: string
  o_resource_id :: string
  o_binding_version :: nat
  o_expires_at :: system_time

definition message :: "job_offer \<Rightarrow> string \<Rightarrow> bytes" where
  "message offer iid =
     ''renga-job-lease-v1'' @ [char_of (10 :: nat)] @ o_job_id offer @ [char_of (10 :: nat)]
     @ o_lease_token offer @ [char_of (10 :: nat)] @ o_nonce offer @ [char_of (10 :: nat)]
     @ iid @ [char_of (10 :: nat)] @ o_resource_id offer @ [char_of (10 :: nat)]
     @ dec (o_binding_version offer) @ [char_of (10 :: nat)]"

text \<open>
  The installation key's signature in base64url and the encoding of a claim are parameters
  (\<open>ring\<close>, \<open>base64\<close>, \<open>serde_json\<close>).
\<close>

record job_claim =
  jc_lease_token :: string
  jc_nonce :: string
  jc_signature :: string

definition claim_offer ::
  "http_lib \<Rightarrow> 'w net \<Rightarrow> ('w \<Rightarrow> bool \<times> 'w) \<Rightarrow> (string \<Rightarrow> bytes \<Rightarrow> string) \<Rightarrow> (job_claim \<Rightarrow> bytes)
   \<Rightarrow> (bytes \<Rightarrow> 'j option) \<Rightarrow> http_client \<Rightarrow> job_offer \<Rightarrow> 'w \<times> cells
   \<Rightarrow> (transport_error + 'j) option \<times> 'w \<times> cells" where
  "claim_offer lib net shutdown sign to_json from_slice c offer s =
     (case hc_installation_key c of
        None \<Rightarrow> (Some (Inl (permanent (Text ''no installation key to claim a privileged job''))), s)
      | Some key \<Rightarrow>
          (case endpoint_url (l_join lib) (cs_home (hc_settings c))
                  (''/api/v1/agent/jobs/'' @ o_job_id offer @ ''/claims'') of
             Inl e \<Rightarrow> (Some (Inl e), s)
           | Inr url \<Rightarrow>
               let claim = \<lparr>jc_lease_token = o_lease_token offer, jc_nonce = o_nonce offer,
                            jc_signature = sign key (message offer (cs_installation_id (hc_settings c)))\<rparr>;
                   budget = duration_since (o_expires_at offer) (n_utc net (fst s));
                   (result, s) = post_reading_with_budget lib net shutdown c url (to_json claim) budget s
               in (map_option (decode from_slice ''cannot parse server response: {error}'') result, s)))"

fun claim_offers ::
  "http_lib \<Rightarrow> 'w net \<Rightarrow> ('w \<Rightarrow> bool \<times> 'w) \<Rightarrow> (string \<Rightarrow> bytes \<Rightarrow> string) \<Rightarrow> (job_claim \<Rightarrow> bytes)
   \<Rightarrow> (bytes \<Rightarrow> 'j option) \<Rightarrow> http_client \<Rightarrow> job_offer list \<Rightarrow> 'j list \<Rightarrow> 'w \<times> cells
   \<Rightarrow> 'j list option \<times> 'w \<times> cells" where
  "claim_offers lib net shutdown sign to_json from_slice c [] jobs s = (Some jobs, s)"
| "claim_offers lib net shutdown sign to_json from_slice c (offer # offers) jobs s =
     (case claim_offer lib net shutdown sign to_json from_slice c offer s of
        (None, s) \<Rightarrow> (None, s)
      | (Some (Inr job), s) \<Rightarrow> claim_offers lib net shutdown sign to_json from_slice c offers (jobs @ [job]) s
      | (Some (Inl _), s) \<Rightarrow> claim_offers lib net shutdown sign to_json from_slice c offers jobs s)"

text \<open>A decoded lease response: the jobs leased at once and the offers to claim.\<close>

definition lease_jobs ::
  "http_lib \<Rightarrow> 'w net \<Rightarrow> ('w \<Rightarrow> bool \<times> 'w) \<Rightarrow> (string \<Rightarrow> bytes \<Rightarrow> string) \<Rightarrow> (job_claim \<Rightarrow> bytes)
   \<Rightarrow> (bytes \<Rightarrow> 'j option) \<Rightarrow> (string list \<Rightarrow> nat \<Rightarrow> bytes) \<Rightarrow> (bytes \<Rightarrow> ('j list \<times> job_offer list) option)
   \<Rightarrow> http_client \<Rightarrow> string list \<Rightarrow> nat \<Rightarrow> 'w \<times> cells \<Rightarrow> (transport_error + 'j list) option \<times> 'w \<times> cells" where
  "lease_jobs lib net shutdown sign claim_json job_from lease_json lease_from c capabilities limit s =
     (case post_json lib net shutdown lease_from c (hc_lease_url c) (lease_json capabilities limit) s of
        (Some (Inr (jobs, offers)), s) \<Rightarrow>
          (case claim_offers lib net shutdown sign claim_json job_from c offers jobs s of
             (None, s) \<Rightarrow> (None, s) | (Some jobs, s) \<Rightarrow> (Some (Inr jobs), s))
      | (Some (Inl e), s) \<Rightarrow> (Some (Inl e), s)
      | (None, s) \<Rightarrow> (None, s))"

definition events_path :: "string \<Rightarrow> string" where
  "events_path job_id = ''/api/v1/agent/jobs/'' @ job_id @ ''/events''"

definition post_job_report ::
  "http_lib \<Rightarrow> 'w net \<Rightarrow> ('w \<Rightarrow> bool \<times> 'w) \<Rightarrow> (bytes \<Rightarrow> 'r option) \<Rightarrow> http_client \<Rightarrow> string \<Rightarrow> bytes
   \<Rightarrow> 'w \<times> cells \<Rightarrow> (transport_error + 'r) option \<times> 'w \<times> cells" where
  "post_job_report lib net shutdown from_slice c job_id report s =
     (case endpoint_url (l_join lib) (cs_home (hc_settings c)) (events_path job_id) of
        Inl e \<Rightarrow> (Some (Inl e), s)
      | Inr url \<Rightarrow> post_json lib net shutdown from_slice c url report s)"

definition post_job_report_before ::
  "http_lib \<Rightarrow> 'w net \<Rightarrow> ('w \<Rightarrow> bool \<times> 'w) \<Rightarrow> (bytes \<Rightarrow> 'r option) \<Rightarrow> http_client \<Rightarrow> string \<Rightarrow> bytes
   \<Rightarrow> instant \<Rightarrow> 'w \<times> cells \<Rightarrow> (transport_error + 'r) option \<times> 'w \<times> cells" where
  "post_job_report_before lib net shutdown from_slice c job_id report at s =
     (case endpoint_url (l_join lib) (cs_home (hc_settings c)) (events_path job_id) of
        Inl e \<Rightarrow> (Some (Inl e), s)
      | Inr url \<Rightarrow>
          let (result, s) = post_reading_with_budget lib net shutdown c url report (at - n_now net (fst s)) s
          in (map_option (decode from_slice ''cannot parse server response: {error}'') result, s))"

section \<open>Observations and the home deployment\<close>

definition encode_observation :: "('o \<Rightarrow> bytes option) \<Rightarrow> 'o \<Rightarrow> transport_error + bytes" where
  "encode_observation to_vec value =
     (case to_vec value of
        None \<Rightarrow> Inl (transport_error_new (Text ''cannot serialize observation payload'') PayloadRejected)
      | Some body \<Rightarrow>
          if max_observation_bytes < length body
          then Inl (transport_error_new (Format
            ''encoded observation exceeds {MAX_OBSERVATION_BYTES}-byte limit (encoded size: {} bytes)''
            [dec max_observation_bytes, dec (length body)]) PayloadRejected)
          else Inr body)"

definition home_operation ::
  "http_lib \<Rightarrow> 'w net \<Rightarrow> url \<Rightarrow> duration \<Rightarrow> 'w \<Rightarrow> (transport_error + bytes) \<times> 'w" where
  "home_operation lib net url timeout w =
     (case n_send net \<lparr>rq_method = Get, rq_url = url, rq_headers = [], rq_body = [], rq_timeout = timeout\<rparr> w of
        (Inl f, w) \<Rightarrow> (Inl (request_error f), w)
      | (Inr response, w) \<Rightarrow>
          (response_body (l_json lib) (l_rfc2822 lib) (n_utc net w) (n_now net w) response, w))"

definition fetch_home ::
  "http_lib \<Rightarrow> 'w net \<Rightarrow> (url \<Rightarrow> string \<Rightarrow> string \<Rightarrow> url) \<Rightarrow> (bytes \<Rightarrow> string option)
   \<Rightarrow> 'x client_config_scheme \<Rightarrow> string \<Rightarrow> ('w \<Rightarrow> bool \<times> 'w) \<Rightarrow> 'w
   \<Rightarrow> (transport_error + url) option \<times> 'w" where
  "fetch_home lib net append_pair home_from config deployment stop w =
     (case origin_url (l_parse lib) (renga_url config) (allow_insecure_http config) ''Renga server URL'' of
        Inl e \<Rightarrow> (Some (Inl e), w) | Inr base \<Rightarrow>
     (case endpoint_url (l_join lib) base home_path of
        Inl e \<Rightarrow> (Some (Inl e), w) | Inr url \<Rightarrow>
     (case l_tls lib of Inl e \<Rightarrow> (Some (Inl e), w) | Inr _ \<Rightarrow>
     (case l_build lib of Inl e \<Rightarrow> (Some (Inl e), w) | Inr _ \<Rightarrow>
       let url = append_pair url ''deployment'' deployment;
           operation = home_operation lib net url (request_timeout config);
           (result, w) = retry \<lparr>r_now = n_now net, r_operation = operation, r_sleep = n_sleep net, r_cancelled = stop\<rparr>
             (max_retry_attempts config) (request_timeout config) w
       in (map_option (\<lambda>r. case decode home_from ''cannot parse home response: {error}'' r of
             Inl e \<Rightarrow> Inl e
           | Inr home \<Rightarrow> origin_url (l_parse lib) home (allow_insecure_http config) ''home URL'') result, w)))))"

section \<open>Receipts\<close>

record accepted =
  a_status :: string
  a_duplicate :: bool
  a_observation_id :: string
  a_observed_at_millis :: int
  a_position :: nat

text \<open>
  Decoding the receipt, parsing the submitted body and \<open>parse_from_rfc3339\<close> are parameters.
  \<open>submitted["k"]\<close> is \<open>null\<close> when the member is missing; the pointer finds members only.
\<close>

definition validate_observation_receipt ::
  "(bytes \<Rightarrow> accepted option) \<Rightarrow> (bytes \<Rightarrow> json option) \<Rightarrow> (string \<Rightarrow> int option)
   \<Rightarrow> nat \<Rightarrow> bytes \<Rightarrow> bytes \<Rightarrow> transport_error + unit" where
  "validate_observation_receipt decode_receipt from_slice rfc3339_millis st submitted response =
     (let invalid = Inl (permanent (Text ''server did not return a matching durable observation receipt'')) in
      case decode_receipt response of None \<Rightarrow> invalid | Some a \<Rightarrow>
     (case from_slice submitted of None \<Rightarrow> invalid | Some body \<Rightarrow>
     (case Option.bind (Option.bind (json_get ''observed_at'' body) json_as_str) rfc3339_millis of
        None \<Rightarrow> invalid
      | Some observed_at \<Rightarrow>
          if a_status a \<noteq> ''accepted''
            \<or> \<not> (st = 202 \<and> \<not> a_duplicate a \<or> st = 200 \<and> a_duplicate a)
            \<or> a_position a = 0
            \<or> Option.bind (json_get ''observation_id'' body) json_as_str \<noteq> Some (a_observation_id a)
            \<or> observed_at \<noteq> a_observed_at_millis a
            \<or> (case Option.bind (json_get ''source'' body) (json_get ''source_id'') of
                 None \<Rightarrow> False | Some v \<Rightarrow> v \<noteq> JNull)
          then invalid else Inr ())))"

end
