(* ===== verification/Transport_Correct.thy ===== *)
theory Transport_Correct
  imports Transport
begin

text \<open>
  What the client promises about its traffic: which requests go out, when, and with which
  credentials. A network that also logs its requests makes the traffic visible.
\<close>

section \<open>A logged network\<close>

type_synonym wire = "(instant \<times> request) list"

definition logged :: "'w net \<Rightarrow> ('w \<times> wire) net" where
  "logged net =
     \<lparr>n_now = (\<lambda>(w, log). n_now net w), n_utc = (\<lambda>(w, log). n_utc net w),
      n_send = (\<lambda>rq (w, log). let (r, w') = n_send net rq w in (r, (w', log @ [(n_now net w, rq)]))),
      n_sleep = (\<lambda>d (w, log). (n_sleep net d w, log))\<rparr>"

definition silent :: "('w \<Rightarrow> bool \<times> 'w) \<Rightarrow> 'w \<times> wire \<Rightarrow> bool \<times> 'w \<times> wire" where
  "silent stop = (\<lambda>(w, log). let (b, w') = stop w in (b, (w', log)))"

lemma logged_simps [simp]:
  "n_now (logged net) (w, log) = n_now net w"
  "n_utc (logged net) (w, log) = n_utc net w"
  "n_sleep (logged net) d (w, log) = (n_sleep net d w, log)"
  "n_send (logged net) rq (w, log) =
     (fst (n_send net rq w), (snd (n_send net rq w), log @ [(n_now net w, rq)]))"
  "silent stop (w, log) = (fst (stop w), (snd (stop w), log))"
  by (simp_all add: logged_def silent_def case_prod_unfold Let_def)

section \<open>Deadlines the server asked for\<close>

text \<open>
  Once a deadline is on record for a class of requests, none of that class goes out before it.
\<close>

definition honours :: "http_client \<Rightarrow> url \<Rightarrow> instant \<Rightarrow> ('w \<times> wire) \<times> cells \<Rightarrow> bool" where
  "honours c url t s \<longleftrightarrow>
     (\<exists>at. c_deadlines (snd s) (hc_retry_not_before c) (retry_class url) = Some at \<and> t \<le> at)
     \<and> (\<forall>(at, rq) \<in> set (snd (fst s)). t \<le> at)"

lemma remember_keeps_deadline:
  "c_deadlines cells a k = Some at \<Longrightarrow>
   \<exists>at'. c_deadlines (remember_retry_deadline c url r cells) a k = Some at' \<and> at \<le> at'"
  by (auto simp: remember_retry_deadline_def Let_def split: sum.split option.split)

lemma remember_other_class:
  "k \<noteq> retry_class url \<or> a \<noteq> hc_retry_not_before c \<Longrightarrow>
   c_deadlines (remember_retry_deadline c url r cells) a k = c_deadlines cells a k"
  by (auto simp: remember_retry_deadline_def Let_def split: sum.split option.split)

lemma post_attempt_honours:
  fixes read :: "system_time \<Rightarrow> instant \<Rightarrow> response \<Rightarrow> transport_error + 'a"
    and s :: "('w \<times> wire) \<times> cells"
  assumes "honours c url t s"
  shows "honours c url t (snd (post_attempt (logged net) c url read timeout body s))"
proof -
  obtain w log cells where s: "s = ((w, log), cells)" by (metis prod.exhaust)
  obtain at where at: "c_deadlines cells (hc_retry_not_before c) (retry_class url) = Some at" "t \<le> at"
    and log: "\<forall>(at, rq) \<in> set log. t \<le> at"
    using assms by (auto simp: honours_def s)
  show ?thesis
  proof (cases "n_now net w < at")
    case True
    then show ?thesis using assms at by (simp add: post_attempt_def check_retry_deadline_def s)
  next
    case False
    have "honours c url t ((w', log @ [(n_now net w, rq)]), remember_retry_deadline c url r cells)"
      for w' :: 'w and rq and r :: "transport_error + 'a"
      using remember_keeps_deadline[OF at(1), of c url r] at(2) log False by (fastforce simp: honours_def)
    moreover have "honours c url t ((w', log @ [(n_now net w, rq)]), cells)" for w' :: 'w and rq
      using at log False by (auto simp: honours_def)
    ultimately show ?thesis
      using at False by (simp add: post_attempt_def check_retry_deadline_def s Let_def split: prod.split sum.split)
  qed
qed

interpretation delivery: retry_invariant
  "client_env (logged net) (silent stop) (post_attempt (logged net) c url read timeout body)"
  "honours c url t"
  for net :: "'w net" and stop c url and read :: "system_time \<Rightarrow> instant \<Rightarrow> response \<Rightarrow> transport_error + 'a"
    and timeout body t
proof
  fix s :: "('w \<times> wire) \<times> cells" and d
  assume I: "honours c url t s"
  then show "honours c url t (snd (r_operation (client_env (logged net) (silent stop)
      (post_attempt (logged net) c url read timeout body)) s))"
    by (simp add: client_env_def post_attempt_honours)
  obtain w log cells where "s = ((w, log), cells)" by (metis prod.exhaust)
  then show "honours c url t (r_sleep (client_env (logged net) (silent stop)
      (post_attempt (logged net) c url read timeout body)) d s)"
    and "honours c url t (snd (r_cancelled (client_env (logged net) (silent stop)
      (post_attempt (logged net) c url read timeout body)) s))"
    using I by (simp_all add: client_env_def honours_def case_prod_unfold Let_def)
qed

lemma noting_moved_deadlines: "c_deadlines (snd (noting_moved c r cells)) = c_deadlines cells"
  by (auto simp: noting_moved_def split: option.split sum.split)

text \<open>
  C12. When the server has asked a class of requests to wait, a delivery to that class puts
  nothing on the wire before the deadline on record, however often it retries; deadlines on
  record never move closer.
\<close>

theorem throttled_delivery_waits:
  assumes "c_deadlines cells (hc_retry_not_before c) (retry_class url) = Some t"
    and "post_encoded_while lib (logged net) c url body (silent stop) ((w, []), cells) =
      (result, ((w', log), cells'))"
  shows "(\<forall>(at, rq) \<in> set log. t \<le> at)
    \<and> (\<exists>t'. c_deadlines cells' (hc_retry_not_before c) (retry_class url) = Some t' \<and> t \<le> t')"
proof -
  let ?timeout = "min (cs_request_timeout (hc_settings c)) delivery_budget"
  let ?env = "client_env (logged net) (silent stop)
    (post_attempt (logged net) c url (response_result (l_json lib) (l_rfc2822 lib)) ?timeout body)"
  obtain r w1 cells1 where run: "retry ?env (cs_max_retry_attempts (hc_settings c)) ?timeout ((w, []), cells) =
      (r, (w1, cells1))" by (metis prod_cases3)
  have "honours c url t ((w, []), cells)" using assms(1) by (simp add: honours_def)
  from delivery.retry_keeps(2)[OF this] have "honours c url t (w1, cells1)"
    using run by (metis snd_conv)
  moreover have "(w', log) = w1" "c_deadlines cells' = c_deadlines cells1"
    using assms(2) run noting_moved_deadlines[of c r cells1]
    by (auto simp: post_encoded_while_def Let_def split: prod.splits)
  ultimately show ?thesis by (auto simp: honours_def)
qed

text \<open>A client at a sample home, a world that is only a clock, and a server that accepts everything.\<close>

definition sample_url :: "string \<Rightarrow> url" where
  "sample_url path = \<lparr>u_scheme = ''https'', u_host = Some ''renga.example'', u_username = [],
     u_password = None, u_path = path, u_query = None, u_fragment = None\<rparr>"

definition sample_lib :: http_lib where
  "sample_lib =
     \<lparr>l_parse = (\<lambda>s. if s = ''https://renga.example'' then Some (sample_url ''/'') else None),
      l_join = (\<lambda>u p. Some (u\<lparr>u_path := p\<rparr>)), l_header_value = (\<lambda>_. True), l_tls = Inr (), l_build = Inr (),
      l_json = (\<lambda>_. None), l_rfc2822 = (\<lambda>_. None)\<rparr>"

definition sample_config :: client_config where
  "sample_config = \<lparr>renga_url = ''https://renga.example'', allow_insecure_http = False,
     intake_api_key = ''key'', installation_id = ''agent'', request_timeout = secs 5, max_retry_attempts = 3\<rparr>"

definition no_cells :: cells where
  "no_cells = \<lparr>c_next = 0, c_moved = (\<lambda>_. False), c_deadlines = (\<lambda>_. Map.empty)\<rparr>"

definition sample_client :: http_client where
  "sample_client = projr (fst (for_home sample_lib sample_config ''https://renga.example'' no_cells))"

definition sample_net :: "instant net" where
  "sample_net = \<lparr>n_now = id, n_utc = int,
     n_send = (\<lambda>_ t. (Inr \<lparr>resp_status = 200, resp_retry_after = None, resp_body = ''{}'', resp_body_fails = False\<rparr>, t + 1)),
     n_sleep = (\<lambda>d t. t + d)\<rparr>"

definition sample_throttled :: "(transport_error + unit) option \<times> (instant \<times> wire) \<times> cells" where
  "sample_throttled =
     post_encoded_while sample_lib (logged sample_net) sample_client (sample_url observation_path) ''{}''
       (silent (Pair False)) ((0, []), no_cells\<lparr>c_deadlines := (\<lambda>_. [''observations'' \<mapsto> secs 2])\<rparr>)"

theorem throttled_delivery_waits_witness:
  "list_all (\<lambda>(at, rq). secs 2 \<le> at) (snd (fst (snd sample_throttled)))"
proof -
  obtain result w' log cells' where run: "sample_throttled = (result, ((w', log), cells'))" by (metis prod.exhaust)
  have "retry_class (sample_url observation_path) = ''observations''"
    by (simp add: retry_class_def sample_url_def)
  then show ?thesis
    unfolding run using throttled_delivery_waits[OF _ run[unfolded sample_throttled_def], of "secs 2"]
    by (simp add: list_all_iff)
qed

section \<open>Credentials\<close>

definition anonymous :: "'w \<times> wire \<Rightarrow> bool" where
  "anonymous s \<longleftrightarrow> (\<forall>(at, rq) \<in> set (snd s). rq_method rq = Get \<and> rq_headers rq = [] \<and> rq_body rq = [])"

interpretation resolution: retry_invariant
  "\<lparr>r_now = n_now (logged net), r_operation = home_operation lib (logged net) url timeout,
    r_sleep = n_sleep (logged net), r_cancelled = silent stop\<rparr>"
  anonymous
  for lib and net :: "'w net" and url timeout stop
proof
  fix s :: "'w \<times> wire" and d
  assume I: "anonymous s"
  obtain w log where s: "s = (w, log)" by fastforce
  show "anonymous (snd (r_operation \<lparr>r_now = n_now (logged net), r_operation = home_operation lib (logged net) url timeout,
      r_sleep = n_sleep (logged net), r_cancelled = silent stop\<rparr> s))"
    using I by (auto simp: s home_operation_def anonymous_def split: sum.split)
  show "anonymous (r_sleep \<lparr>r_now = n_now (logged net), r_operation = home_operation lib (logged net) url timeout,
      r_sleep = n_sleep (logged net), r_cancelled = silent stop\<rparr> d s)"
    and "anonymous (snd (r_cancelled \<lparr>r_now = n_now (logged net), r_operation = home_operation lib (logged net) url timeout,
      r_sleep = n_sleep (logged net), r_cancelled = silent stop\<rparr> s))"
    using I by (simp_all add: s anonymous_def)
qed

text \<open>
  C23. Asking \<open>renga_url\<close> where the home deployment is never discloses a credential: whatever the
  server answers and however often the agent retries, every request is a plain \<open>GET\<close> with
  neither headers nor body.
\<close>

theorem fetch_home_sends_no_credential:
  assumes "fetch_home lib (logged net) append_pair home_from config deployment (silent stop) (w, []) =
    (result, (w', log))"
  shows "\<forall>(at, rq) \<in> set log. rq_method rq = Get \<and> rq_headers rq = [] \<and> rq_body rq = []"
proof -
  have start: "anonymous (w, [])" by (simp add: anonymous_def)
  note keeps = resolution.retry_keeps(2)[OF start, where lib = lib and net = net
      and timeout = "request_timeout config" and stop = stop]
  have "(w', log) = (w, []) \<or> (\<exists>url. (w', log) = snd (retry
      \<lparr>r_now = n_now (logged net), r_operation = home_operation lib (logged net) url (request_timeout config),
       r_sleep = n_sleep (logged net), r_cancelled = silent stop\<rparr>
      (max_retry_attempts config) (request_timeout config) (w, [])))"
    using assms unfolding fetch_home_def Let_def
    by (simp split: sum.splits add: case_prod_unfold) (metis snd_conv)
  then have "anonymous (w', log)" using start keeps by metis
  then show ?thesis by (simp add: anonymous_def)
qed

definition sample_resolution :: "(transport_error + url) option \<times> instant \<times> wire" where
  "sample_resolution =
     fetch_home sample_lib (logged sample_net) (\<lambda>u k v. u\<lparr>u_query := Some (k @ ''='' @ v)\<rparr>)
       (\<lambda>_. Some ''https://renga.example'') sample_config ''primary'' (silent (Pair False)) (0, [])"

theorem fetch_home_sends_no_credential_witness:
  "list_all (\<lambda>(at, rq). rq_headers rq = []) (snd (snd sample_resolution))"
proof -
  obtain result w' log where run: "sample_resolution = (result, (w', log))" by (metis prod.exhaust)
  show ?thesis
    unfolding run using fetch_home_sends_no_credential[OF run[unfolded sample_resolution_def]]
    by (auto simp: list_all_iff)
qed

section \<open>The move signal\<close>

lemma remember_moved [simp]: "c_moved (remember_retry_deadline c url r cells) = c_moved cells"
  by (auto simp: remember_retry_deadline_def Let_def split: sum.split option.split)

interpretation signals: retry_invariant
  "client_env net stop (post_attempt net c url read timeout body)" "\<lambda>s. c_moved (snd s) = m"
  for net :: "'w net" and stop c url and read :: "system_time \<Rightarrow> instant \<Rightarrow> response \<Rightarrow> transport_error + 'a"
    and timeout body m
  by unfold_locales
    (auto simp: client_env_def post_attempt_def case_prod_unfold Let_def split: option.split sum.split)

text \<open>
  A delivery that hears \<open>410 moved\<close> raises the signal of every client that shares it, one
  that replaced this client for the same home included; any other outcome leaves every signal as
  it was. A client for another home keeps its own signal and never hears the move.
\<close>

lemma moved_reaches_sharing_clients:
  assumes "post_encoded_while lib net c url body stop (w, cells) = (result, (w', cells'))"
    and "next = sharing_moved_signal fresh c"
    and "hc_moved fresh \<noteq> hc_moved c"
  shows "((\<exists>e. result = Some (Inl e) \<and> te_moved e) \<longrightarrow>
      fst (take_moved next cells') =
        (cs_home (hc_settings fresh) = cs_home (hc_settings c) \<or> fst (take_moved next cells)))
    \<and> (\<not> (\<exists>e. result = Some (Inl e) \<and> te_moved e) \<longrightarrow> c_moved cells' = c_moved cells)"
proof -
  let ?timeout = "min (cs_request_timeout (hc_settings c)) delivery_budget"
  let ?env = "client_env net stop
    (post_attempt net c url (response_result (l_json lib) (l_rfc2822 lib)) ?timeout body)"
  obtain r w1 cells1 where run: "retry ?env (cs_max_retry_attempts (hc_settings c)) ?timeout (w, cells) =
      (r, (w1, cells1))" by (metis prod_cases3)
  then have same: "c_moved cells1 = c_moved cells"
    using signals.retry_keeps(2)[of "(w, cells)" "c_moved cells"] by (metis snd_conv)
  have "result = r" "cells' = snd (noting_moved c r cells1)"
    using assms(1) run by (auto simp: post_encoded_while_def noting_moved_def Let_def split: option.splits sum.splits)
  then show ?thesis
    using same assms(2,3)
    by (auto simp: noting_moved_def take_moved_def sharing_moved_signal_def split: option.splits sum.splits)
qed

text \<open>A server that has moved, and a client that replaces the sample client for the same home.\<close>

definition moved_net :: "instant net" where
  "moved_net = sample_net\<lparr>n_send := (\<lambda>_ t. (Inr \<lparr>resp_status = 410, resp_retry_after = None,
     resp_body = ''moved'', resp_body_fails = False\<rparr>, t + 1))\<rparr>"

end
