(* ===== verification/Delivery.thy ===== *)
theory Delivery
  imports Queue_Correct Transport
begin

text \<open>
  The delivery work of \<open>src/agent/src/main.rs\<close>: the pair of queues a delivery thread owns, the
  inventory and flush passes over them, and the sinks collector modules queue their reports
  through. A pass runs in the caller's world \<open>w\<close>; the clocks, the lock, the cancellation token
  and the client's two POST methods are functions of it.
\<close>

section \<open>The pair of queues\<close>

definition telemetry_per_flush :: nat where "telemetry_per_flush = 120"
definition inventory_defer :: duration where "inventory_defer = secs 1"
definition flush_defer :: duration where "flush_defer = secs 1"
definition queue_lock_poll :: duration where "queue_lock_poll = millis 25"

text \<open>
  Each queue with the disk it is on. A queue publishes its health to its own monitor and starts
  with an empty one, so the monitors are read from the queues.
\<close>

record delivery_queue =
  dq_state_directory :: string
  dq_queue :: "disk_queue option"
  dq_telemetry :: "disk_queue option"
  dq_disk :: disk
  dq_telemetry_disk :: disk

record 'w delivery_env =
  v_is_uuid :: "string \<Rightarrow> bool"
  v_system_time :: "'w \<Rightarrow> system_time"
  v_cancelled :: "'w \<Rightarrow> bool \<times> 'w"
  v_try_lock :: "'w \<Rightarrow> bool \<times> 'w"
  v_sleep :: "duration \<Rightarrow> 'w \<Rightarrow> 'w"
  v_place :: "queue_kind \<Rightarrow> 'w \<Rightarrow> place"
  v_new_v4 :: "'w \<Rightarrow> string"
  v_post_observation :: "bytes \<Rightarrow> 'w \<Rightarrow> (transport_error + unit) \<times> 'w"
  v_post_telemetry :: "bytes \<Rightarrow> 'w \<Rightarrow> (transport_error + unit) \<times> 'w"

definition monitor_observations :: "delivery_queue \<Rightarrow> queue_health option" where
  "monitor_observations dq = Option.bind (dq_queue dq) q_monitor"

definition monitor_telemetry :: "delivery_queue \<Rightarrow> queue_health option" where
  "monitor_telemetry dq = Option.bind (dq_telemetry dq) q_monitor"

definition dq_open ::
  "'w delivery_env \<Rightarrow> string \<Rightarrow> queue_kind \<Rightarrow> disk_queue option \<Rightarrow> disk \<Rightarrow> 'w
   \<Rightarrow> (queue_error + disk_queue) \<times> disk" where
  "dq_open env state_directory kind queue d w =
     (case queue of
        Some q \<Rightarrow> (Inr q, d)
      | None \<Rightarrow> open_queue (v_is_uuid env) state_directory (v_place env kind w) kind (default_limits kind) None
                 (v_system_time env w) d)"

definition ready ::
  "'w delivery_env \<Rightarrow> delivery_queue \<Rightarrow> 'w \<Rightarrow> (queue_error + disk_queue) \<times> delivery_queue" where
  "ready env dq w =
     (case dq_open env (dq_state_directory dq) Observations (dq_queue dq) (dq_disk dq) w of
        (Inr q, d) \<Rightarrow> (Inr q, dq\<lparr>dq_queue := Some q, dq_disk := d\<rparr>)
      | (Inl e, d) \<Rightarrow> (Inl e, dq\<lparr>dq_disk := d\<rparr>))"

definition telemetry_ready ::
  "'w delivery_env \<Rightarrow> delivery_queue \<Rightarrow> 'w \<Rightarrow> (queue_error + disk_queue) \<times> delivery_queue" where
  "telemetry_ready env dq w =
     (case dq_open env (dq_state_directory dq) Telemetry (dq_telemetry dq) (dq_telemetry_disk dq) w of
        (Inr q, d) \<Rightarrow> (Inr q, dq\<lparr>dq_telemetry := Some q, dq_telemetry_disk := d\<rparr>)
      | (Inl e, d) \<Rightarrow> (Inl e, dq\<lparr>dq_telemetry_disk := d\<rparr>))"

definition delivery_queue_new :: "'w delivery_env \<Rightarrow> string \<Rightarrow> disk \<Rightarrow> disk \<Rightarrow> 'w \<Rightarrow> delivery_queue" where
  "delivery_queue_new env state_directory d td w =
     (let dq = \<lparr>dq_state_directory = state_directory, dq_queue = None, dq_telemetry = None,
                dq_disk = d, dq_telemetry_disk = td\<rparr>;
          dq = snd (ready env dq w)
      in snd (telemetry_ready env dq w))"

section \<open>The delivery worker\<close>

datatype delivery_task = InventoryTask | FlushTask

fun next_flush :: "delivery_task option \<Rightarrow> duration" where
  "next_flush (Some InventoryTask) = flush_defer"
| "next_flush (Some FlushTask) = flush_interval"
| "next_flush None = flush_interval"

text \<open>A worker is its task and whether its thread has finished.\<close>

record delivery_worker =
  dw_task :: delivery_task
  dw_finished :: bool

definition running :: "delivery_worker option \<Rightarrow> delivery_task option" where
  "running worker = (case worker of Some w \<Rightarrow> if \<not> dw_finished w then Some (dw_task w) else None | None \<Rightarrow> None)"

section \<open>Taking the queue\<close>

text \<open>
  The wait for the lock may never end, which is \<open>None\<close>; \<open>False\<close> means cancelled.
\<close>

partial_function (option) lock_until_cancelled :: "'w delivery_env \<Rightarrow> 'w \<Rightarrow> (bool \<times> 'w) option" where
  "lock_until_cancelled env w =
     (case v_cancelled env w of (stop, w) \<Rightarrow>
        if stop then Some (False, w)
        else (case v_try_lock env w of (got, w) \<Rightarrow>
          if got then Some (True, w)
          else lock_until_cancelled env (v_sleep env queue_lock_poll w)))"

datatype failure = Message error_text | QueueFailure queue_error | TransportFailure transport_error

definition report_queue :: "(string \<Rightarrow> bool) \<Rightarrow> disk_queue \<Rightarrow> disk \<Rightarrow> disk" where
  \<comment> \<open>only the health read touches the directory; the rest is logging\<close>
  "report_queue is_uuid q d = snd (health is_uuid q d)"

section \<open>Delivering an observation\<close>

text \<open>The closure of the drain notes the outcome of the observation at hand.\<close>

definition noting_outcome ::
  "(bytes \<Rightarrow> 'w \<Rightarrow> (transport_error + unit) \<times> 'w) \<Rightarrow> bytes \<Rightarrow> bytes
   \<Rightarrow> 'w \<times> (transport_error + unit) option \<Rightarrow> (transport_error + unit) \<times> 'w \<times> (transport_error + unit) option" where
  "noting_outcome post body entry s =
     (let (result, w) = post entry (fst s)
      in (result, (w, if entry = body then Some result else snd s)))"

definition beside :: "('w \<Rightarrow> bool \<times> 'w) \<Rightarrow> 'w \<times> 'o \<Rightarrow> bool \<times> 'w \<times> 'o" where
  "beside stop s = (let (b, w) = stop (fst s) in (b, (w, snd s)))"

definition delivery_cancelled :: failure where
  "delivery_cancelled = Message (Text ''observation delivery cancelled'')"

definition delivery_outcome ::
  "string \<Rightarrow> (transport_error + unit) option \<Rightarrow> drained \<Rightarrow> failure + string" where
  "delivery_outcome observation_id outcome tally =
     (case outcome of
        Some (Inr _) \<Rightarrow> Inr observation_id
      | Some (Inl e) \<Rightarrow>
          if te_kind e = PayloadRejected then Inl (TransportFailure e)
          else Inl (Message (Format ''observation {observation_id} queued for retry: {error}'' [observation_id]))
      | None \<Rightarrow>
          (case blocked tally of
             Some e \<Rightarrow> Inl (Message (Format
               ''observation {observation_id} queued behind an undelivered one: {error}'' [observation_id]))
           | None \<Rightarrow> Inl (Message (Format ''observation {observation_id} queued; delivery was cancelled'' [observation_id]))))"

text \<open>With the lock held: queue the body, or send it directly when it cannot be queued, then drain.\<close>

definition deliver_locked ::
  "'w delivery_env \<Rightarrow> string \<Rightarrow> bytes \<Rightarrow> delivery_queue \<Rightarrow> 'w \<Rightarrow> (failure + string) \<times> delivery_queue \<times> 'w" where
  "deliver_locked env observation_id body dq w =
     (case v_cancelled env w of
        (True, w) \<Rightarrow> (Inl delivery_cancelled, dq, w)
      | (False, w) \<Rightarrow>
          let (opened, dq) = ready env dq w;
              (queued, dq) =
                (case opened of
                   Inl e \<Rightarrow> (Inl e, dq)
                 | Inr q \<Rightarrow>
                     let (r, q, d) = enqueue (v_is_uuid env) (v_new_v4 env w) observation_id body
                           (v_system_time env w) q (dq_disk dq)
                     in (map_sum id (\<lambda>_. q) r, dq\<lparr>dq_queue := Some q, dq_disk := d\<rparr>))
          in (case queued of
            Inl _ \<Rightarrow>
              (case v_cancelled env w of
                 (True, w) \<Rightarrow> (Inl delivery_cancelled, dq, w)
               | (False, w) \<Rightarrow>
                   (case v_post_observation env body w of
                      (Inl e, w) \<Rightarrow> (Inl (TransportFailure e), dq, w)
                    | (Inr _, w) \<Rightarrow> (Inr observation_id, dq, w)))
          | Inr q \<Rightarrow>
              (case drain (v_is_uuid env) (v_system_time env w) (beside (v_cancelled env))
                      (noting_outcome (v_post_observation env) body) q (dq_disk dq) (w, None) of
                 (Inl e, q, d, (w, _)) \<Rightarrow> (Inl (QueueFailure e), dq\<lparr>dq_queue := Some q, dq_disk := d\<rparr>, w)
               | (Inr tally, q, d, (w, outcome)) \<Rightarrow>
                   (delivery_outcome observation_id outcome tally,
                    dq\<lparr>dq_queue := Some q, dq_disk := report_queue (v_is_uuid env) q d\<rparr>, w))))"

definition deliver_observation ::
  "'w delivery_env \<Rightarrow> string \<Rightarrow> bytes \<Rightarrow> delivery_queue \<Rightarrow> 'w
   \<Rightarrow> ((failure + string) \<times> delivery_queue \<times> 'w) option" where
  "deliver_observation env observation_id body dq w =
     (case lock_until_cancelled env w of
        None \<Rightarrow> None
      | Some (False, w) \<Rightarrow> Some (Inl delivery_cancelled, dq, w)
      | Some (True, w) \<Rightarrow> Some (deliver_locked env observation_id body dq w))"

text \<open>Collecting the facts and building the observation are parameters of the inventory pass.\<close>

definition send_inventory ::
  "'w delivery_env \<Rightarrow> ('w \<Rightarrow> (failure + 'o) \<times> 'w) \<Rightarrow> ('o \<Rightarrow> string) \<Rightarrow> ('o \<Rightarrow> bytes option)
   \<Rightarrow> delivery_queue \<Rightarrow> 'w \<Rightarrow> ((failure + string) \<times> delivery_queue \<times> 'w) option" where
  "send_inventory env collect id_of to_vec dq w =
     (case collect w of
        (Inl e, w) \<Rightarrow> Some (Inl e, dq, w)
      | (Inr observation, w) \<Rightarrow>
          (case encode_observation to_vec observation of
             Inl e \<Rightarrow> Some (Inl (TransportFailure e), dq, w)
           | Inr body \<Rightarrow>
               (case v_cancelled env w of
                  (True, w) \<Rightarrow> Some (Inl delivery_cancelled, dq, w)
                | (False, w) \<Rightarrow> deliver_observation env (id_of observation) body dq w)))"

section \<open>Flush\<close>

definition flush ::
  "'w delivery_env \<Rightarrow> delivery_queue \<Rightarrow> 'w \<Rightarrow> (failure + unit) \<times> delivery_queue \<times> 'w" where
  "flush env dq w =
     (case ready env dq w of
        (Inl e, dq) \<Rightarrow> (Inl (QueueFailure e), dq, w)
      | (Inr q, dq) \<Rightarrow>
     (case drain (v_is_uuid env) (v_system_time env w) (v_cancelled env) (v_post_observation env) q (dq_disk dq) w of
        (Inl e, q, d, w) \<Rightarrow> (Inl (QueueFailure e), dq\<lparr>dq_queue := Some q, dq_disk := d\<rparr>, w)
      | (Inr tally, q, d, w) \<Rightarrow>
          let dq = dq\<lparr>dq_queue := Some q, dq_disk := report_queue (v_is_uuid env) q d\<rparr> in
          (case blocked tally of
             Some e \<Rightarrow> (if is_cancelled e then Inr () else Inl (TransportFailure e), dq, w)
           | None \<Rightarrow>
     (case telemetry_ready env dq w of
        (Inl e, dq) \<Rightarrow> (Inl (QueueFailure e), dq, w)
      | (Inr q, dq) \<Rightarrow>
     (case drain_at_most (v_is_uuid env) (v_system_time env w) telemetry_per_flush (v_cancelled env)
             (v_post_telemetry env) q (dq_telemetry_disk dq) w of
        (Inl e, q, d, w) \<Rightarrow> (Inl (QueueFailure e), dq\<lparr>dq_telemetry := Some q, dq_telemetry_disk := d\<rparr>, w)
      | (Inr tally, q, d, w) \<Rightarrow>
          let dq = dq\<lparr>dq_telemetry := Some q, dq_telemetry_disk := report_queue (v_is_uuid env) q d\<rparr> in
          (case blocked tally of
             Some e \<Rightarrow> (if is_cancelled e then Inr () else Inl (TransportFailure e), dq, w)
           | None \<Rightarrow> (Inr (), dq, w)))))))"

section \<open>Sinks and start-up\<close>

definition queue_sink ::
  "'w delivery_env \<Rightarrow> string \<Rightarrow> bytes \<Rightarrow> delivery_queue \<Rightarrow> 'w \<Rightarrow> (delivery_queue \<times> 'w) option" where
  "queue_sink env observation_id body dq w =
     (case lock_until_cancelled env w of
        None \<Rightarrow> None
      | Some (False, w) \<Rightarrow> Some (dq, w)
      | Some (True, w) \<Rightarrow>
          (case ready env dq w of
             (Inl _, dq) \<Rightarrow> Some (dq, w)
           | (Inr q, dq) \<Rightarrow>
               let (_, q, d) = enqueue (v_is_uuid env) (v_new_v4 env w) observation_id body (v_system_time env w) q (dq_disk dq)
               in Some (dq\<lparr>dq_queue := Some q, dq_disk := d\<rparr>, w)))"

definition telemetry_sink ::
  "'w delivery_env \<Rightarrow> string \<Rightarrow> bytes \<Rightarrow> delivery_queue \<Rightarrow> 'w \<Rightarrow> (delivery_queue \<times> 'w) option" where
  "telemetry_sink env replay_id body dq w =
     (case lock_until_cancelled env w of
        None \<Rightarrow> None
      | Some (False, w) \<Rightarrow> Some (dq, w)
      | Some (True, w) \<Rightarrow>
          (case telemetry_ready env dq w of
             (Inl _, dq) \<Rightarrow> Some (dq, w)
           | (Inr q, dq) \<Rightarrow>
               let (_, q, d) = enqueue (v_is_uuid env) (v_new_v4 env w) replay_id body (v_system_time env w) q
                     (dq_telemetry_disk dq)
               in Some (dq\<lparr>dq_telemetry := Some q, dq_telemetry_disk := d\<rparr>, w)))"

text \<open>\<open>Operations\<close>: each returns its failure as a printed text, if any.\<close>

definition deliver_startup :: "('w \<Rightarrow> string option \<times> 'w) \<Rightarrow> ('w \<Rightarrow> string option \<times> 'w) \<Rightarrow> 'w \<Rightarrow> string list \<times> 'w" where
  "deliver_startup send_checkin send_inv w =
     (let (c, w) = send_checkin w; (i, w) = send_inv w in
      (List.map_filter (\<lambda>(name, result). map_option (\<lambda>e. name @ '': '' @ e) result)
         [(''check-in'', c), (''inventory'', i)], w))"

fun join_with :: "string \<Rightarrow> string list \<Rightarrow> string" where
  "join_with sep [] = []"
| "join_with sep [x] = x"
| "join_with sep (x # y # xs) = x @ sep @ join_with sep (y # xs)"

definition aggregated_result :: "string list \<Rightarrow> string + unit" where
  "aggregated_result failures = (if failures = [] then Inr () else Inl (join_with ''; '' failures))"

end
