(* ===== verification/Delivery_Correct.thy ===== *)
theory Delivery_Correct
  imports Delivery
begin

text \<open>
  The promises of the delivery work: an observation is never lost silently, observations go
  before telemetry, and telemetry takes a bounded share of a flush.
\<close>

section \<open>The outcome of one observation\<close>

lemma noting_outcome_simps [simp]:
  "noting_outcome post body entry (w, out) =
     (fst (post entry w), (snd (post entry w), if entry = body then Some (fst (post entry w)) else out))"
  "beside stop (w, out) = (fst (stop w), (snd (stop w), out))"
  by (simp_all add: noting_outcome_def beside_def case_prod_unfold Let_def)

lemma offer_outcome:
  assumes "offer limit (beside stop) (noting_outcome post body) (cs @ [(n, at, body)]) offered tally (w, None) =
      (tally', left, (w', outcome))"
    and "body \<notin> set (map (snd \<circ> snd) cs)"
  shows "(\<exists>w0 u. fst (post body w0) = Inr u \<and> outcome = Some (Inr u) \<and> left = [])
    \<or> (\<exists>e. outcome = Some (Inl e) \<and> te_kind e = PayloadRejected \<and> left = [])
    \<or> (\<exists>e. outcome = Some (Inl e) \<and> te_kind e \<noteq> PayloadRejected \<and> left = [(n, at, body)])
    \<or> (outcome = None \<and> left \<noteq> [] \<and> last left = (n, at, body))"
  using assms
proof (induction cs arbitrary: offered tally w)
  case Nil
  then show ?case
    by (auto split: bool.splits if_splits sum.splits)
next
  case (Cons c cs)
  obtain n' at' entry where c: "c = (n', at', entry)" by (cases c)
  have ne: "entry \<noteq> body" using Cons.prems(2) by (auto simp: c)
  obtain halt w1 where st: "stop w = (halt, w1)" by fastforce
  obtain r w2 where dl: "post entry w1 = (r, w2)" by fastforce
  show ?case
  proof (cases "halt \<or> limit \<le> offered \<or> (\<exists>e. r = Inl e \<and> te_kind e \<noteq> PayloadRejected)")
    case True
    then show ?thesis using Cons.prems(1) c ne st dl by (cases halt) (auto split: if_splits)
  next
    case False
    then obtain tally1 where "offer limit (beside stop) (noting_outcome post body) (cs @ [(n, at, body)])
        (offered + 1) tally1 (w2, None) = (tally', left, (w', outcome))"
      using Cons.prems(1) c ne st dl by (cases r) auto
    then show ?thesis using Cons.IH Cons.prems(2) by simp
  qed
qed

lemma health_calm_disk: "calm d \<Longrightarrow> snd (health is_uuid q d) = d"
  by (simp add: health_def entries_calm)

lemma floor_second_fresh:
  "0 \<le> now \<Longrightarrow> secs 1 \<le> m \<Longrightarrow> \<not> m < duration_since now (int (secs (as_secs (nat now))))"
proof -
  assume "0 \<le> now" "secs 1 \<le> m"
  then have "nat now = as_secs (nat now) * 1000000000 + nat now mod 1000000000"
    "nat now mod 1000000000 < 1000000000"
    by (simp_all add: as_secs_def)
  then show ?thesis
    using \<open>0 \<le> now\<close> \<open>secs 1 \<le> m\<close> by (simp add: duration_since_def secs_def)
qed

text \<open>Queueing a body and draining at the same moment, seen through the contents.\<close>

lemma enqueue_then_drain:
  fixes w :: 'w
  assumes "calm d" and "0 \<le> now" and "now < 1000000000000 * 1000000000"
    and "length body \<le> max_bytes (q_limits q)" and "secs 1 \<le> max_age (q_limits q)" and "is_uuid i"
    and "list_all (\<lambda>c. byte_of c < 128) i" and "q_next_sequence q \<le> u64_max"
    and "es = fresh_entries is_uuid q now (d_files d)"
    and "\<And>e. e \<in> set es \<Longrightarrow> e_sequence e < u64_max"
    and "map_of (d_files d) (temporary_prefix @ t) = None"
    and "\<And>node. map_of (d_files d) (entry_name (next_sequence_of q es) now i) = Some node \<Longrightarrow> is_File node"
  obtains q1 d1 cs n at tally q2 d2 w2 where
    "enqueue is_uuid t i body now q d = (Inr (), q1, d1)"
    "set cs \<subseteq> set (contents is_uuid (d_files d))"
    "drain is_uuid now stop deliver q1 d1 w = (Inr tally, q2, d2, w2)" "calm d2"
    "offer u64_max stop deliver (cs @ [(n, at, body)]) 0 no_drained w =
      (tally, contents is_uuid (d_files d2), w2)"
proof -
  let ?n = "next_sequence_of q es" and ?at = "int (secs (as_secs (nat now)))"
  let ?live = "\<lambda>(_, at, _). \<not> max_age (q_limits q) < duration_since now at"
  have name: "Option.bind (to_str (entry_name ?n now i)) (parse_entry_name is_uuid) = Some (?n, ?at)"
    using ascii_entry_name[OF assms(7)] parse_entry_name_of[of is_uuid i ?n now] next_sequence_le assms(2,3,6,8)
    by simp
  obtain k q1 d1 where e: "enqueue is_uuid t i body now q d = (Inr (), q1, d1)" "calm d1"
    "q_limits q1 = q_limits q"
    "contents is_uuid (d_files d1) = drop k (filter ?live (contents is_uuid (d_files d))) @ [(entry_name ?n now i, ?at, body)]"
    by (rule enqueue_calm[OF assms(1,4,9) refl assms(11,12) name assms(10)])
  have "filter ?live (contents is_uuid (d_files d1)) = contents is_uuid (d_files d1)"
    unfolding e(4) using floor_second_fresh[OF assms(2,5)] by (auto simp: filter_id_conv dest: in_set_dropD)
  then obtain q2 d2 w2 tally where "drain is_uuid now stop deliver q1 d1 w = (Inr tally, q2, d2, w2)" "calm d2"
    "offer u64_max stop deliver (contents is_uuid (d_files d1)) 0 no_drained w = (tally, contents is_uuid (d_files d2), w2)"
    using drain_at_most_calm[OF e(2), of is_uuid now u64_max stop deliver q1 w] e(3)
    by (auto simp: drain_def)
  moreover have "set (drop k (filter ?live (contents is_uuid (d_files d)))) \<subseteq> set (contents is_uuid (d_files d))"
    by (auto dest: in_set_dropD)
  ultimately show ?thesis
    using that[OF e(1), of "drop k (filter ?live (contents is_uuid (d_files d)))"] unfolding e(4) by blast
qed


definition sample_delivery_env :: "unit delivery_env" where
  "sample_delivery_env =
     \<lparr>v_is_uuid = sample_uuid, v_system_time = (\<lambda>_. int (secs 50)), v_cancelled = Pair False, v_try_lock = Pair True,
      v_sleep = (\<lambda>_ w. w), v_place = (\<lambda>_ _. Directory), v_new_v4 = (\<lambda>_. ''t''),
      v_post_observation = (\<lambda>_. Pair (Inr ())), v_post_telemetry = (\<lambda>_. Pair (Inr ()))\<rparr>"

definition sample_delivery :: delivery_queue where
  "sample_delivery = \<lparr>dq_state_directory = ''state'', dq_queue = Some sample_queue, dq_telemetry = Some sample_queue,
     dq_disk = sample_disk, dq_telemetry_disk = sample_disk\<rparr>"

lemma sample_contents: "contents sample_uuid (d_files sample_disk) = [(entry_name 0 0 sample_id, 0, ''old'')]"
  by (simp add: contents_def sample_queued) (simp add: sample_disk_def)

lemma sample_delivery_simps:
  "dq_queue sample_delivery = Some sample_queue" "dq_telemetry sample_delivery = Some sample_queue"
  "dq_disk sample_delivery = sample_disk" "dq_telemetry_disk sample_delivery = sample_disk"
  "v_is_uuid sample_delivery_env = sample_uuid" "v_system_time sample_delivery_env u = int (secs 50)"
  "v_cancelled sample_delivery_env u = (False, u)" "v_try_lock sample_delivery_env u = (True, u)"
  "v_new_v4 sample_delivery_env u = ''t''" "v_post_observation sample_delivery_env body u = (Inr (), u)"
  by (simp_all add: sample_delivery_def sample_delivery_env_def)

lemma sample_queue_simps:
  "max_bytes (q_limits sample_queue) = 10" "max_age (q_limits sample_queue) = secs 100"
  "q_next_sequence sample_queue = 1"
  by (simp_all add: sample_queue_def)

lemma sample_only_files: "map_of (d_files sample_disk) name = Some node \<Longrightarrow> is_File node"
  by (auto simp: sample_disk_def split: if_splits)


section \<open>Flush\<close>

abbreviation live_contents :: "(string \<Rightarrow> bool) \<Rightarrow> disk_queue \<Rightarrow> system_time \<Rightarrow> disk \<Rightarrow> (string \<times> system_time \<times> bytes) list" where
  "live_contents is_uuid q now d \<equiv>
     filter (\<lambda>(_, at, _). \<not> max_age (q_limits q) < duration_since now at) (contents is_uuid (d_files d))"

text \<open>
  C10. A flush over undisturbed queues offers the observations oldest first. While an observation
  blocks, telemetry is not touched and nothing more is sent; otherwise a flush offers at most
  120 of the oldest telemetry batches, and both queues keep exactly what is still undelivered.
\<close>

theorem flush_observations_first:
  assumes "dq_queue dq = Some q" and "dq_telemetry dq = Some tq"
    and "calm (dq_disk dq)" and "calm (dq_telemetry_disk dq)"
    and "flush env dq w = (r, dq', w')"
  shows "\<exists>tally w1.
    offer u64_max (v_cancelled env) (v_post_observation env)
      (live_contents (v_is_uuid env) q (v_system_time env w) (dq_disk dq)) 0 no_drained w =
      (tally, contents (v_is_uuid env) (d_files (dq_disk dq')), w1)
    \<and> (case blocked tally of
         Some e \<Rightarrow> w' = w1 \<and> dq_telemetry_disk dq' = dq_telemetry_disk dq \<and> dq_telemetry dq' = Some tq
           \<and> r = (if is_cancelled e then Inr () else Inl (TransportFailure e))
       | None \<Rightarrow> \<exists>tally2.
           offer telemetry_per_flush (v_cancelled env) (v_post_telemetry env)
             (live_contents (v_is_uuid env) tq (v_system_time env w1) (dq_telemetry_disk dq)) 0 no_drained w1 =
             (tally2, contents (v_is_uuid env) (d_files (dq_telemetry_disk dq')), w')
           \<and> (r = Inr () \<longleftrightarrow> pred_option is_cancelled (blocked tally2)))"
proof -
  let ?u = "v_is_uuid env" and ?now = "v_system_time env w"
  obtain q1 d1 w1 tally where o: "drain ?u ?now (v_cancelled env) (v_post_observation env) q (dq_disk dq) w =
      (Inr tally, q1, d1, w1)" "calm d1"
    "offer u64_max (v_cancelled env) (v_post_observation env) (live_contents ?u q ?now (dq_disk dq)) 0 no_drained w =
      (tally, contents ?u (d_files d1), w1)"
    using drain_at_most_calm[OF assms(3), of ?u ?now u64_max "v_cancelled env" "v_post_observation env" q w]
    by (auto simp: drain_def)
  obtain q2 d2 w2 tally2 where t: "drain_at_most ?u (v_system_time env w1) telemetry_per_flush (v_cancelled env)
      (v_post_telemetry env) tq (dq_telemetry_disk dq) w1 = (Inr tally2, q2, d2, w2)" "calm d2"
    "offer telemetry_per_flush (v_cancelled env) (v_post_telemetry env)
      (live_contents ?u tq (v_system_time env w1) (dq_telemetry_disk dq)) 0 no_drained w1 =
      (tally2, contents ?u (d_files d2), w2)"
    using drain_at_most_calm[OF assms(4), of ?u "v_system_time env w1" telemetry_per_flush "v_cancelled env"
        "v_post_telemetry env" tq w1] by auto
  note defs = flush_def ready_def telemetry_ready_def dq_open_def report_queue_def
    health_calm_disk[OF o(2)] health_calm_disk[OF t(2)] Let_def
  show ?thesis
  proof (cases "blocked tally")
    case (Some e)
    then have "r = (if is_cancelled e then Inr () else Inl (TransportFailure e))" "w' = w1"
      "dq' = dq\<lparr>dq_queue := Some q1, dq_disk := d1\<rparr>"
      using assms(1,5) o(1) by (simp_all add: defs)
    then show ?thesis using o(3) assms(2) Some by (intro exI[of _ tally] exI[of _ w1]) simp
  next
    case None
    then have "w' = w2" "dq' = dq\<lparr>dq_queue := Some q1, dq_disk := d1, dq_telemetry := Some q2, dq_telemetry_disk := d2\<rparr>"
      "r = (case blocked tally2 of Some e \<Rightarrow> if is_cancelled e then Inr () else Inl (TransportFailure e) | None \<Rightarrow> Inr ())"
      using assms(1,2,5) o(1) t(1) by (cases "blocked tally2"; auto simp: defs)+
    then show ?thesis
      using o(3) t(3) None by (intro exI[of _ tally] exI[of _ w1]) (simp split: option.split)
  qed
qed

theorem flush_observations_first_witness:
  "case flush sample_delivery_env sample_delivery () of
     (r, dq', w') \<Rightarrow> contents sample_uuid (d_files (dq_disk dq')) = []"
proof -
  obtain r dq' w' where run: "flush sample_delivery_env sample_delivery () = (r, dq', w')" by (metis prod.exhaust)
  show ?thesis
    unfolding run
    using flush_observations_first[OF _ _ _ _ run, of sample_queue sample_queue, unfolded sample_delivery_simps
        sample_queue_simps sample_contents] sample_calm
    by (auto simp: duration_since_def secs_def u64_max_def sample_delivery_simps)
qed

end
