(* ===== verification/Capabilities.thy ===== *)
theory Capabilities
  imports Decimal
begin

text \<open>
  The job vocabulary of \<open>src/agent/src/jobs/mod.rs\<close>: capability keys and names, the operator's
  policy, and the catalog of compiled-in capabilities.
\<close>

section \<open>Capabilities\<close>

datatype risk_class = Observe | Operate | Interactive
datatype run_class = Idempotent | Convergent | Imperative

datatype job_failure = JobCancelled | JobFailed string

text \<open>
  What the \<open>Capability\<close> trait reports of an implementation; \<open>run\<close> is part of the worker's world.
  \<open>cap_enabled_by_default\<close> is the trait's default, or what an implementation overrides it with.
\<close>

record capability =
  cap_name :: string
  cap_version :: nat
  cap_risk_class :: risk_class
  cap_retry_class :: run_class
  cap_timeout :: nat
  cap_override :: "bool option"

definition enabled_by_default :: "capability \<Rightarrow> bool" where
  "enabled_by_default c = (case cap_override c of Some b \<Rightarrow> b | None \<Rightarrow> cap_risk_class c = Observe)"

definition cap_key :: "capability \<Rightarrow> string" where
  "cap_key c = cap_name c @ ''@'' @ dec (cap_version c)"

section \<open>Keys and names\<close>

record capability_key =
  k_name :: string
  k_version :: nat

definition valid_segment :: "string \<Rightarrow> bool" where
  "valid_segment s = (case s of [] \<Rightarrow> False
     | b # bs \<Rightarrow> is_ascii_lowercase b
         \<and> list_all (\<lambda>b. is_ascii_lowercase b \<or> is_ascii_digit b \<or> b = CHR ''_'') bs)"

definition valid_name :: "string \<Rightarrow> bool" where
  "valid_name name =
     (let segments = split_on CHR ''.'' name in 2 \<le> length segments \<and> list_all valid_segment segments)"

definition parse_key :: "string \<Rightarrow> capability_key option" where
  "parse_key key =
     Option.bind (split_once CHR ''@'' key) (\<lambda>(name, raw_version).
     Option.bind (parse_uint u32_max raw_version) (\<lambda>version.
       if version = 0 then None
       else if \<not> valid_name name \<or> dec version \<noteq> raw_version then None
       else Some \<lparr>k_name = name, k_version = version\<rparr>))"

definition display_key :: "capability_key \<Rightarrow> string" where
  "display_key k = k_name k @ ''@'' @ dec (k_version k)"

section \<open>Policy and catalog\<close>

datatype selector = Name string | Key capability_key

definition parse_selector :: "string \<Rightarrow> selector option" where
  "parse_selector entry =
     (if CHR ''@'' \<in> set entry then map_option Key (parse_key entry)
      else if valid_name entry then Some (Name entry) else None)"

fun selector_matches :: "selector \<Rightarrow> capability \<Rightarrow> bool" where
  "selector_matches (Name name) c = (name = cap_name c)"
| "selector_matches (Key k) c = (k_name k = cap_name c \<and> k_version k = cap_version c)"

record job_policy =
  policy_enabled :: "selector list option"

definition allows :: "job_policy \<Rightarrow> capability \<Rightarrow> bool" where
  "allows policy c =
     (case policy_enabled policy of
        None \<Rightarrow> enabled_by_default c
      | Some selectors \<Rightarrow> list_ex (\<lambda>s. selector_matches s c) selectors)"

type_synonym catalog = "capability list"

definition enabled_keys :: "catalog \<Rightarrow> job_policy \<Rightarrow> string list" where
  "enabled_keys catalog policy = map cap_key (filter (allows policy) catalog)"

definition enabled :: "catalog \<Rightarrow> string \<Rightarrow> job_policy \<Rightarrow> capability option" where
  "enabled catalog key policy = find (\<lambda>c. cap_key c = key \<and> allows policy c) catalog"

section \<open>Keys read back\<close>

lemma lowercase_not_at: "is_ascii_lowercase c \<Longrightarrow> c \<noteq> CHR ''@''"
  by (auto simp: is_ascii_lowercase_def byte_of_def)

lemma digit_not_at: "is_ascii_digit c \<Longrightarrow> c \<noteq> CHR ''@''"
  by (auto simp: is_ascii_digit_def byte_of_def)

lemma valid_segment_no_at: "valid_segment s \<Longrightarrow> CHR ''@'' \<notin> set s"
  using lowercase_not_at digit_not_at by (fastforce simp: valid_segment_def list_all_iff split: list.splits)

lemma in_split_on: "x \<in> set s \<Longrightarrow> x = d \<or> (\<exists>w \<in> set (split_on d s). x \<in> set w)"
proof (induction d s rule: split_on.induct)
  case (2 d c cs)
  then show ?case by (cases "split_on d cs") auto
qed simp

lemma valid_name_no_at: "valid_name name \<Longrightarrow> CHR ''@'' \<notin> set name"
  using in_split_on[of "CHR ''@''" name "CHR ''.''"] valid_segment_no_at
  by (auto simp: valid_name_def Let_def list_all_iff)

lemma parse_key_iff:
  "parse_key s = Some k \<longleftrightarrow>
     s = display_key k \<and> valid_name (k_name k) \<and> 1 \<le> k_version k \<and> k_version k \<le> u32_max"
proof
  assume "parse_key s = Some k"
  then show "s = display_key k \<and> valid_name (k_name k) \<and> 1 \<le> k_version k \<and> k_version k \<le> u32_max"
    by (auto simp: parse_key_def display_key_def bind_eq_Some_conv split: if_splits
        dest!: split_once_SomeD dest: parse_uint_le)
next
  assume k: "s = display_key k \<and> valid_name (k_name k) \<and> 1 \<le> k_version k \<and> k_version k \<le> u32_max"
  then have "split_once CHR ''@'' s = Some (k_name k, dec (k_version k))"
    using valid_name_no_at[of "k_name k"] by (simp add: display_key_def)
  then show "parse_key s = Some k"
    using k by (simp add: parse_key_def)
qed

text \<open>
  Capability keys are canonical: a string parses as a key exactly when it is what that key
  prints as, with a well-formed name and a version from 1 to the largest 32-bit number. No other
  spelling (a leading zero, a plus sign, an unversioned name) is a key.
\<close>

lemma parse_key_iff_display:
  "parse_key s = Some k \<longleftrightarrow>
     s = display_key k \<and> valid_name (k_name k) \<and> 1 \<le> k_version k \<and> k_version k \<le> u32_max"
  by (rule parse_key_iff)

text \<open>
  The agent advertises exactly what it will run: a job's key finds an enabled capability if
  and only if that key is among the enabled keys, and the capability found has that key and is
  allowed by the policy.
\<close>

lemma enabled_iff_advertised:
  "(key \<in> set (enabled_keys catalog policy)) = (enabled catalog key policy \<noteq> None)
   \<and> (case enabled catalog key policy of None \<Rightarrow> True
      | Some c \<Rightarrow> c \<in> set catalog \<and> cap_key c = key \<and> allows policy c)"
proof -
  have "(enabled catalog key policy = None) = (key \<notin> set (enabled_keys catalog policy))"
    by (auto simp: enabled_def enabled_keys_def find_None_iff_all)
  moreover have "enabled catalog key policy = Some c \<Longrightarrow> c \<in> set catalog \<and> cap_key c = key \<and> allows policy c" for c
    using find_SomeD[of "\<lambda>c. cap_key c = key \<and> allows policy c" catalog c] by (simp add: enabled_def)
  ultimately show ?thesis by (auto split: option.split)
qed

end
