(* ===== verification/Job_Records.thy ===== *)
theory Job_Records
  imports Files Capabilities
begin

text \<open>
  The durable job record of \<open>src/agent/src/jobs/record.rs\<close>: at most 128 records in one file of
  the state directory, rewritten atomically on every change. The JSON encoding of the file is a
  parameter: \<open>to_vec\<close> and \<open>from_slice\<close> of \<open>serde_json\<close>.
\<close>

section \<open>Records\<close>

datatype report_type = Started | Progress | Output | Succeeded | Failed | Cancelled

record outcome =
  out_kind :: report_type
  out_payload :: json

record job_record =
  jr_job_id :: string
  jr_capability :: string
  jr_retry_class :: run_class
  jr_started_at :: system_time
  jr_outcome :: "outcome option"
  jr_confirmed :: bool

definition record_file :: string where "record_file = ''jobs.json''"
definition record_temporary_prefix :: string where "record_temporary_prefix = ''.jobs.json.''"
definition max_records :: nat where "max_records = 128"
definition retention :: duration where "retention = secs (8 * 24 * 60 * 60)"

datatype record_error = RecordError error_text

definition record_io_error :: "string \<Rightarrow> string \<Rightarrow> io_kind \<Rightarrow> record_error" where
  "record_io_error action path k = RecordError (Format ''cannot {action} {path}: {error}'' [action, path])"

record codec =
  to_vec :: "job_record list \<Rightarrow> bytes option"
  from_slice :: "bytes \<Rightarrow> job_record list option"

section \<open>Opening\<close>

fun clear_temporaries :: "string list \<Rightarrow> disk \<Rightarrow> disk" where
  "clear_temporaries [] d = d"
| "clear_temporaries (name # names) d =
     (case next_event d of
        (Some _, d) \<Rightarrow> clear_temporaries names d
      | (None, d) \<Rightarrow>
          if pred_option (starts_with record_temporary_prefix) (to_str name) \<and> to_str name \<noteq> None
          then clear_temporaries names (snd (fs_remove_file name d))
          else clear_temporaries names d)"

definition remove_abandoned_records :: "disk \<Rightarrow> disk" where
  "remove_abandoned_records d = (case fs_read_dir d of
     (Inl _, d) \<Rightarrow> d | (Inr names, d) \<Rightarrow> clear_temporaries names d)"

definition records_open :: "codec \<Rightarrow> disk \<Rightarrow> (record_error + job_record list) \<times> disk" where
  "records_open codec d =
     (case fs_read record_file d of
        (Inr bytes, d) \<Rightarrow>
          (Inr (case from_slice codec bytes of None \<Rightarrow> [] | Some rs \<Rightarrow> rs), remove_abandoned_records d)
      | (Inl k, d) \<Rightarrow>
          if k = NotFound then (Inr [], remove_abandoned_records d)
          else (Inl (record_io_error ''read job record'' record_file k), d))"

definition records_get :: "string \<Rightarrow> job_record list \<Rightarrow> job_record option" where
  "records_get job_id rs = find (\<lambda>r. jr_job_id r = job_id) rs"

section \<open>Persisting\<close>

definition remove_expired :: "system_time \<Rightarrow> job_record list \<Rightarrow> job_record list" where
  "remove_expired now rs = filter (\<lambda>r. now - jr_started_at r < int retention) rs"

text \<open>The first confirmed record makes room; \<open>None\<close> when there is none.\<close>

fun drop_confirmed :: "job_record list \<Rightarrow> job_record list option" where
  "drop_confirmed [] = None"
| "drop_confirmed (r # rs) = (if jr_confirmed r then Some rs else map_option (Cons r) (drop_confirmed rs))"

lemma drop_confirmed_length: "drop_confirmed rs = Some rs' \<Longrightarrow> length rs = Suc (length rs')"
  by (induction rs arbitrary: rs') (auto split: if_splits)

text \<open>On failure the records are left as far as they were shortened.\<close>

function shrink :: "job_record list \<Rightarrow> (record_error option) \<times> job_record list" where
  "shrink rs =
     (if length rs \<le> max_records then (None, rs)
      else (case drop_confirmed rs of
        Some rs' \<Rightarrow> shrink rs'
      | None \<Rightarrow> (Some (RecordError (Format
          ''job record is full with more than {MAX_RECORDS} unresolved jobs'' [dec max_records])), rs)))"
  by pat_completeness auto
termination
  by (relation "measure length") (auto dest: drop_confirmed_length)

declare shrink.simps [simp del]

definition record_write_steps :: "string \<Rightarrow> bytes \<Rightarrow> disk \<Rightarrow> (record_error + unit) \<times> disk" where
  "record_write_steps temporary body d =
     (case fs_create_new temporary d of
        (Inl k, d) \<Rightarrow> (Inl (record_io_error ''create job record'' temporary k), d)
      | (Inr _, d) \<Rightarrow>
     (case fs_write_all temporary body d of
        (Inl k, d) \<Rightarrow> (Inl (record_io_error ''write job record'' temporary k), d)
      | (Inr _, d) \<Rightarrow>
     (case fs_sync d of
        (Inl k, d) \<Rightarrow> (Inl (record_io_error ''write job record'' temporary k), d)
      | (Inr _, d) \<Rightarrow>
     (case fs_rename temporary record_file d of
        (Inl k, d) \<Rightarrow> (Inl (record_io_error ''persist job record'' record_file k), d)
      | (Inr _, d) \<Rightarrow>
     (case fs_sync d of
        (Inl k, d) \<Rightarrow> (Inl (record_io_error ''sync state directory'' [] k), d)
      | (Inr _, d) \<Rightarrow> (Inr (), d))))))"

definition persist ::
  "codec \<Rightarrow> string \<Rightarrow> system_time \<Rightarrow> job_record list \<Rightarrow> disk
   \<Rightarrow> (record_error + unit) \<times> job_record list \<times> disk" where
  "persist codec i now rs d =
     (case shrink (remove_expired now rs) of
        (Some e, rs) \<Rightarrow> (Inl e, rs, d)
      | (None, rs) \<Rightarrow>
          (case to_vec codec rs of
             None \<Rightarrow> (Inl (RecordError (Format ''cannot encode job record: {error}'' [])), rs, d)
           | Some body \<Rightarrow>
               let temporary = record_temporary_prefix @ i in
               (case record_write_steps temporary body d of
                  (Inr _, d) \<Rightarrow> (Inr (), rs, d)
                | (Inl e, d) \<Rightarrow> (Inl e, rs, snd (fs_remove_file temporary d)))))"

section \<open>Changes\<close>

definition new_record :: "string \<Rightarrow> string \<Rightarrow> run_class \<Rightarrow> system_time \<Rightarrow> job_record" where
  "new_record job_id cap rc now =
     \<lparr>jr_job_id = job_id, jr_capability = cap, jr_retry_class = rc, jr_started_at = now,
      jr_outcome = None, jr_confirmed = False\<rparr>"

text \<open>\<open>i\<close> is the random identifier of the temporary file.\<close>

definition records_start ::
  "codec \<Rightarrow> string \<Rightarrow> string \<Rightarrow> string \<Rightarrow> run_class \<Rightarrow> system_time \<Rightarrow> job_record list \<Rightarrow> disk
   \<Rightarrow> (record_error + unit) \<times> job_record list \<times> disk" where
  "records_start codec i job_id cap rc now rs d =
     (let rs = remove_expired now rs;
          replacing = list_ex (\<lambda>r. jr_job_id r = job_id) rs;
          room = (if \<not> replacing \<and> max_records \<le> length rs then drop_confirmed rs else Some rs)
      in case room of
           None \<Rightarrow> (Inl (RecordError (Format ''job record is full with {MAX_RECORDS} unresolved jobs''
                     [dec max_records])), rs, d)
         | Some rs \<Rightarrow>
             persist codec i now
               (filter (\<lambda>r. jr_job_id r \<noteq> job_id) rs @ [new_record job_id cap rc now]) d)"

text \<open>\<open>iter_mut().find(..)\<close>: the first record of the job is updated.\<close>

fun update_first :: "string \<Rightarrow> (job_record \<Rightarrow> job_record) \<Rightarrow> job_record list \<Rightarrow> job_record list" where
  "update_first job_id f [] = []"
| "update_first job_id f (r # rs) = (if jr_job_id r = job_id then f r # rs else r # update_first job_id f rs)"

definition records_finish ::
  "codec \<Rightarrow> string \<Rightarrow> string \<Rightarrow> outcome \<Rightarrow> system_time \<Rightarrow> job_record list \<Rightarrow> disk
   \<Rightarrow> (record_error + unit) \<times> job_record list \<times> disk" where
  "records_finish codec i job_id outcome now rs d =
     (case records_get job_id rs of
        None \<Rightarrow> (Inl (RecordError (Format ''job {job_id} was never started'' [job_id])), rs, d)
      | Some _ \<Rightarrow>
          persist codec i now
            (update_first job_id (\<lambda>r. r\<lparr>jr_outcome := Some outcome, jr_confirmed := False\<rparr>) rs) d)"

definition records_confirm ::
  "codec \<Rightarrow> string \<Rightarrow> string \<Rightarrow> system_time \<Rightarrow> job_record list \<Rightarrow> disk
   \<Rightarrow> (record_error + unit) \<times> job_record list \<times> disk" where
  "records_confirm codec i job_id now rs d =
     (case records_get job_id rs of
        None \<Rightarrow> (Inl (RecordError (Format ''job {job_id} was never started'' [job_id])), rs, d)
      | Some r \<Rightarrow>
          if jr_outcome r = None
          then (Inl (RecordError (Format ''job {job_id} has no outcome'' [job_id])), rs, d)
          else persist codec i now (update_first job_id (\<lambda>r. r\<lparr>jr_confirmed := True\<rparr>) rs) d)"

section \<open>What is kept\<close>

definition records_wf :: "job_record list \<Rightarrow> bool" where
  "records_wf rs \<longleftrightarrow> distinct (map jr_job_id rs) \<and> length rs \<le> max_records"

lemma drop_confirmed_subset: "drop_confirmed rs = Some rs' \<Longrightarrow> set rs' \<subseteq> set rs"
  by (induction rs arbitrary: rs') (auto split: if_splits)

lemma drop_confirmed_distinct:
  "drop_confirmed rs = Some rs' \<Longrightarrow> distinct (map jr_job_id rs) \<Longrightarrow> distinct (map jr_job_id rs')"
proof (induction rs arbitrary: rs')
  case (Cons r rs)
  then show ?case using drop_confirmed_subset[of rs] by (fastforce split: if_splits)
qed simp

lemma drop_confirmed_keeps:
  "drop_confirmed rs = Some rs' \<Longrightarrow> r \<in> set rs \<Longrightarrow> \<not> jr_confirmed r \<Longrightarrow> r \<in> set rs'"
  by (induction rs arbitrary: rs') (auto split: if_splits)

lemma shrink_keeps:
  assumes "shrink rs = (e, rs')"
  shows "set rs' \<subseteq> set rs \<and> (\<forall>r \<in> set rs. \<not> jr_confirmed r \<longrightarrow> r \<in> set rs')
    \<and> (distinct (map jr_job_id rs) \<longrightarrow> distinct (map jr_job_id rs')) \<and> (e = None \<longrightarrow> length rs' \<le> max_records)"
  using assms
proof (induction rs arbitrary: rs' rule: shrink.induct)
  case (1 rs)
  show ?case
  proof (cases "length rs \<le> max_records")
    case True
    then show ?thesis using "1.prems" by (auto simp: shrink.simps[of rs])
  next
    case False
    show ?thesis
    proof (cases "drop_confirmed rs")
      case None
      then show ?thesis using "1.prems" False by (auto simp: shrink.simps[of rs])
    next
      case (Some rs1)
      then have "shrink rs1 = (e, rs')" using "1.prems" False by (simp add: shrink.simps[of rs])
      from "1.IH"[OF False Some this] show ?thesis
        using drop_confirmed_keeps[OF Some] drop_confirmed_subset[OF Some] drop_confirmed_distinct[OF Some] by blast
    qed
  qed
qed

lemma shrink_small: "length rs \<le> max_records \<Longrightarrow> shrink rs = (None, rs)"
  by (simp add: shrink.simps[of rs])

lemma persist_records: "persist codec i now rs d = (x, rs', d') \<Longrightarrow> rs' = snd (shrink (remove_expired now rs))"
  by (auto simp: persist_def Let_def split: prod.splits option.splits sum.splits)

lemma persist_ok: "persist codec i now rs d = (Inr u, rs', d') \<Longrightarrow> shrink (remove_expired now rs) = (None, rs')"
  by (auto simp: persist_def Let_def split: prod.splits option.splits sum.splits)

lemma in_remove_expired: "r \<in> set (remove_expired now rs) \<longleftrightarrow> r \<in> set rs \<and> now - jr_started_at r < int retention"
  by (auto simp: remove_expired_def)

lemma distinct_remove_expired: "distinct (map jr_job_id rs) \<Longrightarrow> distinct (map jr_job_id (remove_expired now rs))"
  by (simp add: remove_expired_def distinct_map_filter)

lemma records_get_distinct:
  "distinct (map jr_job_id rs) \<Longrightarrow> r \<in> set rs \<Longrightarrow> records_get (jr_job_id r) rs = Some r"
  unfolding records_get_def by (rule find_distinct_key)

lemma records_getD: "records_get j rs = Some r \<Longrightarrow> r \<in> set rs \<and> jr_job_id r = j"
  unfolding records_get_def by (drule find_SomeD) simp

lemma map_update_first: "(\<And>r. jr_job_id (f r) = jr_job_id r) \<Longrightarrow> map jr_job_id (update_first j f rs) = map jr_job_id rs"
  by (induction rs) auto

lemma set_update_first: "r \<in> set rs \<Longrightarrow> jr_job_id r \<noteq> j \<Longrightarrow> r \<in> set (update_first j f rs)"
  by (induction rs) auto

lemma update_first_hit: "records_get j rs = Some r \<Longrightarrow> f r \<in> set (update_first j f rs)"
  by (induction rs) (auto simp: records_get_def split: if_splits)

text \<open>What survives a change: every record of another job that is neither confirmed nor expired.\<close>

definition protected :: "system_time \<Rightarrow> job_record \<Rightarrow> bool" where
  "protected now r \<longleftrightarrow> \<not> jr_confirmed r \<and> now - jr_started_at r < int retention"

lemma persist_protects:
  "persist codec i now rs d = (x, rs', d') \<Longrightarrow> r \<in> set rs \<Longrightarrow> protected now r \<Longrightarrow> r \<in> set rs'"
  using shrink_keeps[of "remove_expired now rs" "fst (shrink (remove_expired now rs))" rs']
  by (auto dest!: persist_records simp: protected_def in_remove_expired)

lemma persist_wf:
  "persist codec i now rs d = (Inr u, rs', d') \<Longrightarrow> distinct (map jr_job_id rs) \<Longrightarrow> records_wf rs'"
  using shrink_keeps[of "remove_expired now rs" None rs'] distinct_remove_expired[of rs now]
  by (auto dest!: persist_ok simp: records_wf_def)

lemma retention_positive [simp]: "0 < retention"
  by (simp add: retention_def secs_def)

lemma protected_new_record [simp]: "protected now (new_record j c k now)"
  by (simp add: protected_def new_record_def)

end
