(* ===== verification/Records_Correct.thy ===== *)
theory Records_Correct
  imports Job_Records Queue_Faults
begin

text \<open>
  What the job record promises, as an interface its client relies on: a started job is on
  record, an unresolved record is never evicted by count, an outcome is read back, and a change
  that reports success is on disk.
\<close>

section \<open>The store as its client sees it\<close>

record 's job_store =
  js_get :: "string \<Rightarrow> 's \<Rightarrow> job_record option"
  js_start :: "string \<Rightarrow> string \<Rightarrow> string \<Rightarrow> run_class \<Rightarrow> system_time \<Rightarrow> 's \<Rightarrow> (record_error + unit) \<times> 's"
  js_finish :: "string \<Rightarrow> string \<Rightarrow> outcome \<Rightarrow> system_time \<Rightarrow> 's \<Rightarrow> (record_error + unit) \<times> 's"
  js_confirm :: "string \<Rightarrow> string \<Rightarrow> system_time \<Rightarrow> 's \<Rightarrow> (record_error + unit) \<times> 's"

definition disk_store :: "codec \<Rightarrow> (job_record list \<times> disk) job_store" where
  "disk_store codec =
     \<lparr>js_get = (\<lambda>j s. records_get j (fst s)),
      js_start = (\<lambda>i j c k now s. records_start codec i j c k now (fst s) (snd s)),
      js_finish = (\<lambda>i j out now s. records_finish codec i j out now (fst s) (snd s)),
      js_confirm = (\<lambda>i j now s. records_confirm codec i j now (fst s) (snd s))\<rparr>"

locale job_store_laws =
  fixes store :: "'s job_store" and wf :: "'s \<Rightarrow> bool"
  assumes start_wf: "wf s \<Longrightarrow> js_start store i j c k now s = (x, s') \<Longrightarrow> wf s'"
    and finish_wf: "wf s \<Longrightarrow> js_finish store i j out now s = (x, s') \<Longrightarrow> wf s'"
    and confirm_wf: "wf s \<Longrightarrow> js_confirm store i j now s = (x, s') \<Longrightarrow> wf s'"
    and start_get: "wf s \<Longrightarrow> js_start store i j c k now s = (Inr u, s') \<Longrightarrow> js_get store j s' = Some (new_record j c k now)"
    and start_keeps: "wf s \<Longrightarrow> js_start store i j c k now s = (x, s') \<Longrightarrow> js_get store j' s = Some r
      \<Longrightarrow> j' \<noteq> j \<Longrightarrow> protected now r \<Longrightarrow> js_get store j' s' = Some r"
    and finish_keeps: "wf s \<Longrightarrow> js_finish store i j out now s = (x, s') \<Longrightarrow> js_get store j' s = Some r
      \<Longrightarrow> protected now r \<Longrightarrow> js_get store j' s' = Some (if j' = j then r\<lparr>jr_outcome := Some out\<rparr> else r)"
    and confirm_keeps: "wf s \<Longrightarrow> js_confirm store i j now s = (x, s') \<Longrightarrow> js_get store j' s = Some r
      \<Longrightarrow> j' \<noteq> j \<Longrightarrow> protected now r \<Longrightarrow> js_get store j' s' = Some r"
    and confirm_marks: "wf s \<Longrightarrow> js_confirm store i j now s = (x, s') \<Longrightarrow> js_get store j s = Some r
      \<Longrightarrow> now - jr_started_at r < int retention
      \<Longrightarrow> \<exists>b. js_get store j s' = Some (r\<lparr>jr_confirmed := b\<rparr>)"
begin

text \<open>A started job keeps its record while the store changes on behalf of others.\<close>

lemma started_survives_others:
  assumes "wf s" and "js_start store i j c k now s = (Inr u, s1)"
    and "j' \<noteq> j" and "now' - now < int retention"
    and "js_start store i' j' c' k' now' s1 = (x, s2) \<or> js_finish store i' j' out now' s1 = (x, s2)
      \<or> js_confirm store i' j' now' s1 = (x, s2)"
  shows "js_get store j s2 = Some (new_record j c k now)"
proof -
  note w = start_wf[OF assms(1,2)] and g = start_get[OF assms(1,2)]
  have p: "protected now' (new_record j c k now)"
    using assms(4) by (simp add: protected_def new_record_def)
  show ?thesis
    using assms(5)
  proof (elim disjE)
    assume "js_start store i' j' c' k' now' s1 = (x, s2)"
    from start_keeps[OF w this g] show ?thesis using assms(3) p by simp
  next
    assume "js_finish store i' j' out now' s1 = (x, s2)"
    from finish_keeps[OF w this g] show ?thesis using assms(3) p by simp
  next
    assume "js_confirm store i' j' now' s1 = (x, s2)"
    from confirm_keeps[OF w this g] show ?thesis using assms(3) p by simp
  qed
qed

end

section \<open>The record file keeps the laws\<close>

definition store_wf :: "job_record list \<times> disk \<Rightarrow> bool" where
  "store_wf s \<longleftrightarrow> records_wf (fst s)"

lemma remove_expired_wf: "records_wf rs \<Longrightarrow> records_wf (remove_expired now rs)"
  unfolding records_wf_def using distinct_remove_expired le_trans[OF length_filter_le]
  by (metis remove_expired_def)

lemma persist_short:
  assumes "persist codec i now rs d = (x, rs', d')" and "records_wf rs"
  shows "rs' = remove_expired now rs \<and> records_wf rs'"
  using persist_records[OF assms(1)] remove_expired_wf[OF assms(2), of now]
  by (simp add: shrink_small records_wf_def)

text \<open>What \<open>records_start\<close> hands to \<open>persist\<close>.\<close>

lemma start_room:
  assumes "records_wf rs" and "records_start codec i j c k now rs d = (x, rs', d')"
  obtains (full) e where "x = Inl e" "rs' = remove_expired now rs" "d' = d"
  | (room) rs1 where "records_wf (filter (\<lambda>r. jr_job_id r \<noteq> j) rs1 @ [new_record j c k now])"
      "set rs1 \<subseteq> set (remove_expired now rs)"
      "\<And>r. r \<in> set (remove_expired now rs) \<Longrightarrow> \<not> jr_confirmed r \<Longrightarrow> r \<in> set rs1"
      "persist codec i now (filter (\<lambda>r. jr_job_id r \<noteq> j) rs1 @ [new_record j c k now]) d = (x, rs', d')"
proof -
  let ?live = "remove_expired now rs"
  let ?with = "\<lambda>rs1. filter (\<lambda>r. jr_job_id r \<noteq> j) rs1 @ [new_record j c k now]"
  have live: "records_wf ?live" using assms(1) by (rule remove_expired_wf)
  have wf: "records_wf (?with rs1)"
    if "distinct (map jr_job_id rs1)" "length (filter (\<lambda>r. jr_job_id r \<noteq> j) rs1) < max_records" for rs1
    using that by (auto simp: records_wf_def distinct_map_filter new_record_def)
  show ?thesis
  proof (cases "\<not> list_ex (\<lambda>r. jr_job_id r = j) ?live \<and> max_records \<le> length ?live")
    case True
    show ?thesis
    proof (cases "drop_confirmed ?live")
      case None
      then show ?thesis using assms(2) True full by (auto simp add: records_start_def Let_def)
    next
      case (Some rs1)
      have "length rs1 < max_records"
        using drop_confirmed_length[OF Some] live by (simp add: records_wf_def)
      then have "records_wf (?with rs1)"
        using drop_confirmed_distinct[OF Some] live le_less_trans[OF length_filter_le]
        by (intro wf) (simp_all add: records_wf_def)
      then show ?thesis
        using assms(2) True Some drop_confirmed_subset[OF Some] drop_confirmed_keeps[OF Some]
        by (intro room[of rs1]) (auto simp add: records_start_def Let_def)
    qed
  next
    case False
    have "length (filter (\<lambda>r. jr_job_id r \<noteq> j) ?live) < max_records"
    proof (cases "max_records \<le> length ?live")
      case True
      then have "list_ex (\<lambda>r. jr_job_id r = j) ?live" using False by blast
      then have "length (filter (\<lambda>r. jr_job_id r \<noteq> j) ?live) < length ?live"
        by (auto simp: list_ex_iff intro!: length_filter_less)
      then show ?thesis using live by (simp add: records_wf_def)
    next
      case False
      then show ?thesis using length_filter_le[of "\<lambda>r. jr_job_id r \<noteq> j" ?live] by linarith
    qed
    then have "records_wf (?with ?live)" using live by (intro wf) (auto simp: records_wf_def)
    moreover have "persist codec i now (?with ?live) d = (x, rs', d')"
      using assms(2) False by (simp add: records_start_def Let_def split: if_splits)
    ultimately show ?thesis by (intro room[of ?live]) simp_all
  qed
qed

lemma start_keeps_record:
  assumes "records_wf rs" and "records_start codec i j c k now rs d = (x, rs', d')"
  shows "records_wf rs'"
    and "x = Inr u \<Longrightarrow> records_get j rs' = Some (new_record j c k now)"
    and "r \<in> set rs \<Longrightarrow> jr_job_id r \<noteq> j \<Longrightarrow> protected now r \<Longrightarrow> r \<in> set rs'"
proof -
  from assms have "records_wf rs' \<and> (x = Inr u \<longrightarrow> records_get j rs' = Some (new_record j c k now))
    \<and> (r \<in> set rs \<longrightarrow> jr_job_id r \<noteq> j \<longrightarrow> protected now r \<longrightarrow> r \<in> set rs')"
  proof (cases rule: start_room)
    case (full e)
    then show ?thesis using remove_expired_wf[OF assms(1)] by (simp add: protected_def in_remove_expired)
  next
    case (room rs1)
    have wf: "records_wf rs'" using persist_short[OF room(4,1)] by blast
    have "new_record j c k now \<in> set rs'" using persist_protects[OF room(4)] by simp
    then have "records_get j rs' = Some (new_record j c k now)"
      using records_get_distinct[of rs' "new_record j c k now"] wf by (simp add: records_wf_def new_record_def)
    moreover have "r \<in> set rs'" if "r \<in> set rs" "jr_job_id r \<noteq> j" "protected now r"
      using persist_protects[OF room(4) _ that(3)] room(3)[of r] that
      by (simp add: in_remove_expired protected_def)
    ultimately show ?thesis using wf by simp
  qed
  then show "records_wf rs'" "x = Inr u \<Longrightarrow> records_get j rs' = Some (new_record j c k now)"
    "r \<in> set rs \<Longrightarrow> jr_job_id r \<noteq> j \<Longrightarrow> protected now r \<Longrightarrow> r \<in> set rs'"
    by simp_all
qed

lemma update_wf: "records_wf rs \<Longrightarrow> (\<And>r. jr_job_id (f r) = jr_job_id r) \<Longrightarrow> records_wf (update_first j f rs)"
  using map_update_first[of f j rs] by (metis length_map records_wf_def)

lemma update_keeps_record:
  assumes "records_wf rs" and "persist codec i now (update_first j f rs) d = (x, rs', d')"
    and "\<And>r. jr_job_id (f r) = jr_job_id r"
  shows "records_wf rs'"
    and "records_get j rs = Some r \<Longrightarrow> now - jr_started_at (f r) < int retention \<Longrightarrow> records_get j rs' = Some (f r)"
    and "records_get j' rs = Some r \<Longrightarrow> j' \<noteq> j \<Longrightarrow> protected now r \<Longrightarrow> records_get j' rs' = Some r"
proof -
  have wf: "records_wf (update_first j f rs)" using assms(1,3) by (rule update_wf)
  note short = persist_short[OF assms(2) wf]
  then show wf': "records_wf rs'" by blast
  show "records_get j rs' = Some (f r)"
    if "records_get j rs = Some r" "now - jr_started_at (f r) < int retention"
  proof -
    have "f r \<in> set rs'" using update_first_hit[OF that(1)] short that(2) by (simp add: in_remove_expired)
    then show ?thesis
      using records_get_distinct[of rs' "f r"] wf' assms(3) records_getD[OF that(1)] by (simp add: records_wf_def)
  qed
  show "records_get j' rs' = Some r" if "records_get j' rs = Some r" "j' \<noteq> j" "protected now r"
  proof -
    have "r \<in> set rs'"
      using set_update_first[of r rs j f] records_getD[OF that(1)] that(2,3) short
      by (simp add: in_remove_expired protected_def)
    then show ?thesis
      using records_get_distinct[of rs' r] wf' records_getD[OF that(1)] by (simp add: records_wf_def)
  qed
qed

interpretation records: job_store_laws "disk_store codec" store_wf for codec
proof
  fix s s' :: "job_record list \<times> disk" and i j j' c k now x u out r
  assume wf: "store_wf s"
  obtain rs d rs' d' where s: "s = (rs, d)" "s' = (rs', d')" by (metis surj_pair)
  have wf': "records_wf rs" using wf by (simp add: store_wf_def s)
  {
    assume run: "js_start (disk_store codec) i j c k now s = (x, s')"
    then have run': "records_start codec i j c k now rs d = (x, rs', d')" by (simp add: disk_store_def s)
    show "store_wf s'" using start_keeps_record(1)[OF wf' run'] by (simp add: store_wf_def s)
    show "js_get (disk_store codec) j' s' = Some r"
      if "js_get (disk_store codec) j' s = Some r" "j' \<noteq> j" "protected now r"
      using start_keeps_record(3)[OF wf' run'] start_keeps_record(1)[OF wf' run'] that
        records_getD[of j' rs r] records_get_distinct[of rs' r]
      by (auto simp: disk_store_def s records_wf_def)
  }
  {
    assume run: "js_start (disk_store codec) i j c k now s = (Inr u, s')"
    then show "js_get (disk_store codec) j s' = Some (new_record j c k now)"
      using start_keeps_record(2)[OF wf', of codec i j c k now d "Inr u" rs' d' u] by (simp add: disk_store_def s)
  }
  {
    assume run: "js_finish (disk_store codec) i j out now s = (x, s')"
    then have run': "records_finish codec i j out now rs d = (x, rs', d')" by (simp add: disk_store_def s)
    let ?f = "\<lambda>r. r\<lparr>jr_outcome := Some out, jr_confirmed := False\<rparr>"
    note upd = update_keeps_record[OF wf', where f = ?f, simplified]
    show "store_wf s'"
      using run' wf' upd(1) by (auto simp: records_finish_def store_wf_def s split: option.splits)
    show "js_get (disk_store codec) j' s' = Some (if j' = j then r\<lparr>jr_outcome := Some out\<rparr> else r)"
      if "js_get (disk_store codec) j' s = Some r" "protected now r"
      using run' that upd(2)[of codec i now j d x rs' d' r] upd(3)[of codec i now j d x rs' d' j' r]
      by (auto simp: records_finish_def disk_store_def s protected_def split: option.splits)
  }
  {
    assume run: "js_confirm (disk_store codec) i j now s = (x, s')"
    then have run': "records_confirm codec i j now rs d = (x, rs', d')" by (simp add: disk_store_def s)
    note upd = update_keeps_record[OF wf', where f = "\<lambda>r. r\<lparr>jr_confirmed := True\<rparr>", simplified]
    show "store_wf s'"
      using run' wf' upd(1) by (auto simp: records_confirm_def store_wf_def s split: option.splits if_splits)
    show "js_get (disk_store codec) j' s' = Some r"
      if "js_get (disk_store codec) j' s = Some r" "j' \<noteq> j" "protected now r"
      using run' that upd(3)[of codec i now j d x rs' d' j' r]
      by (auto simp: records_confirm_def disk_store_def s split: option.splits if_splits)
    show "\<exists>b. js_get (disk_store codec) j s' = Some (r\<lparr>jr_confirmed := b\<rparr>)"
      if get: "js_get (disk_store codec) j s = Some r" and young: "now - jr_started_at r < int retention"
    proof (cases "jr_outcome r")
      case None
      then have "js_get (disk_store codec) j s' = Some (r\<lparr>jr_confirmed := jr_confirmed r\<rparr>)"
        using run' get by (auto simp: records_confirm_def disk_store_def s)
      then show ?thesis by blast
    next
      case (Some out)
      then have "js_get (disk_store codec) j s' = Some (r\<lparr>jr_confirmed := True\<rparr>)"
        using run' get young upd(2)[of codec i now j d x rs' d' r] by (auto simp: records_confirm_def disk_store_def s)
      then show ?thesis by blast
    qed
  }
qed

section \<open>Properties\<close>

text \<open>
  C31. Starting a job keeps the record well-formed (one record per job, at most 128). When it
  succeeds the job is on record as unresolved. Whether or not it succeeds, every other job whose
  record is unconfirmed and younger than eight days is still on record: only acknowledged
  outcomes make room.
\<close>

theorem start_never_evicts_unresolved:
  assumes "records_wf rs" and "records_start codec i j c k now rs d = (x, rs', d')"
  shows "records_wf rs' \<and> (x = Inr () \<longrightarrow> records_get j rs' = Some (new_record j c k now))
    \<and> (\<forall>r \<in> set rs. jr_job_id r \<noteq> j \<and> protected now r \<longrightarrow> records_get (jr_job_id r) rs' = Some r)"
proof -
  note wf = start_keeps_record(1)[OF assms]
  have "records_get (jr_job_id r) rs' = Some r" if "r \<in> set rs" "jr_job_id r \<noteq> j" "protected now r" for r
    using records_get_distinct[of rs' r] start_keeps_record(3)[OF assms that] wf by (simp add: records_wf_def)
  then show ?thesis using wf start_keeps_record(2)[OF assms] by blast
qed

definition sample_codec :: codec where
  "sample_codec = \<lparr>to_vec = (\<lambda>rs. Some (concat (map jr_job_id rs))), from_slice = (\<lambda>_. None)\<rparr>"

definition sample_record :: job_record where
  "sample_record = new_record ''a'' ''inventory.collect@1'' Idempotent 0"

theorem start_never_evicts_unresolved_witness:
  "case records_start sample_codec ''t'' ''b'' ''host.reboot@1'' Imperative (int (secs 60)) [sample_record]
       \<lparr>d_files = [], d_events = [], d_clock = 0\<rparr> of
     (x, rs', d') \<Rightarrow> records_wf rs' \<and> records_get ''a'' rs' = Some sample_record"
proof -
  obtain x rs' d' where run: "records_start sample_codec ''t'' ''b'' ''host.reboot@1'' Imperative (int (secs 60))
      [sample_record] \<lparr>d_files = [], d_events = [], d_clock = 0\<rparr> = (x, rs', d')" by (metis prod_cases3)
  have "records_wf [sample_record]" by (simp add: records_wf_def max_records_def)
  from start_never_evicts_unresolved[OF this run] show ?thesis
    unfolding run by (simp add: sample_record_def new_record_def protected_def retention_def secs_def)
qed

text \<open>The record is written with the same steps as a queue entry; only the error texts differ.\<close>

lemma record_write_steps_as_entry:
  "snd (record_write_steps t body d) = snd (write_steps dir t record_file body d)
   \<and> isl (fst (record_write_steps t body d)) = isl (fst (write_steps dir t record_file body d))"
  by (simp add: record_write_steps_def write_steps_def create_private_file_def sync_directory_def
      split: prod.split sum.split)

text \<open>
  C32. Whatever system calls fail while the record is rewritten, \<open>jobs.json\<close> is either untouched
  or holds the complete new record, never a torn one; and when the change reports success, it
  holds exactly the encoding of the records in memory.
\<close>

theorem persist_is_atomic:
  assumes "undisturbed d" and "persist codec i now rs d = (x, rs', d')"
  shows "(map_of (d_files d') record_file = map_of (d_files d) record_file
      \<or> (\<exists>body u. to_vec codec rs' = Some body \<and> map_of (d_files d') record_file = Some (File body u)))
    \<and> (x = Inr () \<longrightarrow> (\<exists>body u. to_vec codec rs' = Some body \<and> map_of (d_files d') record_file = Some (File body u)))"
proof (cases "\<exists>rs1 body. shrink (remove_expired now rs) = (None, rs1) \<and> to_vec codec rs1 = Some body")
  case False
  then show ?thesis using assms(2) by (auto simp: persist_def split: prod.splits option.splits)
next
  case True
  then obtain body where b: "shrink (remove_expired now rs) = (None, rs')" "to_vec codec rs' = Some body"
    using persist_records[OF assms(2)] by auto
  let ?t = "record_temporary_prefix @ i"
  obtain y d1 where w: "write_steps [] ?t record_file body d = (y, d1)" by fastforce
  obtain y' where w': "record_write_steps ?t body d = (y', d1)" "isl y' = isl y"
    using record_write_steps_as_entry[of ?t body d "[]"] w by (metis fst_conv prod.collapse snd_conv)
  have ne: "record_file \<noteq> ?t" by (simp add: record_file_def record_temporary_prefix_def)
  note wr = write_steps_written[OF w assms(1)]
  have same: "map_of (d_files d1) record_file = map_of (d_files d) record_file
      \<or> (\<exists>u. map_of (d_files d1) record_file = Some (File body u))" "undisturbed d1"
    using wr(1) assms(1) ne unfolding evolves_def written_def by blast+
  show ?thesis
  proof (cases y')
    case (Inr v)
    then have "\<exists>v'. y = Inr v'" using w'(2) by (cases y) auto
    then show ?thesis using assms(2) b w'(1) Inr wr(2) by (auto simp: persist_def Let_def)
  next
    case (Inl e)
    then have "d' = snd (fs_remove_file ?t d1)" "x = Inl e" using assms(2) b w'(1) by (auto simp: persist_def Let_def)
    moreover have "map_of (d_files (snd (fs_remove_file ?t d1))) record_file = map_of (d_files d1) record_file"
      using fs_remove_file_evolves[of ?t d1] same(2) ne unfolding evolves_def by blast
    ultimately show ?thesis using same(1) b(2) by auto
  qed
qed

theorem persist_is_atomic_witness:
  "case persist sample_codec ''t'' 0 [sample_record]
       \<lparr>d_files = [], d_events = [Calm, Fault OtherIo 1], d_clock = 0\<rparr> of
     (x, rs', d') \<Rightarrow> map_of (d_files d') record_file = None
       \<or> (\<exists>u. map_of (d_files d') record_file = Some (File (concat (map jr_job_id rs')) u))"
proof -
  obtain x rs' d' where run: "persist sample_codec ''t'' 0 [sample_record]
      \<lparr>d_files = [], d_events = [Calm, Fault OtherIo 1], d_clock = 0\<rparr> = (x, rs', d')" by (metis prod_cases3)
  have "undisturbed \<lparr>d_files = [], d_events = [Calm, Fault OtherIo 1], d_clock = 0\<rparr>" by (simp add: undisturbed_def)
  from persist_is_atomic[OF this run] show ?thesis unfolding run by (auto simp: sample_codec_def)
qed

end
