(* ===== verification/Job_Worker.thy ===== *)
theory Job_Worker
  imports Records_Correct Transport
begin

text \<open>
  The job worker of \<open>src/agent/src/jobs/worker.rs\<close>: a pass that leases jobs, checks each against
  the local policy and the durable record, runs its capability on a thread it supervises, and
  reports under a numbered lease. The clocks, the policy generation, shutdown, Renga's API and
  the runner thread with its channel are functions of the world; running a capability is what
  the spawned thread does, so its result is what the channel delivers.
\<close>

section \<open>What Renga sends and receives\<close>

record leased_job =
  lj_id :: string
  lj_capability :: string
  lj_parameters :: json
  lj_attempt :: nat
  lj_lease_token :: string
  lj_lease_expires_at :: system_time
  lj_timeout_ms :: nat
  lj_output_limit_bytes :: nat

record job_report =
  rp_lease_token :: string
  rp_sequence :: nat
  rp_kind :: report_type
  rp_payload :: json

record report_ack =
  ra_cancel_requested :: bool

definition terminal :: "report_type \<Rightarrow> bool" where
  "terminal k = (k \<in> {Succeeded, Failed, Cancelled})"

section \<open>Worker\<close>

definition max_jobs_per_pass :: nat where "max_jobs_per_pass = 10"
definition heartbeat_interval :: duration where "heartbeat_interval = secs 20"
definition poll_interval :: duration where "poll_interval = millis 250"

datatype pass_error = RecordFailure record_error | LeaseFailure transport_error

text \<open>What the channel of the runner thread holds: its end time and result, nothing, or no sender.\<close>

datatype received = Received instant "job_failure + json" | NothingYet | Disconnected

text \<open>
  Every \<open>Instant::now()\<close> and \<open>Utc::now()\<close> is a reading of its own. \<open>j_generation\<close> reads the policy
  generation. \<open>j_spawn\<close> starts the thread that runs a capability on its parameters under a token
  with a deadline, \<open>j_cancel\<close> cancels that token and \<open>j_join\<close> waits for the thread. \<open>j_new_v4\<close> draws
  the name of the record's temporary file.
\<close>

record 'w worker_env =
  j_now :: "'w \<Rightarrow> instant \<times> 'w"
  j_utc :: "'w \<Rightarrow> system_time \<times> 'w"
  j_new_v4 :: "'w \<Rightarrow> string \<times> 'w"
  j_generation :: "'w \<Rightarrow> nat \<times> 'w"
  j_stopped :: "'w \<Rightarrow> bool \<times> 'w"
  j_lease :: "string list \<Rightarrow> nat \<Rightarrow> 'w \<Rightarrow> (transport_error + leased_job list) \<times> 'w"
  j_report_before :: "string \<Rightarrow> job_report \<Rightarrow> instant \<Rightarrow> 'w \<Rightarrow> (transport_error + report_ack) \<times> 'w"
  j_spawn :: "capability \<Rightarrow> json \<Rightarrow> instant \<Rightarrow> 'w \<Rightarrow> 'w"
  j_cancel :: "'w \<Rightarrow> 'w"
  j_join :: "'w \<Rightarrow> 'w"
  j_try_recv :: "'w \<Rightarrow> received \<times> 'w"
  j_recv_timeout :: "duration \<Rightarrow> 'w \<Rightarrow> received \<times> 'w"

record worker =
  w_catalog :: catalog
  w_policy :: job_policy
  w_expected_generation :: nat
  w_heartbeat :: duration

definition worker_new :: "catalog \<Rightarrow> job_policy \<Rightarrow> nat \<Rightarrow> worker" where
  "worker_new catalog policy expected_generation =
     \<lparr>w_catalog = catalog, w_policy = policy, w_expected_generation = expected_generation,
      w_heartbeat = heartbeat_interval\<rparr>"

definition policy_current :: "'w worker_env \<Rightarrow> worker \<Rightarrow> 'w \<Rightarrow> bool \<times> 'w" where
  "policy_current env wk w =
     (case j_generation env w of (g, w) \<Rightarrow> (g = w_expected_generation wk, w))"

definition if_current :: "'w worker_env \<Rightarrow> nat \<Rightarrow> ('w \<Rightarrow> 'w) \<Rightarrow> 'w \<Rightarrow> bool \<times> 'w" where
  \<comment> \<open>the read lock is held through the operation, so nothing runs between the two\<close>
  "if_current env expected operation w =
     (case j_generation env w of (g, w) \<Rightarrow> if g = expected then (True, operation w) else (False, w))"

section \<open>Reports\<close>

record reporter =
  rep_job_id :: string
  rep_lease_token :: string
  rep_sequence :: nat
  rep_lease_deadline :: instant
  rep_lost :: bool

definition reporter_new :: "'w worker_env \<Rightarrow> leased_job \<Rightarrow> 'w \<Rightarrow> reporter \<times> 'w" where
  "reporter_new env job w =
     (case j_now env w of (now, w) \<Rightarrow> case j_utc env w of (utc, w) \<Rightarrow>
        (\<lparr>rep_job_id = lj_id job, rep_lease_token = lj_lease_token job, rep_sequence = 0,
          rep_lease_deadline = now + duration_since (lj_lease_expires_at job) utc, rep_lost = False\<rparr>, w))"

definition send ::
  "'w worker_env \<Rightarrow> report_type \<Rightarrow> json \<Rightarrow> reporter \<Rightarrow> 'w \<Rightarrow> report_ack option \<times> reporter \<times> 'w" where
  "send env kind payload rp w =
     (if rep_lost rp then (None, rp, w)
      else (case j_now env w of (now, w) \<Rightarrow>
        if rep_lease_deadline rp \<le> now then (None, rp\<lparr>rep_lost := True\<rparr>, w)
        else (let rp = rp\<lparr>rep_sequence := rep_sequence rp + 1\<rparr>;
                  report = \<lparr>rp_lease_token = rep_lease_token rp, rp_sequence = rep_sequence rp,
                            rp_kind = kind, rp_payload = payload\<rparr>
              in case j_now env w of (sent_at, w) \<Rightarrow>
                 (case j_report_before env (rep_job_id rp) report (rep_lease_deadline rp) w of
                    (Inr ack, w) \<Rightarrow> (Some ack, rp\<lparr>rep_lease_deadline := sent_at + secs 60\<rparr>, w)
                  | (Inl e, w) \<Rightarrow>
                      (None, (if te_status e \<in> {Some 401, Some 403, Some 409}
                              then rp\<lparr>rep_lost := True\<rparr> else rp), w)))))"

definition failure_json :: "string \<Rightarrow> json" where
  "failure_json reason = JObject [(''reason'', JString reason)]"

definition cancelled_outcome :: outcome where
  "cancelled_outcome = \<lparr>out_kind = Cancelled, out_payload = JObject []\<rparr>"

definition timeout_failure :: "duration \<Rightarrow> job_failure + json" where
  "timeout_failure timeout = Inl (JobFailed (''timed out after '' @ dec (as_secs timeout) @ '' seconds''))"

section \<open>Running a capability\<close>

text \<open>
  What the supervising loop decides: the job stopped unfinished, or its result. The state of the
  loop is the next heartbeat, whether Renga asked to cancel, and the reporter.
\<close>

datatype verdict = Unfinished | Ended "job_failure + json"

record supervision =
  s_next_heartbeat :: instant
  s_cancel_requested :: bool
  s_reporter :: reporter

definition judge :: "'w worker_env \<Rightarrow> duration \<Rightarrow> instant \<Rightarrow> received \<Rightarrow> 'w \<Rightarrow> verdict option \<times> 'w" where
  "judge env timeout at r w =
     (case r of
        Received completed_at result \<Rightarrow>
          if completed_at \<le> at then (Some (Ended result), w)
          else (Some (Ended (timeout_failure timeout)), j_cancel env w)
      | Disconnected \<Rightarrow> (Some (Ended (Inl (JobFailed ''the capability stopped unexpectedly''))), w)
      | NothingYet \<Rightarrow> (None, w))"

definition beat_report :: "'w worker_env \<Rightarrow> supervision \<Rightarrow> 'w \<Rightarrow> supervision \<times> 'w" where
  "beat_report env s w =
     (case send env Progress (JObject []) (s_reporter s) w of (ack, rp, w) \<Rightarrow>
        let cancel = (case ack of Some a \<Rightarrow> ra_cancel_requested a \<and> \<not> s_cancel_requested s | None \<Rightarrow> False);
            w = (if cancel then j_cancel env w else w);
            w = (if rep_lost rp then j_cancel env w else w)
        in (s\<lparr>s_cancel_requested := s_cancel_requested s \<or> cancel, s_reporter := rp\<rparr>, w))"

definition beat ::
  "'w worker_env \<Rightarrow> worker \<Rightarrow> duration \<Rightarrow> instant \<Rightarrow> supervision \<Rightarrow> 'w \<Rightarrow> verdict option \<times> supervision \<times> 'w" where
  "beat env wk timeout at s w =
     (case beat_report env s w of (s, w) \<Rightarrow>
      case j_stopped env w of (stop, w) \<Rightarrow>
      if stop then (Some Unfinished, s, j_join env (j_cancel env w))
      else (case j_now env w of (now, w) \<Rightarrow>
            case j_try_recv env w of (r, w) \<Rightarrow>
            case judge env timeout at r w of (v, w) \<Rightarrow>
            if v \<noteq> None then (v, s, w)
            else if at \<le> now then (Some (Ended (timeout_failure timeout)), s, j_cancel env w)
            else (None, s\<lparr>s_next_heartbeat := now + w_heartbeat wk\<rparr>, w)))"

definition await_result ::
  "'w worker_env \<Rightarrow> duration \<Rightarrow> instant \<Rightarrow> supervision \<Rightarrow> 'w \<Rightarrow> verdict option \<times> 'w" where
  "await_result env timeout at s w =
     (case j_now env w of (now, w) \<Rightarrow>
      case j_recv_timeout env (min (min poll_interval (at - now)) (s_next_heartbeat s - now)) w of (r, w) \<Rightarrow>
        judge env timeout at r w)"

definition supervise_step ::
  "'w worker_env \<Rightarrow> worker \<Rightarrow> duration \<Rightarrow> instant \<Rightarrow> supervision \<Rightarrow> 'w \<Rightarrow> verdict option \<times> supervision \<times> 'w" where
  "supervise_step env wk timeout at s w =
     (case j_now env w of (now, w) \<Rightarrow>
      case j_stopped env w of (stop, w) \<Rightarrow>
      if stop then (Some Unfinished, s, j_join env (j_cancel env w))
      else
        let lapsed = rep_lease_deadline (s_reporter s) \<le> now;
            s = (if lapsed then s\<lparr>s_reporter := (s_reporter s)\<lparr>rep_lost := True\<rparr>\<rparr> else s);
            w = (if lapsed then j_cancel env w else w)
        in if at \<le> now then (Some (Ended (timeout_failure timeout)), s, j_cancel env w)
           else (case (if s_next_heartbeat s \<le> now then beat env wk timeout at s w else (None, s, w)) of
                   (v, s, w) \<Rightarrow>
                     if v \<noteq> None then (v, s, w)
                     else (case await_result env timeout at s w of (v, w) \<Rightarrow> (v, s, w))))"

text \<open>The loop itself; \<open>None\<close> is a loop that never ends.\<close>

partial_function (option) supervise ::
  "'w worker_env \<Rightarrow> worker \<Rightarrow> duration \<Rightarrow> instant \<Rightarrow> supervision \<Rightarrow> 'w \<Rightarrow> (verdict \<times> supervision \<times> 'w) option" where
  "supervise env wk timeout at s w =
     (case supervise_step env wk timeout at s w of (v, s, w) \<Rightarrow>
        if v = None then supervise env wk timeout at s w else Some (the v, s, w))"

definition run_outcome :: "job_failure + json \<Rightarrow> bool \<Rightarrow> outcome option" where
  "run_outcome result cancel_requested =
     (case result of
        Inr v \<Rightarrow> Some \<lparr>out_kind = Succeeded, out_payload = JObject [(''result'', v)]\<rparr>
      | Inl JobCancelled \<Rightarrow> if cancel_requested then Some cancelled_outcome else None
      | Inl (JobFailed reason) \<Rightarrow> Some \<lparr>out_kind = Failed, out_payload = failure_json reason\<rparr>)"

definition run_timeout :: "capability \<Rightarrow> leased_job \<Rightarrow> duration" where
  "run_timeout c job = min (cap_timeout c) (millis (max (lj_timeout_ms job) 1))"

text \<open>
  The deadline is an addition on an \<open>Instant\<close> that cannot overflow: a capability's timeout is a
  constant of minutes. The worker joins the thread before it reads the verdict.
\<close>

definition run ::
  "'w worker_env \<Rightarrow> worker \<Rightarrow> leased_job \<Rightarrow> capability \<Rightarrow> reporter \<Rightarrow> 'w
   \<Rightarrow> (outcome option \<times> reporter \<times> 'w) option" where
  "run env wk job c rp w =
     (let timeout = run_timeout c job in
      case j_now env w of (now, w) \<Rightarrow>
      let at = now + timeout in
      case if_current env (w_expected_generation wk) (j_spawn env c (lj_parameters job) at) w of (started, w) \<Rightarrow>
      if \<not> started then Some (None, rp, w)
      else (case j_now env w of (now, w) \<Rightarrow>
            case supervise env wk timeout at
                   \<lparr>s_next_heartbeat = now + w_heartbeat wk, s_cancel_requested = False, s_reporter = rp\<rparr> w of
              None \<Rightarrow> None
            | Some (Unfinished, s, w) \<Rightarrow> Some (None, s_reporter s, w)
            | Some (Ended result, s, w) \<Rightarrow>
                Some (run_outcome result (s_cancel_requested s), s_reporter s, j_join env w)))"

section \<open>Handling a job\<close>

definition confirm ::
  "'w worker_env \<Rightarrow> 's job_store \<Rightarrow> string \<Rightarrow> 's \<Rightarrow> 'w \<Rightarrow> 's \<times> 'w" where
  "confirm env store job_id s w =
     (case j_utc env w of (utc, w) \<Rightarrow> case j_new_v4 env w of (i, w) \<Rightarrow>
        (snd (js_confirm store i job_id utc s), w))"

definition finish ::
  "'w worker_env \<Rightarrow> 's job_store \<Rightarrow> leased_job \<Rightarrow> reporter \<Rightarrow> outcome \<Rightarrow> 's \<Rightarrow> 'w \<Rightarrow> 's \<times> 'w" where
  "finish env store job rp out s w =
     (case j_utc env w of (utc, w) \<Rightarrow> case j_new_v4 env w of (i, w) \<Rightarrow>
      let s = snd (js_finish store i (lj_id job) out utc s) in
      if rep_lost rp then (s, w)
      else (case send env (out_kind out) (out_payload out) rp w of (ack, rp, w) \<Rightarrow>
              if ack \<noteq> None then confirm env store (lj_id job) s w else (s, w)))"

definition execute ::
  "'w worker_env \<Rightarrow> worker \<Rightarrow> 's job_store \<Rightarrow> leased_job \<Rightarrow> capability \<Rightarrow> reporter \<Rightarrow> 's \<Rightarrow> 'w \<Rightarrow> ('s \<times> 'w) option" where
  \<comment> \<open>from \<open>records.start\<close> on\<close>
  "execute env wk store job c rp s w =
     (case j_utc env w of (utc, w) \<Rightarrow> case j_new_v4 env w of (i, w) \<Rightarrow>
      case js_start store i (lj_id job) (lj_capability job) (cap_retry_class c) utc s of
        (Inl _, s) \<Rightarrow>
          Some (s, snd (snd (send env Failed
            (failure_json ''the agent cannot record jobs in its state directory'') rp w)))
      | (Inr _, s) \<Rightarrow>
          (case policy_current env wk w of (current, w) \<Rightarrow>
           if \<not> current then Some (s, w)
           else (case send env Started (JObject []) rp w of (ack, rp, w) \<Rightarrow>
             (case ack of
                None \<Rightarrow> Some (s, w)
              | Some a \<Rightarrow>
                  (case policy_current env wk w of (current, w) \<Rightarrow>
                   if \<not> current then Some (s, w)
                   else if ra_cancel_requested a then Some (finish env store job rp cancelled_outcome s w)
                   else (case run env wk job c rp w of
                           None \<Rightarrow> None
                         | Some (None, rp, w) \<Rightarrow> Some (s, w)
                         | Some (Some out, rp, w) \<Rightarrow> Some (finish env store job rp out s w)))))))"

definition interrupted_outcome :: outcome where
  "interrupted_outcome = \<lparr>out_kind = Failed, out_payload = failure_json
     ''the agent stopped while running this job, so it may have partly run''\<rparr>"

definition handle ::
  "'w worker_env \<Rightarrow> worker \<Rightarrow> 's job_store \<Rightarrow> leased_job \<Rightarrow> 's \<Rightarrow> 'w \<Rightarrow> ('s \<times> 'w) option" where
  "handle env wk store job s w =
     (case policy_current env wk w of (current, w) \<Rightarrow>
      if \<not> current then Some (s, w)
      else (case reporter_new env job w of (rp, w) \<Rightarrow>
        (case enabled (w_catalog wk) (lj_capability job) (w_policy wk) of
           None \<Rightarrow> Some (s, snd (snd (send env Failed
                     (failure_json ''capability is not enabled by the agent's local policy'') rp w)))
         | Some c \<Rightarrow>
             (case js_get store (lj_id job) s of
                None \<Rightarrow> execute env wk store job c rp s w
              | Some record \<Rightarrow>
                  (case jr_outcome record of
                     Some out \<Rightarrow>
                       (case send env (out_kind out) (out_payload out) rp w of (ack, rp, w) \<Rightarrow>
                          Some (if ack \<noteq> None then confirm env store (lj_id job) s w else (s, w)))
                   | None \<Rightarrow>
                       if cap_retry_class c = Imperative
                       then Some (finish env store job rp interrupted_outcome s w)
                       else execute env wk store job c rp s w)))))"

section \<open>A pass\<close>

fun handle_all ::
  "'w worker_env \<Rightarrow> worker \<Rightarrow> 's job_store \<Rightarrow> leased_job list \<Rightarrow> 's \<Rightarrow> 'w \<Rightarrow> ('s \<times> 'w) option" where
  "handle_all env wk store [] s w = Some (s, w)"
| "handle_all env wk store (job # jobs) s w =
     (case handle env wk store job s w of None \<Rightarrow> None | Some (s, w) \<Rightarrow> handle_all env wk store jobs s w)"

function pass_loop ::
  "'w worker_env \<Rightarrow> worker \<Rightarrow> 's job_store \<Rightarrow> string list \<Rightarrow> nat \<Rightarrow> 's \<Rightarrow> 'w
   \<Rightarrow> ((pass_error + nat) \<times> 's \<times> 'w) option" where
  "pass_loop env wk store keys handled s w =
     (if max_jobs_per_pass \<le> handled then Some (Inr handled, s, w)
      else (case j_stopped env w of (stop, w) \<Rightarrow>
        if stop then Some (Inr handled, s, w)
        else (case policy_current env wk w of (current, w) \<Rightarrow>
          if \<not> current then Some (Inr handled, s, w)
          else (case j_lease env keys 1 w of
            (Inl e, w) \<Rightarrow> Some (Inl (LeaseFailure e), s, w)
          | (Inr jobs, w) \<Rightarrow>
              (case policy_current env wk w of (current, w) \<Rightarrow>
               if \<not> current then Some (Inr handled, s, w)
               else if jobs = [] then Some (Inr handled, s, w)
               else (case handle_all env wk store jobs s w of
                       None \<Rightarrow> None
                     | Some (s, w) \<Rightarrow> pass_loop env wk store keys (handled + length jobs) s w))))))"
  by pat_completeness auto
termination
  by (relation "measure (\<lambda>(env, wk, store, keys, handled, s, w). max_jobs_per_pass - handled)") (auto simp: neq_Nil_conv)

declare pass_loop.simps [simp del]

definition run_pass ::
  "'w worker_env \<Rightarrow> worker \<Rightarrow> codec \<Rightarrow> disk \<Rightarrow> 'w \<Rightarrow> ((pass_error + nat) \<times> disk \<times> 'w) option" where
  "run_pass env wk codec d w =
     (case policy_current env wk w of (current, w) \<Rightarrow>
      if \<not> current then Some (Inr 0, d, w)
      else let keys = enabled_keys (w_catalog wk) (w_policy wk) in
        if keys = [] then Some (Inr 0, d, w)
        else (case records_open codec d of
                (Inl e, d) \<Rightarrow> Some (Inl (RecordFailure e), d, w)
              | (Inr rs, d) \<Rightarrow>
                  map_option (\<lambda>(r, s, w). (r, snd s, w)) (pass_loop env wk (disk_store codec) keys 0 (rs, d) w)))"

section \<open>The loop rule\<close>

text \<open>What every round of the supervising loop keeps, the loop keeps.\<close>

lemma supervise_keeps:
  assumes "supervise env wk timeout at s w = Some (v, s', w')"
    and "\<And>s w v s' w'. P s w \<Longrightarrow> supervise_step env wk timeout at s w = (v, s', w') \<Longrightarrow> P s' w'"
    and "P s w"
  shows "P s' w'"
proof -
  have "case r of (v, s', w') \<Rightarrow>
      (\<forall>s w v s' w'. P s w \<longrightarrow> supervise_step env wk timeout at s w = (v, s', w') \<longrightarrow> P s' w') \<longrightarrow> P s w \<longrightarrow> P s' w'"
    if "supervise env wk timeout at s w = Some r" for r
  proof (rule supervise.raw_induct[OF _ that])
    fix f env wk timeout at s w r
    assume IH: "\<And>env wk timeout at s w r. f env wk timeout at s w = Some r \<Longrightarrow> case r of (v, s', w') \<Rightarrow>
      (\<forall>s w v s' w'. P s w \<longrightarrow> supervise_step env wk timeout at s w = (v, s', w') \<longrightarrow> P s' w') \<longrightarrow> P s w \<longrightarrow> P s' w'"
      and eq: "(case supervise_step env wk timeout at s w of (v, s, w) \<Rightarrow>
        if v = None then f env wk timeout at s w else Some (the v, s, w)) = Some r"
    obtain v1 s1 w1 where st: "supervise_step env wk timeout at s w = (v1, s1, w1)" by (metis prod_cases3)
    show "case r of (v, s', w') \<Rightarrow>
      (\<forall>s w v s' w'. P s w \<longrightarrow> supervise_step env wk timeout at s w = (v, s', w') \<longrightarrow> P s' w') \<longrightarrow> P s w \<longrightarrow> P s' w'"
    proof (cases v1)
      case None
      then have "f env wk timeout at s1 w1 = Some r" using eq st by simp
      from IH[OF this] show ?thesis using st by (cases r) blast
    next
      case (Some x)
      then show ?thesis using eq st by auto
    qed
  qed
  from this[OF assms(1)] show ?thesis using assms(2,3) by simp
qed

lemma supervise_last_step:
  assumes "supervise env wk timeout at s w = Some (v, s', w')"
  shows "\<exists>s0 w0. supervise_step env wk timeout at s0 w0 = (Some v, s', w')"
proof -
  have "case r of (v, s', w') \<Rightarrow> \<exists>s0 w0. supervise_step env wk timeout at s0 w0 = (Some v, s', w')"
    if "supervise env wk timeout at s w = Some r" for r
  proof (rule supervise.raw_induct[OF _ that])
    fix f env wk timeout at s w r
    assume IH: "\<And>env wk timeout at s w r. f env wk timeout at s w = Some r \<Longrightarrow> case r of (v, s', w') \<Rightarrow>
      \<exists>s0 w0. supervise_step env wk timeout at s0 w0 = (Some v, s', w')"
      and eq: "(case supervise_step env wk timeout at s w of (v, s, w) \<Rightarrow>
        if v = None then f env wk timeout at s w else Some (the v, s, w)) = Some r"
    obtain v1 s1 w1 where st: "supervise_step env wk timeout at s w = (v1, s1, w1)" by (metis prod_cases3)
    show "case r of (v, s', w') \<Rightarrow> \<exists>s0 w0. supervise_step env wk timeout at s0 w0 = (Some v, s', w')"
      using eq st IH[of env wk timeout at s1 w1 r] by (cases v1) auto
  qed
  from this[OF assms] show ?thesis by simp
qed

end
