(* ===== verification/Worker_Log.thy ===== *)
theory Worker_Log
  imports Job_Worker
begin

text \<open>
  The worker observed: an environment that logs every report, start and result, what one call
  of each of the worker's functions adds to the log, and the numbering of a lease's reports.
\<close>

section \<open>A log of what the worker does\<close>

datatype action =
    Reported job_report instant "transport_error + report_ack"
  | Spawned capability json instant
  | Got instant "job_failure + json"

definition lift_read :: "('w \<Rightarrow> 'x \<times> 'w) \<Rightarrow> 'w \<times> action list \<Rightarrow> 'x \<times> 'w \<times> action list" where
  "lift_read f wl = (case f (fst wl) of (x, w) \<Rightarrow> (x, w, snd wl))"

definition note_received :: "received \<times> 'w \<times> action list \<Rightarrow> received \<times> 'w \<times> action list" where
  "note_received rwl = (case rwl of (r, w, l) \<Rightarrow>
     (r, w, l @ (case r of Received at result \<Rightarrow> [Got at result] | NothingYet \<Rightarrow> [] | Disconnected \<Rightarrow> [])))"

definition logged :: "'w worker_env \<Rightarrow> ('w \<times> action list) worker_env" where
  "logged env =
     \<lparr>j_now = lift_read (j_now env), j_utc = lift_read (j_utc env), j_new_v4 = lift_read (j_new_v4 env),
      j_generation = lift_read (j_generation env), j_stopped = lift_read (j_stopped env),
      j_lease = (\<lambda>keys n. lift_read (j_lease env keys n)),
      j_report_before = (\<lambda>job r at wl. case j_report_before env job r at (fst wl) of
        (x, w) \<Rightarrow> (x, w, snd wl @ [Reported r at x])),
      j_spawn = (\<lambda>c p at wl. (j_spawn env c p at (fst wl), snd wl @ [Spawned c p at])),
      j_cancel = (\<lambda>wl. (j_cancel env (fst wl), snd wl)),
      j_join = (\<lambda>wl. (j_join env (fst wl), snd wl)),
      j_try_recv = (\<lambda>wl. note_received (lift_read (j_try_recv env) wl)),
      j_recv_timeout = (\<lambda>d wl. note_received (lift_read (j_recv_timeout env d) wl))\<rparr>"

lemma lift_read_log [simp]: "snd (snd (lift_read f wl)) = snd wl"
  by (simp add: lift_read_def split: prod.split)

lemma logged_reads:
  "j_now (logged env) wl = (x, wl') \<Longrightarrow> snd wl' = snd wl"
  "j_utc (logged env) wl = (y, wl') \<Longrightarrow> snd wl' = snd wl"
  "j_new_v4 (logged env) wl = (i, wl') \<Longrightarrow> snd wl' = snd wl"
  "j_generation (logged env) wl = (g, wl') \<Longrightarrow> snd wl' = snd wl"
  "j_stopped (logged env) wl = (b, wl') \<Longrightarrow> snd wl' = snd wl"
  "j_lease (logged env) keys n wl = (z, wl') \<Longrightarrow> snd wl' = snd wl"
  "policy_current (logged env) wk wl = (c, wl') \<Longrightarrow> snd wl' = snd wl"
  by (auto simp: logged_def policy_current_def lift_read_def split: prod.splits)

lemma logged_writes [simp]:
  "snd (j_cancel (logged env) wl) = snd wl"
  "snd (j_join (logged env) wl) = snd wl"
  "snd (j_spawn (logged env) c p at wl) = snd wl @ [Spawned c p at]"
  by (simp_all add: logged_def)

lemma logged_report:
  "j_report_before (logged env) job r at wl = (x, wl') \<Longrightarrow> snd wl' = snd wl @ [Reported r at x]"
  by (auto simp: logged_def split: prod.splits)

definition got :: "received \<Rightarrow> action list" where
  "got r = (case r of Received at result \<Rightarrow> [Got at result] | NothingYet \<Rightarrow> [] | Disconnected \<Rightarrow> [])"

lemma logged_recv:
  "j_try_recv (logged env) wl = (r, wl') \<Longrightarrow> snd wl' = snd wl @ got r"
  "j_recv_timeout (logged env) d wl = (r, wl') \<Longrightarrow> snd wl' = snd wl @ got r"
  by (auto simp: logged_def note_received_def lift_read_def got_def split: prod.splits)

section \<open>Reports of one lease\<close>

fun report_of :: "action \<Rightarrow> job_report option" where
  "report_of (Reported r at x) = Some r"
| "report_of _ = None"

definition reports :: "action list \<Rightarrow> job_report list" where
  "reports l = List.map_filter report_of l"

text \<open>Renga's answers that end a lease.\<close>

fun refused :: "action \<Rightarrow> bool" where
  "refused (Reported r at (Inl e)) = (te_status e \<in> {Some 401, Some 403, Some 409})"
| "refused _ = False"

definition is_report :: "action \<Rightarrow> bool" where
  "is_report a = (report_of a \<noteq> None)"

lemma reports_simps [simp]:
  "reports [] = []"
  "reports (l @ m) = reports l @ reports m"
  "reports [Reported r at x] = [r]"
  "reports [Spawned c p at] = []"
  "reports (got r') = []"
  by (simp_all add: reports_def map_filter_simps got_def List.map_filter_def split: received.split)

lemma reports_Cons [simp]:
  "reports (Reported r at x # l) = r # reports l"
  "reports (Spawned c p at # l) = reports l"
  "reports (Got at y # l) = reports l"
  by (simp_all add: reports_def map_filter_simps)

definition session :: "reporter \<Rightarrow> action list \<Rightarrow> bool" where
  "session rp l \<longleftrightarrow> map rp_sequence (reports l) = [1..<Suc (rep_sequence rp)]
     \<and> list_all (\<lambda>r. rp_lease_token r = rep_lease_token rp) (reports l)
     \<and> list_all (\<lambda>a. \<not> refused a) (butlast (filter is_report l))
     \<and> (rep_lost rp \<or> list_all (\<lambda>a. \<not> refused a) l)"

lemma session_lost [simp]: "session rp l \<Longrightarrow> session (rp\<lparr>rep_lost := True\<rparr>) l"
  by (simp add: session_def)

lemma session_quiet:
  assumes "session rp l" and "list_all (\<lambda>a. \<not> is_report a) m"
  shows "session rp (l @ m)"
proof -
  have "reports m = []" "filter is_report m = []" "list_all (\<lambda>a. \<not> refused a) m"
    using assms(2) by (induction m)
      (auto simp: is_report_def reports_def map_filter_simps split: option.splits elim: refused.elims)
  then show ?thesis using assms(1) by (simp add: session_def)
qed

lemma refused_is_report: "refused a \<Longrightarrow> is_report a"
  by (cases a) (auto simp: is_report_def)

text \<open>
  Sending either adds nothing and leaves the lease lost, or adds the next report.
\<close>

lemma send_logged:
  assumes "send (logged env) kind payload rp wl = (ack, rp', wl')"
  obtains (silent) "ack = None" "rp' = rp\<lparr>rep_lost := True\<rparr>" "snd wl' = snd wl"
  | (sent) r x where "snd wl' = snd wl @ [Reported r (rep_lease_deadline rp) x]"
      "rp_kind r = kind" "rp_payload r = payload" "rp_sequence r = Suc (rep_sequence rp)"
      "rp_lease_token r = rep_lease_token rp" "\<not> rep_lost rp"
      "rep_sequence rp' = Suc (rep_sequence rp)" "rep_lease_token rp' = rep_lease_token rp"
      "ack = (case x of Inl _ \<Rightarrow> None | Inr a \<Rightarrow> Some a)"
      "rep_lost rp' = refused (Reported r (rep_lease_deadline rp) x)"
proof (cases "rep_lost rp")
  case True
  then show ?thesis using assms by (intro silent) (simp_all add: send_def)
next
  case False
  obtain now w1 where n: "j_now (logged env) wl = (now, w1)" by (metis surj_pair)
  obtain sent_at w2 where n2: "j_now (logged env) w1 = (sent_at, w2)" by (metis surj_pair)
  let ?r = "\<lparr>rp_lease_token = rep_lease_token rp, rp_sequence = Suc (rep_sequence rp), rp_kind = kind, rp_payload = payload\<rparr>"
  obtain x w3 where r: "j_report_before (logged env) (rep_job_id rp) ?r (rep_lease_deadline rp) w2 = (x, w3)"
    by (metis surj_pair)
  note logs = logged_reads(1)[OF n] logged_reads(1)[OF n2] logged_report[OF r]
  show ?thesis
  proof (cases "rep_lease_deadline rp \<le> now")
    case True
    then show ?thesis using assms False n logs by (intro silent) (simp_all add: send_def)
  next
    case late: False
    show ?thesis
      using assms False n n2 r late logs
      by (intro sent[of ?r x]) (auto simp: send_def Let_def split: sum.splits if_splits)
  qed
qed

lemma send_session:
  assumes "send (logged env) kind payload rp wl = (ack, rp', wl')" and "session rp (snd wl)"
  shows "session rp' (snd wl')"
  using assms(1)
proof (cases rule: send_logged)
  case silent
  then show ?thesis using assms(2) by simp
next
  case (sent r x)
  have "list_all (\<lambda>a. \<not> refused a) (filter is_report (snd wl))"
    using assms(2) sent(6) by (auto simp: session_def list_all_iff)
  then show ?thesis
    using assms(2) sent by (auto simp: session_def is_report_def)
qed

section \<open>The supervising loop only reports progress\<close>

fun quiet :: "action \<Rightarrow> bool" where
  "quiet (Reported r at x) = (rp_kind r = Progress)"
| "quiet (Got at result) = True"
| "quiet (Spawned c p at) = False"

definition beats :: "reporter \<Rightarrow> action list \<Rightarrow> reporter \<Rightarrow> action list \<Rightarrow> bool" where
  "beats rp l rp' l' \<longleftrightarrow> (session rp l \<longrightarrow> session rp' l') \<and> rep_lease_token rp' = rep_lease_token rp
     \<and> (\<exists>m. l' = l @ m \<and> list_all quiet m)"

lemma beats_refl [simp]: "beats rp l rp l"
  by (simp add: beats_def)

lemma beats_lost [simp]: "beats rp l (rp\<lparr>rep_lost := True\<rparr>) l"
  by (simp add: beats_def)

lemma beats_trans: "beats rp l rp1 l1 \<Longrightarrow> beats rp1 l1 rp2 l2 \<Longrightarrow> beats rp l rp2 l2"
  by (auto simp: beats_def)

lemma beats_got [simp]: "beats rp l rp (l @ got r)"
  by (auto simp: beats_def got_def is_report_def intro!: session_quiet split: received.split)

lemma send_beats:
  assumes "send (logged env) Progress payload rp wl = (ack, rp', wl')"
  shows "beats rp (snd wl) rp' (snd wl')"
  using assms
proof (cases rule: send_logged)
  case (sent r x)
  then show ?thesis using send_session[OF assms] by (auto simp: beats_def)
qed simp

lemma judge_logged: "judge (logged env) timeout at r wl = (v, wl') \<Longrightarrow> snd wl' = snd wl"
  by (auto simp: judge_def split: received.splits if_splits)

lemma beat_report_beats:
  "beat_report (logged env) s wl = (s', wl') \<Longrightarrow> beats (s_reporter s) (snd wl) (s_reporter s') (snd wl')"
  by (auto simp: beat_report_def Let_def split: prod.splits if_splits dest!: send_beats)

lemma beat_beats:
  assumes "beat (logged env) wk timeout at s wl = (v, s', wl')"
  shows "beats (s_reporter s) (snd wl) (s_reporter s') (snd wl')"
proof -
  obtain s1 w1 where b: "beat_report (logged env) s wl = (s1, w1)" by (metis surj_pair)
  have "beats (s_reporter s1) (snd w1) (s_reporter s') (snd wl')"
    using assms b by (auto simp: beat_def split: prod.splits if_splits
        dest!: logged_reads(1,5) logged_recv(1) judge_logged)
  then show ?thesis using beat_report_beats[OF b] beats_trans by blast
qed

lemma await_result_logged:
  assumes "await_result (logged env) timeout at s wl = (v, wl')"
  shows "\<exists>r. snd wl' = snd wl @ got r"
  using assms by (auto simp: await_result_def split: prod.splits
      dest!: logged_reads(1) logged_recv(2) judge_logged)

text \<open>A round of the loop, with its intermediate states named.\<close>

lemma supervise_step_states:
  assumes "supervise_step env wk timeout at s w = (v, s', w')"
  obtains now w1 stop w2 s2 w3 v1 s3 w4 v2 w5 where
    "j_now env w = (now, w1)" "j_stopped env w1 = (stop, w2)"
    "s2 = (if rep_lease_deadline (s_reporter s) \<le> now then s\<lparr>s_reporter := (s_reporter s)\<lparr>rep_lost := True\<rparr>\<rparr> else s)"
    "w3 = (if rep_lease_deadline (s_reporter s) \<le> now then j_cancel env w2 else w2)"
    "(if s_next_heartbeat s2 \<le> now then beat env wk timeout at s2 w3 else (None, s2, w3)) = (v1, s3, w4)"
    "await_result env timeout at s3 w4 = (v2, w5)"
    "(v, s', w') = (if stop then (Some Unfinished, s, j_join env (j_cancel env w2))
      else if at \<le> now then (Some (Ended (timeout_failure timeout)), s2, j_cancel env w3)
      else if v1 \<noteq> None then (v1, s3, w4) else (v2, s3, w5))"
proof -
  obtain now w1 where n: "j_now env w = (now, w1)" by (metis surj_pair)
  obtain stop w2 where st: "j_stopped env w1 = (stop, w2)" by (metis surj_pair)
  define lapsed where "lapsed \<longleftrightarrow> rep_lease_deadline (s_reporter s) \<le> now"
  define s2 where "s2 = (if lapsed then s\<lparr>s_reporter := (s_reporter s)\<lparr>rep_lost := True\<rparr>\<rparr> else s)"
  define w3 where "w3 = (if lapsed then j_cancel env w2 else w2)"
  obtain v1 s3 w4 where b: "(if s_next_heartbeat s2 \<le> now then beat env wk timeout at s2 w3
      else (None, s2, w3)) = (v1, s3, w4)" by (metis prod_cases3)
  obtain v2 w5 where aw: "await_result env timeout at s3 w4 = (v2, w5)" by (metis surj_pair)
  have "(v, s', w') = (if stop then (Some Unfinished, s, j_join env (j_cancel env w2))
      else if at \<le> now then (Some (Ended (timeout_failure timeout)), s2, j_cancel env w3)
      else if v1 \<noteq> None then (v1, s3, w4) else (v2, s3, w5))"
    unfolding assms[symmetric]
    by (simp only: supervise_step_def n st prod.case Let_def flip: lapsed_def s2_def w3_def)
      (simp only: b aw prod.case)
  from that[OF n st s2_def[unfolded lapsed_def] w3_def[unfolded lapsed_def] b aw this] show ?thesis .
qed

lemma supervise_step_beats:
  assumes "supervise_step (logged env) wk timeout at s wl = (v, s', wl')"
  shows "beats (s_reporter s) (snd wl) (s_reporter s') (snd wl')"
  using assms
proof (rule supervise_step_states)
  fix now w1 stop w2 s2 w3 v1 s3 w4 v2 w5
  assume n: "j_now (logged env) wl = (now, w1)" and st: "j_stopped (logged env) w1 = (stop, w2)"
    and s2: "s2 = (if rep_lease_deadline (s_reporter s) \<le> now then s\<lparr>s_reporter := (s_reporter s)\<lparr>rep_lost := True\<rparr>\<rparr> else s)"
    and w3: "w3 = (if rep_lease_deadline (s_reporter s) \<le> now then j_cancel (logged env) w2 else w2)"
    and b: "(if s_next_heartbeat s2 \<le> now then beat (logged env) wk timeout at s2 w3 else (None, s2, w3)) = (v1, s3, w4)"
    and aw: "await_result (logged env) timeout at s3 w4 = (v2, w5)"
    and fin: "(v, s', wl') = (if stop then (Some Unfinished, s, j_join (logged env) (j_cancel (logged env) w2))
      else if at \<le> now then (Some (Ended (timeout_failure timeout)), s2, j_cancel (logged env) w3)
      else if v1 \<noteq> None then (v1, s3, w4) else (v2, s3, w5))"
  have l3: "snd w2 = snd wl" "snd w3 = snd wl" using logged_reads(1)[OF n] logged_reads(5)[OF st] by (simp_all add: w3)
  have b2: "beats (s_reporter s) (snd wl) (s_reporter s2) (snd w3)" by (simp add: s2 l3)
  have b3: "beats (s_reporter s2) (snd w3) (s_reporter s3) (snd w4)"
    using b beat_beats[of env wk timeout at s2 w3 v1 s3 w4] by (auto split: if_splits)
  note bb = beats_trans[OF b2 b3]
  obtain r where r: "snd w5 = snd w4 @ got r" using await_result_logged[OF aw] by blast
  have bw: "beats (s_reporter s) (snd wl) (s_reporter s3) (snd w5)" using beats_trans[OF bb beats_got] r by metis
  consider "s' = s" "snd wl' = snd wl" | "s' = s2" "snd wl' = snd w3" | "s' = s3" "wl' = w4" | "s' = s3" "wl' = w5"
    using fin l3 by (auto split: if_splits)
  then show ?thesis using b2 bb bw by cases simp_all
qed

lemma supervise_beats:
  assumes "supervise (logged env) wk timeout at s wl = Some (v, s', wl')"
  shows "beats (s_reporter s) (snd wl) (s_reporter s') (snd wl')"
  using assms
proof (rule supervise_keeps[where P = "\<lambda>s2 w2. beats (s_reporter s) (snd wl) (s_reporter s2) (snd w2)"])
  fix s1 w1 v1 s2 w2
  assume "beats (s_reporter s) (snd wl) (s_reporter s1) (snd w1)"
    and "supervise_step (logged env) wk timeout at s1 w1 = (v1, s2, w2)"
  then show "beats (s_reporter s) (snd wl) (s_reporter s2) (snd w2)"
    using beats_trans supervise_step_beats by blast
qed simp

text \<open>A result the loop accepts was received, and received in time.\<close>

lemma judge_result:
  assumes "judge (logged env) timeout at r wl = (Some (Ended (Inr v)), wl')"
  shows "\<exists>t. r = Received t (Inr v) \<and> t \<le> at"
  using assms by (auto simp: judge_def timeout_failure_def split: received.splits if_splits)

lemma await_result_result:
  assumes "await_result (logged env) timeout at s wl = (Some (Ended (Inr v)), wl')"
  shows "\<exists>t. Got t (Inr v) \<in> set (snd wl') \<and> t \<le> at"
proof -
  obtain now w1 where n: "j_now (logged env) wl = (now, w1)" by (metis surj_pair)
  obtain r w2 where r: "j_recv_timeout (logged env)
    (min (min poll_interval (at - now)) (s_next_heartbeat s - now)) w1 = (r, w2)" by (metis surj_pair)
  have j: "judge (logged env) timeout at r w2 = (Some (Ended (Inr v)), wl')"
    using assms n r by (simp add: await_result_def)
  show ?thesis using judge_result[OF j] judge_logged[OF j] logged_recv(2)[OF r] by (auto simp: got_def)
qed

lemma beat_result:
  assumes "beat (logged env) wk timeout at s wl = (Some (Ended (Inr v)), s', wl')"
  shows "\<exists>t. Got t (Inr v) \<in> set (snd wl') \<and> t \<le> at"
proof -
  obtain s1 w1 where b: "beat_report (logged env) s wl = (s1, w1)" by (metis surj_pair)
  obtain stop w2 where st: "j_stopped (logged env) w1 = (stop, w2)" by (metis surj_pair)
  obtain now w3 where n: "j_now (logged env) w2 = (now, w3)" by (metis surj_pair)
  obtain r w4 where r: "j_try_recv (logged env) w3 = (r, w4)" by (metis surj_pair)
  obtain v1 w5 where j: "judge (logged env) timeout at r w4 = (v1, w5)" by (metis surj_pair)
  have "v1 = Some (Ended (Inr v))" "wl' = w5"
    using assms b st n r j by (auto simp: beat_def timeout_failure_def split: if_splits)
  then show ?thesis using judge_result[of env timeout at r w4 v w5] judge_logged[OF j] logged_recv(1)[OF r] j
    by (auto simp: got_def)
qed

lemma supervise_result:
  assumes "supervise (logged env) wk timeout at s wl = Some (Ended (Inr v), s', wl')"
  shows "\<exists>t. Got t (Inr v) \<in> set (snd wl') \<and> t \<le> at"
proof -
  obtain s0 w0 where st: "supervise_step (logged env) wk timeout at s0 w0 = (Some (Ended (Inr v)), s', wl')"
    using supervise_last_step[OF assms] by blast
  show ?thesis
    using st
  proof (rule supervise_step_states)
    fix now w1 stop w2 s2 w3 v1 s3 w4 v2 w5
    assume b: "(if s_next_heartbeat s2 \<le> now then beat (logged env) wk timeout at s2 w3 else (None, s2, w3)) = (v1, s3, w4)"
      and aw: "await_result (logged env) timeout at s3 w4 = (v2, w5)"
      and fin: "(Some (Ended (Inr v)), s', wl') =
        (if stop then (Some Unfinished, s0, j_join (logged env) (j_cancel (logged env) w2))
         else if at \<le> now then (Some (Ended (timeout_failure timeout)), s2, j_cancel (logged env) w3)
         else if v1 \<noteq> None then (v1, s3, w4) else (v2, s3, w5))"
    consider "v1 = Some (Ended (Inr v))" "wl' = w4" | "v2 = Some (Ended (Inr v))" "wl' = w5"
      using fin by (auto simp: timeout_failure_def split: if_splits)
    then show ?thesis
    proof cases
      case 1
      then have "beat (logged env) wk timeout at s2 w3 = (Some (Ended (Inr v)), s3, wl')"
        using b by (simp split: if_splits)
      then show ?thesis by (rule beat_result)
    next
      case 2
      then show ?thesis using aw await_result_result[of env timeout at s3 w4 v wl'] by simp
    qed
  qed
qed

section \<open>The conversation of one job\<close>

definition ending :: "action list \<Rightarrow> bool" where
  "ending l \<longleftrightarrow> l = [] \<or> (\<exists>r at x. l = [Reported r at x] \<and> terminal (rp_kind r))"

definition spawning :: "capability \<Rightarrow> json \<Rightarrow> transport_error + report_ack \<Rightarrow> action list \<Rightarrow> bool" where
  "spawning c p x m \<longleftrightarrow> m = [] \<or> (\<exists>at m' a. m = Spawned c p at # m' \<and> list_all quiet m'
     \<and> x = Inr a \<and> \<not> ra_cancel_requested a)"

definition conversation :: "capability \<Rightarrow> json \<Rightarrow> action list \<Rightarrow> bool" where
  "conversation c p l \<longleftrightarrow> ending l
     \<or> (\<exists>r at x m rest. l = Reported r at x # m @ rest \<and> rp_kind r = Started \<and> spawning c p x m \<and> ending rest)"

definition in_session :: "string \<Rightarrow> action list \<Rightarrow> bool" where
  "in_session token l \<longleftrightarrow> (\<exists>rp. session rp l \<and> rep_lease_token rp = token)"

lemma send_in_session:
  assumes "send (logged env) kind payload rp wl = (ack, rp', wl')" and "session rp (snd wl)"
  shows "session rp' (snd wl')" and "rep_lease_token rp' = rep_lease_token rp"
    and "in_session (rep_lease_token rp) (snd wl')"
proof -
  show s: "session rp' (snd wl')" using assms by (rule send_session)
  show t: "rep_lease_token rp' = rep_lease_token rp" using assms(1) by (cases rule: send_logged) simp_all
  show "in_session (rep_lease_token rp) (snd wl')" using s t by (auto simp: in_session_def)
qed

lemma send_ending:
  assumes "send (logged env) kind payload rp wl = (ack, rp', wl')" and "terminal kind"
  shows "\<exists>m. snd wl' = snd wl @ m \<and> ending m"
  using assms(1) by (cases rule: send_logged) (use assms(2) in \<open>auto simp: ending_def\<close>)

lemma confirm_logged: "confirm (logged env) store j s wl = (s', wl') \<Longrightarrow> snd wl' = snd wl"
  by (auto simp: confirm_def split: prod.splits dest!: logged_reads(2,3))

lemma finish_logged:
  assumes "finish (logged env) store job rp out s wl = (s', wl')" and "terminal (out_kind out)"
    and "session rp (snd wl)"
  shows "(\<exists>m. snd wl' = snd wl @ m \<and> ending m) \<and> in_session (rep_lease_token rp) (snd wl')"
proof -
  obtain utc w1 where u: "j_utc (logged env) wl = (utc, w1)" by (metis surj_pair)
  obtain i w2 where v: "j_new_v4 (logged env) w1 = (i, w2)" by (metis surj_pair)
  have l2: "snd w2 = snd wl" using logged_reads(2)[OF u] logged_reads(3)[OF v] by simp
  obtain ack rp' w3 where sd: "send (logged env) (out_kind out) (out_payload out) rp w2 = (ack, rp', w3)"
    by (metis prod_cases3)
  consider "rep_lost rp" "snd wl' = snd w2" | "\<not> rep_lost rp" "snd wl' = snd w3"
    using assms(1) u v sd by (auto simp: finish_def Let_def split: if_splits dest: confirm_logged)
  then show ?thesis
  proof cases
    case 1
    then show ?thesis using assms(3) l2 by (auto simp: ending_def in_session_def)
  next
    case 2
    then show ?thesis
      using send_ending[OF sd assms(2)] send_in_session(3)[OF sd] assms(3) l2 by simp
  qed
qed

lemma run_outcome_terminal: "run_outcome result b = Some out \<Longrightarrow> terminal (out_kind out)"
  by (auto simp: run_outcome_def cancelled_outcome_def terminal_def split: sum.splits job_failure.splits if_splits)

lemma run_logged:
  assumes "run (logged env) wk job c rp wl = Some (out, rp', wl')"
  obtains (refused) "out = None" "rp' = rp" "snd wl' = snd wl"
  | (ran) at m where "snd wl' = snd wl @ Spawned c (lj_parameters job) at # m" "list_all quiet m"
      "rep_lease_token rp' = rep_lease_token rp" "session rp (snd wl) \<Longrightarrow> session rp' (snd wl')"
      "\<And>o'. out = Some o' \<Longrightarrow> terminal (out_kind o')"
      "\<And>o'. out = Some o' \<Longrightarrow> out_kind o' = Succeeded
         \<Longrightarrow> \<exists>t v. Got t (Inr v) \<in> set (snd wl') \<and> t \<le> at \<and> out_payload o' = JObject [(''result'', v)]"
proof -
  obtain now w1 where n: "j_now (logged env) wl = (now, w1)" by (metis surj_pair)
  let ?at = "now + run_timeout c job"
  obtain g w2 where g: "j_generation (logged env) w1 = (g, w2)" by (metis surj_pair)
  define w3 where "w3 = j_spawn (logged env) c (lj_parameters job) ?at w2"
  obtain now2 w4 where n2: "j_now (logged env) w3 = (now2, w4)" by (metis surj_pair)
  let ?s = "\<lparr>s_next_heartbeat = now2 + w_heartbeat wk, s_cancel_requested = False, s_reporter = rp\<rparr>"
  note logs = logged_reads(1)[OF n] logged_reads(4)[OF g] logged_reads(1)[OF n2]
  have l4: "snd w4 = snd wl @ [Spawned c (lj_parameters job) ?at]" using logs by (simp add: w3_def)
  have run: "run (logged env) wk job c rp wl =
    (if g \<noteq> w_expected_generation wk then Some (None, rp, w2)
     else (case supervise (logged env) wk (run_timeout c job) ?at ?s w4 of
        None \<Rightarrow> None
      | Some (Unfinished, s, w) \<Rightarrow> Some (None, s_reporter s, w)
      | Some (Ended result, s, w) \<Rightarrow>
          Some (run_outcome result (s_cancel_requested s), s_reporter s, j_join (logged env) w)))"
    using n g n2 by (simp add: run_def if_current_def Let_def w3_def)
  show ?thesis
  proof (cases "g = w_expected_generation wk")
    case False
    then show ?thesis using assms run logs by (intro refused) simp_all
  next
    case True
    then obtain v s w5 where sup: "supervise (logged env) wk (run_timeout c job) ?at ?s w4 = Some (v, s, w5)"
      using assms run by (auto split: option.splits)
    have fin: "rp' = s_reporter s" "snd wl' = snd w5"
      "out = (case v of Unfinished \<Rightarrow> None | Ended result \<Rightarrow> run_outcome result (s_cancel_requested s))"
      using assms run True sup by (auto split: verdict.splits)
    have b: "beats rp (snd w4) rp' (snd wl')" using supervise_beats[OF sup] fin by simp
    then obtain m where m: "snd wl' = snd w4 @ m" "list_all quiet m" by (auto simp: beats_def)
    have sp: "session rp (snd w4)" if "session rp (snd wl)"
      unfolding l4 using that by (rule session_quiet) (simp add: is_report_def)
    have result: "\<exists>t v'. Got t (Inr v') \<in> set (snd wl') \<and> t \<le> ?at \<and> out_payload o' = JObject [(''result'', v')]"
      if out: "out = Some o'" and kind: "out_kind o' = Succeeded" for o'
    proof -
      obtain v' where v': "v = Ended (Inr v')" "out_payload o' = JObject [(''result'', v')]"
        using out kind fin(3) by (auto simp: run_outcome_def cancelled_outcome_def
            split: verdict.splits sum.splits job_failure.splits if_splits)
      with sup have "supervise (logged env) wk (run_timeout c job) ?at ?s w4 = Some (Ended (Inr v'), s, w5)" by simp
      from supervise_result[OF this] show ?thesis using v'(2) fin(2) by auto
    qed
    show ?thesis
      using m l4 b sp result fin(3) run_outcome_terminal
      by (intro ran[of ?at m]) (auto simp: beats_def split: verdict.splits)
  qed
qed

text \<open>
  The ways a job that may run goes: it cannot be recorded, it is recorded but not started, it is
  cancelled before it starts, or it runs.
\<close>

lemma execute_cases:
  assumes "execute env wk store job c rp s w = Some (s', w')"
  obtains (unrecorded) utc w1 i w2 e where "j_utc env w = (utc, w1)" "j_new_v4 env w1 = (i, w2)"
      "js_start store i (lj_id job) (lj_capability job) (cap_retry_class c) utc s = (Inl e, s')"
      "w' = snd (snd (send env Failed (failure_json ''the agent cannot record jobs in its state directory'') rp w2))"
  | (stale) utc w1 i w2 u where "j_utc env w = (utc, w1)" "j_new_v4 env w1 = (i, w2)"
      "js_start store i (lj_id job) (lj_capability job) (cap_retry_class c) utc s = (Inr u, s')"
      "policy_current env wk w2 = (False, w')"
  | (unstarted) utc w1 i w2 u w3 ack rp1 w4 where "j_utc env w = (utc, w1)" "j_new_v4 env w1 = (i, w2)"
      "js_start store i (lj_id job) (lj_capability job) (cap_retry_class c) utc s = (Inr u, s')"
      "policy_current env wk w2 = (True, w3)" "send env Started (JObject []) rp w3 = (ack, rp1, w4)"
      "ack = None \<and> w' = w4 \<or> policy_current env wk w4 = (False, w')"
  | (started) utc w1 i w2 u s1 w3 a rp1 w4 w5 where "j_utc env w = (utc, w1)" "j_new_v4 env w1 = (i, w2)"
      "js_start store i (lj_id job) (lj_capability job) (cap_retry_class c) utc s = (Inr u, s1)"
      "policy_current env wk w2 = (True, w3)" "send env Started (JObject []) rp w3 = (Some a, rp1, w4)"
      "policy_current env wk w4 = (True, w5)"
      "ra_cancel_requested a \<and> (s', w') = finish env store job rp1 cancelled_outcome s1 w5
       \<or> \<not> ra_cancel_requested a \<and> (\<exists>out rp2 w6. run env wk job c rp1 w5 = Some (out, rp2, w6)
           \<and> (s', w') = (case out of None \<Rightarrow> (s1, w6) | Some out \<Rightarrow> finish env store job rp2 out s1 w6))"
proof -
  obtain utc w1 where u: "j_utc env w = (utc, w1)" by (metis surj_pair)
  obtain i w2 where v: "j_new_v4 env w1 = (i, w2)" by (metis surj_pair)
  obtain x s1 where st: "js_start store i (lj_id job) (lj_capability job) (cap_retry_class c) utc s = (x, s1)"
    by (metis surj_pair)
  obtain c1 w3 where p1: "policy_current env wk w2 = (c1, w3)" by (metis surj_pair)
  obtain ack rp1 w4 where sd: "send env Started (JObject []) rp w3 = (ack, rp1, w4)" by (metis prod_cases3)
  obtain c2 w5 where p2: "policy_current env wk w4 = (c2, w5)" by (metis surj_pair)
  note eqs = u v st p1 sd p2
  show ?thesis
  proof (cases x)
    case (Inl e)
    then show ?thesis using assms u v st by (intro unrecorded[of utc w1 i w2 e]) (simp_all add: execute_def)
  next
    case (Inr y)
    consider "\<not> c1" | "c1" "ack = None \<or> \<not> c2" | a where "c1" "ack = Some a" "c2" by (cases ack) blast+
    then show ?thesis
    proof cases
      case 1
      then show ?thesis using assms eqs Inr by (intro stale[of utc w1 i w2 y]) (simp_all add: execute_def)
    next
      case 2
      then show ?thesis using assms eqs Inr
        by (intro unstarted[of utc w1 i w2 y w3 ack rp1 w4]) (auto simp: execute_def split: option.splits)
    next
      case (3 a)
      note start = eqs[unfolded 3(2) Inr] 3
      show ?thesis
      proof (cases "ra_cancel_requested a")
        case True
        then show ?thesis using assms start
          by (intro started[of utc w1 i w2 y s1 w3 a rp1 w4 w5]) (simp_all add: execute_def)
      next
        case False
        have "Some (s', w') = (case run env wk job c rp1 w5 of None \<Rightarrow> None
            | Some (None, rp, w) \<Rightarrow> Some (s1, w) | Some (Some out, rp, w) \<Rightarrow> Some (finish env store job rp out s1 w))"
          using assms start False by (simp add: execute_def)
        then obtain out rp2 w6 where "run env wk job c rp1 w5 = Some (out, rp2, w6)"
          "(s', w') = (case out of None \<Rightarrow> (s1, w6) | Some out \<Rightarrow> finish env store job rp2 out s1 w6)"
          by (auto split: option.splits prod.splits)
        then have "\<exists>out rp2 w6. run env wk job c rp1 w5 = Some (out, rp2, w6)
          \<and> (s', w') = (case out of None \<Rightarrow> (s1, w6) | Some out \<Rightarrow> finish env store job rp2 out s1 w6)" by blast
        then show ?thesis using start False
          by (intro started[of utc w1 i w2 y s1 w3 a rp1 w4 w5]) simp_all
      qed
    qed
  qed
qed

lemma send_started:
  assumes "send (logged env) Started payload rp wl = (ack, rp', wl')" and "snd wl = []" and "session rp []"
  shows "conversation c p (snd wl')" and "session rp' (snd wl')"
    and "rep_lease_token rp' = rep_lease_token rp"
    and "ack = Some a \<Longrightarrow> \<exists>r at. snd wl' = [Reported r at (Inr a)] \<and> rp_kind r = Started"
    and "Spawned c' p' t \<notin> set (snd wl')"
proof -
  show "session rp' (snd wl')" "rep_lease_token rp' = rep_lease_token rp"
    using send_in_session(1,2)[OF assms(1)] assms(2,3) by simp_all
  show "conversation c p (snd wl')"
    using assms(1) by (cases rule: send_logged) (use assms(2) in
      \<open>auto simp: conversation_def ending_def spawning_def\<close>)
  show "\<exists>r at. snd wl' = [Reported r at (Inr a)] \<and> rp_kind r = Started" if "ack = Some a"
    using assms(1) by (cases rule: send_logged) (use that assms(2) in \<open>auto split: sum.splits\<close>)
  show "Spawned c' p' t \<notin> set (snd wl')"
    using assms(1) by (cases rule: send_logged) (use assms(2) in auto)
qed

lemma ending_no_spawn: "ending m \<Longrightarrow> Spawned c p at \<notin> set m"
  by (auto simp: ending_def)

lemma execute_logged:
  assumes "execute (logged env) wk store job c rp s wl = Some (s', wl')"
    and l: "snd wl = []" and sn: "session rp []"
  shows "conversation c (lj_parameters job) (snd wl') \<and> in_session (rep_lease_token rp) (snd wl')
    \<and> ((\<exists>c' p at. Spawned c' p at \<in> set (snd wl')) \<longrightarrow>
        (\<exists>i utc u s1. js_start store i (lj_id job) (lj_capability job) (cap_retry_class c) utc s = (Inr u, s1)))"
  using assms(1)
proof (cases rule: execute_cases)
  case (unrecorded utc w1 i w2 e)
  have l2: "snd w2 = []" using logged_reads(2)[OF unrecorded(1)] logged_reads(3)[OF unrecorded(2)] l by simp
  obtain ack rp' where sd: "send (logged env) Failed (failure_json
    ''the agent cannot record jobs in its state directory'') rp w2 = (ack, rp', wl')"
    using unrecorded(4) by (metis prod.collapse)
  have "ending (snd wl')" using send_ending[OF sd] l2 by (auto simp: terminal_def)
  then show ?thesis using send_in_session(3)[OF sd] l2 sn by (auto simp: conversation_def dest: ending_no_spawn)
next
  case (stale utc w1 i w2 u)
  then have "snd wl' = []" using l by (auto dest!: logged_reads)
  then show ?thesis using sn by (auto simp: conversation_def ending_def in_session_def)
next
  case (unstarted utc w1 i w2 u w3 ack rp1 w4)
  then have "snd w3 = []" using l by (auto dest!: logged_reads(2,3,7))
  moreover have "snd wl' = snd w4" using unstarted(6) by (auto dest: logged_reads(7))
  ultimately show ?thesis using send_started[OF unstarted(5) _ sn] by (auto simp: in_session_def)
next
  case (started utc w1 i w2 u s1 w3 a rp1 w4 w5)
  have "snd w3 = []" using started(1,2,4) l by (auto dest!: logged_reads(2,3,7))
  note sd = send_started[OF started(5) this sn]
  obtain r at where w5: "snd w5 = [Reported r at (Inr a)]" "rp_kind r = Started"
    using sd(4)[OF refl] logged_reads(7)[OF started(6)] by auto
  have s5: "session rp1 (snd w5)" using sd(2) logged_reads(7)[OF started(6)] by simp
  have fin: "conversation c (lj_parameters job) (snd wl') \<and> in_session (rep_lease_token rp2) (snd wl')"
    if "(s', wl') = finish (logged env) store job rp2 out s1 w6" "terminal (out_kind out)" "session rp2 (snd w6)"
      "snd w6 = snd w5 @ m" "spawning c (lj_parameters job) (Inr a) m" for rp2 out w6 m
    using finish_logged[OF that(1)[symmetric] that(2,3)] that(4,5) w5 by (auto simp: conversation_def)
  have "conversation c (lj_parameters job) (snd wl') \<and> in_session (rep_lease_token rp) (snd wl')"
  proof (cases "ra_cancel_requested a")
    case True
    then show ?thesis using started(7) fin[of rp1 cancelled_outcome w5 "[]"] s5 sd(3)
      by (simp add: spawning_def cancelled_outcome_def terminal_def)
  next
    case False
    then obtain out rp2 w6 where run: "run (logged env) wk job c rp1 w5 = Some (out, rp2, w6)"
      "(s', wl') = (case out of None \<Rightarrow> (s1, w6) | Some out \<Rightarrow> finish (logged env) store job rp2 out s1 w6)"
      using started(7) by blast
    from run(1) show ?thesis
    proof (cases rule: run_logged)
      case refused
      then show ?thesis using run(2) w5 s5 sd(3) by (auto simp: conversation_def spawning_def ending_def in_session_def)
    next
      case (ran at' m)
      have sp: "spawning c (lj_parameters job) (Inr a) (Spawned c (lj_parameters job) at' # m)"
        using ran(2) False by (auto simp: spawning_def)
      show ?thesis
      proof (cases out)
        case None
        then show ?thesis using run(2) w5 ran(1,3) ran(4)[OF s5] sp sd(3)
          by (auto simp: conversation_def ending_def in_session_def)
      next
        case (Some o')
        then show ?thesis using fin[OF _ ran(5)[OF Some] ran(4)[OF s5] ran(1) sp] run(2) ran(3) sd(3) by simp
      qed
    qed
  qed
  then show ?thesis using started(3) by blast
qed

end
