(* ===== verification/Worker_Ends.thy ===== *)
theory Worker_Ends
  imports Worker_Log
begin

text \<open>
  The worker makes progress: with a clock that advances while it waits, the supervising loop
  ends no later than shortly after the job's deadline, and so does every pass.
\<close>

section \<open>A pass ends\<close>

text \<open>
  A clock that never runs back, that every operation may advance, and that a wait for the
  channel which delivers nothing advances by the time waited.
\<close>

definition clocked :: "('w \<Rightarrow> instant) \<Rightarrow> 'w worker_env \<Rightarrow> bool" where
  "clocked time env \<longleftrightarrow>
     (\<forall>w. time w \<le> fst (j_now env w) \<and> fst (j_now env w) \<le> time (snd (j_now env w)))
   \<and> (\<forall>w. time w \<le> time (snd (j_stopped env w)))
   \<and> (\<forall>j r t w. time w \<le> time (snd (j_report_before env j r t w)))
   \<and> (\<forall>w. time w \<le> time (j_cancel env w))
   \<and> (\<forall>w. time w \<le> time (j_join env w))
   \<and> (\<forall>w. time w \<le> time (snd (j_try_recv env w)))
   \<and> (\<forall>d w. time w + (if fst (j_recv_timeout env d w) = NothingYet then d else 0) \<le> time (snd (j_recv_timeout env d w)))"

lemma clocked_steps:
  assumes "clocked time env"
  shows "j_now env w = (n, w') \<Longrightarrow> time w \<le> n \<and> n \<le> time w'"
    and "j_stopped env w = (b, w') \<Longrightarrow> time w \<le> time w'"
    and "j_report_before env j r t w = (x, w') \<Longrightarrow> time w \<le> time w'"
    and "time w \<le> time (j_cancel env w)"
    and "time w \<le> time (j_join env w)"
    and "j_try_recv env w = (y, w') \<Longrightarrow> time w \<le> time w'"
    and "j_recv_timeout env d w = (NothingYet, w') \<Longrightarrow> time w + d \<le> time w'"
  using assms unfolding clocked_def by (metis fst_conv snd_conv)+

lemma send_time:
  assumes "clocked time env" and "send env kind payload rp w = (ack, rp', w')"
  shows "time w \<le> time w'"
proof -
  obtain n w1 where n: "j_now env w = (n, w1)" by (metis surj_pair)
  obtain n2 w2 where n2: "j_now env w1 = (n2, w2)" by (metis surj_pair)
  show ?thesis
    using assms(2) n n2 clocked_steps(1)[OF assms(1) n] clocked_steps(1)[OF assms(1) n2]
    by (auto simp: send_def Let_def split: prod.splits sum.splits if_splits
        dest!: clocked_steps(3)[OF assms(1)])
qed

lemma beat_time:
  assumes "clocked time env" and "beat env wk timeout at s w = (None, s', w')"
  shows "time w \<le> time w' \<and> (\<exists>n. time w \<le> n \<and> s_next_heartbeat s' = n + w_heartbeat wk)"
proof -
  note steps = clocked_steps[OF assms(1)]
  obtain ack rp w0 where sd: "send env Progress (JObject []) (s_reporter s) w = (ack, rp, w0)" by (metis prod_cases3)
  obtain s1 w1 where b: "beat_report env s w = (s1, w1)" by (metis surj_pair)
  obtain stop w2 where st: "j_stopped env w1 = (stop, w2)" by (metis surj_pair)
  obtain n w3 where n: "j_now env w2 = (n, w3)" by (metis surj_pair)
  obtain r w4 where r: "j_try_recv env w3 = (r, w4)" by (metis surj_pair)
  obtain v w5 where j: "judge env timeout at r w4 = (v, w5)" by (metis surj_pair)
  have "time w0 \<le> time w1"
    using b sd steps(4) by (auto simp: beat_report_def Let_def split: if_splits) (metis le_trans)+
  then have "time w \<le> time w1" using send_time[OF assms(1) sd] by linarith
  moreover have "time w4 \<le> time w5"
    using j steps(4) by (auto simp: judge_def split: received.splits if_splits)
  moreover have "w' = w5" "s_next_heartbeat s' = n + w_heartbeat wk"
    using assms(2) b st n r j by (auto simp: beat_def split: if_splits)
  ultimately show ?thesis using steps(2)[OF st] steps(1)[OF n] steps(6)[OF r] by (metis le_trans)
qed

lemma await_time:
  assumes "clocked time env" and "await_result env timeout at s w = (None, w')"
  shows "\<exists>n. time w \<le> n \<and> n + min (min poll_interval (at - n)) (s_next_heartbeat s - n) \<le> time w'"
proof -
  obtain n w1 where n: "j_now env w = (n, w1)" by (metis surj_pair)
  obtain r w2 where r: "j_recv_timeout env (min (min poll_interval (at - n)) (s_next_heartbeat s - n)) w1 = (r, w2)"
    by (metis surj_pair)
  have "r = NothingYet" "w' = w2"
    using assms(2) n r by (auto simp: await_result_def judge_def split: received.splits if_splits)
  then have "time w1 + min (min poll_interval (at - n)) (s_next_heartbeat s - n) \<le> time w'"
    using clocked_steps(7)[OF assms(1)] r by blast
  moreover have "time w \<le> n \<and> n \<le> time w1" using clocked_steps(1)[OF assms(1) n] .
  ultimately show ?thesis by (intro exI[of _ n]) linarith
qed

text \<open>
  What a round that decides nothing uses up: time before the deadline, or the heartbeat that
  was due.
\<close>

definition time_remaining :: "('w \<Rightarrow> instant) \<Rightarrow> instant \<Rightarrow> supervision \<Rightarrow> 'w \<Rightarrow> nat" where
  "time_remaining time at s w = 2 * (at - time w) + (if s_next_heartbeat s \<le> time w then 1 else 0)"

lemma supervise_step_progress:
  assumes "clocked time env" and "0 < w_heartbeat wk" and "supervise_step env wk timeout at s w = (None, s', w')"
  shows "time_remaining time at s' w' < time_remaining time at s w"
  using assms(3)
proof (rule supervise_step_states)
  fix now w1 stop w2 s2 w3 v1 s3 w4 v2 w5
  assume n: "j_now env w = (now, w1)" and st: "j_stopped env w1 = (stop, w2)"
    and s2: "s2 = (if rep_lease_deadline (s_reporter s) \<le> now then s\<lparr>s_reporter := (s_reporter s)\<lparr>rep_lost := True\<rparr>\<rparr> else s)"
    and w3: "w3 = (if rep_lease_deadline (s_reporter s) \<le> now then j_cancel env w2 else w2)"
    and b: "(if s_next_heartbeat s2 \<le> now then beat env wk timeout at s2 w3 else (None, s2, w3)) = (v1, s3, w4)"
    and aw: "await_result env timeout at s3 w4 = (v2, w5)"
    and fin: "(None, s', w') = (if stop then (Some Unfinished, s, j_join env (j_cancel env w2))
      else if at \<le> now then (Some (Ended (timeout_failure timeout)), s2, j_cancel env w3)
      else if v1 \<noteq> None then (v1, s3, w4) else (v2, s3, w5))"
  have fin': "now < at" "v1 = None" "v2 = None" "s' = s3" "w' = w5" using fin by (auto split: if_splits)
  have hb: "s_next_heartbeat s2 = s_next_heartbeat s" by (simp add: s2)
  have t0: "time w \<le> now" and t3: "now \<le> time w3"
    using clocked_steps(1)[OF assms(1) n] clocked_steps(2)[OF assms(1) st] clocked_steps(4)[OF assms(1), of w2]
    by (auto simp: w3)
  obtain m where m: "time w4 \<le> m" "m + min (min poll_interval (at - m)) (s_next_heartbeat s3 - m) \<le> time w'"
    using await_time[OF assms(1) aw[unfolded fin'(3)]] fin'(5) by blast
  have poll: "0 < poll_interval" by (simp add: poll_interval_def millis_def)
  show ?thesis
  proof (cases "s_next_heartbeat s \<le> now")
    case True
    then have "beat env wk timeout at s2 w3 = (None, s3, w4)" using b fin'(2) hb by simp
    from beat_time[OF assms(1) this] obtain k where
      k: "time w3 \<le> time w4" "time w3 \<le> k" "s_next_heartbeat s3 = k + w_heartbeat wk" by blast
    have "time w < time w' \<or> time w = time w' \<and> s_next_heartbeat s \<le> time w \<and> time w' < s_next_heartbeat s3"
      using True k m t0 t3 assms(2) by linarith
    then show ?thesis using fin'(1,4) t0 by (auto simp: time_remaining_def)
  next
    case False
    then have s3: "s3 = s2" "w4 = w3" using b hb by auto
    have "time w < time w'" using m s3 hb False t0 t3 fin'(1) poll by (auto simp: min_def split: if_splits)
    then show ?thesis using fin'(1) t0 by (auto simp: time_remaining_def)
  qed
qed

lemma supervise_returns:
  assumes "clocked time env" and "0 < w_heartbeat wk"
  shows "supervise env wk timeout at s w \<noteq> None"
proof (induction "time_remaining time at s w" arbitrary: s w rule: less_induct)
  case less
  obtain v s' w' where st: "supervise_step env wk timeout at s w = (v, s', w')" by (metis prod_cases3)
  show ?case
  proof (cases v)
    case None
    with st have "supervise env wk timeout at s w = supervise env wk timeout at s' w'"
      by (subst supervise.simps) simp
    moreover have "time_remaining time at s' w' < time_remaining time at s w"
      using supervise_step_progress[OF assms] st None by simp
    ultimately show ?thesis using less by simp
  next
    case (Some x)
    with st show ?thesis by (subst supervise.simps) simp
  qed
qed

lemma run_returns:
  assumes "clocked time env" and "0 < w_heartbeat wk"
  shows "run env wk job c rp w \<noteq> None"
proof -
  have "(case if_current env g f w of (started, w) \<Rightarrow> if \<not> started then Some (None, rp, w)
    else (case j_now env w of (now, w) \<Rightarrow> case supervise env wk timeout at (start now) w of
        None \<Rightarrow> None | Some (Unfinished, s, w) \<Rightarrow> Some (None, s_reporter s, w)
      | Some (Ended result, s, w) \<Rightarrow> Some (out result s, s_reporter s, j_join env w))) \<noteq> None"
    for g f w timeout at start and out :: "job_failure + json \<Rightarrow> supervision \<Rightarrow> outcome option"
    using supervise_returns[OF assms] by (simp del: not_None_eq split: prod.split option.split verdict.split)
  then show ?thesis by (simp add: run_def Let_def split: prod.split)
qed

lemma execute_returns:
  assumes "clocked time env" and "0 < w_heartbeat wk"
  shows "execute env wk store job c rp s w \<noteq> None"
proof -
  have "(case run env wk job c rp w of None \<Rightarrow> None | Some (None, rp, w) \<Rightarrow> Some (s, w)
    | Some (Some out, rp, w) \<Rightarrow> Some (f rp out s w)) \<noteq> None" for rp w s and f :: "reporter \<Rightarrow> outcome \<Rightarrow> 'b \<Rightarrow> 'a \<Rightarrow> 'b \<times> 'a"
    using run_returns[OF assms, of job c rp w] by (auto split: option.split prod.split)
  then show ?thesis by (simp add: execute_def split: prod.split sum.split option.split)
qed

lemma handle_returns:
  assumes "clocked time env" and "0 < w_heartbeat wk"
  shows "handle env wk store job s w \<noteq> None"
  using execute_returns[OF assms, of store job _ _ s] by (simp add: handle_def del: not_None_eq split: prod.split option.split)

lemma handle_all_returns:
  assumes "clocked time env" and "0 < w_heartbeat wk"
  shows "handle_all env wk store jobs s w \<noteq> None"
  by (induction jobs arbitrary: s w) (use handle_returns[OF assms, of store] in \<open>auto split: option.split prod.split\<close>)

lemma pass_loop_returns:
  assumes "clocked time env" and "0 < w_heartbeat wk"
  shows "pass_loop env wk store keys handled s w \<noteq> None"
proof (induction "max_jobs_per_pass - handled" arbitrary: handled s w rule: less_induct)
  case less
  have "(case handle_all env wk store jobs s w of None \<Rightarrow> None
      | Some (s, w) \<Rightarrow> pass_loop env wk store keys (handled + length jobs) s w) \<noteq> None"
    if "jobs \<noteq> []" "\<not> max_jobs_per_pass \<le> handled" for jobs w
  proof -
    have "max_jobs_per_pass - (handled + length jobs) < max_jobs_per_pass - handled"
      using that by (cases jobs) simp_all
    from less[OF this] show ?thesis using handle_all_returns[OF assms, of store jobs s w]
      by (auto split: option.split prod.split)
  qed
  then show ?case by (subst pass_loop.simps) (simp split: prod.split sum.split)
qed

text \<open>
  C29. A pass of the job worker always ends, whatever Renga answers, whatever the file system
  does and whatever the capabilities deliver, as long as waiting advances the clock: the
  supervising loop cannot run on past a job's deadline and a pass leases at most ten times.
\<close>

theorem run_pass_returns:
  assumes "clocked time env"
  shows "\<exists>result d' w'. run_pass env (worker_new catalog policy g) codec d w = Some (result, d', w')"
proof -
  have "0 < w_heartbeat (worker_new catalog policy g)" by (simp add: worker_new_def heartbeat_interval_def secs_def)
  from pass_loop_returns[OF assms this, of "disk_store codec"]
  have "run_pass env (worker_new catalog policy g) codec d w \<noteq> None"
    by (simp add: run_pass_def Let_def del: not_None_eq split: prod.split sum.split)
  then show ?thesis by auto
qed

definition idle_env :: "nat worker_env" where
  \<comment> \<open>a runner that never ends, and time that passes only while waiting\<close>
  "idle_env =
     \<lparr>j_now = (\<lambda>w. (w, w)), j_utc = (\<lambda>w. (0, w)), j_new_v4 = (\<lambda>w. (''t'', w)), j_generation = (\<lambda>w. (0, w)),
      j_stopped = (\<lambda>w. (False, w)), j_lease = (\<lambda>keys n w. (Inr [], w)),
      j_report_before = (\<lambda>j r t w. (Inr \<lparr>ra_cancel_requested = False\<rparr>, w)),
      j_spawn = (\<lambda>c p t w. w), j_cancel = (\<lambda>w. w), j_join = (\<lambda>w. w),
      j_try_recv = (\<lambda>w. (NothingYet, w)), j_recv_timeout = (\<lambda>d w. (NothingYet, w + d))\<rparr>"

theorem run_pass_returns_witness:
  "\<exists>result d' w'. run_pass idle_env (worker_new [] \<lparr>policy_enabled = None\<rparr> 0) sample_codec
     \<lparr>d_files = [], d_events = [], d_clock = 0\<rparr> 0 = Some (result, d', w')"
proof -
  have "clocked id idle_env" by (simp add: clocked_def idle_env_def)
  then show ?thesis by (rule run_pass_returns)
qed

end
