(* ===== verification/Worker_Correct.thy ===== *)
theory Worker_Correct
  imports Worker_Log Worker_Ends
begin

text \<open>
  What the job worker guarantees: only authorised work runs and an interrupted imperative job
  never runs again; the reports of a lease are numbered and follow the protocol; a success is
  reported only for a result that came in time; and a pass always ends.
\<close>

section \<open>Handling a leased job\<close>

definition may_run :: "worker \<Rightarrow> 's job_store \<Rightarrow> leased_job \<Rightarrow> 's \<Rightarrow> capability \<Rightarrow> bool" where
  "may_run wk store job s c \<longleftrightarrow> enabled (w_catalog wk) (lj_capability job) (w_policy wk) = Some c
     \<and> (case js_get store (lj_id job) s of None \<Rightarrow> True
        | Some r \<Rightarrow> jr_outcome r = None \<and> cap_retry_class c \<noteq> Imperative)"

definition outcomes_terminal :: "'s job_store \<Rightarrow> string \<Rightarrow> 's \<Rightarrow> bool" where
  "outcomes_terminal store j s \<longleftrightarrow> (case js_get store j s of None \<Rightarrow> True
     | Some r \<Rightarrow> (case jr_outcome r of None \<Rightarrow> True | Some out \<Rightarrow> terminal (out_kind out)))"

text \<open>A job that may run goes through \<open>execute\<close>; any other job is answered at most once.\<close>

lemma handle_logged:
  assumes "handle (logged env) wk store job s (w, []) = Some (s', wl')"
  obtains (ran) c rp w1 where "may_run wk store job s c" "session rp []" "rep_lease_token rp = lj_lease_token job"
      "snd w1 = []" "execute (logged env) wk store job c rp s w1 = Some (s', wl')"
  | (answered) "in_session (lj_lease_token job) (snd wl')" "\<And>c p at. Spawned c p at \<notin> set (snd wl')"
      "outcomes_terminal store (lj_id job) s \<Longrightarrow> ending (snd wl')"
proof -
  obtain c1 w1 where p: "policy_current (logged env) wk (w, []) = (c1, w1)" by (metis surj_pair)
  obtain rp w2 where rn: "reporter_new (logged env) job w1 = (rp, w2)" by (metis surj_pair)
  have l1: "snd w1 = []" using logged_reads(7)[OF p] by simp
  have rp: "session rp []" "rep_lease_token rp = lj_lease_token job" "snd w2 = []"
    using rn l1 by (auto simp: reporter_new_def session_def split: prod.splits dest!: logged_reads(1,2))
  have said: "in_session (lj_lease_token job) (snd w3) \<and> (\<forall>c p at. Spawned c p at \<notin> set (snd w3))
      \<and> (terminal kind \<longrightarrow> ending (snd w3))"
    if sd: "send (logged env) kind payload rp w2 = (ack, rp', w3)" for kind payload ack rp' w3
    using send_in_session(3)[OF sd] send_ending[OF sd] rp sd by (auto elim!: send_logged)
  let ?c = "enabled (w_catalog wk) (lj_capability job) (w_policy wk)"
  show ?thesis
  proof (cases "c1")
    case False
    then show ?thesis using assms p l1 rp by (intro answered) (auto simp: handle_def ending_def in_session_def)
  next
    case True
    note eq = assms[unfolded handle_def p rn prod.case, simplified True, simplified]
    show ?thesis
    proof (cases ?c)
      case None
      obtain ack rp' w3 where sd: "send (logged env) Failed
        (failure_json ''capability is not enabled by the agent's local policy'') rp w2 = (ack, rp', w3)"
        by (metis prod_cases3)
      then show ?thesis using eq None said[OF sd] by (intro answered) (simp_all add: terminal_def)
    next
      case (Some c)
      show ?thesis
      proof (cases "may_run wk store job s c")
        case True
        then have "execute (logged env) wk store job c rp s w2 = Some (s', wl')"
          using eq Some by (simp add: may_run_def split: option.splits)
        then show ?thesis using ran[OF True rp(1,2,3)] by blast
      next
        case no: False
        then obtain r where r: "js_get store (lj_id job) s = Some r" using Some by (auto simp: may_run_def split: option.splits)
        show ?thesis
        proof (cases "jr_outcome r")
          case (Some out)
          obtain ack rp' w3 where sd: "send (logged env) (out_kind out) (out_payload out) rp w2 = (ack, rp', w3)"
            by (metis prod_cases3)
          have "snd wl' = snd w3"
            using eq \<open>?c = Some c\<close> r Some sd by (auto dest: confirm_logged split: if_splits)
          then show ?thesis using said[OF sd] r Some
            by (intro answered) (simp_all add: outcomes_terminal_def)
        next
          case None
          then have "finish (logged env) store job rp interrupted_outcome s w2 = (s', wl')"
            using eq Some r no by (simp add: may_run_def)
          from finish_logged[OF this] have "ending (snd wl')" "in_session (lj_lease_token job) (snd wl')"
            using rp by (auto simp: interrupted_outcome_def terminal_def)
          then show ?thesis by (intro answered) (auto dest: ending_no_spawn)
        qed
      qed
    qed
  qed
qed

lemma conversation_spawn:
  assumes "conversation c p l" and "Spawned c' p' at \<in> set l"
  shows "c' = c \<and> p' = p \<and> (\<exists>r t a rest. l = Reported r t (Inr a) # Spawned c p at # rest \<and> rp_kind r = Started
    \<and> \<not> ra_cancel_requested a \<and> list_all (\<lambda>x. \<not> (\<exists>c p t. x = Spawned c p t)) rest)"
proof -
  obtain r t x m rest where l: "l = Reported r t x # m @ rest" "rp_kind r = Started" "spawning c p x m" "ending rest"
    using assms by (auto simp: conversation_def dest: ending_no_spawn)
  then obtain t' m' a where m: "m = Spawned c p t' # m'" "list_all quiet m'" "x = Inr a" "\<not> ra_cancel_requested a"
    using assms(2) by (auto simp: spawning_def dest: ending_no_spawn)
  have none: "list_all (\<lambda>x. \<not> (\<exists>c p t. x = Spawned c p t)) (m' @ rest)"
    using m(2) l(4) by (auto simp: list_all_iff ending_def)
  then have "c' = c" "p' = p" "at = t'" using assms(2) l(1) m(1) by (auto simp: list_all_iff)
  then show ?thesis using l m none by auto
qed

section \<open>A sample run\<close>

text \<open>An imperative capability that ends at once, over an empty record.\<close>

definition job_env :: "nat worker_env" where
  "job_env =
     \<lparr>j_now = (\<lambda>w. (w, w)), j_utc = (\<lambda>w. (0, w)), j_new_v4 = (\<lambda>w. (''t'', w)), j_generation = (\<lambda>w. (0, w)),
      j_stopped = (\<lambda>w. (False, w)), j_lease = (\<lambda>keys n w. (Inr [], w)),
      j_report_before = (\<lambda>j r t w. (Inr \<lparr>ra_cancel_requested = False\<rparr>, w)),
      j_spawn = (\<lambda>c p t w. w), j_cancel = (\<lambda>w. w), j_join = (\<lambda>w. w),
      j_try_recv = (\<lambda>w. (NothingYet, w)), j_recv_timeout = (\<lambda>d w. (Received w (Inr JNull), w))\<rparr>"
definition sample_capability :: capability where
  "sample_capability = \<lparr>cap_name = ''host.reboot'', cap_version = 1, cap_risk_class = Operate,
     cap_retry_class = Imperative, cap_timeout = secs 60, cap_override = None\<rparr>"
definition sample_job :: leased_job where
  "sample_job = \<lparr>lj_id = ''a'', lj_capability = ''host.reboot@1'', lj_parameters = JNull, lj_attempt = 1,
     lj_lease_token = ''k'', lj_lease_expires_at = int (secs 60), lj_timeout_ms = 1000, lj_output_limit_bytes = 1\<rparr>"
definition sample_worker :: worker where
  "sample_worker = worker_new [sample_capability] \<lparr>policy_enabled = Some [Name ''host.reboot'']\<rparr> 0"
lemma sample_ops [simp]:
  "j_now (logged job_env) wl = (fst wl, wl)"
  "j_utc (logged job_env) wl = (0, wl)"
  "j_new_v4 (logged job_env) wl = (''t'', wl)"
  "j_generation (logged job_env) wl = (0, wl)"
  "j_stopped (logged job_env) wl = (False, wl)"
  "j_report_before (logged job_env) j r t wl =
     (Inr \<lparr>ra_cancel_requested = False\<rparr>, fst wl, snd wl @ [Reported r t (Inr \<lparr>ra_cancel_requested = False\<rparr>)])"
  "j_spawn (logged job_env) c p t wl = (fst wl, snd wl @ [Spawned c p t])"
  "j_join (logged job_env) wl = wl"
  "j_cancel (logged job_env) wl = wl"
  "j_try_recv (logged job_env) wl = (NothingYet, wl)"
  "j_recv_timeout (logged job_env) d wl = (Received (fst wl) (Inr JNull), fst wl, snd wl @ [Got (fst wl) (Inr JNull)])"
  by (simp_all add: logged_def job_env_def lift_read_def note_received_def split: prod.split)

lemma sample_policy [simp]: "policy_current (logged job_env) sample_worker wl = (True, wl)"
  by (simp add: policy_current_def sample_worker_def worker_new_def)

lemma sample_enabled:
  "enabled (w_catalog sample_worker) (lj_capability sample_job) (w_policy sample_worker) = Some sample_capability"
proof -
  have "dec 1 = ''1''" by (simp add: dec.simps) code_simp
  then show ?thesis
    by (simp add: sample_worker_def worker_new_def sample_job_def sample_capability_def enabled_def allows_def cap_key_def)
qed

lemma sample_start:
  "\<exists>s1. js_start (disk_store sample_codec) i j c k utc ([], \<lparr>d_files = [], d_events = [], d_clock = 0\<rparr>) = (Inr (), s1)"
  by (simp add: disk_store_def records_start_def persist_def remove_expired_def new_record_def
      shrink.simps max_records_def sample_codec_def record_write_steps_def Let_def fs_defs overwrite_def record_file_def
      record_temporary_prefix_def)

lemma sample_send:
  "\<not> rep_lost rp \<Longrightarrow> fst wl < rep_lease_deadline rp \<Longrightarrow>
   \<exists>r rp'. send (logged job_env) kind payload rp wl = (Some \<lparr>ra_cancel_requested = False\<rparr>, rp',
     fst wl, snd wl @ [Reported r (rep_lease_deadline rp) (Inr \<lparr>ra_cancel_requested = False\<rparr>)])
     \<and> \<not> rep_lost rp' \<and> fst wl < rep_lease_deadline rp'"
  by (simp add: send_def Let_def secs_def)

lemma sample_run_capability:
  assumes "\<not> rep_lost rp" and "0 < rep_lease_deadline rp"
  shows "run (logged job_env) sample_worker sample_job sample_capability rp (0, l) =
     Some (Some \<lparr>out_kind = Succeeded, out_payload = JObject [(''result'', JNull)]\<rparr>, rp,
       0, l @ [Spawned sample_capability JNull (secs 1), Got 0 (Inr JNull)])"
  using assms
  by (simp add: run_def run_timeout_def if_current_def sample_worker_def worker_new_def sample_job_def
      sample_capability_def supervise.simps supervise_step_def await_result_def judge_def run_outcome_def
      heartbeat_interval_def secs_def millis_def)

lemma sample_execution:
  assumes "\<not> rep_lost rp" and "0 < rep_lease_deadline rp"
  shows "\<exists>s' w' r m. execute (logged job_env) sample_worker (disk_store sample_codec) sample_job sample_capability rp
      ([], \<lparr>d_files = [], d_events = [], d_clock = 0\<rparr>) (0, [])
    = Some (s', w', [Reported r (rep_lease_deadline rp) (Inr \<lparr>ra_cancel_requested = False\<rparr>),
             Spawned sample_capability JNull (secs 1), Got 0 (Inr JNull)] @ m)"
proof -
  obtain s1 where st: "js_start (disk_store sample_codec) ''t'' (lj_id sample_job) (lj_capability sample_job)
      (cap_retry_class sample_capability) 0 ([], \<lparr>d_files = [], d_events = [], d_clock = 0\<rparr>) = (Inr (), s1)"
    using sample_start by blast
  obtain r rp' where sd: "send (logged job_env) Started (JObject []) rp (0, []) = (Some \<lparr>ra_cancel_requested = False\<rparr>, rp',
     0, [Reported r (rep_lease_deadline rp) (Inr \<lparr>ra_cancel_requested = False\<rparr>)])" "\<not> rep_lost rp'" "0 < rep_lease_deadline rp'"
    using sample_send[of rp "(0, [])" Started "JObject []"] assms by auto
  let ?l = "[Reported r (rep_lease_deadline rp) (Inr \<lparr>ra_cancel_requested = False\<rparr>),
        Spawned sample_capability JNull (secs 1), Got 0 (Inr JNull)]"
  obtain r2 rp2 where sd2: "send (logged job_env) Succeeded (JObject [(''result'', JNull)]) rp' (0, ?l)
      = (Some \<lparr>ra_cancel_requested = False\<rparr>, rp2,
         0, ?l @ [Reported r2 (rep_lease_deadline rp') (Inr \<lparr>ra_cancel_requested = False\<rparr>)])"
    using sample_send[of rp' "(0, ?l)" Succeeded "JObject [(''result'', JNull)]"] sd(2,3) by auto
  have "\<exists>s'. execute (logged job_env) sample_worker (disk_store sample_codec) sample_job sample_capability rp
      ([], \<lparr>d_files = [], d_events = [], d_clock = 0\<rparr>) (0, [])
    = Some (s', 0, ?l @ [Reported r2 (rep_lease_deadline rp') (Inr \<lparr>ra_cancel_requested = False\<rparr>)])"
    by (simp add: execute_def st sd sample_run_capability finish_def sd2[simplified] confirm_def)
  then show ?thesis by blast
qed

lemma sample_handled:
  "\<exists>s' w' r t m. handle (logged job_env) sample_worker (disk_store sample_codec) sample_job
      ([], \<lparr>d_files = [], d_events = [], d_clock = 0\<rparr>) (0, [])
    = Some (s', w', [Reported r t (Inr \<lparr>ra_cancel_requested = False\<rparr>),
             Spawned sample_capability JNull (secs 1), Got 0 (Inr JNull)] @ m)"
proof -
  obtain rp where rp: "reporter_new (logged job_env) sample_job (0, []) = (rp, 0, [])" "\<not> rep_lost rp" "0 < rep_lease_deadline rp"
    by (simp add: reporter_new_def sample_job_def duration_since_def secs_def)
  have "js_get (disk_store sample_codec) (lj_id sample_job) ([], \<lparr>d_files = [], d_events = [], d_clock = 0\<rparr>) = None"
    by (simp add: disk_store_def records_get_def)
  then have "handle (logged job_env) sample_worker (disk_store sample_codec) sample_job
      ([], \<lparr>d_files = [], d_events = [], d_clock = 0\<rparr>) (0, [])
    = execute (logged job_env) sample_worker (disk_store sample_codec) sample_job sample_capability rp
      ([], \<lparr>d_files = [], d_events = [], d_clock = 0\<rparr>) (0, [])"
    using rp sample_enabled by (simp add: handle_def)
  then show ?thesis using sample_execution[OF rp(2,3)] by metis
qed
lemma sample_logged_clocked: "clocked fst (logged job_env)"
  by (simp add: clocked_def)

section \<open>Properties of a handled job\<close>

text \<open>
  C3. A capability is started only for a job that may run: the local policy enables exactly this
  capability for the leased key, the durable record accepted the job first, an earlier run has
  left no outcome, and an imperative job has never been started before. It runs once, on the
  leased parameters, after Renga acknowledged the start without asking to cancel.
\<close>

theorem only_authorised_work_runs:
  assumes "handle (logged env) wk store job s (w, []) = Some (s', w', l)" and "Spawned c p at \<in> set l"
  shows "may_run wk store job s c \<and> p = lj_parameters job
    \<and> (\<exists>i utc u s1. js_start store i (lj_id job) (lj_capability job) (cap_retry_class c) utc s = (Inr u, s1))
    \<and> (\<exists>r t a rest. l = Reported r t (Inr a) # Spawned c p at # rest \<and> rp_kind r = Started
         \<and> \<not> ra_cancel_requested a \<and> list_all (\<lambda>x. \<not> (\<exists>c p t. x = Spawned c p t)) rest)"
  using assms(1)
proof (cases rule: handle_logged)
  case (ran c' rp w1)
  have e: "conversation c' (lj_parameters job) l"
    "\<exists>i utc u s1. js_start store i (lj_id job) (lj_capability job) (cap_retry_class c') utc s = (Inr u, s1)"
    using execute_logged[OF ran(5,4,2)] assms(2) by auto
  show ?thesis using conversation_spawn[OF e(1) assms(2)] ran(1) e(2) by auto
next
  case answered
  then show ?thesis using assms(2) by simp
qed

theorem only_authorised_work_runs_witness:
  "case handle (logged job_env) sample_worker (disk_store sample_codec) sample_job
      ([], \<lparr>d_files = [], d_events = [], d_clock = 0\<rparr>) (0, []) of
     Some (s', w', l) \<Rightarrow> Spawned sample_capability JNull (secs 1) \<in> set l
       \<and> may_run sample_worker (disk_store sample_codec) sample_job ([], \<lparr>d_files = [], d_events = [], d_clock = 0\<rparr>) sample_capability
   | None \<Rightarrow> False"
proof -
  obtain s' w' r t m where run: "handle (logged job_env) sample_worker (disk_store sample_codec) sample_job
      ([], \<lparr>d_files = [], d_events = [], d_clock = 0\<rparr>) (0, [])
    = Some (s', w', [Reported r t (Inr \<lparr>ra_cancel_requested = False\<rparr>),
             Spawned sample_capability JNull (secs 1), Got 0 (Inr JNull)] @ m)"
    using sample_handled by blast
  from only_authorised_work_runs[OF this, of sample_capability JNull "secs 1"] show ?thesis
    unfolding run by simp
qed

fun protocol :: "report_type list \<Rightarrow> bool" where
  "protocol [] = True"
| "protocol (k # ks) = (if terminal k then ks = []
     else k = Started \<and> (\<exists>n. ks = replicate n Progress \<or> (\<exists>t. terminal t \<and> ks = replicate n Progress @ [t])))"

lemma quiet_kinds: "list_all quiet m \<Longrightarrow> \<exists>n. map rp_kind (reports m) = replicate n Progress"
proof (induction m)
  case (Cons a m)
  then obtain n where n: "map rp_kind (reports m) = replicate n Progress" by auto
  show ?case
  proof (cases a)
    case (Reported r t x)
    then have "map rp_kind (reports (a # m)) = replicate (Suc n) Progress" using n Cons.prems by simp
    then show ?thesis by blast
  qed (use n Cons.prems in auto)
qed simp

lemma conversation_protocol:
  assumes "conversation c p l"
  shows "protocol (map rp_kind (reports l))"
  using assms unfolding conversation_def
proof (elim disjE exE conjE)
  assume "ending l"
  then show ?thesis by (auto simp: ending_def)
next
  fix r t x m rest
  assume l: "l = Reported r t x # m @ rest" "rp_kind r = Started" "spawning c p x m" "ending rest"
  obtain n where n: "map rp_kind (reports m) = replicate n Progress"
    using l(3) quiet_kinds[of "tl m"] by (auto simp: spawning_def)
  have "map rp_kind (reports rest) = [] \<or> (\<exists>t. terminal t \<and> map rp_kind (reports rest) = [t])"
    using l(4) by (auto simp: ending_def)
  moreover have "map rp_kind (reports l) = Started # replicate n Progress @ map rp_kind (reports rest)"
    using l(1,2) n by simp
  ultimately show ?thesis by (auto simp: terminal_def)
qed

text \<open>
  C28. What the worker reports on a lease follows the protocol: either one terminal report, or
  \<open>started\<close>, then heartbeats, then at most one terminal report and nothing after it. The reports
  are numbered from one without a gap, all carry the job's lease token, and after an answer
  that withdraws the lease (401, 403, 409) nothing more is sent.
\<close>

theorem reports_follow_protocol:
  assumes "handle (logged env) wk store job s (w, []) = Some (s', w', l)"
    and "outcomes_terminal store (lj_id job) s"
  shows "protocol (map rp_kind (reports l))
    \<and> map rp_sequence (reports l) = [1..<Suc (length (reports l))]
    \<and> list_all (\<lambda>r. rp_lease_token r = lj_lease_token job) (reports l)
    \<and> list_all (\<lambda>a. \<not> refused a) (butlast (filter is_report l))"
proof -
  have "protocol (map rp_kind (reports l)) \<and> in_session (lj_lease_token job) l"
    using assms(1)
  proof (cases rule: handle_logged)
    case (ran c rp w1)
    then show ?thesis using execute_logged[OF ran(5,4,2)] conversation_protocol by auto
  next
    case answered
    then have "conversation undefined undefined l" using assms(2) by (simp add: conversation_def)
    then show ?thesis using answered(1) conversation_protocol by simp
  qed
  then obtain rp where rp: "session rp l" "rep_lease_token rp = lj_lease_token job"
    and pr: "protocol (map rp_kind (reports l))" by (auto simp: in_session_def)
  have n: "length (map rp_sequence (reports l)) = length [1..<Suc (rep_sequence rp)]"
    using rp(1) unfolding session_def by (simp only:)
  have "rep_sequence rp = length (reports l)" using n by (simp only: length_map length_upt)
  then show ?thesis using pr rp unfolding session_def by simp
qed

theorem reports_follow_protocol_witness:
  "case handle (logged job_env) sample_worker (disk_store sample_codec) sample_job
      ([], \<lparr>d_files = [], d_events = [], d_clock = 0\<rparr>) (0, []) of
     Some (s', w', l) \<Rightarrow> protocol (map rp_kind (reports l)) \<and> reports l \<noteq> []
       \<and> map rp_sequence (reports l) = [1..<Suc (length (reports l))]
   | None \<Rightarrow> False"
proof -
  obtain s' w' r t m where run: "handle (logged job_env) sample_worker (disk_store sample_codec) sample_job
      ([], \<lparr>d_files = [], d_events = [], d_clock = 0\<rparr>) (0, [])
    = Some (s', w', [Reported r t (Inr \<lparr>ra_cancel_requested = False\<rparr>),
             Spawned sample_capability JNull (secs 1), Got 0 (Inr JNull)] @ m)"
    using sample_handled by blast
  have "outcomes_terminal (disk_store sample_codec) (lj_id sample_job) ([], \<lparr>d_files = [], d_events = [], d_clock = 0\<rparr>)"
    by (simp add: outcomes_terminal_def disk_store_def records_get_def)
  note theorem_here = reports_follow_protocol[OF run this]
  show ?thesis unfolding run option.case prod.case
    using theorem_here by (intro conjI) (blast | simp only: append.simps reports_Cons list.distinct simp_thms)+
qed

text \<open>
  C30. A job is reported as succeeded only with a result its capability delivered, and only when
  the capability finished before the deadline it was started with.
\<close>

theorem success_is_in_time:
  assumes "run (logged env) wk job c rp (w, []) = Some (Some out, rp', w', l)" and "out_kind out = Succeeded"
  shows "\<exists>t at v. Spawned c (lj_parameters job) at \<in> set l \<and> Got t (Inr v) \<in> set l \<and> t \<le> at
    \<and> out_payload out = JObject [(''result'', v)]"
  using assms(1)
proof (cases rule: run_logged)
  case (ran at m)
  from ran(6)[OF refl assms(2)] show ?thesis using ran(1) by auto
qed simp

theorem success_is_in_time_witness:
  "case run (logged job_env) sample_worker sample_job sample_capability
      \<lparr>rep_job_id = ''a'', rep_lease_token = ''k'', rep_sequence = 0, rep_lease_deadline = secs 60, rep_lost = False\<rparr> (0, []) of
     Some (Some out, rp, w, l) \<Rightarrow> out_kind out = Succeeded \<and> (\<exists>t at v. Got t (Inr v) \<in> set l \<and> t \<le> at)
   | _ \<Rightarrow> False"
proof -
  let ?rp = "\<lparr>rep_job_id = ''a'', rep_lease_token = ''k'', rep_sequence = 0, rep_lease_deadline = secs 60, rep_lost = False\<rparr>"
  have run: "run (logged job_env) sample_worker sample_job sample_capability ?rp (0, []) =
     Some (Some \<lparr>out_kind = Succeeded, out_payload = JObject [(''result'', JNull)]\<rparr>, ?rp,
       0, [] @ [Spawned sample_capability JNull (secs 1), Got 0 (Inr JNull)])"
    by (rule sample_run_capability) (simp_all add: secs_def)
  from success_is_in_time[OF this] show ?thesis unfolding run by auto
qed

section \<open>An imperative job runs once\<close>

definition utc_within :: "system_time \<Rightarrow> 'w worker_env \<Rightarrow> bool" where
  \<comment> \<open>the wall clock stays within the eight days a record is kept\<close>
  "utc_within t0 env \<longleftrightarrow> (\<forall>w. t0 \<le> fst (j_utc env w) \<and> fst (j_utc env w) < t0 + int retention)"

lemma utc_within_logged: "utc_within t0 env \<Longrightarrow> j_utc (logged env) wl = (utc, wl') \<Longrightarrow> t0 \<le> utc \<and> utc < t0 + int retention"
  by (auto simp: utc_within_def logged_def lift_read_def split: prod.splits) (metis fst_conv)+

context job_store_laws
begin

lemma confirm_keeps_job:
  assumes "wf s" and "js_get store j s = Some r" and "t0 \<le> jr_started_at r" and "utc_within t0 env"
    and "confirm (logged env) store j s wl = (s', wl')"
  shows "\<exists>r'. js_get store j s' = Some r'"
proof -
  obtain utc w1 where u: "j_utc (logged env) wl = (utc, w1)" by (metis surj_pair)
  obtain i w2 where v: "j_new_v4 (logged env) w1 = (i, w2)" by (metis surj_pair)
  obtain x s1 where c: "js_confirm store i j utc s = (x, s1)" by (metis surj_pair)
  have "s' = s1" using assms(5) u v c by (simp add: confirm_def)
  moreover have "utc - jr_started_at r < int retention" using utc_within_logged[OF assms(4) u] assms(3) by linarith
  ultimately show ?thesis using confirm_marks[OF assms(1) c assms(2)] by blast
qed

lemma finish_keeps_job:
  assumes "wf s" and "js_get store (lj_id job) s = Some r" and "t0 \<le> jr_started_at r" and "\<not> jr_confirmed r"
    and "utc_within t0 env" and "finish (logged env) store job rp out s wl = (s', wl')"
  shows "\<exists>r'. js_get store (lj_id job) s' = Some r'"
proof -
  obtain utc w1 where u: "j_utc (logged env) wl = (utc, w1)" by (metis surj_pair)
  obtain i w2 where v: "j_new_v4 (logged env) w1 = (i, w2)" by (metis surj_pair)
  obtain x s1 where f: "js_finish store i (lj_id job) out utc s = (x, s1)" by (metis surj_pair)
  obtain ack rp' w3 where sd: "send (logged env) (out_kind out) (out_payload out) rp w2 = (ack, rp', w3)"
    by (metis prod_cases3)
  have "protected utc r" using utc_within_logged[OF assms(5) u] assms(3,4) unfolding protected_def by linarith
  then have r1: "js_get store (lj_id job) s1 = Some (r\<lparr>jr_outcome := Some out\<rparr>)"
    using finish_keeps[OF assms(1) f assms(2)] by simp
  have "s' = s1 \<or> confirm (logged env) store (lj_id job) s1 w3 = (s', wl')"
    using assms(6) u v f sd by (auto simp: finish_def Let_def split: if_splits)
  then show ?thesis
  proof
    assume "confirm (logged env) store (lj_id job) s1 w3 = (s', wl')"
    with confirm_keeps_job[OF finish_wf[OF assms(1) f] r1 _ assms(5)] show ?thesis using assms(3) by simp
  qed (use r1 in simp)
qed

lemma execute_keeps_job:
  assumes "wf s" and "utc_within t0 env" and "snd wl = []"
    and "execute (logged env) wk store job c rp s wl = Some (s', wl')" and "Spawned c' p at \<in> set (snd wl')"
  shows "\<exists>r. js_get store (lj_id job) s' = Some r"
  using assms(4)
proof (cases rule: execute_cases)
  case (unrecorded utc w1 i w2 e)
  have l2: "snd w2 = []" using logged_reads(2)[OF unrecorded(1)] logged_reads(3)[OF unrecorded(2)] assms(3) by simp
  obtain ack rp' where sd: "send (logged env) Failed (failure_json
    ''the agent cannot record jobs in its state directory'') rp w2 = (ack, rp', wl')"
    using unrecorded(4) by (metis prod.collapse)
  have "ending (snd wl')" using send_ending[OF sd] l2 by (auto simp: terminal_def)
  then show ?thesis using assms(5) ending_no_spawn by blast
next
  case (stale utc w1 i w2 u)
  then show ?thesis using start_get[OF assms(1)] by blast
next
  case (unstarted utc w1 i w2 u w3 ack rp1 w4)
  then show ?thesis using start_get[OF assms(1)] by blast
next
  case (started utc w1 i w2 u s1 w3 a rp1 w4 w5)
  note g = start_get[OF assms(1) started(3)] and wf1 = start_wf[OF assms(1) started(3)]
  have t: "t0 \<le> utc" using utc_within_logged[OF assms(2) started(1)] by simp
  have "\<exists>r. js_get store (lj_id job) s' = Some r"
    if "(s', wl') = finish (logged env) store job rp2 out s1 w6" for rp2 out w6
    using finish_keeps_job[OF wf1 g _ _ assms(2) that[symmetric]] t by (simp add: new_record_def)
  then show ?thesis using started(7) g by (auto split: option.splits)
qed

lemma imperative_once:
  assumes "wf s" and "utc_within t0 env"
    and "handle (logged env) wk store job s (w, []) = Some (s1, wl1)" and "Spawned c p at \<in> set (snd wl1)"
    and "handle (logged env') wk' store job' s1 (w', []) = Some (s2, wl2)" and "lj_id job' = lj_id job"
    and "Spawned c' p' at' \<in> set (snd wl2)"
  shows "cap_retry_class c' \<noteq> Imperative"
proof -
  obtain r where r: "js_get store (lj_id job) s1 = Some r"
    using assms(3) by (cases rule: handle_logged) (use assms(1,2,4) execute_keeps_job in blast)+
  from assms(5) show ?thesis
  proof (cases rule: handle_logged)
    case (ran c'' rp w1)
    have "conversation c'' (lj_parameters job') (snd wl2)" using execute_logged[OF ran(5,4,2)] by blast
    then have "c' = c''" using assms(7) conversation_spawn by blast
    then show ?thesis using ran(1) r assms(6) by (simp add: may_run_def)
  qed (use assms(7) in blast)
qed

end



end
