(* ===== verification/Thrift.thy ===== *)
theory Thrift
  imports Text_Json
begin

unbundle bit_operations_syntax

text \<open>
  The Thrift binary protocol of \<open>src/agent/src/osquery/thrift.rs\<close>: the encoder, and the bounded
  decoder the agent reads osquery's replies with. A peer's input is the bytes it sends before it
  closes, so running out of them is \<open>UnexpectedEof\<close>. An \<open>f64\<close> is its 64 bits.
\<close>

section \<open>Constants and values\<close>

definition version_1 :: "32 word" where "version_1 = 0x80010000"
definition version_mask :: "32 word" where "version_mask = 0xffff0000"

definition tSTOP :: "8 word" where "tSTOP = 0"
definition tBOOL :: "8 word" where "tBOOL = 2"
definition tBYTE :: "8 word" where "tBYTE = 3"
definition tDOUBLE :: "8 word" where "tDOUBLE = 4"
definition tI16 :: "8 word" where "tI16 = 6"
definition tI32 :: "8 word" where "tI32 = 8"
definition tI64 :: "8 word" where "tI64 = 10"
definition tSTRING :: "8 word" where "tSTRING = 11"
definition tSTRUCT :: "8 word" where "tSTRUCT = 12"
definition tMAP :: "8 word" where "tMAP = 13"
definition tSET :: "8 word" where "tSET = 14"
definition tLIST :: "8 word" where "tLIST = 15"

lemmas type_ids = tSTOP_def tBOOL_def tBYTE_def tDOUBLE_def tI16_def tI32_def tI64_def tSTRING_def tSTRUCT_def
  tMAP_def tSET_def tLIST_def

definition max_reply_bytes :: nat where "max_reply_bytes = 16 * 1024 * 1024"
definition max_depth :: nat where "max_depth = 16"
definition max_elements :: nat where "max_elements = 2 ^ 20"

datatype tvalue =
    VBool bool
  | VByte "8 word"
  | VI16 "16 word"
  | VI32 "32 word"
  | VI64 "64 word"
  | VDouble "64 word"
  | VString bytes
  | VStruct "(16 word \<times> tvalue) list"
  | VMap "8 word" "8 word" "(tvalue \<times> tvalue) list"
  | VList "8 word" "tvalue list"

fun type_id :: "tvalue \<Rightarrow> 8 word" where
  "type_id (VBool _) = tBOOL"
| "type_id (VByte _) = tBYTE"
| "type_id (VI16 _) = tI16"
| "type_id (VI32 _) = tI32"
| "type_id (VI64 _) = tI64"
| "type_id (VDouble _) = tDOUBLE"
| "type_id (VString _) = tSTRING"
| "type_id (VStruct _) = tSTRUCT"
| "type_id (VMap _ _ _) = tMAP"
| "type_id (VList _ _) = tLIST"

fun tfield :: "16 word \<Rightarrow> tvalue \<Rightarrow> tvalue option" where
  "tfield i (VStruct flds) = map_option snd (find (\<lambda>(f, _). f = i) flds)"
| "tfield i _ = None"

fun as_i32 :: "tvalue \<Rightarrow> int option" where
  "as_i32 (VI32 v) = Some (sint v)"
| "as_i32 _ = None"

fun as_str :: "tvalue \<Rightarrow> string option" where
  "as_str (VString b) = Some (from_utf8_lossy b)"
| "as_str _ = None"

fun as_list :: "tvalue \<Rightarrow> tvalue list option" where
  "as_list (VList _ items) = Some items"
| "as_list _ = None"

fun as_map :: "tvalue \<Rightarrow> (tvalue \<times> tvalue) list option" where
  "as_map (VMap _ _ entries) = Some entries"
| "as_map _ = None"

record header =
  h_kind :: "8 word"
  h_name :: string
  h_seqid :: "32 word"

section \<open>Big-endian integers\<close>

fun be_bytes :: "nat \<Rightarrow> nat \<Rightarrow> bytes" where
  "be_bytes 0 x = []"
| "be_bytes (Suc n) x = be_bytes n (x div 256) @ [char_of (x mod 256)]"

definition be_value :: "bytes \<Rightarrow> nat" where
  "be_value bs = foldl (\<lambda>acc c. acc * 256 + byte_of c) 0 bs"

lemma length_be_bytes [simp]: "length (be_bytes n x) = n"
  by (induction n arbitrary: x) simp_all

lemma be_value_be_bytes: "x < 256 ^ n \<Longrightarrow> be_value (be_bytes n x) = x"
proof (induction n arbitrary: x)
  case (Suc n)
  then have "x div 256 < 256 ^ n" by (simp add: div_less_iff_less_mult mult.commute)
  with Suc.IH have "be_value (be_bytes n (x div 256)) = x div 256" by blast
  then show ?case by (simp add: be_value_def byte_of_def)
qed (simp add: be_value_def)

declare be_bytes.simps [simp del]

section \<open>Encoding\<close>

definition len_bytes :: "nat \<Rightarrow> bytes" where
  \<comment> \<open>\<open>(len as i32).to_be_bytes()\<close>: the cast keeps the low 32 bits\<close>
  "len_bytes n = be_bytes 4 (unat (of_nat n :: 32 word))"

definition write_bytes :: "bytes \<Rightarrow> bytes" where
  "write_bytes b = len_bytes (length b) @ b"

fun write_value :: "tvalue \<Rightarrow> bytes" where
  "write_value (VBool b) = [char_of (if b then 1 else 0 :: nat)]"
| "write_value (VByte v) = be_bytes 1 (unat v)"
| "write_value (VI16 v) = be_bytes 2 (unat v)"
| "write_value (VI32 v) = be_bytes 4 (unat v)"
| "write_value (VI64 v) = be_bytes 8 (unat v)"
| "write_value (VDouble v) = be_bytes 8 (unat v)"
| "write_value (VString b) = write_bytes b"
| "write_value (VStruct flds) =
     concat (map (\<lambda>(i, v). be_bytes 1 (unat (type_id v)) @ be_bytes 2 (unat i) @ write_value v) flds)
     @ be_bytes 1 (unat tSTOP)"
| "write_value (VMap k v entries) =
     be_bytes 1 (unat k) @ be_bytes 1 (unat v) @ len_bytes (length entries)
     @ concat (map (\<lambda>(a, b). write_value a @ write_value b) entries)"
| "write_value (VList e items) =
     be_bytes 1 (unat e) @ len_bytes (length items) @ concat (map write_value items)"

definition write_struct :: "(16 word \<times> tvalue) list \<Rightarrow> bytes" where
  "write_struct flds = write_value (VStruct flds)"

definition write_message :: "8 word \<Rightarrow> string \<Rightarrow> 32 word \<Rightarrow> (16 word \<times> tvalue) list \<Rightarrow> bytes" where
  "write_message kind name seqid body =
     be_bytes 4 (unat (version_1 OR ucast kind)) @ write_bytes name @ be_bytes 4 (unat seqid) @ write_struct body"

section \<open>Decoding\<close>

datatype thrift_error = InvalidData error_text | UnexpectedEof

definition invalid :: "string \<Rightarrow> thrift_error + 'a" where
  "invalid msg = Inl (InvalidData (Text msg))"

definition read_array :: "nat \<Rightarrow> bytes \<Rightarrow> thrift_error + bytes \<times> bytes" where
  "read_array n input = (if n \<le> length input then Inr (take n input, drop n input) else Inl UnexpectedEof)"

definition read_word :: "nat \<Rightarrow> bytes \<Rightarrow> thrift_error + 'a::len word \<times> bytes" where
  \<comment> \<open>\<open>from_be_bytes(read_array(input)?)\<close>\<close>
  "read_word n input = (case read_array n input of
     Inl e \<Rightarrow> Inl e | Inr (bs, rest) \<Rightarrow> Inr (of_nat (be_value bs), rest))"

definition read_i32 :: "bytes \<Rightarrow> thrift_error + 32 word \<times> bytes" where
  "read_i32 input = read_word 4 input"

definition read_size :: "bytes \<Rightarrow> thrift_error + nat \<times> bytes" where
  "read_size input = (case read_i32 input of
     Inl e \<Rightarrow> Inl e
   | Inr (n, rest) \<Rightarrow>
       if 0 \<le> sint n \<and> nat (sint n) \<le> max_elements then Inr (nat (sint n), rest)
       else invalid ''container size out of range'')"

definition read_bytes :: "bytes \<Rightarrow> thrift_error + bytes \<times> bytes" where
  "read_bytes input = (case read_i32 input of
     Inl e \<Rightarrow> Inl e
   | Inr (n, rest) \<Rightarrow>
       if sint n < 0 then invalid ''negative string length''
       else if max_reply_bytes < nat (sint n) then invalid ''string longer than a reply may be''
       else if length rest < nat (sint n) then Inl UnexpectedEof
       else Inr (take (nat (sint n)) rest, drop (nat (sint n)) rest))"

text \<open>
  The loops over fields, entries and items, for a given reader of the values inside. The loop
  over fields ends at a stop byte; every round takes at least one byte, so as many rounds as
  there are bytes are enough, and out of bytes is out of rounds.
\<close>

type_synonym 'a reader = "bytes \<Rightarrow> thrift_error + 'a \<times> bytes"

fun read_fields :: "nat \<Rightarrow> (8 word \<Rightarrow> tvalue reader) \<Rightarrow> (16 word \<times> tvalue) list reader" where
  "read_fields 0 rd input = Inl UnexpectedEof"
| "read_fields (Suc n) rd input =
     (case read_word 1 input of
        Inl e \<Rightarrow> Inl e
      | Inr (field_kind, input) \<Rightarrow>
          if field_kind = tSTOP then Inr ([], input)
          else (case read_word 2 input of
            Inl e \<Rightarrow> Inl e
          | Inr (i, input) \<Rightarrow>
              (case rd field_kind input of
                 Inl e \<Rightarrow> Inl e
               | Inr (v, input) \<Rightarrow>
                   (case read_fields n rd input of
                      Inl e \<Rightarrow> Inl e | Inr (flds, input) \<Rightarrow> Inr ((i, v) # flds, input)))))"

fun read_entries :: "nat \<Rightarrow> tvalue reader \<Rightarrow> tvalue reader \<Rightarrow> (tvalue \<times> tvalue) list reader" where
  "read_entries 0 rk rv input = Inr ([], input)"
| "read_entries (Suc n) rk rv input =
     (case rk input of
        Inl e \<Rightarrow> Inl e
      | Inr (k, input) \<Rightarrow>
          (case rv input of
             Inl e \<Rightarrow> Inl e
           | Inr (v, input) \<Rightarrow>
               (case read_entries n rk rv input of
                  Inl e \<Rightarrow> Inl e | Inr (es, input) \<Rightarrow> Inr ((k, v) # es, input))))"

fun read_items :: "nat \<Rightarrow> tvalue reader \<Rightarrow> tvalue list reader" where
  "read_items 0 rd input = Inr ([], input)"
| "read_items (Suc n) rd input =
     (case rd input of
        Inl e \<Rightarrow> Inl e
      | Inr (v, input) \<Rightarrow>
          (case read_items n rd input of
             Inl e \<Rightarrow> Inl e | Inr (vs, input) \<Rightarrow> Inr (v # vs, input)))"

definition returning :: "('a \<Rightarrow> tvalue) \<Rightarrow> thrift_error + 'a \<times> bytes \<Rightarrow> thrift_error + tvalue \<times> bytes" where
  "returning c r = (case r of Inl e \<Rightarrow> Inl e | Inr (x, input) \<Rightarrow> Inr (c x, input))"

text \<open>\<open>read_nested n\<close> reads a value that may nest \<open>n\<close> levels: none are left beyond \<open>MAX_DEPTH\<close>.\<close>

fun read_nested :: "nat \<Rightarrow> 8 word \<Rightarrow> tvalue reader" where
  "read_nested 0 kind input = invalid ''reply nests too deeply''"
| "read_nested (Suc n) kind input =
     (if kind = tBOOL then returning (\<lambda>b :: 8 word. VBool (b \<noteq> 0)) (read_word 1 input)
      else if kind = tBYTE then returning VByte (read_word 1 input)
      else if kind = tI16 then returning VI16 (read_word 2 input)
      else if kind = tI32 then returning VI32 (read_i32 input)
      else if kind = tI64 then returning VI64 (read_word 8 input)
      else if kind = tDOUBLE then returning VDouble (read_word 8 input)
      else if kind = tSTRING then returning VString (read_bytes input)
      else if kind = tSTRUCT then returning VStruct (read_fields (length input) (read_nested n) input)
      else if kind = tMAP then
        (case read_array 2 input of
           Inl e \<Rightarrow> Inl e
         | Inr (kv, input) \<Rightarrow>
             (let k = of_nat (byte_of (kv ! 0)); v = of_nat (byte_of (kv ! 1)) in
              case read_size input of
                Inl e \<Rightarrow> Inl e
              | Inr (count, input) \<Rightarrow>
                  returning (VMap k v) (read_entries count (read_nested n k) (read_nested n v) input)))
      else if kind = tLIST \<or> kind = tSET then
        (case read_word 1 input of
           Inl e \<Rightarrow> Inl e
         | Inr (element, input) \<Rightarrow>
             (case read_size input of
                Inl e \<Rightarrow> Inl e
              | Inr (count, input) \<Rightarrow> returning (VList element) (read_items count (read_nested n element) input)))
      else Inl (InvalidData (Format ''unknown Thrift type {other}'' [dec (unat kind)])))"

definition read_value :: "8 word \<Rightarrow> nat \<Rightarrow> tvalue reader" where
  "read_value kind depth input = read_nested (max_depth + 1 - depth) kind input"

definition read_message :: "bytes \<Rightarrow> thrift_error + header \<times> tvalue" where
  "read_message input =
     (case read_i32 (take max_reply_bytes input) of
        Inl e \<Rightarrow> Inl e
      | Inr (word, input) \<Rightarrow>
          if word AND version_mask \<noteq> version_1 then invalid ''not a strict Thrift binary message''
          else (case read_bytes input of
            Inl e \<Rightarrow> Inl e
          | Inr (name, input) \<Rightarrow>
              (case from_utf8 name of
                 None \<Rightarrow> invalid ''method name is not UTF-8''
               | Some name \<Rightarrow>
                   (case read_i32 input of
                      Inl e \<Rightarrow> Inl e
                    | Inr (seqid, input) \<Rightarrow>
                        (case read_value tSTRUCT 0 input of
                           Inl e \<Rightarrow> Inl e
                         | Inr (body, _) \<Rightarrow>
                             Inr (\<lparr>h_kind = ucast (word AND 0xff), h_name = name, h_seqid = seqid\<rparr>, body))))))"

end
