(* ===== verification/Thrift_Correct.thy ===== *)
theory Thrift_Correct
  imports Thrift
begin

text \<open>
  The decoder reads back what the encoder writes, and whatever bytes a peer sends, what it
  returns is bounded in depth, container sizes and total size.
\<close>

section \<open>Values within the bounds\<close>

definition matches :: "8 word \<Rightarrow> tvalue \<Rightarrow> bool" where
  \<comment> \<open>a set is read as a list\<close>
  "matches kind v \<longleftrightarrow> type_id v = kind \<or> kind = tSET \<and> type_id v = tLIST"

fun fits :: "nat \<Rightarrow> tvalue \<Rightarrow> bool" where
  "fits 0 v = False"
| "fits (Suc n) (VString b) = (length b \<le> max_reply_bytes)"
| "fits (Suc n) (VStruct fs) = list_all (\<lambda>(i, v). fits n v) fs"
| "fits (Suc n) (VMap k v es) = (length es \<le> max_elements
     \<and> list_all (\<lambda>(a, b). matches k a \<and> matches v b \<and> fits n a \<and> fits n b) es)"
| "fits (Suc n) (VList e vs) = (length vs \<le> max_elements \<and> list_all (\<lambda>v. matches e v \<and> fits n v) vs)"
| "fits (Suc n) _ = True"

fun weight :: "tvalue \<Rightarrow> nat" where
  \<comment> \<open>the values and string bytes inside\<close>
  "weight (VString b) = 1 + length b"
| "weight (VStruct fs) = 1 + sum_list (map (\<lambda>(i, v). weight v) fs)"
| "weight (VMap k v es) = 1 + sum_list (map (\<lambda>(a, b). weight a + weight b) es)"
| "weight (VList e vs) = 1 + sum_list (map weight vs)"
| "weight _ = 1"

section \<open>Reading what was written\<close>

lemma read_array_append [simp]: "length a = n \<Longrightarrow> read_array n (a @ rest) = Inr (a, rest)"
  by (simp add: read_array_def)

lemma read_word_written [simp]:
  "(256 :: nat) ^ n = 2 ^ LENGTH('a) \<Longrightarrow> read_word n (be_bytes n (unat w) @ rest) = Inr (w :: 'a::len word, rest)"
  by (simp add: read_word_def be_value_be_bytes unsigned_less)

lemma unat_byte: "unat (w :: 8 word) < 256"
proof -
  have "unat w < 2 ^ LENGTH(8)" by (rule unsigned_less)
  then show ?thesis by simp
qed

lemma read_i32_written [simp]: "read_i32 (be_bytes 4 (unat w) @ rest) = Inr (w, rest)"
  by (simp add: read_i32_def)

lemma sint_small: "n < 2 ^ 31 \<Longrightarrow> sint (of_nat n :: 32 word) = int n"
  by (simp add: signed_of_nat signed_take_bit_int_eq_self)

lemma max_elements_small: "n \<le> max_elements \<Longrightarrow> n < 2 ^ 31"
  by (simp add: max_elements_def)

lemma max_reply_small: "n \<le> max_reply_bytes \<Longrightarrow> n < 2 ^ 31"
  by (simp add: max_reply_bytes_def)

lemma read_size_written [simp]: "n \<le> max_elements \<Longrightarrow> read_size (len_bytes n @ rest) = Inr (n, rest)"
  using sint_small[OF max_elements_small] by (simp add: read_size_def len_bytes_def)

lemma read_bytes_written [simp]: "length b \<le> max_reply_bytes \<Longrightarrow> read_bytes (write_bytes b @ rest) = Inr (b, rest)"
  using sint_small[OF max_reply_small] by (simp add: read_bytes_def write_bytes_def len_bytes_def)

lemma type_id_not_stop [simp]: "type_id v \<noteq> tSTOP"
  by (cases v) (simp_all add: type_ids)

lemma read_fields_written:
  assumes "\<And>i v rest. (i, v) \<in> set fs \<Longrightarrow> rd (type_id v) (write_value v @ rest) = Inr (v, rest)"
    and "length fs < n"
  shows "read_fields n rd (concat (map (\<lambda>(i, v). be_bytes 1 (unat (type_id v)) @ be_bytes 2 (unat i) @ write_value v) fs)
    @ be_bytes 1 (unat tSTOP) @ rest) = Inr (fs, rest)"
  using assms
proof (induction fs arbitrary: n)
  case Nil
  then show ?case by (cases n) (simp_all)
next
  case (Cons f fs)
  obtain i v where f: "f = (i, v)" by fastforce
  obtain m where n: "n = Suc m" "length fs < m" using Cons.prems(2) by (cases n) auto
  have "read_fields m rd (concat (map (\<lambda>(i, v). be_bytes 1 (unat (type_id v)) @ be_bytes 2 (unat i) @ write_value v) fs)
    @ be_bytes 1 (unat tSTOP) @ rest) = Inr (fs, rest)"
    using Cons.IH[of m] Cons.prems(1) n(2) by auto
  then show ?case using Cons.prems(1)[of i v] by (simp add: f n(1))
qed

lemma read_entries_written:
  assumes "\<And>a b rest. (a, b) \<in> set es \<Longrightarrow> rk (write_value a @ rest) = Inr (a, rest) \<and> rv (write_value b @ rest) = Inr (b, rest)"
  shows "read_entries (length es) rk rv (concat (map (\<lambda>(a, b). write_value a @ write_value b) es) @ rest) = Inr (es, rest)"
  using assms by (induction es) fastforce+

lemma read_items_written:
  assumes "\<And>v rest. v \<in> set vs \<Longrightarrow> rd (write_value v @ rest) = Inr (v, rest)"
  shows "read_items (length vs) rd (concat (map write_value vs) @ rest) = Inr (vs, rest)"
  using assms by (induction vs) auto

lemma length_fields_written:
  "length fs < length (concat (map (\<lambda>(i, v). be_bytes 1 (unat (type_id v)) @ be_bytes 2 (unat i) @ write_value v) fs)
    @ be_bytes 1 (unat tSTOP) @ rest)"
  by (induction fs) (auto )

text \<open>One branch of the decoder per kind of container.\<close>

lemma read_nested_struct:
  "read_nested (Suc n) tSTRUCT input = returning VStruct (read_fields (length input) (read_nested n) input)"
  by (simp add: type_ids)

lemma read_nested_map:
  "read_nested (Suc n) tMAP input =
     (case read_array 2 input of
        Inl e \<Rightarrow> Inl e
      | Inr (kv, input) \<Rightarrow>
          (case read_size input of
             Inl e \<Rightarrow> Inl e
           | Inr (count, input) \<Rightarrow>
               returning (VMap (of_nat (byte_of (kv ! 0))) (of_nat (byte_of (kv ! 1))))
                 (read_entries count (read_nested n (of_nat (byte_of (kv ! 0))))
                    (read_nested n (of_nat (byte_of (kv ! 1)))) input)))"
  unfolding read_nested.simps Let_def by (simp add: type_ids)

lemma read_nested_list:
  "kind = tLIST \<or> kind = tSET \<Longrightarrow> read_nested (Suc n) kind input =
     (case read_word 1 input of
        Inl e \<Rightarrow> Inl e
      | Inr (element, input) \<Rightarrow>
          (case read_size input of
             Inl e \<Rightarrow> Inl e
           | Inr (count, input) \<Rightarrow> returning (VList element) (read_items count (read_nested n element) input)))"
  by (auto simp: type_ids)

lemma read_nested_written:
  "fits n v \<Longrightarrow> matches kind v \<Longrightarrow> read_nested n kind (write_value v @ rest) = Inr (v, rest)"
proof (induction n arbitrary: v kind rest)
  case (Suc n)
  show ?case
  proof (cases v)
    case (VBool b)
    have "read_word 1 ([char_of (if b then 1 else 0 :: nat)] @ rest) = Inr (if b then 1 else 0 :: 8 word, rest)"
      by (simp add: read_word_def read_array_def be_value_def byte_of_def)
    then show ?thesis using Suc.prems VBool by (simp add: matches_def type_ids returning_def)
  next
    case (VStruct fs)
    have "read_nested n (type_id v) (write_value v @ rest) = Inr (v, rest)" if "(i, v) \<in> set fs" for i v rest
      using Suc.IH[of v "type_id v"] Suc.prems(1) VStruct that by (auto simp: list_all_iff matches_def)
    from read_fields_written[of fs "read_nested n", OF this length_fields_written]
    moreover have "kind = tSTRUCT" using Suc.prems(2) VStruct by (auto simp: matches_def type_ids)
    ultimately show ?thesis using VStruct by (simp add: read_nested_struct returning_def del: read_nested.simps)
  next
    case (VMap k v' es)
    have "read_nested n k (write_value a @ rest) = Inr (a, rest) \<and> read_nested n v' (write_value b @ rest) = Inr (b, rest)"
      if "(a, b) \<in> set es" for a b rest
      using Suc.IH Suc.prems(1) VMap that by (fastforce simp: list_all_iff)
    note es = read_entries_written[OF this]
    have two: "read_array 2 (be_bytes 1 (unat k) @ be_bytes 1 (unat v') @ rest') = Inr (be_bytes 1 (unat k) @ be_bytes 1 (unat v'), rest')" for rest'
      using read_array_append[of "be_bytes 1 (unat k) @ be_bytes 1 (unat v')" 2 rest'] by simp
    have kv: "of_nat (byte_of ((be_bytes 1 (unat k) @ be_bytes 1 (unat v')) ! 0)) = k"
      "of_nat (byte_of ((be_bytes 1 (unat k) @ be_bytes 1 (unat v')) ! 1)) = v'"
      by (simp_all add: byte_of_def be_bytes.simps unat_byte)
    have "kind = tMAP" using Suc.prems(2) VMap by (auto simp: matches_def type_ids)
    then show ?thesis using Suc.prems(1) VMap es two kv
      by (simp add: read_nested_map returning_def del: read_nested.simps)
  next
    case (VList e vs)
    have "read_nested n e (write_value v @ rest) = Inr (v, rest)" if "v \<in> set vs" for v rest
      using Suc.IH Suc.prems(1) VList that by (auto simp: list_all_iff)
    note vs = read_items_written[OF this]
    have "kind = tLIST \<or> kind = tSET" using Suc.prems(2) VList by (auto simp: matches_def)
    then show ?thesis using Suc.prems(1) VList vs
      by (simp add: read_nested_list returning_def del: read_nested.simps)
  qed (use Suc.prems in \<open>simp_all add: matches_def type_ids returning_def\<close>)
qed simp

section \<open>What is read is bounded\<close>

definition took :: "nat \<Rightarrow> bytes \<Rightarrow> bytes \<Rightarrow> bool" where
  \<comment> \<open>\<open>rest\<close> is what is left of \<open>input\<close> after at least \<open>n\<close> bytes\<close>
  "took n input rest \<longleftrightarrow> (\<exists>used. input = used @ rest \<and> n \<le> length used)"

lemma took_trans: "took a x y \<Longrightarrow> took b y z \<Longrightarrow> c \<le> a + b \<Longrightarrow> took c x z"
  by (auto simp: took_def)

lemmas took_add = took_trans[OF _ _ order_refl]

lemma took_refl [simp]: "took 0 x x"
  by (simp add: took_def)

lemma took_length: "took n input rest \<Longrightarrow> n + length rest \<le> length input"
  by (auto simp: took_def)

lemma took_mono: "took n input rest \<Longrightarrow> m \<le> n \<Longrightarrow> took m input rest"
  by (auto simp: took_def)

lemma read_array_took: "read_array n input = Inr (a, rest) \<Longrightarrow> took n input rest \<and> length a = n"
  by (auto simp: read_array_def took_def split: if_splits)
    (metis append_take_drop_id length_take min.absorb2 order_refl)

lemma read_word_took: "read_word n input = Inr (w, rest) \<Longrightarrow> took n input rest"
  by (auto simp: read_word_def dest!: read_array_took split: sum.splits)

lemma read_size_took: "read_size input = Inr (n, rest) \<Longrightarrow> took 4 input rest \<and> n \<le> max_elements"
  by (auto simp: read_size_def read_i32_def invalid_def dest!: read_word_took split: sum.splits if_splits)

lemma read_bytes_took:
  assumes "read_bytes input = Inr (b, rest)"
  shows "took (4 + length b) input rest \<and> length b \<le> max_reply_bytes"
proof -
  obtain n r1 where r: "read_i32 input = Inr (n, r1)" using assms by (auto simp: read_bytes_def split: sum.splits)
  have "took 4 input r1" using r read_word_took by (auto simp: read_i32_def)
  moreover have "b = take (nat (sint n)) r1" "rest = drop (nat (sint n)) r1" "nat (sint n) \<le> max_reply_bytes"
    "nat (sint n) \<le> length r1"
    using assms r by (auto simp: read_bytes_def invalid_def split: if_splits)
  then have "took (length b) r1 rest \<and> length b \<le> max_reply_bytes"
    by (auto simp: took_def intro!: exI[of _ "take (nat (sint n)) r1"])
  ultimately show ?thesis using took_trans by blast
qed

text \<open>What a reader of nested values promises.\<close>

definition sound :: "nat \<Rightarrow> 8 word \<Rightarrow> tvalue reader \<Rightarrow> bool" where
  "sound n kind rd \<longleftrightarrow> (\<forall>input v rest. rd input = Inr (v, rest) \<longrightarrow> fits n v \<and> matches kind v \<and> took (weight v) input rest)"

lemma soundD: "sound n kind rd \<Longrightarrow> rd input = Inr (v, rest) \<Longrightarrow> fits n v \<and> matches kind v \<and> took (weight v) input rest"
  by (auto simp: sound_def)

lemma read_fields_sound:
  assumes "\<And>kind. sound n kind (rd kind)"
  shows "read_fields m rd input = Inr (fs, rest) \<Longrightarrow>
    list_all (\<lambda>(i, v). fits n v) fs \<and> took (1 + sum_list (map (\<lambda>(i, v). weight v) fs)) input rest"
proof (induction m arbitrary: input fs)
  case (Suc m)
  obtain k r1 where k: "read_word 1 input = Inr (k :: 8 word, r1)" using Suc.prems by (cases "read_word 1 input :: thrift_error + 8 word \<times> bytes") auto
  show ?case
  proof (cases "k = tSTOP")
    case True
    then show ?thesis using Suc.prems k read_word_took[OF k] by auto
  next
    case False
    obtain i r2 where i: "read_word 2 r1 = Inr (i :: 16 word, r2)" using Suc.prems k False by (auto split: sum.splits)
    obtain v r3 where v: "rd k r2 = Inr (v, r3)" using Suc.prems k i False by (auto split: sum.splits)
    obtain gs where gs: "read_fields m rd r3 = Inr (gs, rest)" "fs = (i, v) # gs"
      using Suc.prems k i v False by (auto split: sum.splits)
    note rest = Suc.IH[OF gs(1)] and val = soundD[OF assms v]
    have "took (weight v) input r3"
      using took_trans[OF took_trans[OF read_word_took[OF k] read_word_took[OF i] order_refl], of "weight v" r3] val by auto
    from took_trans[OF this conjunct2[OF rest]] show ?thesis using rest val gs(2) by simp
  qed
qed simp

lemma read_entries_sound:
  assumes "sound n k rk" and "sound n v rv"
  shows "read_entries m rk rv input = Inr (es, rest) \<Longrightarrow> length es = m
    \<and> list_all (\<lambda>(a, b). matches k a \<and> matches v b \<and> fits n a \<and> fits n b) es
    \<and> took (sum_list (map (\<lambda>(a, b). weight a + weight b) es)) input rest"
proof (induction m arbitrary: input es)
  case (Suc m)
  obtain a r1 where a: "rk input = Inr (a, r1)" using Suc.prems by (auto split: sum.splits)
  obtain b r2 where b: "rv r1 = Inr (b, r2)" using Suc.prems a by (auto split: sum.splits)
  obtain gs where gs: "read_entries m rk rv r2 = Inr (gs, rest)" "es = (a, b) # gs"
    using Suc.prems a b by (auto split: sum.splits)
  have "took (weight a + weight b) input r2"
    using took_trans[of "weight a" input r1 "weight b" r2] soundD[OF assms(1) a] soundD[OF assms(2) b] by simp
  from took_add[OF this, of "\<Sum>(a, b)\<leftarrow>gs. weight a + weight b" rest] show ?case
    using Suc.IH[OF gs(1)] soundD[OF assms(1) a] soundD[OF assms(2) b] gs(2) by simp
qed simp

lemma read_items_sound:
  assumes "sound n e rd"
  shows "read_items m rd input = Inr (vs, rest) \<Longrightarrow> length vs = m
    \<and> list_all (\<lambda>v. matches e v \<and> fits n v) vs \<and> took (sum_list (map weight vs)) input rest"
proof (induction m arbitrary: input vs)
  case (Suc m)
  obtain v r1 where v: "rd input = Inr (v, r1)" using Suc.prems by (auto split: sum.splits)
  obtain gs where gs: "read_items m rd r1 = Inr (gs, rest)" "vs = v # gs"
    using Suc.prems v by (auto split: sum.splits)
  then show ?case using Suc.IH[OF gs(1)] soundD[OF assms v] took_add[of "weight v" input r1 "sum_list (map weight gs)" rest]
    by simp
qed simp

lemma returning_Inr: "returning c r = Inr (v, rest) \<longleftrightarrow> (\<exists>x. r = Inr (x, rest) \<and> v = c x)"
  by (auto simp: returning_def split: sum.splits)

lemma read_nested_sound: "sound n kind (read_nested n kind)"
proof (induction n arbitrary: kind)
  case 0
  then show ?case by (simp add: sound_def invalid_def)
next
  case (Suc n)
  show ?case
    unfolding sound_def
  proof (intro allI impI)
    fix input v rest
    assume r: "read_nested (Suc n) kind input = Inr (v, rest)"
    consider (plain) "kind \<noteq> tSTRUCT" "kind \<noteq> tMAP" "kind \<noteq> tLIST" "kind \<noteq> tSET" | (struct) "kind = tSTRUCT"
      | (map) "kind = tMAP" | (list) "kind = tLIST \<or> kind = tSET" by blast
    then show "fits (Suc n) v \<and> matches kind v \<and> took (weight v) input rest"
    proof cases
      case plain
      then show ?thesis using r
        by (auto simp: returning_Inr matches_def read_i32_def split: if_splits
            dest!: read_word_took read_bytes_took intro: took_mono)
    next
      case struct
      then obtain fs where "read_fields (length input) (read_nested n) input = Inr (fs, rest)" "v = VStruct fs"
        using r by (auto simp: read_nested_struct returning_Inr simp del: read_nested.simps)
      with read_fields_sound[OF Suc.IH] show ?thesis using struct by (simp add: matches_def)
    next
      case map
      obtain kv r1 where kv: "read_array 2 input = Inr (kv, r1)"
        using r[unfolded map read_nested_map] by (auto split: sum.splits)
      obtain m r2 where m: "read_size r1 = Inr (m, r2)" using r[unfolded map read_nested_map] kv by (auto split: sum.splits)
      obtain k' v' es where es: "read_entries m (read_nested n k') (read_nested n v') r2 = Inr (es, rest)" "v = VMap k' v' es"
        using r[unfolded map read_nested_map] kv m by (auto simp: returning_Inr)
      have "took 1 input r2" using took_trans[of 2 input r1 4 r2 1] read_array_took[OF kv] read_size_took[OF m] by simp
      from took_add[OF this, of "\<Sum>(a, b)\<leftarrow>es. weight a + weight b" rest] show ?thesis
        using read_entries_sound[OF Suc.IH Suc.IH es(1)] read_size_took[OF m] es(2) map by (simp add: matches_def)
    next
      case list
      obtain e r1 where e: "read_word 1 input = Inr (e :: 8 word, r1)"
        using r[unfolded read_nested_list[OF list]] by (auto split: sum.splits)
      obtain m r2 where m: "read_size r1 = Inr (m, r2)" using r[unfolded read_nested_list[OF list]] e by (auto split: sum.splits)
      obtain vs where vs: "read_items m (read_nested n e) r2 = Inr (vs, rest)" "v = VList e vs"
        using r[unfolded read_nested_list[OF list]] e m by (auto simp: returning_Inr)
      have "took 1 input r2" using took_trans[of 1 input r1 4 r2 1] read_word_took[OF e] read_size_took[OF m] by simp
      from took_add[OF this, of "sum_list (map weight vs)" rest] show ?thesis
        using read_items_sound[OF Suc.IH vs(1)] read_size_took[OF m] vs(2) list by (auto simp: matches_def)
    qed
  qed
qed

section \<open>Messages\<close>

lemma header_word:
  "(version_1 OR ucast kind) AND version_mask = version_1"
  "ucast ((version_1 OR ucast kind) AND 0xff) = (kind :: 8 word)"
proof -
  have v1: "(version_1 AND version_mask) = version_1" "(version_1 AND 0xff) = 0"
    by (simp_all add: version_1_def version_mask_def)
  have m: "(ucast kind :: 32 word) AND mask 8 = ucast kind"
    by (rule bit_word_eqI) (auto simp: bit_simps dest: bit_imp_le_length)
  have "mask 8 AND version_mask = 0" by (simp add: version_mask_def mask_eq_exp_minus_1)
  then have "((ucast kind :: 32 word) AND mask 8) AND version_mask = 0" by (simp add: and.assoc)
  then have "(ucast kind :: 32 word) AND version_mask = 0" by (simp only: m)
  then show "(version_1 OR ucast kind) AND version_mask = version_1"
    by (simp add: bit.conj_disj_distrib2 v1)
  have "(0xff :: 32 word) = mask 8" by (simp add: mask_eq_exp_minus_1)
  then have "(version_1 OR ucast kind) AND 0xff = (ucast kind :: 32 word)"
    using v1(2) m by (simp add: bit.conj_disj_distrib2)
  moreover have "ucast (ucast kind :: 32 word) = kind" by (rule bit_word_eqI) (auto simp: bit_simps)
  ultimately show "ucast ((version_1 OR ucast kind) AND 0xff) = kind" by simp
qed

lemma depth_levels: "max_depth + 1 = Suc (Suc (Suc 14))"
  by (simp add: max_depth_def)

lemma read_written:
  assumes "valid_utf8 name" and "fits (max_depth + 1) (VStruct body)"
    and "length (write_message kind name seqid body) \<le> max_reply_bytes"
  shows "read_message (write_message kind name seqid body @ rest)
    = Inr (\<lparr>h_kind = kind, h_name = name, h_seqid = seqid\<rparr>, VStruct body)"
proof -
  let ?m = "write_message kind name seqid body" and ?r = "take (max_reply_bytes - length (write_message kind name seqid body)) rest"
  have name: "length name \<le> max_reply_bytes" using assms(3) by (simp add: write_message_def write_bytes_def len_bytes_def)
  have cut: "take max_reply_bytes (?m @ rest) = ?m @ ?r" using assms(3) by simp
  have body: "read_value tSTRUCT 0 (write_value (VStruct body) @ ?r) = Inr (VStruct body, ?r)"
    unfolding read_value_def by (rule read_nested_written) (use assms(2) in \<open>simp_all add: matches_def\<close>)
  show ?thesis
    unfolding read_message_def cut
    using header_word[of kind] assms(1) name body
    by (simp add: write_message_def write_struct_def from_utf8_def del: write_value.simps)
qed

text \<open>
  C38. Round trip of the Thrift messages the agent exchanges with osquery: reading what
  \<open>write_message\<close> wrote gives back the header and the body, whatever follows, for every message
  within the decoder's bounds (at most 16 MiB, 16 levels below the body, \<open>2\<^sup>2\<^sup>0\<close> entries per container).
\<close>

theorem read_message_write_message:
  assumes "valid_utf8 name" and "fits (max_depth + 1) (VStruct body)"
    and "length (write_message kind name seqid body) \<le> max_reply_bytes"
  shows "read_message (write_message kind name seqid body @ rest)
    = Inr (\<lparr>h_kind = kind, h_name = name, h_seqid = seqid\<rparr>, VStruct body)"
  using assms by (rule read_written)

theorem read_message_write_message_witness:
  "read_message (write_message 1 ''query'' 7 [(1, VString ''select 1'')] @ ''tail'')
     = Inr (\<lparr>h_kind = 1, h_name = ''query'', h_seqid = 7\<rparr>, VStruct [(1, VString ''select 1'')])"
proof (rule read_message_write_message)
  show "valid_utf8 ''query''" by (rule valid_utf8_ascii) (simp add: byte_of_def)
  have "fits (Suc (Suc (Suc n))) (VStruct [(1, VString ''select 1'')])" for n by (simp add: max_reply_bytes_def)
  then show "fits (max_depth + 1) (VStruct [(1, VString ''select 1'')])" by (simp only: depth_levels)
  show "length (write_message 1 ''query'' 7 [(1, VString ''select 1'')]) \<le> max_reply_bytes"
    by (simp add: max_reply_bytes_def write_message_def write_struct_def write_bytes_def len_bytes_def)
qed

text \<open>
  C39. Whatever bytes osquery's socket delivers, a reply the agent accepts is bounded: it is a
  struct that nests at most 17 levels, no container has more than \<open>2\<^sup>2\<^sup>0\<close> entries and each entry
  has the declared type, and the values and string bytes inside number at most 16 MiB.
\<close>

theorem read_message_bounded:
  assumes "read_message input = Inr (h, body)"
  shows "fits (max_depth + 1) body \<and> type_id body = tSTRUCT \<and> weight body \<le> max_reply_bytes \<and> valid_utf8 (h_name h)"
proof -
  obtain word r1 where w: "read_i32 (take max_reply_bytes input) = Inr (word, r1)"
    using assms by (auto simp: read_message_def split: sum.splits)
  obtain name r2 where n: "read_bytes r1 = Inr (name, r2)"
    using assms w by (auto simp: read_message_def invalid_def split: sum.splits if_splits)
  obtain seqid r3 where q: "read_i32 r2 = Inr (seqid, r3)"
    using assms w n by (auto simp: read_message_def invalid_def split: sum.splits if_splits option.splits)
  obtain r4 where b: "read_value tSTRUCT 0 r3 = Inr (body, r4)"
    using assms w n q by (auto simp: read_message_def invalid_def split: sum.splits if_splits option.splits)
  have utf: "valid_utf8 (h_name h)"
    using assms w n q b by (auto simp: read_message_def invalid_def from_utf8_def split: if_splits)
  have body: "fits (max_depth + 1) body \<and> matches tSTRUCT body \<and> took (weight body) r3 r4"
    using soundD[OF read_nested_sound b[unfolded read_value_def]] by simp
  have "took (weight body) (take max_reply_bytes input) r4"
    using took_trans[OF took_trans[OF took_trans[OF read_word_took[OF w[unfolded read_i32_def]]
        conjunct1[OF read_bytes_took[OF n]] order_refl] read_word_took[OF q[unfolded read_i32_def]] order_refl]
        conjunct2[OF conjunct2[OF body]]] by simp
  then have "weight body \<le> max_reply_bytes" using took_length by fastforce
  then show ?thesis using body utf by (auto simp: matches_def type_ids)
qed

theorem read_message_bounded_witness:
  "case read_message (write_message 2 ''query'' 7 [(0, VList tSTRING [VString ''a'', VString ''b''])]) of
     Inr (h, body) \<Rightarrow> fits 17 body \<and> weight body \<le> 16777216 | Inl e \<Rightarrow> False"
proof -
  have "valid_utf8 ''query''" by (rule valid_utf8_ascii) (simp add: byte_of_def)
  moreover have "fits (Suc (Suc (Suc n))) (VStruct [(0, VList tSTRING [VString ''a'', VString ''b''])])" for n
    by (simp add: max_reply_bytes_def max_elements_def matches_def)
  then have "fits (max_depth + 1) (VStruct [(0, VList tSTRING [VString ''a'', VString ''b''])])"
    by (simp only: depth_levels)
  moreover have "length (write_message 2 ''query'' 7 [(0, VList tSTRING [VString ''a'', VString ''b''])]) \<le> max_reply_bytes"
    by (simp add: max_reply_bytes_def write_message_def write_struct_def write_bytes_def len_bytes_def)
  ultimately have run: "read_message (write_message 2 ''query'' 7 [(0, VList tSTRING [VString ''a'', VString ''b''])] @ [])
    = Inr (\<lparr>h_kind = 2, h_name = ''query'', h_seqid = 7\<rparr>, VStruct [(0, VList tSTRING [VString ''a'', VString ''b''])])"
    by (rule read_written)
  note bounded = read_message_bounded[OF run, unfolded max_depth_def max_reply_bytes_def]
  have "(16 + 1 :: nat) = 17" "(16 * 1024 * 1024 :: nat) = 16777216" by simp_all
  then show ?thesis using run bounded by (simp del: fits.simps weight.simps)
qed

end
