(* ===== verification/Query_Sql.thy ===== *)
theory Query_Sql
  imports Capabilities Text_Json
begin

text \<open>
  Operational queries: the bounded result list and the query capability of
  \<open>src/agent/src/jobs/queries/mod.rs\<close>, and the operator-written SELECT of
  \<open>src/agent/src/jobs/queries/sql.rs\<close> with everything it refuses before osquery sees the text.
  osquery's client, serde\_json's reading of parameters and the size of a value's JSON are
  parameters.
\<close>

section \<open>Bounded results\<close>

definition result_budget_bytes :: nat where "result_budget_bytes = 48 * 1024"

record 'a bounded =
  b_items :: "'a list"
  b_max_items :: nat
  b_budget :: nat
  b_bytes :: nat
  b_truncated :: bool

definition with_budget :: "nat \<Rightarrow> nat \<Rightarrow> 'a bounded" where
  "with_budget max_items budget =
     \<lparr>b_items = [], b_max_items = max_items, b_budget = min budget result_budget_bytes, b_bytes = 0,
      b_truncated = False\<rparr>"

definition bounded_new :: "nat \<Rightarrow> 'a bounded" where
  "bounded_new max_items = with_budget max_items result_budget_bytes"

definition json_cost :: "('a \<Rightarrow> nat option) \<Rightarrow> 'a \<Rightarrow> nat" where
  \<comment> \<open>its JSON plus a comma, \<open>usize::MAX\<close> when it has none\<close>
  "json_cost json_len item = (case json_len item of None \<Rightarrow> u64_max | Some n \<Rightarrow> n + 1)"

definition saturating_add :: "nat \<Rightarrow> nat \<Rightarrow> nat" where
  "saturating_add a b = min (a + b) u64_max"

definition push :: "('a \<Rightarrow> nat option) \<Rightarrow> 'a \<Rightarrow> 'a bounded \<Rightarrow> bool \<times> 'a bounded" where
  "push json_len item l =
     (if b_truncated l then (False, l)
      else let cost = json_cost json_len item in
        if b_max_items l \<le> length (b_items l) \<or> b_budget l < saturating_add (b_bytes l) cost
        then (False, l\<lparr>b_truncated := True\<rparr>)
        else (True, l\<lparr>b_bytes := b_bytes l + cost, b_items := b_items l @ [item]\<rparr>))"

definition into_parts :: "'a bounded \<Rightarrow> 'a list \<times> bool" where
  "into_parts l = (b_items l, b_truncated l)"

definition clip :: "string \<Rightarrow> nat \<Rightarrow> string" where
  "clip value m = take_chars m value"

definition failed :: "string \<Rightarrow> job_failure" where
  "failed reason = JobFailed reason"

section \<open>A query as a capability\<close>

datatype sensitivity = Inventory | Sensitive

definition osquery_share :: nat where "osquery_share = 5"

record 'w query =
  qy_name :: string
  qy_sensitivity :: sensitivity
  qy_timeout :: duration
  qy_uses_osquery :: bool
  qy_answer :: "json \<Rightarrow> 'w \<Rightarrow> (job_failure + json) \<times> 'w"
  qy_answer_with_osquery :: "json \<Rightarrow> 'w \<Rightarrow> (job_failure + json option) \<times> 'w"

definition query_capability :: "'w query \<Rightarrow> capability" where
  "query_capability q =
     \<lparr>cap_name = qy_name q, cap_version = 1, cap_risk_class = Observe, cap_retry_class = Idempotent,
      cap_timeout = qy_timeout q, cap_override = Some (qy_sensitivity q = Inventory)\<rparr>"

text \<open>\<open>connect\<close> reaches osquery within the budget it is given, and tells whether it did.\<close>

definition with_osquery ::
  "(duration \<Rightarrow> 'w \<Rightarrow> bool \<times> 'w) \<Rightarrow> bool \<Rightarrow> 'w query \<Rightarrow> json \<Rightarrow> 'w \<Rightarrow> (job_failure + json option) \<times> 'w" where
  "with_osquery connect osquery_enabled q parameters w =
     (if \<not> osquery_enabled \<or> \<not> qy_uses_osquery q then (Inr None, w)
      else (case connect (qy_timeout q div osquery_share) w of
              (True, w) \<Rightarrow> qy_answer_with_osquery q parameters w
            | (False, w) \<Rightarrow> (Inr None, w)))"

definition run_query ::
  "(duration \<Rightarrow> 'w \<Rightarrow> bool \<times> 'w) \<Rightarrow> ('w \<Rightarrow> bool \<times> 'w) \<Rightarrow> bool \<Rightarrow> 'w query \<Rightarrow> json \<Rightarrow> 'w
   \<Rightarrow> (job_failure + json) \<times> 'w" where
  "run_query connect cancelled osquery_enabled q parameters w =
     (case cancelled w of (stop, w) \<Rightarrow>
      if stop then (Inl JobCancelled, w)
      else (case with_osquery connect osquery_enabled q parameters w of
              (Inl e, w) \<Rightarrow> (Inl e, w)
            | (Inr (Some answer), w) \<Rightarrow> (Inr answer, w)
            | (Inr None, w) \<Rightarrow>
                (case cancelled w of (stop, w) \<Rightarrow>
                 if stop then (Inl JobCancelled, w) else qy_answer q parameters w)))"

section \<open>The text of an operator's query\<close>

definition max_sql :: nat where "max_sql = 4096"

fun window_position :: "string \<Rightarrow> string \<Rightarrow> nat option" where
  "window_position t [] = (if t = [] then Some 0 else None)"
| "window_position t (c # cs) =
     (if take (length t) (c # cs) = t then Some 0 else map_option Suc (window_position t cs))"

definition closing :: "string \<Rightarrow> nat \<Rightarrow> string \<Rightarrow> nat" where
  "closing b from t =
     (case window_position t (drop (min from (length b)) b) of
        None \<Rightarrow> length b | Some at \<Rightarrow> from + at + length t)"

definition newline :: char where "newline = char_of (10 :: nat)"

definition byte_at :: "string \<Rightarrow> nat \<Rightarrow> char option" where
  "byte_at b i = (if i < length b then Some (b ! i) else None)"

datatype token = Comment | Quoted | Semicolon | Parameter | Space | Other

text \<open>
  The match on the byte at \<open>i\<close> and the one after it: what token starts there, and either how many
  bytes open it and what closes it, or that it is one byte.
\<close>

definition token_class :: "char \<Rightarrow> char option \<Rightarrow> token \<times> (nat \<times> string) option" where
  "token_class c following =
     (if c = CHR ''-'' \<and> following = Some (CHR ''-'') then (Comment, Some (2, [newline]))
      else if c = CHR ''/'' \<and> following = Some (CHR ''*'') then (Comment, Some (2, ''*/''))
      else if c \<in> {char_of (39 :: nat), char_of (34 :: nat), CHR ''`''} then (Quoted, Some (1, [c]))
      else if c = CHR ''['' then (Quoted, Some (1, '']''))
      else if c = CHR '';'' then (Semicolon, None)
      else if c \<in> {CHR ''?'', CHR '':'', CHR ''@'', CHR ''$'', CHR ''#''} then (Parameter, None)
      else if is_ascii_whitespace c then (Space, None)
      else (Other, None))"

definition token_at :: "string \<Rightarrow> nat \<Rightarrow> token \<times> nat" where
  "token_at b i =
     (case token_class (b ! i) (byte_at b (i + 1)) of
        (k, None) \<Rightarrow> (k, i + 1)
      | (k, Some (opening, terminator)) \<Rightarrow> (k, closing b (i + opening) terminator))"

definition ignorable :: "token \<Rightarrow> bool" where
  "ignorable k = (k \<in> {Comment, Semicolon, Space})"

lemma window_position_le: "window_position t s = Some n \<Longrightarrow> n + length t \<le> length s \<and> take (length t) (drop n s) = t"
proof (induction t s arbitrary: n rule: window_position.induct)
  case (2 t c cs)
  then show ?case
  proof (cases "take (length t) (c # cs) = t")
    case True
    then have "length t \<le> length (c # cs)" by (metis length_take min.cobounded1)
    then show ?thesis using 2 True by auto
  qed auto
qed (auto split: if_splits)

lemma closing_bounds: "from \<le> length b \<Longrightarrow> from \<le> closing b from t \<and> closing b from t \<le> length b"
  by (auto simp: closing_def split: option.split dest: window_position_le)

lemma token_class_opening:
  "token_class c x = (k, Some (d, t)) \<Longrightarrow> d = 1 \<or> d = 2 \<and> x \<noteq> None"
  unfolding token_class_def by (simp only: split: if_splits) auto

lemma token_class_short:
  "token_class c x = (k, m) \<Longrightarrow> (\<And>t. m \<noteq> Some (2, t)) \<Longrightarrow> token_class c None = (k, m)"
  unfolding token_class_def by (simp only: option.distinct simp_thms split: if_splits) auto

lemma token_at_next:
  assumes "i < length b" and "token_at b i = (k, n)"
  shows "i < n \<and> n \<le> length b"
proof -
  obtain m where m: "token_class (b ! i) (byte_at b (i + 1)) = (k, m)"
    using assms(2) by (auto simp: token_at_def split: prod.splits option.splits)
  show ?thesis
  proof (cases m)
    case None
    then show ?thesis using assms m by (simp add: token_at_def)
  next
    case (Some dt)
    then obtain d t where dt: "m = Some (d, t)" by (cases dt) auto
    then have n: "n = closing b (i + d) t" using assms(2) m by (simp add: token_at_def)
    have "0 < d" "i + d \<le> length b"
      using token_class_opening[OF m[unfolded dt]] assms(1) by (auto simp: byte_at_def split: if_splits)
    then show ?thesis using n closing_bounds[of "i + d" b t] by simp
  qed
qed

function scan :: "string \<Rightarrow> nat option \<Rightarrow> nat \<Rightarrow> job_failure + nat option" where
  "scan b stop i =
     (if length b \<le> i then Inr stop
      else (case token_at b i of (k, n) \<Rightarrow>
        if k = Parameter then Inl (failed
          ''invalid parameters: sql must not use parameters ($, :, @, #, or ?) outside quotes'')
        else (let stop = (if k = Semicolon \<and> stop = None then Some i else stop) in
          if stop \<noteq> None \<and> \<not> ignorable k then Inl (failed ''invalid parameters: sql must be one statement'')
          else scan b stop n)))"
  by pat_completeness auto
termination
proof (relation "measure (\<lambda>(b, stop, i). length b - i)", goal_cases)
  case (2 b stop i k n)
  then have "i < n \<and> n \<le> length b" using token_at_next[of i b k n] by auto
  then show ?case by auto
qed simp

declare scan.simps [simp del]

definition single_statement :: "string \<Rightarrow> job_failure + string" where
  "single_statement text =
     (case scan text None 0 of
        Inl e \<Rightarrow> Inl e
      | Inr stop \<Rightarrow> Inr (take (case stop of None \<Rightarrow> length text | Some i \<Rightarrow> i) text))"

definition slice2 :: "string \<Rightarrow> nat \<Rightarrow> string option" where
  \<comment> \<open>\<open>bytes.get(i..i + 2)\<close>\<close>
  "slice2 b i = (if i + 2 \<le> length b then Some (take 2 (drop i b)) else None)"

function keyword_start :: "string \<Rightarrow> nat \<Rightarrow> nat" where
  "keyword_start b i =
     (if slice2 b i = Some ''--'' then keyword_start b (closing b (i + 2) [newline])
      else if slice2 b i = Some ''/*'' then keyword_start b (closing b (i + 2) ''*/'')
      else if i < length b \<and> is_ascii_whitespace (b ! i) then keyword_start b (i + 1)
      else i)"
  by pat_completeness auto
termination
proof (relation "measure (\<lambda>(b, i). length b - i)", goal_cases)
  case (2 b i)
  then have "i + 2 \<le> length b" by (simp add: slice2_def split: if_splits)
  from closing_bounds[OF this, of "[newline]"] show ?case using \<open>i + 2 \<le> length b\<close> by auto
next
  case (3 b i)
  then have "i + 2 \<le> length b" by (simp add: slice2_def split: if_splits)
  from closing_bounds[OF this, of "''*/''"] show ?case using \<open>i + 2 \<le> length b\<close> by auto
qed auto

declare keyword_start.simps [simp del]

definition first_keyword :: "string \<Rightarrow> string" where
  "first_keyword statement = takeWhile is_ascii_alphabetic (drop (keyword_start statement 0) statement)"

text \<open>\<open>from_value\<close> is serde's reading of the parameters object, with the message it fails with.\<close>

definition parameters :: "(json \<Rightarrow> string + 'p) \<Rightarrow> 'p \<Rightarrow> json \<Rightarrow> job_failure + 'p" where
  "parameters from_value dflt raw =
     (case raw of
        JNull \<Rightarrow> Inr dflt
      | _ \<Rightarrow> (case from_value raw of
                Inl e \<Rightarrow> Inl (JobFailed (''invalid parameters: '' @ e)) | Inr p \<Rightarrow> Inr p))"

definition sql_text :: "(json \<Rightarrow> string + string) \<Rightarrow> json \<Rightarrow> job_failure + string" where
  "sql_text from_value raw =
     (case parameters from_value [] raw of
        Inl e \<Rightarrow> Inl e
      | Inr text \<Rightarrow>
          if max_sql < char_count text
          then Inl (failed (''invalid parameters: sql must be at most '' @ dec max_sql @ '' characters''))
          else (case single_statement text of
            Inl e \<Rightarrow> Inl e
          | Inr statement \<Rightarrow>
              let statement = trim statement in
              if statement = [] then Inl (failed ''invalid parameters: sql must not be blank'')
              else if map to_ascii_uppercase (first_keyword statement) \<notin> {''SELECT'', ''WITH''}
              then Inl (failed ''refused by the agent's policy: sql must be a SELECT'')
              else Inr statement))"

section \<open>What osquery must be configured with, and what a program may do\<close>

type_synonym row = "(string \<times> string) list"

definition row_or :: "string \<Rightarrow> row \<Rightarrow> string \<Rightarrow> string" where
  "row_or dflt r k = (case map_of r k of None \<Rightarrow> dflt | Some v \<Rightarrow> v)"

definition calls :: "row \<Rightarrow> string \<Rightarrow> bool" where
  "calls op name =
     (let opcode = row_or [] op ''opcode''; p4 = row_or [] op ''p4'' in
      (window_position ''Func'' opcode \<noteq> None \<or> starts_with ''Agg'' opcode)
      \<and> map to_ascii_lowercase (trim (hd (split_on (CHR ''('') p4))) = map to_ascii_lowercase name)"

definition writes :: "row \<Rightarrow> bool" where
  "writes op =
     (let opcode = row_or [] op ''opcode''; p2 = row_or ''0'' op ''p2'' in
      opcode \<in> {''VUpdate'', ''VCreate'', ''VDestroy''} \<or> (opcode = ''Transaction'' \<and> p2 \<noteq> ''0''))"

definition refuse_unsafe_program :: "row list \<Rightarrow> job_failure + unit" where
  "refuse_unsafe_program program =
     (if list_ex writes program then Inl (failed ''refused by the agent's policy: sql must only read'')
      else if list_ex (\<lambda>op. calls op ''sleep'') program
      then Inl (failed ''refused by the agent's policy: sql must not call sleep()'')
      else Inr ())"

definition denied_tables :: "string list" where
  "denied_tables =
     [''ai_agent_skills'', ''augeas'', ''carves'', ''certificates'', ''curl'', ''curl_certificate'',
      ''deb_package_files'', ''device_file'', ''device_hash'', ''device_partitions'', ''elf_dynamic'',
      ''elf_info'', ''elf_sections'', ''elf_segments'', ''elf_symbols'', ''extended_attributes'',
      ''file'', ''hash'', ''homebrew_packages'', ''lxd_images'', ''lxd_instance_config'',
      ''lxd_instance_devices'', ''lxd_instances'', ''magic'', ''npm_packages'', ''process_envs'',
      ''process_memory_map'', ''process_namespaces'', ''process_open_files'', ''process_open_sockets'',
      ''processes'', ''python_packages'', ''sshd_config'', ''ycloud_instance_metadata'', ''yara'',
      ''yara_file'', ''yara_process'']"

definition flag_space :: "char \<Rightarrow> bool" where
  "flag_space c = (byte_of c \<in> {32, 9, 10, 11, 12, 13})"

definition trim_flag :: "string \<Rightarrow> string" where
  "trim_flag s = rev (dropWhile flag_space (rev (dropWhile flag_space s)))"

fun join_with :: "string \<Rightarrow> string list \<Rightarrow> string" where
  "join_with sep [] = []"
| "join_with sep [x] = x"
| "join_with sep (x # y # ys) = x @ sep @ join_with sep (y # ys)"

definition refuse_unless_denied_tables_disabled :: "row \<Rightarrow> job_failure + unit" where
  "refuse_unless_denied_tables_disabled options =
     (let disabled = (case map_of options ''disable_tables'' of
                        None \<Rightarrow> [] | Some tables \<Rightarrow> map trim_flag (split_on (CHR '','') tables));
          missing = filter (\<lambda>t. t \<notin> set disabled) denied_tables
      in if missing = [] then Inr ()
         else Inl (failed (''refused by the agent's policy: osquery must run with --disable_tables covering ''
                           @ join_with '', '' missing)))"

definition refuse_unless_carving_disabled :: "row \<Rightarrow> job_failure + unit" where
  "refuse_unless_carving_disabled options =
     (if map_of options ''carver_disable_function'' = Some ''true'' then Inr ()
      else Inl (failed ''refused by the agent's policy: osquery must run with --carver_disable_function''))"

section \<open>The result table\<close>

definition max_columns :: nat where "max_columns = 256"
definition max_column_name :: nat where "max_column_name = 128"
definition max_rows :: nat where "max_rows = 10000"
definition max_cell :: nat where "max_cell = 1024"
definition envelope_bytes :: nat where "envelope_bytes = 64"

text \<open>\<open>clipped\<close> also notes whether it cut anything.\<close>

definition clipped :: "string \<Rightarrow> nat \<Rightarrow> bool \<Rightarrow> string \<times> bool" where
  "clipped value m truncated = (clip value m, truncated \<or> m < char_count value)"

fun header_loop ::
  "(string \<Rightarrow> nat option) \<Rightarrow> string list \<Rightarrow> string list \<Rightarrow> nat \<Rightarrow> bool \<Rightarrow> string list \<times> nat \<times> bool" where
  "header_loop json_len [] header bytes truncated = (header, bytes, truncated)"
| "header_loop json_len (name # names) header bytes truncated =
     (case clipped name max_column_name truncated of (name, truncated) \<Rightarrow>
        let cost = json_cost json_len name in
        if result_budget_bytes div 2 < saturating_add bytes cost then (header, bytes, truncated)
        else header_loop json_len names (header @ [name]) (bytes + cost) truncated)"

fun clip_cells :: "string list \<Rightarrow> row \<Rightarrow> bool \<Rightarrow> string list \<times> bool" where
  "clip_cells [] r truncated = ([], truncated)"
| "clip_cells (name # names) r truncated =
     (case clipped (row_or [] r name) max_cell truncated of (v, truncated) \<Rightarrow>
      case clip_cells names r truncated of (vs, truncated) \<Rightarrow> (v # vs, truncated))"

fun rows_loop ::
  "(string list \<Rightarrow> nat option) \<Rightarrow> string list \<Rightarrow> row list \<Rightarrow> string list bounded \<Rightarrow> bool \<Rightarrow> string list bounded \<times> bool" where
  "rows_loop json_len names [] l truncated = (l, truncated)"
| "rows_loop json_len names (r # rs) l truncated =
     (case clip_cells names r truncated of (values, truncated) \<Rightarrow>
      case push json_len values l of (pushed, l) \<Rightarrow>
      if pushed then rows_loop json_len names rs l truncated else (l, truncated))"

record sql_table =
  st_columns :: "string list"
  st_rows :: "string list list"
  st_truncated :: bool

definition table ::
  "(string \<Rightarrow> nat option) \<Rightarrow> (string list \<Rightarrow> nat option) \<Rightarrow> string list \<Rightarrow> row list \<Rightarrow> sql_table" where
  "table name_len row_len columns rows =
     (let truncated = max_columns < length columns;
          names = take max_columns columns;
          (header, header_bytes, truncated) = header_loop name_len names [] envelope_bytes truncated;
          dropped = length header < length names;
          names = take (length header) names;
          l = with_budget max_rows (result_budget_bytes - header_bytes);
          (l, truncated) = rows_loop row_len names rows l truncated;
          (rows, cut) = into_parts l
      in \<lparr>st_columns = header, st_rows = rows, st_truncated = truncated \<or> cut \<or> dropped\<rparr>)"

section \<open>Answering\<close>

datatype osquery_error = OsqueryIo | OsqueryProtocol string | OsqueryStatus int string

definition osquery_failure :: "osquery_error \<Rightarrow> job_failure" where
  "osquery_failure e = (case e of
     OsqueryStatus _ message \<Rightarrow> failed (''osquery: '' @ clip message 256)
   | _ \<Rightarrow> failed (''osquery did not answer, or its answer was larger than the agent reads (16 MiB); ''
                 @ ''narrow the query, for example with LIMIT''))"

record 'w osquery =
  oq_options :: "'w \<Rightarrow> (osquery_error + row) \<times> 'w"
  oq_query :: "string \<Rightarrow> 'w \<Rightarrow> (osquery_error + row list) \<times> 'w"
  oq_query_columns :: "string \<Rightarrow> 'w \<Rightarrow> (osquery_error + string list) \<times> 'w"

definition explain :: "string \<Rightarrow> string" where
  "explain text = ''EXPLAIN '' @ text"

definition answer_with_osquery ::
  "(json \<Rightarrow> string + string) \<Rightarrow> (string \<Rightarrow> nat option) \<Rightarrow> (string list \<Rightarrow> nat option) \<Rightarrow> 'w osquery \<Rightarrow> json \<Rightarrow> 'w
   \<Rightarrow> (job_failure + sql_table option) \<times> 'w" where
  "answer_with_osquery from_value name_len row_len oq raw w =
     (case sql_text from_value raw of Inl e \<Rightarrow> (Inl e, w) | Inr text \<Rightarrow>
     (case oq_options oq w of (Inl _, w) \<Rightarrow> (Inr None, w) | (Inr options, w) \<Rightarrow>
     (case refuse_unless_denied_tables_disabled options of Inl e \<Rightarrow> (Inl e, w) | Inr _ \<Rightarrow>
     (case refuse_unless_carving_disabled options of Inl e \<Rightarrow> (Inl e, w) | Inr _ \<Rightarrow>
     (case oq_query oq (explain text) w of (Inl e, w) \<Rightarrow> (Inl (osquery_failure e), w) | (Inr program, w) \<Rightarrow>
     (case refuse_unsafe_program program of Inl e \<Rightarrow> (Inl e, w) | Inr _ \<Rightarrow>
     (case oq_query_columns oq text w of (Inl e, w) \<Rightarrow> (Inl (osquery_failure e), w) | (Inr columns, w) \<Rightarrow>
     (case oq_query oq text w of (Inl e, w) \<Rightarrow> (Inl (osquery_failure e), w) | (Inr rows, w) \<Rightarrow>
       (Inr (Some (table name_len row_len columns rows)), w)))))))))"

definition answer_without_osquery :: "(json \<Rightarrow> string + string) \<Rightarrow> json \<Rightarrow> job_failure + json" where
  "answer_without_osquery from_value raw =
     (case sql_text from_value raw of Inl e \<Rightarrow> Inl e | Inr _ \<Rightarrow> Inl (failed ''osquery is not available on this host''))"

end
