(* ===== verification/Sql_Correct.thy ===== *)
theory Sql_Correct
  imports Query_Sql
begin

text \<open>
  What the guard around an operator's SQL guarantees: the scanner accepts exactly the texts with
  one statement and no parameter, what is run is such a text, and osquery runs it only when it is
  configured and compiled safely.
\<close>

section \<open>The tokens of a text\<close>

function tokens :: "string \<Rightarrow> nat \<Rightarrow> (token \<times> nat) list" where
  "tokens b i = (if length b \<le> i then [] else (fst (token_at b i), i) # tokens b (snd (token_at b i)))"
  by pat_completeness auto
termination
proof (relation "measure (\<lambda>(b, i). length b - i)", goal_cases)
  case (2 b i)
  then have "i < snd (token_at b i) \<and> snd (token_at b i) \<le> length b"
    using token_at_next[of i b "fst (token_at b i)" "snd (token_at b i)"] by simp
  then show ?case by auto
qed simp

declare tokens.simps [simp del]

lemma tokens_end: "length b \<le> i \<Longrightarrow> tokens b i = []"
  by (simp add: tokens.simps)

lemma tokens_step: "i < length b \<Longrightarrow> token_at b i = (k, n) \<Longrightarrow> tokens b i = (k, i) # tokens b n"
  by (simp add: tokens.simps[of b i])

text \<open>Where the first statement ends, and that only ignorable tokens follow.\<close>

fun statement_end :: "(token \<times> nat) list \<Rightarrow> nat option" where
  "statement_end [] = None"
| "statement_end ((k, i) # ts) = (if k = Semicolon then Some i else statement_end ts)"

definition after_statement :: "(token \<times> nat) list \<Rightarrow> (token \<times> nat) list" where
  "after_statement ts = dropWhile (\<lambda>(k, i). k \<noteq> Semicolon) ts"

definition one_statement :: "(token \<times> nat) list \<Rightarrow> bool" where
  "one_statement ts \<longleftrightarrow> list_all (\<lambda>(k, i). k \<noteq> Parameter) ts \<and> list_all (\<lambda>(k, i). ignorable k) (after_statement ts)"

lemma scan_after:
  "scan b (Some e) i = Inr r \<longleftrightarrow> r = Some e \<and> list_all (\<lambda>(k, i). ignorable k) (tokens b i)"
proof (induction "length b - i" arbitrary: i rule: less_induct)
  case less
  show ?case
  proof (cases "length b \<le> i")
    case True
    then show ?thesis by (auto simp: scan.simps tokens_end)
  next
    case False
    obtain k n where k: "token_at b i = (k, n)" by fastforce
    have n: "i < n" "n \<le> length b" using token_at_next[OF _ k] False by auto
    then have IH: "scan b (Some e) n = Inr r \<longleftrightarrow> r = Some e \<and> list_all (\<lambda>(k, i). ignorable k) (tokens b n)"
      using less[of n] by simp
    have "tokens b i = (k, i) # tokens b n" using False k tokens_step by simp
    then show ?thesis using False k IH by (subst scan.simps) (auto simp: ignorable_def)
  qed
qed

lemma scan_before:
  "scan b None i = Inr r \<longleftrightarrow> r = statement_end (tokens b i) \<and> one_statement (tokens b i)"
proof (induction "length b - i" arbitrary: i rule: less_induct)
  case less
  show ?case
  proof (cases "length b \<le> i")
    case True
    then show ?thesis by (auto simp: scan.simps tokens_end one_statement_def after_statement_def)
  next
    case False
    obtain k n where k: "token_at b i = (k, n)" by fastforce
    have n: "i < n" "n \<le> length b" using token_at_next[OF _ k] False by auto
    then have IH: "scan b None n = Inr r \<longleftrightarrow> r = statement_end (tokens b n) \<and> one_statement (tokens b n)"
      using less[of n] by simp
    have t: "tokens b i = (k, i) # tokens b n" using False k tokens_step by simp
    have np: "list_all (\<lambda>(k, i). k \<noteq> Parameter) ts" if "list_all (\<lambda>(k, i). ignorable k) ts" for ts :: "(token \<times> nat) list"
      using that by (auto simp: list_all_iff ignorable_def)
    show ?thesis
    proof (cases "k = Semicolon")
      case True
      then show ?thesis using False k t scan_after[of b i n r] np
        by (subst scan.simps) (auto simp: one_statement_def after_statement_def ignorable_def)
    next
      case no: False
      then show ?thesis using False k t IH
        by (subst scan.simps) (auto simp: one_statement_def after_statement_def)
    qed
  qed
qed

section \<open>The accepted statement scanned on its own\<close>

lemma window_position_take:
  "window_position t s = Some at \<Longrightarrow> at + length t \<le> m \<Longrightarrow> window_position t (take m s) = Some at"
proof (induction t s arbitrary: at m rule: window_position.induct)
  case (2 t c cs)
  show ?case
  proof (cases "take (length t) (c # cs) = t")
    case True
    then have "at = 0" using "2.prems"(1) by simp
    then have m: "length t \<le> m" using "2.prems"(2) by simp
    then have "take (length t) (take m (c # cs)) = t" using True by (simp add: min_def)
    then show ?thesis using \<open>at = 0\<close> by (cases m) (use True in auto)
  next
    case False
    then obtain a where a: "window_position t cs = Some a" "at = Suc a" using "2.prems"(1) by auto
    then obtain k where k: "m = Suc k" "a + length t \<le> k" using "2.prems"(2) by (cases m) auto
    have "take (length t) (take m (c # cs)) = take (length t) (c # cs)"
      using k by (simp only: take_take) (simp add: min_def)
    then show ?thesis using "2.IH"[OF False a(1) k(2)] False a(2) k(1) by simp
  qed
qed (auto split: if_splits)

lemma closing_take:
  assumes "closing b from t = n" and "n \<le> e" and "e \<le> length b" and "from \<le> e"
  shows "closing (take e b) from t = n"
proof (cases "window_position t (drop from b)")
  case None
  then have "n = length b" using assms by (simp add: closing_def)
  then show ?thesis using assms by simp
next
  case (Some at)
  then have n: "n = from + at + length t" using assms by (simp add: closing_def)
  have "window_position t (take (e - from) (drop from b)) = Some at"
    using window_position_take[OF Some] n assms(2) by simp
  then show ?thesis using n assms(3,4) by (simp add: closing_def drop_take)
qed

lemma token_at_take:
  assumes "i < e" and "e \<le> length b" and "token_at b i = (k, n)" and "n \<le> e"
  shows "token_at (take e b) i = (k, n)"
proof -
  have here: "take e b ! i = b ! i" using assms(1) by simp
  obtain m where m: "token_class (b ! i) (byte_at b (i + 1)) = (k, m)"
    using assms(3) by (auto simp: token_at_def split: prod.splits option.splits)
  have step: "token_at (take e b) i = (k, n)"
    if "token_class (b ! i) (byte_at (take e b) (i + 1)) = (k, m)"
  proof (cases m)
    case None
    then show ?thesis using that assms(3) here m by (simp add: token_at_def)
  next
    case (Some dt)
    then obtain d t where dt: "m = Some (d, t)" by (cases dt) auto
    have "i + d \<le> length b"
      using token_class_opening[OF m[unfolded dt]] assms(1,2) by (auto simp: byte_at_def split: if_splits)
    moreover have n: "closing b (i + d) t = n" using assms(3) m dt by (simp add: token_at_def)
    ultimately have "i + d \<le> e" using closing_bounds[of "i + d" b t] assms(4) by simp
    then show ?thesis using that here dt closing_take[OF n assms(4,2)] by (simp add: token_at_def)
  qed
  show ?thesis
  proof (cases "i + 1 < e")
    case True
    then have "byte_at (take e b) (i + 1) = byte_at b (i + 1)" using assms(2) by (simp add: byte_at_def)
    then show ?thesis using step m by simp
  next
    case False
    have "m \<noteq> Some (2, t)" for t
    proof
      assume t: "m = Some (2, t)"
      then have "n = closing b (i + 2) t" using assms(3) m by (simp add: token_at_def)
      moreover have "i + 2 \<le> length b"
        using token_class_opening[OF m[unfolded t]] by (auto simp: byte_at_def split: if_splits)
      ultimately show False using closing_bounds[of "i + 2" b t] assms(4) False by simp
    qed
    then have "token_class (b ! i) None = (k, m)" by (rule token_class_short[OF m])
    moreover have "byte_at (take e b) (i + 1) = None" using False assms(2) by (simp add: byte_at_def)
    ultimately show ?thesis using step by simp
  qed
qed

lemma statement_end_ge: "statement_end (tokens b i) = Some e \<Longrightarrow> i \<le> e \<and> e < length b"
proof (induction "length b - i" arbitrary: i rule: less_induct)
  case less
  have i: "i < length b" using less.prems tokens_end[of b i] by (cases "i < length b") auto
  obtain k n where k: "token_at b i = (k, n)" by fastforce
  have n: "i < n" "n \<le> length b" using token_at_next[OF i k] by auto
  show ?case
  proof (cases "k = Semicolon")
    case True
    then show ?thesis using less.prems tokens_step[OF i k] i by simp
  next
    case False
    have "length b - n < length b - i" using n i by linarith
    from less.hyps[OF this] show ?thesis using less.prems tokens_step[OF i k] n False by auto
  qed
qed

definition stop_of :: "string \<Rightarrow> nat \<Rightarrow> nat" where
  "stop_of b i = (case statement_end (tokens b i) of None \<Rightarrow> length b | Some e \<Rightarrow> e)"

lemma tokens_of_statement:
  "i \<le> length b \<Longrightarrow> tokens (take (stop_of b i) b) i = takeWhile (\<lambda>(k, j). k \<noteq> Semicolon) (tokens b i)"
proof (induction "length b - i" arbitrary: i rule: less_induct)
  case less
  show ?case
  proof (cases "i < length b")
    case False
    then show ?thesis by (simp add: tokens_end)
  next
    case i: True
    obtain k n where k: "token_at b i = (k, n)" by fastforce
    have n: "i < n" "n \<le> length b" using token_at_next[OF i k] by auto
    note t = tokens_step[OF i k]
    show ?thesis
    proof (cases "k = Semicolon")
      case True
      then show ?thesis using t by (simp add: stop_of_def tokens_end)
    next
      case False
      then have s: "stop_of b i = stop_of b n" using t by (simp add: stop_of_def)
      have le: "n \<le> stop_of b n" "stop_of b n \<le> length b"
        using n(2) statement_end_ge[of b n] by (auto simp: stop_of_def split: option.split)
      have "token_at (take (stop_of b n) b) i = (k, n)"
        using token_at_take[OF _ le(2) k le(1)] n(1) le(1) by simp
      then have "tokens (take (stop_of b n) b) i = (k, i) # tokens (take (stop_of b n) b) n"
        using tokens_step[of i "take (stop_of b n) b" k n] i n(1) le by simp
      then show ?thesis using less.hyps[of n] n i False t s by simp
    qed
  qed
qed

lemma single_statement_iff:
  "single_statement q = Inr st \<longleftrightarrow> one_statement (tokens q 0) \<and> st = take (stop_of q 0) q"
proof -
  have "single_statement q = Inr st \<longleftrightarrow>
      (\<exists>r. scan q None 0 = Inr r \<and> st = take (case r of None \<Rightarrow> length q | Some i \<Rightarrow> i) q)"
    by (auto simp: single_statement_def split: sum.split)
  then show ?thesis unfolding scan_before stop_of_def by auto
qed



section \<open>When the statement is run\<close>

datatype call = Options "osquery_error + row" | Queried string "osquery_error + row list" | Columns string

definition watched :: "'w osquery \<Rightarrow> ('w \<times> call list) osquery" where
  "watched oq =
     \<lparr>oq_options = (\<lambda>wl. case oq_options oq (fst wl) of (r, w) \<Rightarrow> (r, w, snd wl @ [Options r])),
      oq_query = (\<lambda>q wl. case oq_query oq q (fst wl) of (r, w) \<Rightarrow> (r, w, snd wl @ [Queried q r])),
      oq_query_columns = (\<lambda>q wl. case oq_query_columns oq q (fst wl) of (r, w) \<Rightarrow> (r, w, snd wl @ [Columns q]))\<rparr>"

definition disables :: "row \<Rightarrow> string \<Rightarrow> bool" where
  "disables options t \<longleftrightarrow> (\<exists>tables. map_of options ''disable_tables'' = Some tables
     \<and> t \<in> set (map trim_flag (split_on (CHR '','') tables)))"

definition safe_program :: "row list \<Rightarrow> bool" where
  "safe_program program \<longleftrightarrow> \<not> list_ex writes program \<and> \<not> list_ex (\<lambda>op. calls op ''sleep'') program"

lemma denied_disabled:
  "refuse_unless_denied_tables_disabled options = Inr u \<longleftrightarrow> list_all (disables options) denied_tables"
proof -
  have "denied_tables \<noteq> []" by (simp add: denied_tables_def)
  then show ?thesis
    by (cases "map_of options ''disable_tables''")
      (auto simp: refuse_unless_denied_tables_disabled_def Let_def filter_empty_conv list_all_iff disables_def
        neq_Nil_conv)
qed

lemma carving_disabled:
  "refuse_unless_carving_disabled options = Inr u \<longleftrightarrow> map_of options ''carver_disable_function'' = Some ''true''"
  by (simp add: refuse_unless_carving_disabled_def)

lemma program_safe: "refuse_unsafe_program program = Inr u \<longleftrightarrow> safe_program program"
  by (simp add: refuse_unsafe_program_def safe_program_def)

lemma result_cases: "(case x of Inl e \<Rightarrow> f e | Inr u \<Rightarrow> y) = (if \<exists>u. x = Inr u then y else f (projl x))"
  by (cases x) auto

definition safe_options :: "row \<Rightarrow> bool" where
  "safe_options options \<longleftrightarrow> list_all (disables options) denied_tables
     \<and> map_of options ''carver_disable_function'' = Some ''true''"

lemma sql_text_statement:
  assumes "sql_text from_value raw = Inr st"
  shows "map to_ascii_uppercase (first_keyword st) \<in> {''SELECT'', ''WITH''} \<and> st \<noteq> []
    \<and> (\<exists>q. char_count q \<le> max_sql \<and> one_statement (tokens q 0) \<and> st = trim (take (stop_of q 0) q))"
  using assms unfolding sql_text_def Let_def
  by (auto simp: single_statement_iff not_less split: sum.splits if_splits)

text \<open>What one request makes osquery see.\<close>

lemma answer_log:
  assumes "answer_with_osquery from_value name_len row_len (watched oq) raw (w, []) = (result, w', log)"
    and st: "sql_text from_value raw = Inr st"
    and o: "oq_options oq w = (o1, w1)" and e: "oq_query oq (explain st) w1 = (e1, w2)"
    and c: "oq_query_columns oq st w2 = (c1, w3)" and r: "oq_query oq st w3 = (r1, w4)"
  shows "log = Options o1 # (case o1 of Inl _ \<Rightarrow> [] | Inr options \<Rightarrow>
    if \<not> safe_options options then []
    else Queried (explain st) e1 # (case e1 of Inl _ \<Rightarrow> [] | Inr program \<Rightarrow>
      if \<not> safe_program program then []
      else Columns st # (case c1 of Inl _ \<Rightarrow> [] | Inr _ \<Rightarrow> [Queried st r1])))"
proof -
  have q: "oq_options (watched oq) (w, l) = (o1, w1, l @ [Options o1])"
    "oq_query (watched oq) (explain st) (w1, l) = (e1, w2, l @ [Queried (explain st) e1])"
    "oq_query_columns (watched oq) st (w2, l) = (c1, w3, l @ [Columns st])"
    "oq_query (watched oq) st (w3, l) = (r1, w4, l @ [Queried st r1])" for l
    using o e c r by (simp_all add: watched_def)
  have refused: "\<exists>e. refuse_unless_denied_tables_disabled options = Inl e \<or>
      refuse_unless_denied_tables_disabled options = Inr () \<and> refuse_unless_carving_disabled options = Inl e"
    if "\<not> safe_options options" for options
    using that by (cases "refuse_unless_denied_tables_disabled options"; cases "refuse_unless_carving_disabled options")
      (auto simp: safe_options_def denied_disabled carving_disabled)
  have granted: "refuse_unless_denied_tables_disabled options = Inr ()" "refuse_unless_carving_disabled options = Inr ()"
    if "safe_options options" for options
    using that by (simp_all add: safe_options_def denied_disabled carving_disabled)
  note unfold = answer_with_osquery_def st q
  show ?thesis
  proof (cases o1)
    case (Inl x)
    then show ?thesis using assms(1) by (simp add: unfold)
  next
    case (Inr options)
    show ?thesis
    proof (cases "safe_options options")
      case False
      then show ?thesis using assms(1) Inr refused[OF False] by (auto simp: unfold)
    next
      case safe: True
      note g = granted[OF safe]
      show ?thesis
      proof (cases e1)
        case (Inl x)
        then show ?thesis using assms(1) \<open>o1 = Inr options\<close> safe g by (simp add: unfold)
      next
        case program: (Inr program)
        show ?thesis
        proof (cases "refuse_unsafe_program program")
          case (Inl x)
          then have "\<not> safe_program program" using program_safe[of program "()"] by simp
          then show ?thesis using assms(1) \<open>o1 = Inr options\<close> safe g program Inl by (simp add: unfold)
        next
          case (Inr x)
          then have "safe_program program" using program_safe by simp
          then show ?thesis using assms(1) \<open>o1 = Inr options\<close> safe g program Inr
            by (cases c1; cases r1) (simp_all add: unfold)
        qed
      qed
    qed
  qed
qed

text \<open>
  C33. The operator's statement reaches osquery only after every check: the request is one
  statement that starts with SELECT or WITH and has at most 4096 characters, osquery has
  reported every denied table disabled and \<open>carve()\<close> turned off, and the program SQLite compiled
  for it neither writes nor calls \<open>sleep()\<close>. No other text than that statement and its EXPLAIN
  is ever sent.
\<close>

theorem sql_runs_only_when_safe:
  assumes "answer_with_osquery from_value name_len row_len (watched oq) raw (w, []) = (result, w', log)"
    and "Queried q r \<in> set log"
  shows "\<exists>st. sql_text from_value raw = Inr st
    \<and> map to_ascii_uppercase (first_keyword st) \<in> {''SELECT'', ''WITH''}
    \<and> (\<exists>text. char_count text \<le> max_sql \<and> one_statement (tokens text 0) \<and> st = trim (take (stop_of text 0) text))
    \<and> (q = explain st \<or> q = st \<and> (\<exists>options program rest.
         log = Options (Inr options) # Queried (explain st) (Inr program) # rest
         \<and> safe_options options \<and> safe_program program))"
proof -
  have "log = []" if "sql_text from_value raw = Inl x" for x
    using assms(1) that by (simp add: answer_with_osquery_def)
  then obtain st where st: "sql_text from_value raw = Inr st"
    using assms(2) by (cases "sql_text from_value raw") simp_all
  obtain o1 w1 where o: "oq_options oq w = (o1, w1)" by fastforce
  obtain e1 w2 where e: "oq_query oq (explain st) w1 = (e1, w2)" by fastforce
  obtain c1 w3 where c: "oq_query_columns oq st w2 = (c1, w3)" by fastforce
  obtain r1 w4 where r: "oq_query oq st w3 = (r1, w4)" by fastforce
  note log = answer_log[OF assms(1) st o e c r]
  have sent: "q = explain st \<or> q = st \<and> (\<exists>options program rest.
      log = Options (Inr options) # Queried (explain st) (Inr program) # rest
      \<and> safe_options options \<and> safe_program program)"
    using assms(2) unfolding log by (auto split: sum.splits if_splits)
  note checks = sql_text_statement[OF st]
  show ?thesis using conjI[OF st conjI[OF conjunct1[OF checks] conjI[OF conjunct2[OF conjunct2[OF checks]] sent]]] by (rule exI)
qed

definition sample_options :: row where
  "sample_options = [(''disable_tables'', join_with '', '' denied_tables), (''carver_disable_function'', ''true'')]"

definition sample_osquery :: "unit osquery" where
  "sample_osquery =
     \<lparr>oq_options = (\<lambda>w. (Inr sample_options, w)), oq_query = (\<lambda>q w. (Inr [], w)),
      oq_query_columns = (\<lambda>q w. (Inr [''1''], w))\<rparr>"

theorem sql_runs_only_when_safe_witness:
  "case answer_with_osquery (\<lambda>_. Inr ''SELECT 1;'') (\<lambda>_. Some 1) (\<lambda>_. Some 1) (watched sample_osquery) (JBool True) ((), []) of
     (result, w', log) \<Rightarrow> Queried ''SELECT 1'' (Inr []) \<in> set log
       \<and> (\<exists>options program rest. log = Options (Inr options) # Queried (explain ''SELECT 1'') (Inr program) # rest
            \<and> safe_options options \<and> safe_program program)"
proof -
  obtain result w' log where run: "answer_with_osquery (\<lambda>_. Inr ''SELECT 1;'') (\<lambda>_. Some 1) (\<lambda>_. Some 1)
      (watched sample_osquery) (JBool True) ((), []) = (result, w', log)" by (metis prod_cases3)
  have st: "sql_text (\<lambda>_. Inr ''SELECT 1;'') (JBool True) = Inr ''SELECT 1''" by code_simp
  have "refuse_unless_denied_tables_disabled sample_options = Inr ()" by code_simp
  moreover have "refuse_unless_carving_disabled sample_options = Inr ()" by code_simp
  ultimately have safe: "safe_options sample_options" "safe_program []"
    by (simp_all add: safe_options_def denied_disabled carving_disabled safe_program_def)
  have log: "log = [Options (Inr sample_options), Queried (explain ''SELECT 1'') (Inr []), Columns ''SELECT 1'', Queried ''SELECT 1'' (Inr [])]"
    using answer_log[OF run st, of "Inr sample_options" "()" "Inr []" "()" "Inr [''1'']" "()" "Inr []" "()"] safe
    by (simp add: sample_osquery_def)
  have "''SELECT 1'' \<noteq> explain ''SELECT 1''" by (simp add: explain_def)
  then show ?thesis
    unfolding run prod.case
    using sql_runs_only_when_safe[OF run, of "''SELECT 1''" "Inr []"] log st by auto
qed

end
