(* ===== verification/Sql_Table.thy ===== *)
theory Sql_Table
  imports Query_Sql
begin

text \<open>
  The answer to an operator's query fits Renga's bounds, and is complete unless it says
  otherwise.
\<close>

section \<open>Clipping, the header and the rows\<close>

lemma char_count_take_chars: "char_count (take_chars n s) \<le> n"
proof (induction n s rule: take_chars.induct)
  case (3 n c cs)
  have "char_count (takeWhile is_continuation cs) = 0"
    by (auto simp: char_count_def filter_empty_conv dest: set_takeWhileD)
  then show ?case using 3 by (simp add: char_count_def)
qed (simp_all add: char_count_def)

text \<open>A string that does not start inside a character, as no Rust string does.\<close>

definition starts_char :: "string \<Rightarrow> bool" where
  "starts_char s \<longleftrightarrow> s = [] \<or> \<not> is_continuation (hd s)"

lemma take_chars_all: "starts_char s \<Longrightarrow> char_count s \<le> n \<Longrightarrow> take_chars n s = s"
proof (induction n s rule: take_chars.induct)
  case (1 s)
  then show ?case by (cases s) (auto simp: starts_char_def char_count_def)
next
  case (3 n c cs)
  have "char_count (c # cs) = Suc (char_count (dropWhile is_continuation cs))"
  proof -
    have "char_count cs = char_count (takeWhile is_continuation cs) + char_count (dropWhile is_continuation cs)"
      unfolding char_count_def by (metis filter_append length_append takeWhile_dropWhile_id)
    moreover have "char_count (takeWhile is_continuation cs) = 0"
      by (auto simp: char_count_def filter_empty_conv dest: set_takeWhileD)
    ultimately show ?thesis using "3.prems"(1) by (simp add: char_count_def starts_char_def)
  qed
  moreover have "starts_char (dropWhile is_continuation cs)"
    using hd_dropWhile[of is_continuation cs] by (auto simp: starts_char_def)
  ultimately show ?case using "3.IH" "3.prems"(2) by simp
qed simp

lemma clip_all: "starts_char s \<Longrightarrow> \<not> m < char_count s \<Longrightarrow> clip s m = s"
  by (simp add: clip_def take_chars_all)

lemma header_loop_spec:
  assumes "header_loop json_len names header bytes truncated = (header', bytes', truncated')"
    and "bytes \<le> result_budget_bytes div 2"
  shows "\<exists>n \<le> length names. header' = header @ map (\<lambda>s. clip s max_column_name) (take n names)
    \<and> bytes' = bytes + (\<Sum>s\<leftarrow>take n names. json_cost json_len (clip s max_column_name))
    \<and> bytes' \<le> result_budget_bytes div 2
    \<and> (\<not> truncated' \<longrightarrow> \<not> truncated \<and> list_all (\<lambda>s. \<not> max_column_name < char_count s) (take n names))"
  using assms
proof (induction names arbitrary: header bytes truncated)
  case (Cons name names)
  let ?c = "json_cost json_len (clip name max_column_name)"
  let ?t = "truncated \<or> max_column_name < char_count name"
  show ?case
  proof (cases "result_budget_bytes div 2 < saturating_add bytes ?c")
    case True
    then show ?thesis using Cons.prems by (intro exI[of _ 0]) (auto simp: clipped_def Let_def)
  next
    case False
    then have le: "bytes + ?c \<le> result_budget_bytes div 2"
      by (auto simp: saturating_add_def result_budget_bytes_def u64_max_def min_def split: if_splits)
    have "header_loop json_len names (header @ [clip name max_column_name]) (bytes + ?c) ?t = (header', bytes', truncated')"
      using Cons.prems(1) False by (simp add: clipped_def Let_def)
    from Cons.IH[OF this le] obtain n where "n \<le> length names"
      "header' = (header @ [clip name max_column_name]) @ map (\<lambda>s. clip s max_column_name) (take n names)"
      "bytes' = bytes + ?c + (\<Sum>s\<leftarrow>take n names. json_cost json_len (clip s max_column_name))"
      "bytes' \<le> result_budget_bytes div 2"
      "\<not> truncated' \<longrightarrow> \<not> ?t \<and> list_all (\<lambda>s. \<not> max_column_name < char_count s) (take n names)" by blast
    then show ?thesis by (intro exI[of _ "Suc n"]) auto
  qed
qed auto

lemma clip_cells_spec:
  "clip_cells names r truncated = (vs, truncated') \<Longrightarrow>
   vs = map (\<lambda>s. clip (row_or [] r s) max_cell) names
   \<and> (\<not> truncated' \<longrightarrow> \<not> truncated \<and> list_all (\<lambda>s. \<not> max_cell < char_count (row_or [] r s)) names)"
  by (induction names arbitrary: vs truncated) (auto simp: clipped_def split: prod.splits)

definition row_of :: "string list \<Rightarrow> row \<Rightarrow> string list" where
  "row_of names r = map (\<lambda>s. clip (row_or [] r s) max_cell) names"

definition within :: "('a \<Rightarrow> nat option) \<Rightarrow> 'a bounded \<Rightarrow> bool" where
  "within json_len l \<longleftrightarrow> length (b_items l) \<le> b_max_items l \<and> b_bytes l \<le> b_budget l
     \<and> b_budget l \<le> result_budget_bytes \<and> b_bytes l = (\<Sum>x\<leftarrow>b_items l. json_cost json_len x)"

lemma within_with_budget [simp]: "within json_len (with_budget m budget)"
  by (simp add: within_def with_budget_def)

lemma push_within:
  assumes "within json_len l" and "push json_len x l = (ok, l')"
  shows "within json_len l' \<and> b_max_items l' = b_max_items l \<and> b_budget l' = b_budget l
    \<and> (if ok then b_items l' = b_items l @ [x] \<and> b_truncated l' = b_truncated l
       else b_items l' = b_items l \<and> b_truncated l')"
  using assms by (auto simp: push_def within_def Let_def saturating_add_def u64_max_def result_budget_bytes_def
      split: if_splits)

lemma rows_loop_spec:
  assumes "rows_loop json_len names rs l truncated = (l', truncated')" and "within json_len l"
  shows "within json_len l' \<and> b_max_items l' = b_max_items l \<and> b_budget l' = b_budget l
    \<and> (\<exists>n \<le> length rs. b_items l' = b_items l @ map (row_of names) (take n rs)
        \<and> (\<not> b_truncated l' \<longrightarrow> n = length rs)
        \<and> (\<not> truncated' \<longrightarrow> \<not> truncated
            \<and> list_all (\<lambda>r. list_all (\<lambda>s. \<not> max_cell < char_count (row_or [] r s)) names) (take n rs)))"
  using assms
proof (induction rs arbitrary: l truncated)
  case (Cons r rs)
  obtain vs t1 where c: "clip_cells names r truncated = (vs, t1)" by fastforce
  obtain ok l1 where p: "push json_len vs l = (ok, l1)" by fastforce
  note w = push_within[OF Cons.prems(2) p] and cs = clip_cells_spec[OF c]
  have vs: "vs = row_of names r" using cs by (simp add: row_of_def)
  show ?case
  proof (cases ok)
    case True
    then have run: "rows_loop json_len names rs l1 t1 = (l', truncated')" using Cons.prems(1) c p by simp
    have "within json_len l1" using w by simp
    from Cons.IH[OF run this] obtain n where n: "n \<le> length rs" "b_items l' = b_items l1 @ map (row_of names) (take n rs)"
      "\<not> b_truncated l' \<longrightarrow> n = length rs"
      "\<not> truncated' \<longrightarrow> \<not> t1 \<and> list_all (\<lambda>r. list_all (\<lambda>s. \<not> max_cell < char_count (row_or [] r s)) names) (take n rs)"
      and l': "within json_len l'" "b_max_items l' = b_max_items l1" "b_budget l' = b_budget l1" by blast
    show ?thesis using n l' w cs vs True by (intro conjI exI[of _ "Suc n"]) auto
  next
    case False
    then show ?thesis using Cons.prems(1) c p w cs by (intro conjI exI[of _ 0]) auto
  qed
qed auto

text \<open>
  C35. The result of an operator's query always fits what Renga accepts: at most 256 columns with
  names of at most 128 characters, at most 10000 rows with one cell of at most 1024 characters
  per column, and at most 48 KiB of JSON with every separator counted. When \<open>truncated\<close> is not
  set, nothing was cut: the columns and every cell of every row are osquery's.
\<close>

theorem table_within_bounds:
  assumes t_def: "t = table name_len row_len columns rows"
  shows "length (st_columns t) \<le> max_columns \<and> length (st_rows t) \<le> max_rows
    \<and> list_all (\<lambda>s. char_count s \<le> max_column_name) (st_columns t)
    \<and> list_all (\<lambda>r. length r = length (st_columns t) \<and> list_all (\<lambda>s. char_count s \<le> max_cell) r) (st_rows t)
    \<and> envelope_bytes + (\<Sum>s\<leftarrow>st_columns t. json_cost name_len s) + (\<Sum>r\<leftarrow>st_rows t. json_cost row_len r) \<le> result_budget_bytes
    \<and> (\<not> st_truncated t \<and> list_all starts_char columns \<and> list_all (\<lambda>r. list_all (\<lambda>s. starts_char (row_or [] r s)) columns) rows
        \<longrightarrow> st_columns t = columns \<and> st_rows t = map (\<lambda>r. map (row_or [] r) columns) rows)"
proof -
  let ?names = "take max_columns columns"
  obtain header bytes t1 where h: "header_loop name_len ?names [] envelope_bytes (max_columns < length columns) = (header, bytes, t1)"
    by (metis prod_cases3)
  have env: "envelope_bytes \<le> result_budget_bytes div 2" by (simp add: envelope_bytes_def result_budget_bytes_def)
  obtain n where n: "n \<le> length ?names" "header = map (\<lambda>s. clip s max_column_name) (take n ?names)"
    "bytes = envelope_bytes + (\<Sum>s\<leftarrow>take n ?names. json_cost name_len (clip s max_column_name))"
    "bytes \<le> result_budget_bytes div 2"
    "\<not> t1 \<longrightarrow> \<not> max_columns < length columns \<and> list_all (\<lambda>s. \<not> max_column_name < char_count s) (take n ?names)"
    using header_loop_spec[OF h env] unfolding append_Nil by blast
  have len: "length header = n" using n(1,2) by simp
  let ?kept = "take n ?names" and ?l0 = "with_budget max_rows (result_budget_bytes - bytes) :: string list bounded"
  obtain l t2 where r: "rows_loop row_len ?kept rows ?l0 t1 = (l, t2)" by fastforce
  have l0: "b_items ?l0 = []" "b_max_items ?l0 = max_rows" "b_budget ?l0 = min (result_budget_bytes - bytes) result_budget_bytes"
    by (simp_all add: with_budget_def)
  from rows_loop_spec[OF r within_with_budget, unfolded l0 append_Nil] obtain m where
    w: "within row_len l" "b_max_items l = max_rows" "b_budget l = min (result_budget_bytes - bytes) result_budget_bytes" and
    m: "m \<le> length rows" "b_items l = map (row_of ?kept) (take m rows)" "\<not> b_truncated l \<longrightarrow> m = length rows"
      "\<not> t2 \<longrightarrow> \<not> t1 \<and> list_all (\<lambda>r. list_all (\<lambda>s. \<not> max_cell < char_count (row_or [] r s)) ?kept) (take m rows)"
    by blast
  have t: "t = \<lparr>st_columns = header, st_rows = b_items l, st_truncated = t2 \<or> b_truncated l \<or> n < length ?names\<rparr>"
    unfolding t_def table_def Let_def h prod.case using r len n(1) by (simp add: into_parts_def min_def)
  have sum: "(\<Sum>s\<leftarrow>header. json_cost name_len s) = (\<Sum>s\<leftarrow>?kept. json_cost name_len (clip s max_column_name))"
    by (simp add: n(2) comp_def)
  have total: "envelope_bytes + (\<Sum>s\<leftarrow>header. json_cost name_len s) + (\<Sum>r\<leftarrow>b_items l. json_cost row_len r) \<le> result_budget_bytes"
    using w n(3,4) sum by (auto simp: within_def)
  have cells: "list_all (\<lambda>r. length r = length header \<and> list_all (\<lambda>s. char_count s \<le> max_cell) r) (b_items l)"
    using len n(1) char_count_take_chars by (auto simp: m(2) row_of_def list_all_iff clip_def)
  have all: "header = columns \<and> b_items l = map (\<lambda>r. map (row_or [] r) columns) rows"
    if "\<not> st_truncated t" "list_all starts_char columns" "list_all (\<lambda>r. list_all (\<lambda>s. starts_char (row_or [] r s)) columns) rows"
  proof -
    have kept: "?kept = columns" "m = length rows" using that(1) t n m by auto
    have "header = columns" using n(2,5) that m(4) t kept clip_all
      by (auto simp: list_all_iff intro!: map_idI)
    moreover have "row_of columns r = map (row_or [] r) columns" if "r \<in> set rows" for r
      using that \<open>\<not> st_truncated t\<close> \<open>list_all (\<lambda>r. list_all (\<lambda>s. starts_char (row_or [] r s)) columns) rows\<close> m(4) t kept clip_all
      by (auto simp: list_all_iff row_of_def)
    ultimately show ?thesis using m(2) kept by simp
  qed
  have "length header \<le> max_columns" using len n(1) by simp
  moreover have "length (b_items l) \<le> max_rows" using w by (simp add: within_def)
  moreover have "list_all (\<lambda>s. char_count s \<le> max_column_name) header"
    by (simp add: n(2) list_all_iff clip_def char_count_take_chars)
  moreover have cr: "st_columns t = header" "st_rows t = b_items l" using t by simp_all
  ultimately show ?thesis unfolding cr using total cells all by blast
qed

theorem table_within_bounds_witness:
  "case table (\<lambda>s. Some (length s + 2)) (\<lambda>r. Some 5) [''a''] [[(''a'', ''1'')]] of
     t \<Rightarrow> length (st_rows t) \<le> max_rows \<and> \<not> st_truncated t \<and> st_columns t = [''a''] \<and> st_rows t = [[''1'']]"
proof -
  have clip: "clip ''a'' 128 = ''a''" "clip ''1'' 1024 = ''1''"
    by (simp_all add: clip_def take_chars_all starts_char_def char_count_def is_continuation_def byte_of_def)
  have "\<not> st_truncated (table (\<lambda>s. Some (length s + 2)) (\<lambda>r. Some 5) [''a''] [[(''a'', ''1'')]])"
    by (simp add: table_def Let_def max_columns_def clipped_def clip row_or_def into_parts_def push_def with_budget_def json_cost_def
        saturating_add_def u64_max_def result_budget_bytes_def envelope_bytes_def max_rows_def char_count_def
        max_column_name_def max_cell_def is_continuation_def byte_of_def)
  moreover have "list_all starts_char [''a'']" "list_all (\<lambda>r. list_all (\<lambda>s. starts_char (row_or [] r s)) [''a'']) [[(''a'', ''1'')]]"
    by (simp_all add: starts_char_def row_or_def is_continuation_def byte_of_def)
  ultimately show ?thesis
    using table_within_bounds[OF refl, of "\<lambda>s. Some (length s + 2)" "\<lambda>r. Some 5" "[''a'']" "[[(''a'', ''1'')]]"]
    by (simp add: row_or_def max_rows_def)
qed

end
