(* ===== verification/Config.thy ===== *)
theory Config
  imports Capabilities Scheduler Transport
begin

text \<open>
  The configuration of \<open>src/agent/src/config.rs\<close>: environment overrides on a parsed TOML file, and
  the validation that turns it into the configuration the agent runs with. TOML parsing is a
  parameter, and so is what each collector section validates to: its modules, each with the
  identifier its stream is known by.
\<close>

section \<open>Limits and defaults\<close>

definition inventory_default :: nat where "inventory_default = 3600"
definition checkin_default :: nat where "checkin_default = 60"
definition checkin_max :: nat where "checkin_max = 60"
definition refresh_default :: nat where "refresh_default = 300"
definition timeout_default :: nat where "timeout_default = 20"
definition retries_default :: nat where "retries_default = 5"
definition timeout_max :: nat where "timeout_max = 20"
definition retries_max :: nat where "retries_max = 5"
definition labels_max :: nat where "labels_max = 32"
definition label_key_max :: nat where "label_key_max = 63"
definition label_value_max :: nat where "label_value_max = 255"
definition jobs_enabled_max :: nat where "jobs_enabled_max = 64"

datatype config_error = ConfigError error_text

section \<open>Raw and validated configuration\<close>

text \<open>
  The section fields are what \<open>snmp_config::from_raw\<close>, \<open>gnmi_config::from_raw\<close> and their siblings
  return for the raw section.
\<close>

type_synonym 'm modules = "(string \<times> 'm) list"

record 'm raw_config =
  raw_renga_url :: "string option"
  raw_allow_insecure_http :: "bool option"
  raw_intake_api_key :: "string option"
  raw_installation_id :: "string option"
  raw_inventory_interval_seconds :: "nat option"
  raw_checkin_interval_seconds :: "nat option"
  raw_config_refresh_interval_seconds :: "nat option"
  raw_request_timeout_seconds :: "nat option"
  raw_max_retry_attempts :: "nat option"
  raw_labels :: "(string \<times> string) list option"
  raw_jobs_enabled :: "string list option"
  raw_snmp :: "error_text + 'm modules"
  raw_gnmi :: "error_text + 'm modules"
  raw_libvirt :: "error_text + (string \<times> 'm) option"
  raw_power :: "error_text + 'm modules"
  raw_bmc :: "error_text + 'm modules"
  raw_exporters :: "error_text + 'm list"
  raw_osquery :: "error_text + 'm"

record 'm config = client_config +
  config_path :: string
  inventory_interval :: duration
  checkin_interval :: duration
  config_refresh_interval :: duration
  labels :: "(string \<times> string) list"
  jobs :: job_policy
  snmp :: "'m modules"
  gnmi :: "'m modules"
  libvirt :: "(string \<times> 'm) option"
  power :: "'m modules"
  bmc :: "'m modules"
  exporters :: "'m list"
  osquery_config :: 'm

section \<open>Environment overrides\<close>

text \<open>
  \<open>string_env!\<close> and \<open>number_env!\<close>, in the order the source applies them. \<open>parse\<close> reads a \<open>u64\<close> or
  \<open>u32\<close>; the largest value is given.
\<close>

definition string_env :: "(string \<rightharpoonup> string) \<Rightarrow> string \<Rightarrow> string option \<Rightarrow> string option" where
  "string_env env key old = (case env key of None \<Rightarrow> old | Some v \<Rightarrow> Some v)"

definition number_env ::
  "(string \<rightharpoonup> string) \<Rightarrow> string \<Rightarrow> nat \<Rightarrow> nat option \<Rightarrow> config_error + nat option" where
  "number_env env key largest old =
     (case env key of
        None \<Rightarrow> Inr old
      | Some v \<Rightarrow> (case parse_uint largest v of
                    None \<Rightarrow> Inl (ConfigError (Format ''{} must be a positive integer'' [key]))
                  | Some n \<Rightarrow> Inr (Some n)))"

definition bool_env :: "(string \<rightharpoonup> string) \<Rightarrow> bool option \<Rightarrow> config_error + bool option" where
  "bool_env env old =
     (case env ''RENGA_ALLOW_INSECURE_HTTP'' of
        None \<Rightarrow> Inr old
      | Some v \<Rightarrow>
          if v = ''true'' then Inr (Some True)
          else if v = ''false'' then Inr (Some False)
          else Inl (ConfigError (Text ''RENGA_ALLOW_INSECURE_HTTP must be exactly true or false'')))"

definition bind_ok :: "'e + 'a \<Rightarrow> ('a \<Rightarrow> 'e + 'b) \<Rightarrow> 'e + 'b" where
  \<comment> \<open>the \<open>?\<close> operator\<close>
  "bind_ok r f = (case r of Inl e \<Rightarrow> Inl e | Inr x \<Rightarrow> f x)"

lemma bind_ok_Inr: "bind_ok r f = Inr y \<longleftrightarrow> (\<exists>x. r = Inr x \<and> f x = Inr y)"
  by (cases r) (simp_all add: bind_ok_def)

definition apply_env :: "(string \<rightharpoonup> string) \<Rightarrow> 'm raw_config \<Rightarrow> config_error + 'm raw_config" where
  "apply_env env raw =
     (let raw = raw\<lparr>raw_renga_url := string_env env ''RENGA_URL'' (raw_renga_url raw),
                    raw_intake_api_key := string_env env ''RENGA_INTAKE_API_KEY'' (raw_intake_api_key raw),
                    raw_installation_id := string_env env ''RENGA_INSTALLATION_ID'' (raw_installation_id raw)\<rparr>
      in bind_ok (bool_env env (raw_allow_insecure_http raw)) (\<lambda>insecure.
         bind_ok (number_env env ''RENGA_INVENTORY_INTERVAL_SECONDS'' u64_max (raw_inventory_interval_seconds raw)) (\<lambda>inv.
         bind_ok (number_env env ''RENGA_CHECKIN_INTERVAL_SECONDS'' u64_max (raw_checkin_interval_seconds raw)) (\<lambda>chk.
         bind_ok (number_env env ''RENGA_CONFIG_REFRESH_INTERVAL_SECONDS'' u64_max (raw_config_refresh_interval_seconds raw)) (\<lambda>rfr.
         bind_ok (number_env env ''RENGA_REQUEST_TIMEOUT_SECONDS'' u64_max (raw_request_timeout_seconds raw)) (\<lambda>tmo.
         bind_ok (number_env env ''RENGA_MAX_RETRY_ATTEMPTS'' u32_max (raw_max_retry_attempts raw)) (\<lambda>rty.
           Inr (raw\<lparr>raw_allow_insecure_http := insecure, raw_inventory_interval_seconds := inv,
                    raw_checkin_interval_seconds := chk, raw_config_refresh_interval_seconds := rfr,
                    raw_request_timeout_seconds := tmo, raw_max_retry_attempts := rty\<rparr>))))))))"

section \<open>Validation\<close>

definition required :: "string option \<Rightarrow> string \<Rightarrow> config_error + string" where
  "required value name =
     (case value of
        Some v \<Rightarrow> if trim v \<noteq> [] then Inr v else Inl (ConfigError (Format ''{name} is required'' [name]))
      | None \<Rightarrow> Inl (ConfigError (Format ''{name} is required'' [name])))"

definition seconds :: "nat option \<Rightarrow> nat \<Rightarrow> string \<Rightarrow> config_error + duration" where
  "seconds value dflt name =
     (let n = (case value of None \<Rightarrow> dflt | Some n \<Rightarrow> n) in
      if n = 0 then Inl (ConfigError (Format ''{name} must be greater than zero'' [name])) else Inr (secs n))"

definition checkin_duration :: "nat option \<Rightarrow> config_error + duration" where
  "checkin_duration value =
     bind_ok (seconds value checkin_default ''checkin_interval_seconds'') (\<lambda>d.
       if checkin_max < as_secs d
       then Inl (ConfigError (Format ''checkin_interval_seconds must not exceed {CHECKIN_MAX}'' [dec checkin_max]))
       else Inr d)"

definition valid_label_key :: "string \<Rightarrow> bool" where
  "valid_label_key key \<longleftrightarrow> key \<noteq> [] \<and> length key \<le> label_key_max
     \<and> is_ascii_alphanumeric (hd key) \<and> is_ascii_alphanumeric (last key)
     \<and> list_all (\<lambda>c. is_ascii_alphanumeric c \<or> c \<in> {CHR ''.'', CHR ''_'', CHR ''-'', CHR ''/''}) key"

fun check_labels :: "(string \<times> string) list \<Rightarrow> config_error option" where
  "check_labels [] = None"
| "check_labels ((key, value) # rest) =
     (if \<not> valid_label_key key
      then Some (ConfigError (Format (''label key {key:?} must be 1-{LABEL_KEY_MAX} letters, digits, '.', '_', '-', or '/', ''
        @ ''starting and ending with a letter or digit'') [key]))
      else if label_value_max < char_count value
      then Some (ConfigError (Format ''label {key:?} must be at most {LABEL_VALUE_MAX} characters'' [key]))
      else check_labels rest)"

definition validate_labels :: "(string \<times> string) list \<Rightarrow> config_error + (string \<times> string) list" where
  "validate_labels ls =
     (if labels_max < length ls
      then Inl (ConfigError (Format ''labels must have at most {LABELS_MAX} entries'' [dec labels_max]))
      else (case check_labels ls of Some e \<Rightarrow> Inl e | None \<Rightarrow> Inr ls))"

fun parse_selectors :: "string list \<Rightarrow> config_error + selector list" where
  "parse_selectors [] = Inr []"
| "parse_selectors (entry # entries) =
     (case parse_selector entry of
        None \<Rightarrow> Inl (ConfigError (Format ''jobs.enabled entry {entry:?} must be a capability name or a name@version key'' [entry]))
      | Some s \<Rightarrow> bind_ok (parse_selectors entries) (\<lambda>ss. Inr (s # ss)))"

definition config_job_policy :: "string list option \<Rightarrow> config_error + job_policy" where
  "config_job_policy raw =
     (case raw of
        None \<Rightarrow> Inr \<lparr>policy_enabled = None\<rparr>
      | Some entries \<Rightarrow>
          if jobs_enabled_max < length entries
          then Inl (ConfigError (Format ''jobs.enabled must have at most {JOBS_ENABLED_MAX} entries'' [dec jobs_enabled_max]))
          else bind_ok (parse_selectors entries) (\<lambda>ss. Inr \<lparr>policy_enabled = Some ss\<rparr>))"

definition section_ok :: "error_text + 'a \<Rightarrow> config_error + 'a" where
  \<comment> \<open>\<open>map_err(ConfigError)\<close>\<close>
  "section_ok r = map_sum ConfigError id r"

text \<open>The first module of \<open>ms\<close> whose identifier one of the other sections uses.\<close>

definition taken :: "string list \<Rightarrow> 'm modules \<Rightarrow> string option" where
  "taken others ms = map_option fst (find (\<lambda>(i, _). i \<in> set others) ms)"

definition ids :: "'m modules \<Rightarrow> string list" where "ids ms = map fst ms"

definition ids_opt :: "(string \<times> 'm) option \<Rightarrow> string list" where
  "ids_opt m = (case m of None \<Rightarrow> [] | Some (i, _) \<Rightarrow> [i])"

definition refuse_taken :: "string \<Rightarrow> string option \<Rightarrow> config_error + unit" where
  "refuse_taken msg t = (case t of None \<Rightarrow> Inr () | Some i \<Rightarrow> Inl (ConfigError (Format msg [i])))"

definition check_url :: "string \<Rightarrow> bool \<Rightarrow> config_error + unit" where
  "check_url url insecure =
     (if starts_with ''https://'' url \<or> insecure \<and> starts_with ''http://'' url then Inr ()
      else Inl (ConfigError (Text ''renga_url must use HTTPS (HTTP requires allow_insecure_http = true)'')))"

definition trim_end_slashes :: "string \<Rightarrow> string" where
  "trim_end_slashes s = rev (dropWhile (\<lambda>c. c = CHR ''/'') (rev s))"

definition check_retries :: "nat \<Rightarrow> config_error + unit" where
  "check_retries n = (if 1 \<le> n \<and> n \<le> retries_max then Inr ()
     else Inl (ConfigError (Format ''max_retry_attempts must be between 1 and {RETRIES_MAX}'' [dec retries_max])))"

definition timeout_duration :: "nat option \<Rightarrow> config_error + duration" where
  "timeout_duration value =
     bind_ok (seconds value timeout_default ''request_timeout_seconds'') (\<lambda>d.
       if timeout_max < as_secs d
       then Inl (ConfigError (Format ''request_timeout_seconds must not exceed {TIMEOUT_MAX}'' [dec timeout_max]))
       else Inr d)"

text \<open>\<open>identity\<close> is what \<open>identity::load_or_create\<close> returned for the explicit identifier.\<close>

definition from_raw ::
  "string \<Rightarrow> (string option \<Rightarrow> error_text + string) \<Rightarrow> 'm raw_config \<Rightarrow> config_error + 'm config" where
  "from_raw path identity raw =
     bind_ok (section_ok (identity (raw_installation_id raw))) (\<lambda>iid.
     bind_ok (required (raw_renga_url raw) ''renga_url'') (\<lambda>url.
     let url = trim_end_slashes url; insecure = (raw_allow_insecure_http raw = Some True) in
     bind_ok (check_url url insecure) (\<lambda>_.
     let retries = (case raw_max_retry_attempts raw of None \<Rightarrow> retries_default | Some n \<Rightarrow> n) in
     bind_ok (check_retries retries) (\<lambda>_.
     bind_ok (timeout_duration (raw_request_timeout_seconds raw)) (\<lambda>tmo.
     bind_ok (validate_labels (case raw_labels raw of None \<Rightarrow> [] | Some ls \<Rightarrow> ls)) (\<lambda>ls.
     bind_ok (config_job_policy (raw_jobs_enabled raw)) (\<lambda>policy.
     bind_ok (section_ok (raw_snmp raw)) (\<lambda>sn.
     bind_ok (section_ok (raw_gnmi raw)) (\<lambda>gn.
     bind_ok (refuse_taken ''collectors.gnmi: id {:?} is already used by an SNMP module'' (taken (ids sn) gn)) (\<lambda>_.
     bind_ok (section_ok (raw_libvirt raw)) (\<lambda>lv.
     bind_ok (refuse_taken ''collectors.libvirt: id {:?} is already used by an SNMP module''
       (find (\<lambda>i. i \<in> set (ids sn)) (ids_opt lv))) (\<lambda>_.
     bind_ok (refuse_taken ''collectors.libvirt: id {:?} is already used by a gNMI module''
       (find (\<lambda>i. i \<in> set (ids gn)) (ids_opt lv))) (\<lambda>_.
     bind_ok (section_ok (raw_power raw)) (\<lambda>pw.
     bind_ok (refuse_taken ''collectors.power: id {:?} is already used by another collector module''
       (taken (ids sn @ ids gn @ ids_opt lv) pw)) (\<lambda>_.
     bind_ok (section_ok (raw_bmc raw)) (\<lambda>bm.
     bind_ok (refuse_taken ''collectors.bmc: id {:?} is already used by another collector module''
       (taken (ids sn @ ids pw @ ids gn @ ids_opt lv) bm)) (\<lambda>_.
     bind_ok (required (raw_intake_api_key raw) ''intake_api_key'') (\<lambda>key.
     bind_ok (seconds (raw_inventory_interval_seconds raw) inventory_default ''inventory_interval_seconds'') (\<lambda>inv.
     bind_ok (checkin_duration (raw_checkin_interval_seconds raw)) (\<lambda>chk.
     bind_ok (seconds (raw_config_refresh_interval_seconds raw) refresh_default ''config_refresh_interval_seconds'') (\<lambda>rfr.
     bind_ok (section_ok (raw_exporters raw)) (\<lambda>ex.
     bind_ok (section_ok (raw_osquery raw)) (\<lambda>oq.
       Inr \<lparr>renga_url = url, allow_insecure_http = insecure, intake_api_key = key, installation_id = iid,
            request_timeout = tmo, max_retry_attempts = retries, config_path = path,
            inventory_interval = inv, checkin_interval = chk, config_refresh_interval = rfr, labels = ls,
            jobs = policy, snmp = sn, gnmi = gn, libvirt = lv, power = pw, bmc = bm, exporters = ex,
            osquery_config = oq\<rparr>)))))))))))))))))))))))"

text \<open>\<open>toml\<close> parses the file's text; \<open>dflt\<close> is the configuration of an absent file.\<close>

definition load ::
  "(string \<rightharpoonup> string) \<Rightarrow> (string \<Rightarrow> 'm raw_config option) \<Rightarrow> 'm raw_config \<Rightarrow> (string option \<Rightarrow> error_text + string)
   \<Rightarrow> string \<Rightarrow> io_kind + string \<Rightarrow> config_error + 'm config" where
  "load env toml dflt identity path file =
     bind_ok (case file of
         Inr content \<Rightarrow> (case toml content of
             None \<Rightarrow> Inl (ConfigError (Format ''invalid config TOML in {}'' [path])) | Some raw \<Rightarrow> Inr raw)
       | Inl k \<Rightarrow> if k = NotFound then Inr dflt
                  else Inl (ConfigError (Format ''cannot read config {}: {e}'' [path]))) (\<lambda>raw.
     bind_ok (apply_env env raw) (from_raw path identity))"

end
