(* ===== verification/Config_Correct.thy ===== *)
theory Config_Correct
  imports Config
begin

text \<open>
  What an accepted configuration guarantees the rest of the agent, how the operator's job list
  reads, and where validation and the scheduler disagree.
\<close>

section \<open>Bounds of an accepted configuration\<close>

lemma required_Inr: "required v name = Inr s \<Longrightarrow> trim s \<noteq> []"
  by (auto simp: required_def split: option.splits if_splits)

lemma seconds_Inr: "seconds v dflt name = Inr d \<Longrightarrow> \<exists>n > 0. d = secs n"
  by (auto simp: seconds_def Let_def split: if_splits option.splits)

lemma checkin_duration_Inr: "checkin_duration v = Inr d \<Longrightarrow> 0 < d \<and> d \<le> secs 60"
  by (auto simp: checkin_duration_def bind_ok_Inr checkin_max_def secs_def split: if_splits dest!: seconds_Inr)
    (simp_all add: as_secs_def)

lemma timeout_duration_Inr: "timeout_duration v = Inr d \<Longrightarrow> 0 < d \<and> d \<le> secs 20"
  by (auto simp: timeout_duration_def bind_ok_Inr timeout_max_def secs_def split: if_splits dest!: seconds_Inr)
    (simp_all add: as_secs_def)

lemma check_labels_None:
  "check_labels ls = None \<longleftrightarrow> list_all (\<lambda>(k, v). valid_label_key k \<and> char_count v \<le> label_value_max) ls"
  by (induction ls) (auto split: if_splits)

lemma validate_labels_Inr:
  "validate_labels ls = Inr ls' \<Longrightarrow> ls' = ls \<and> length ls \<le> labels_max
     \<and> list_all (\<lambda>(k, v). valid_label_key k \<and> char_count v \<le> label_value_max) ls"
  by (auto simp: validate_labels_def check_labels_None split: if_splits option.splits)

lemma refuse_taken_Inr [simp]: "refuse_taken msg t = Inr u \<longleftrightarrow> t = None"
  by (simp add: refuse_taken_def split: option.split)

lemma taken_None: "taken others ms = None \<longleftrightarrow> set others \<inter> set (ids ms) = {}"
  by (force simp: taken_def find_None_iff_all ids_def)

definition all_ids :: "'m config \<Rightarrow> string list list" where
  \<comment> \<open>the identifiers of each collector section\<close>
  "all_ids c = [ids (snmp c), ids (gnmi c), ids_opt (libvirt c), ids (power c), ids (bmc c)]"

definition sections_disjoint :: "'m config \<Rightarrow> bool" where
  "sections_disjoint c \<longleftrightarrow> (\<forall>i j. i < j \<and> j < 5 \<longrightarrow> set (all_ids c ! i) \<inter> set (all_ids c ! j) = {})"

lemma sections_disjointI:
  assumes "set (ids (snmp c)) \<inter> set (ids (gnmi c)) = {}"
    and "(set (ids (snmp c)) \<union> set (ids (gnmi c))) \<inter> set (ids_opt (libvirt c)) = {}"
    and "(set (ids (snmp c)) \<union> set (ids (gnmi c)) \<union> set (ids_opt (libvirt c))) \<inter> set (ids (power c)) = {}"
    and "(set (ids (snmp c)) \<union> set (ids (gnmi c)) \<union> set (ids_opt (libvirt c)) \<union> set (ids (power c))) \<inter> set (ids (bmc c)) = {}"
  shows "sections_disjoint c"
  unfolding sections_disjoint_def
proof (intro allI impI, elim conjE)
  fix i j :: nat
  assume "i < j" "j < 5"
  then consider "j = 1" "i = 0" | "j = 2" "i < 2" | "j = 3" "i < 3" | "j = 4" "i < 4" by linarith
  then show "set (all_ids c ! i) \<inter> set (all_ids c ! j) = {}"
    using assms by cases (auto simp: all_ids_def less_Suc_eq numeral_eq_Suc)
qed

text \<open>
  C36. An accepted configuration keeps the agent within its server's expectations: check-ins at
  most every 60 seconds, so that an interval plus a delivery's 25-second budget stays below the
  90-second lease; request timeouts of 1 to 20 seconds and 1 to 5 attempts; HTTPS unless the
  operator allowed HTTP; a non-blank token; labels and job entries within the API's limits; and
  collector streams of different sections never sharing an identifier.
\<close>

theorem accepted_config:
  assumes "from_raw path identity raw = Inr c"
  shows "0 < checkin_interval c \<and> checkin_interval c + delivery_budget < secs 90
    \<and> 0 < request_timeout c \<and> request_timeout c \<le> secs 20 \<and> 1 \<le> max_retry_attempts c \<and> max_retry_attempts c \<le> 5
    \<and> 0 < inventory_interval c \<and> 0 < config_refresh_interval c
    \<and> (starts_with ''https://'' (renga_url c) \<or> allow_insecure_http c \<and> starts_with ''http://'' (renga_url c))
    \<and> trim (intake_api_key c) \<noteq> []
    \<and> length (labels c) \<le> 32 \<and> list_all (\<lambda>(k, v). valid_label_key k \<and> char_count v \<le> 255) (labels c)
    \<and> sections_disjoint c"
proof -
  let ?retries = "case raw_max_retry_attempts raw of None \<Rightarrow> retries_default | Some n \<Rightarrow> n"
  note eqs = assms[unfolded from_raw_def Let_def bind_ok_Inr]
  from eqs obtain url where url: "check_url (trim_end_slashes url) (raw_allow_insecure_http raw = Some True) = Inr ()"
    "renga_url c = trim_end_slashes url" "allow_insecure_http c = (raw_allow_insecure_http raw = Some True)" by auto
  from eqs have num: "check_retries ?retries = Inr ()" "max_retry_attempts c = ?retries"
    "timeout_duration (raw_request_timeout_seconds raw) = Inr (request_timeout c)"
    "checkin_duration (raw_checkin_interval_seconds raw) = Inr (checkin_interval c)"
    "seconds (raw_inventory_interval_seconds raw) inventory_default ''inventory_interval_seconds'' = Inr (inventory_interval c)"
    "seconds (raw_config_refresh_interval_seconds raw) refresh_default ''config_refresh_interval_seconds'' = Inr (config_refresh_interval c)"
    by auto
  from eqs have key: "required (raw_intake_api_key raw) ''intake_api_key'' = Inr (intake_api_key c)" by auto
  from eqs have lab: "validate_labels (case raw_labels raw of None \<Rightarrow> [] | Some ls \<Rightarrow> ls) = Inr (labels c)" by auto
  from eqs have dis: "taken (ids (snmp c)) (gnmi c) = None" "find (\<lambda>i. i \<in> set (ids (snmp c))) (ids_opt (libvirt c)) = None"
    "find (\<lambda>i. i \<in> set (ids (gnmi c))) (ids_opt (libvirt c)) = None"
    "taken (ids (snmp c) @ ids (gnmi c) @ ids_opt (libvirt c)) (power c) = None"
    "taken (ids (snmp c) @ ids (power c) @ ids (gnmi c) @ ids_opt (libvirt c)) (bmc c) = None"
    by (auto simp: refuse_taken_Inr)
  have "sections_disjoint c"
    using dis by (intro sections_disjointI) (auto simp: taken_None find_None_iff_all)
  then show ?thesis
    using url(1) checkin_duration_Inr[OF num(4)] timeout_duration_Inr[OF num(3)] seconds_Inr[OF num(5)]
      seconds_Inr[OF num(6)] num(1,2) required_Inr[OF key] validate_labels_Inr[OF lab]
    by (auto simp: url(2,3) check_url_def check_retries_def retries_max_def delivery_budget_def labels_max_def
        label_value_max_def secs_def split: if_splits)
qed

definition sample_raw :: "unit raw_config" where
  "sample_raw =
     \<lparr>raw_renga_url = Some ''https://renga/'', raw_allow_insecure_http = None, raw_intake_api_key = Some ''k'',
      raw_installation_id = None, raw_inventory_interval_seconds = None, raw_checkin_interval_seconds = Some 30,
      raw_config_refresh_interval_seconds = None, raw_request_timeout_seconds = None, raw_max_retry_attempts = None,
      raw_labels = Some [(''team'', ''storage'')], raw_jobs_enabled = Some [], raw_snmp = Inr [(''a'', ())],
      raw_gnmi = Inr [(''b'', ())], raw_libvirt = Inr (Some (''c'', ())), raw_power = Inr [(''d'', ())],
      raw_bmc = Inr [], raw_exporters = Inr [], raw_osquery = Inr ()\<rparr>"

lemma sample_accepted:
  "\<exists>c. from_raw [] (\<lambda>_. Inr ''id'') sample_raw = Inr c \<and> checkin_interval c = secs 30 \<and> renga_url c = ''https://renga''"
proof -
  have t: "trim ''https://renga/'' \<noteq> []" "trim ''k'' \<noteq> []" by code_simp+
  have l: "valid_label_key ''team''" "char_count ''storage'' = 7" by code_simp+
  show ?thesis
    by (simp add: from_raw_def sample_raw_def bind_ok_def section_ok_def required_def t trim_end_slashes_def check_url_def
        starts_with_def check_retries_def retries_default_def retries_max_def timeout_duration_def seconds_def timeout_default_def
        timeout_max_def validate_labels_def labels_max_def l label_value_max_def config_job_policy_def jobs_enabled_max_def
        taken_def ids_def ids_opt_def refuse_taken_def inventory_default_def refresh_default_def checkin_duration_def
        checkin_max_def)
qed

theorem accepted_config_witness:
  "case from_raw [] (\<lambda>_. Inr ''id'') sample_raw of
     Inr c \<Rightarrow> checkin_interval c = secs 30 \<and> checkin_interval c + delivery_budget < secs 90 \<and> sections_disjoint c
   | Inl e \<Rightarrow> False"
proof -
  obtain c where c: "from_raw [] (\<lambda>_. Inr ''id'') sample_raw = Inr c" "checkin_interval c = secs 30"
    using sample_accepted by blast
  from accepted_config[OF c(1)] show ?thesis unfolding c(1) using c(2) by simp
qed

section \<open>The operator's job list\<close>

lemma parse_selectors_Inr:
  "parse_selectors entries = Inr ss \<longleftrightarrow> map parse_selector entries = map Some ss"
  by (induction entries arbitrary: ss) (auto simp: bind_ok_Inr split: option.splits)

lemma selector_names:
  assumes "parse_selector entry = Some s" and "valid_name (cap_name c)"
  shows "selector_matches s c \<longleftrightarrow> entry = cap_name c \<or> entry = cap_key c"
proof (cases "CHR ''@'' \<in> set entry")
  case True
  then obtain k where k: "parse_key entry = Some k" "s = Key k" using assms(1) by (auto simp: parse_selector_def)
  then have e: "entry = display_key k" "valid_name (k_name k)" by (simp_all add: parse_key_iff)
  have once: "split_once (CHR ''@'') (display_key k) = Some (k_name k, dec (k_version k))"
    "split_once (CHR ''@'') (cap_key c) = Some (cap_name c, dec (cap_version c))"
    using valid_name_no_at[OF e(2)] valid_name_no_at[OF assms(2)] by (simp_all add: display_key_def cap_key_def)
  have "display_key k = cap_key c \<longleftrightarrow> k_name k = cap_name c \<and> k_version k = cap_version c"
  proof
    assume "display_key k = cap_key c"
    then have "Some (k_name k, dec (k_version k)) = Some (cap_name c, dec (cap_version c))" using once by metis
    then show "k_name k = cap_name c \<and> k_version k = cap_version c" by simp
  qed (simp add: display_key_def cap_key_def)
  then show ?thesis using k e True valid_name_no_at[OF assms(2)] by auto
next
  case False
  then have "s = Name entry" using assms(1) by (auto simp: parse_selector_def split: if_splits)
  moreover have "entry \<noteq> cap_key c" using False by (auto simp: cap_key_def)
  ultimately show ?thesis by simp
qed

text \<open>
  The operator's \<open>[jobs] enabled\<close> list is exact: with a list, a capability is allowed if and
  only if one entry is its name or its \<open>name@version\<close> key, so an empty list allows nothing;
  without one, exactly the capabilities that are enabled by default.
\<close>

lemma jobs_list_is_exact:
  assumes "config_job_policy raw = Inr policy" and "valid_name (cap_name c)"
  shows "allows policy c \<longleftrightarrow> (case raw of None \<Rightarrow> enabled_by_default c
    | Some entries \<Rightarrow> cap_name c \<in> set entries \<or> cap_key c \<in> set entries)"
proof (cases raw)
  case None
  then show ?thesis using assms(1) by (auto simp: config_job_policy_def allows_def)
next
  case (Some entries)
  then obtain ss where ss: "parse_selectors entries = Inr ss" "policy = \<lparr>policy_enabled = Some ss\<rparr>"
    using assms(1) by (auto simp: config_job_policy_def bind_ok_Inr split: if_splits)
  have ps: "map parse_selector entries = map Some ss" using ss(1) by (simp add: parse_selectors_Inr)
  have "list_ex (\<lambda>s. selector_matches s c) ss \<longleftrightarrow> list_ex (\<lambda>e. e = cap_name c \<or> e = cap_key c) entries"
    using ps
  proof (induction entries arbitrary: ss)
    case (Cons e es)
    then show ?case using selector_names[OF _ assms(2), of e] by (cases ss) auto
  qed simp
  then show ?thesis using ss(2) Some by (auto simp: allows_def list_ex_iff)
qed

section \<open>Intervals the scheduler cannot hold\<close>

text \<open>
  C37. Validation bounds the check-in interval but not the inventory interval. Every accepted
  configuration stays accepted with \<open>inventory_interval_seconds\<close> at the largest 64-bit number, and
  the scheduler built from it panics: the first inventory deadline does not fit an \<open>Instant\<close>. An
  accepted configuration whose intervals stay below \<open>2\<^sup>6\<^sup>3\<close> seconds after now never does.
\<close>

theorem accepted_interval_panics:
  assumes "from_raw path identity raw = Inr c"
  shows "from_raw path identity (raw\<lparr>raw_inventory_interval_seconds := Some u64_max\<rparr>)
      = Inr (c\<lparr>inventory_interval := secs u64_max\<rparr>)
    \<and> scheduler_new now (checkin_interval c) (secs u64_max) (config_refresh_interval c) flush_every = None
    \<and> (now + checkin_interval c < instant_limit \<and> now + inventory_interval c < instant_limit
        \<and> now + config_refresh_interval c < instant_limit \<and> now + flush_every < instant_limit
       \<longrightarrow> scheduler_new now (checkin_interval c) (inventory_interval c) (config_refresh_interval c) flush_every \<noteq> None)"
proof -
  have "instant_limit \<le> now + secs u64_max" by (simp add: instant_limit_def secs_def u64_max_def)
  then have "instant_add now (secs u64_max) = None" by (simp add: instant_add_None)
  then have "scheduler_new now (checkin_interval c) (secs u64_max) (config_refresh_interval c) flush_every = None"
    by (simp add: scheduler_new_def bind_eq_None_conv)
  moreover have "seconds (Some u64_max) inventory_default ''inventory_interval_seconds'' = Inr (secs u64_max)"
    by (simp add: seconds_def u64_max_def)
  then have "from_raw path identity (raw\<lparr>raw_inventory_interval_seconds := Some u64_max\<rparr>)
      = Inr (c\<lparr>inventory_interval := secs u64_max\<rparr>)"
    using assms by (auto simp: from_raw_def Let_def bind_ok_Inr)
  ultimately show ?thesis by (simp add: scheduler_new_def instant_add_def)
qed

theorem accepted_interval_panics_witness:
  "case from_raw [] (\<lambda>_. Inr ''id'') (sample_raw\<lparr>raw_inventory_interval_seconds := Some u64_max\<rparr>) of
     Inr c \<Rightarrow> scheduler_new 0 (checkin_interval c) (inventory_interval c) (config_refresh_interval c) (secs 30) = None
   | Inl e \<Rightarrow> False"
proof -
  obtain c where c: "from_raw [] (\<lambda>_. Inr ''id'') sample_raw = Inr c" using sample_accepted by blast
  from accepted_interval_panics[OF c, of 0 "secs 30"] show ?thesis by simp
qed

end
