(* ===== verification/Ordered_Map.thy ===== *)
theory Ordered_Map
  imports Agent_Prelude
begin

text \<open>
  \<open>BTreeMap\<close> as the agent uses it: the entries in strictly increasing key order, which is the
  order its iterators visit. \<open>BTreeMap::get\<close> is \<^const>\<open>map_of\<close>; collecting pairs into a map
  inserts them one by one, so the last pair with a key wins.
\<close>

type_synonym ('k, 'v) btree = "('k \<times> 'v) list"

fun btree_insert :: "'k::linorder \<Rightarrow> 'v \<Rightarrow> ('k, 'v) btree \<Rightarrow> ('k, 'v) btree" where
  "btree_insert k v [] = [(k, v)]"
| "btree_insert k v ((a, b) # m) =
     (if k < a then (k, v) # (a, b) # m
      else if k = a then (k, v) # m
      else (a, b) # btree_insert k v m)"

definition btree_collect :: "('k::linorder \<times> 'v) list \<Rightarrow> ('k, 'v) btree" where
  "btree_collect ps = fold (\<lambda>(k, v). btree_insert k v) ps []"

definition ordered :: "('k::linorder, 'v) btree \<Rightarrow> bool" where
  "ordered m = sorted_wrt (<) (map fst m)"

lemma ordered_Nil [simp]: "ordered []"
  by (simp add: ordered_def)

lemma ordered_Cons: "ordered ((k, v) # m) \<longleftrightarrow> (\<forall>x\<in>fst ` set m. k < x) \<and> ordered m"
  by (auto simp: ordered_def)

lemma ordered_distinct: "ordered m \<Longrightarrow> distinct (map fst m)"
  by (simp add: ordered_def strict_sorted_iff)

lemma map_of_btree_insert [simp]: "ordered m \<Longrightarrow> map_of (btree_insert k v m) = (map_of m)(k \<mapsto> v)"
proof (induction m)
  case (Cons p m)
  obtain a b where p: "p = (a, b)" by fastforce
  have "k < a \<Longrightarrow> map_of m k = None"
    using Cons.prems p by (auto simp: ordered_Cons map_of_eq_None_iff)
  thus ?case using Cons p by (auto simp: ordered_Cons fun_eq_iff)
qed simp

lemma keys_btree_insert [simp]: "fst ` set (btree_insert k v m) = insert k (fst ` set m)"
  by (induction k v m rule: btree_insert.induct) (simp_all add: insert_commute)

lemma ordered_btree_insert [intro, simp]: "ordered m \<Longrightarrow> ordered (btree_insert k v m)"
  by (induction k v m rule: btree_insert.induct)
    (fastforce simp: ordered_Cons simp del: fun_upd_apply dest: less_trans)+

lemma set_btree_insert: "set (btree_insert k v m) \<subseteq> insert (k, v) (set m)"
  by (induction m) (auto split: if_splits)

lemma ordered_fold_insert:
  "ordered m \<Longrightarrow> ordered (fold (\<lambda>(k, v). btree_insert k v) ps m)"
  by (induction ps arbitrary: m) auto

lemma map_of_fold_insert:
  "ordered m \<Longrightarrow> map_of (fold (\<lambda>(k, v). btree_insert k v) ps m) = map_of m ++ map_of (rev ps)"
  by (induction ps arbitrary: m) (auto simp: map_add_def fun_eq_iff split: option.splits)

lemma ordered_collect [simp]: "ordered (btree_collect ps)"
  by (simp add: btree_collect_def ordered_fold_insert)

lemma map_of_collect: "map_of (btree_collect ps) = map_of (rev ps)"
  by (simp add: btree_collect_def map_of_fold_insert)

lemma keys_fold_insert:
  "fst ` set (fold (\<lambda>(k, v). btree_insert k v) ps m) = fst ` set ps \<union> fst ` set m"
  by (induction ps arbitrary: m) (simp_all add: case_prod_unfold)

lemma keys_collect [simp]: "fst ` set (btree_collect ps) = fst ` set ps"
  by (simp add: btree_collect_def keys_fold_insert)

lemma set_fold_insert:
  "set (fold (\<lambda>(k, v). btree_insert k v) ps m) \<subseteq> set ps \<union> set m"
proof (induction ps arbitrary: m)
  case (Cons p ps)
  thus ?case using Cons.IH [of "btree_insert (fst p) (snd p) m"] set_btree_insert [of "fst p" "snd p" m]
    by (auto simp: case_prod_unfold)
qed simp

lemma set_collect: "set (btree_collect ps) \<subseteq> set ps"
  using set_fold_insert [of ps "[]"] by (simp add: btree_collect_def)

lemma ordered_filter [intro]: "ordered m \<Longrightarrow> ordered (filter P m)"
  by (auto simp: ordered_def intro: sorted_wrt_filter simp: sorted_wrt_map)

lemma ordered_map_of: "ordered m \<Longrightarrow> (k, v) \<in> set m \<longleftrightarrow> map_of m k = Some v"
  using ordered_distinct [of m] map_of_eq_Some_iff [of m k v] by auto

lemma btree_insert_last: "\<forall>x\<in>fst ` set m. x < k \<Longrightarrow> btree_insert k v m = m @ [(k, v)]"
  by (induction m) (auto dest: less_asym)

lemma collect_ordered: "ordered ps \<Longrightarrow> btree_collect ps = ps"
proof (induction ps rule: rev_induct)
  case (snoc p ps)
  hence "\<forall>x\<in>fst ` set ps. x < fst p" "ordered ps" by (auto simp: ordered_def sorted_wrt_append)
  thus ?case using snoc.IH
    by (simp add: btree_collect_def btree_insert_last case_prod_unfold)
qed (simp add: btree_collect_def)

end
