(* ===== verification/Snmp_Client.thy ===== *)
theory Snmp_Client
  imports Ordered_Map Decimal "HOL-Library.Sublist"
begin

text \<open>
  Reading one device over SNMP (\<open>snmp/client.rs\<close>, with the value type and the answers of
  \<open>snmp/mibs.rs\<close>). A session, the clock and the stop flag are functions of a world \<open>'w\<close>, so
  a device may answer anything. The \<open>snmp2\<close> library is a parameter of the wire session.
\<close>

section \<open>Variables\<close>

type_synonym oid = "nat list"

datatype snmp_value =
    Integer int
  | Unsigned nat
  | Octets bytes
  | ObjectId oid
  | IpAddress "nat list"
  | Missing
  | Other

type_synonym answers = "(oid, snmp_value) btree"

datatype poll_error = PollError error_text

definition max_variables :: nat where "max_variables = 200000"
definition max_answer_bytes :: nat where "max_answer_bytes = 32 * 1024 * 1024"
definition bulk_repetitions :: nat where "bulk_repetitions = 25"
definition max_secret_bytes :: nat where "max_secret_bytes = 4096"

fun value_bytes :: "snmp_value \<Rightarrow> nat" where
  "value_bytes (Octets bytes) = length bytes"
| "value_bytes (ObjectId oid) = length oid * 4"
| "value_bytes _ = 8"

section \<open>Reading scalars and walking columns\<close>

record 'w snmp_session =
  s_get :: "oid list \<Rightarrow> 'w \<Rightarrow> (poll_error + (oid \<times> snmp_value) list) \<times> 'w"
  s_next :: "oid \<Rightarrow> nat \<Rightarrow> 'w \<Rightarrow> (poll_error + (oid \<times> snmp_value) list) \<times> 'w"
  s_now :: "'w \<Rightarrow> instant \<times> 'w"
  s_stopped :: "'w \<Rightarrow> bool \<times> 'w"

record walk =
  wk_cursor :: oid
  wk_total :: nat
  wk_bytes :: nat
  wk_answers :: answers

fun take_batch :: "oid \<Rightarrow> (oid \<times> snmp_value) list \<Rightarrow> walk \<Rightarrow> poll_error + (bool \<times> walk)" where
  \<comment> \<open>\<open>True\<close> when a variable past the column ended the walk\<close>
  "take_batch column [] wk = Inr (False, wk)"
| "take_batch column ((oid, v) # batch) wk =
     (if v = Missing \<or> \<not> prefix column oid then Inr (True, wk)
      else if oid \<le> wk_cursor wk
      then Inl (PollError (Text ''the device returned a variable out of order''))
      else let total = wk_total wk + 1; bytes = wk_bytes wk + (length oid * 4 + value_bytes v) in
        if max_variables < total
        then Inl (PollError (Format ''the device answered more than {} variables'' [dec max_variables]))
        else if max_answer_bytes < bytes
        then Inl (PollError (Format ''the device answered more than {} bytes'' [dec max_answer_bytes]))
        else take_batch column batch
               \<lparr>wk_cursor = oid, wk_total = total, wk_bytes = bytes,
                wk_answers = btree_insert oid v (wk_answers wk)\<rparr>)"

lemma take_batch_total:
  "take_batch column batch wk = Inr (False, wk') \<Longrightarrow>
     wk_total wk' = wk_total wk + length batch \<and> (batch \<noteq> [] \<longrightarrow> wk_total wk' \<le> max_variables)"
  by (induction column batch wk arbitrary: wk' rule: take_batch.induct)
    (fastforce simp: Let_def split: if_splits)+

lemma take_batch_advances:
  "take_batch column batch wk = Inr (False, wk') \<Longrightarrow> batch \<noteq> [] \<Longrightarrow>
     wk_total wk < wk_total wk' \<and> wk_total wk' \<le> max_variables"
  using take_batch_total [of column batch wk wk'] by (cases batch) auto

definition poll_cancelled :: poll_error where
  "poll_cancelled = PollError (Text ''polling was cancelled'')"

function walk_column ::
  "'w snmp_session \<Rightarrow> instant \<Rightarrow> oid \<Rightarrow> walk \<Rightarrow> 'w \<Rightarrow> (poll_error + walk) \<times> 'w" where
  "walk_column s deadline column wk w =
     (case s_now s w of (now, w) \<Rightarrow>
      if deadline \<le> now then (Inl (PollError (Text ''polling took longer than its deadline'')), w)
      else (case s_stopped s w of (stop, w) \<Rightarrow>
        if stop then (Inl poll_cancelled, w)
        else (case s_next s (wk_cursor wk) bulk_repetitions w of
          (Inl e, w) \<Rightarrow> (Inl e, w)
        | (Inr batch, w) \<Rightarrow>
            if batch = [] then (Inr wk, w)
            else (case take_batch column batch wk of
              Inl e \<Rightarrow> (Inl e, w)
            | Inr (finished, wk) \<Rightarrow>
                if finished then (Inr wk, w) else walk_column s deadline column wk w))))"
  by pat_completeness auto
termination
proof (relation "measure (\<lambda>(_, _, _, wk, _). Suc max_variables - wk_total wk)", goal_cases)
  case 2
  thus ?case by (auto dest!: take_batch_advances)
qed simp

declare walk_column.simps [simp del]

fun walk_columns ::
  "'w snmp_session \<Rightarrow> instant \<Rightarrow> oid list \<Rightarrow> walk \<Rightarrow> 'w \<Rightarrow> (poll_error + answers) \<times> 'w" where
  "walk_columns s deadline [] wk w = (Inr (wk_answers wk), w)"
| "walk_columns s deadline (column # columns) wk w =
     (case walk_column s deadline column (wk\<lparr>wk_cursor := column\<rparr>) w of
        (Inl e, w) \<Rightarrow> (Inl e, w)
      | (Inr wk, w) \<Rightarrow> walk_columns s deadline columns wk w)"

definition read_device ::
  "'w snmp_session \<Rightarrow> instant \<Rightarrow> oid list \<Rightarrow> oid list \<Rightarrow> 'w \<Rightarrow> (poll_error + answers) \<times> 'w" where
  "read_device s deadline scalars columns w =
     (case s_stopped s w of (stop, w) \<Rightarrow>
      if stop then (Inl poll_cancelled, w)
      else (case (if scalars = [] then (Inr [], w) else s_get s scalars w) of
        (Inl e, w) \<Rightarrow> (Inl e, w)
      | (Inr vars, w) \<Rightarrow>
          walk_columns s deadline columns
            \<lparr>wk_cursor = [], wk_total = 0, wk_bytes = 0, wk_answers = btree_collect vars\<rparr> w))"

section \<open>The session on the wire\<close>

text \<open>
  What the session uses of \<open>snmp2\<close>: its own object identifiers \<open>'o\<close>, their components where
  they can be listed, and a connection that answers requests.
\<close>

datatype 'o wire_value =
    WInteger int | WOctetString bytes | WOpaque bytes | WObjectIdentifier 'o
  | WIpAddress "nat list" | WCounter32 nat | WUnsigned32 nat | WTimeticks nat | WCounter64 nat
  | WNoSuchObject | WNoSuchInstance | WEndOfMibView | WElse

datatype version = V1 | V2C | V3

datatype wire_failure = Receive | Send | AuthFailure string | OtherFailure string

record 'o pdu =
  p_version :: "version option"
  p_error_status :: nat
  p_varbinds :: "('o \<times> 'o wire_value) list"

record ('o, 'w) snmp_wire =
  x_oid :: "nat list \<Rightarrow> 'o option"
  x_parts :: "'o \<Rightarrow> nat list option"
  x_version :: version
  x_get_many :: "'o list \<Rightarrow> 'w \<Rightarrow> (wire_failure + 'o pdu) \<times> 'w"
  x_getbulk :: "'o \<Rightarrow> nat \<Rightarrow> 'w \<Rightarrow> (wire_failure + 'o pdu) \<times> 'w"
  x_getnext :: "'o \<Rightarrow> 'w \<Rightarrow> (wire_failure + 'o pdu) \<times> 'w"
  x_bulk :: bool

definition check_version :: "version \<Rightarrow> 'o pdu \<Rightarrow> poll_error + unit" where
  "check_version expected p =
     (if p_version p = Some expected then Inr ()
      else Inl (PollError (Text ''the device answered in a different SNMP version'')))"

definition check_status :: "nat \<Rightarrow> poll_error + unit" where
  "check_status status =
     (if status = 0 then Inr ()
      else Inl (PollError (Format ''the device answered with error status {status}'' [dec status])))"

fun wire_error :: "wire_failure \<Rightarrow> poll_error" where
  "wire_error Receive = PollError (Text ''no answer before the timeout'')"
| "wire_error Send = PollError (Text ''no answer before the timeout'')"
| "wire_error (AuthFailure kind) = PollError (Format ''authentication failed: {kind:?}'' [kind])"
| "wire_error (OtherFailure other) = PollError (Format ''SNMP error: {other:?}'' [other])"

definition wire_oid :: "('o, 'w) snmp_wire \<Rightarrow> oid \<Rightarrow> poll_error + 'o" where
  "wire_oid x oid =
     (case x_oid x oid of None \<Rightarrow> Inl (PollError (Format ''invalid OID {oid:?}'' (map dec oid)))
      | Some o' \<Rightarrow> Inr o')"

definition from_wire_oid :: "('o, 'w) snmp_wire \<Rightarrow> 'o \<Rightarrow> poll_error + oid" where
  "from_wire_oid x o' =
     (case x_parts x o' of
        None \<Rightarrow> Inl (PollError (Text ''the device answered an OID out of range''))
      | Some parts \<Rightarrow>
          if list_all (\<lambda>part. part \<le> u32_max) parts then Inr parts
          else Inl (PollError (Text ''the device answered an OID out of range'')))"

fun from_wire_value :: "('o, 'w) snmp_wire \<Rightarrow> 'o wire_value \<Rightarrow> snmp_value" where
  "from_wire_value x (WInteger v) = Integer v"
| "from_wire_value x (WOctetString b) = Octets b"
| "from_wire_value x (WOpaque b) = Octets b"
| "from_wire_value x (WObjectIdentifier o') =
     (case from_wire_oid x o' of Inl _ \<Rightarrow> Other | Inr oid \<Rightarrow> ObjectId oid)"
| "from_wire_value x (WIpAddress a) = IpAddress a"
| "from_wire_value x (WCounter32 v) = Unsigned v"
| "from_wire_value x (WUnsigned32 v) = Unsigned v"
| "from_wire_value x (WTimeticks v) = Unsigned v"
| "from_wire_value x (WCounter64 v) = Unsigned v"
| "from_wire_value x WNoSuchObject = Missing"
| "from_wire_value x WNoSuchInstance = Missing"
| "from_wire_value x WEndOfMibView = Missing"
| "from_wire_value x WElse = Other"

fun try_map :: "('a \<Rightarrow> 'e + 'b) \<Rightarrow> 'a list \<Rightarrow> 'e + 'b list" where
  \<comment> \<open>\<open>collect::<Result<Vec<_>, _>>()\<close>: the first error, or every result\<close>
  "try_map f [] = Inr []"
| "try_map f (x # xs) =
     (case f x of Inl e \<Rightarrow> Inl e
      | Inr y \<Rightarrow> (case try_map f xs of Inl e \<Rightarrow> Inl e | Inr ys \<Rightarrow> Inr (y # ys)))"

definition accept_pdu :: "('o, 'w) snmp_wire \<Rightarrow> 'o pdu \<Rightarrow> poll_error + (oid \<times> snmp_value) list" where
  "accept_pdu x p =
     (case check_version (x_version x) p of Inl e \<Rightarrow> Inl e | Inr _ \<Rightarrow>
      (case check_status (p_error_status p) of Inl e \<Rightarrow> Inl e | Inr _ \<Rightarrow>
       try_map (\<lambda>(o', v). case from_wire_oid x o' of Inl e \<Rightarrow> Inl e
                          | Inr oid \<Rightarrow> Inr (oid, from_wire_value x v)) (p_varbinds p)))"

definition wire_get ::
  "('o, 'w) snmp_wire \<Rightarrow> oid list \<Rightarrow> 'w \<Rightarrow> (poll_error + (oid \<times> snmp_value) list) \<times> 'w" where
  "wire_get x oids w =
     (case try_map (wire_oid x) oids of
        Inl e \<Rightarrow> (Inl e, w)
      | Inr wires \<Rightarrow>
          (case x_get_many x wires w of
             (Inl e, w) \<Rightarrow> (Inl (wire_error e), w)
           | (Inr p, w) \<Rightarrow> (accept_pdu x p, w)))"

definition wire_next ::
  "('o, 'w) snmp_wire \<Rightarrow> oid \<Rightarrow> nat \<Rightarrow> 'w \<Rightarrow> (poll_error + (oid \<times> snmp_value) list) \<times> 'w" where
  "wire_next x oid count w =
     (case wire_oid x oid of
        Inl e \<Rightarrow> (Inl e, w)
      | Inr o' \<Rightarrow>
          (case (if x_bulk x then x_getbulk x o' count w else x_getnext x o' w) of
             (Inl e, w) \<Rightarrow> (Inl (wire_error e), w)
           | (Inr p, w) \<Rightarrow> (accept_pdu x p, w)))"

section \<open>Opening a snmp_session\<close>

record target =
  t_address :: string
  t_host :: string
  t_port :: nat

datatype auth_protocol = Md5 | Sha | Sha224 | Sha256 | Sha384 | Sha512

datatype privacy_protocol = Des | Aes128 | Aes192 | Aes256

datatype credentials =
    V3Credentials (username: string) (auth_protocol_of: auth_protocol) (auth_password_file: string)
      (privacy_protocol_of: privacy_protocol) (privacy_password_file: string)
  | V2cCredentials (community_file: string)

definition trim_ascii_end :: "bytes \<Rightarrow> bytes" where
  "trim_ascii_end b = rev (dropWhile is_ascii_whitespace (rev b))"

text \<open>
  The files, the resolver and the sockets are world functions. \<open>o_v3\<close> always asks for
  authentication and privacy with the Blumenthal key extension, as its arguments in the source do.
\<close>

record ('a, 'x, 'w) opener =
  o_metadata_len :: "string \<Rightarrow> 'w \<Rightarrow> (string + nat) \<times> 'w"
  o_read :: "string \<Rightarrow> 'w \<Rightarrow> (string + bytes) \<times> 'w"
  o_resolve :: "string \<Rightarrow> nat \<Rightarrow> 'w \<Rightarrow> (string + 'a list) \<times> 'w"
  o_v2c :: "'a \<Rightarrow> bytes \<Rightarrow> duration \<Rightarrow> 'w \<Rightarrow> (string + 'x) \<times> 'w"
  o_v3 :: "'a \<Rightarrow> duration \<Rightarrow> string \<Rightarrow> auth_protocol \<Rightarrow> bytes \<Rightarrow> privacy_protocol \<Rightarrow> bytes
           \<Rightarrow> 'w \<Rightarrow> (string + 'x) \<times> 'w"
  o_init :: "'x \<Rightarrow> 'w \<Rightarrow> (wire_failure + unit) \<times> 'w"

definition read_secret ::
  "('a, 'x, 'w) opener \<Rightarrow> string \<Rightarrow> 'w \<Rightarrow> (poll_error + bytes) \<times> 'w" where
  "read_secret op path w =
     (case o_metadata_len op path w of
        (Inl e, w) \<Rightarrow> (Inl (PollError (Format ''cannot read {}: {error}'' [path, e])), w)
      | (Inr len, w) \<Rightarrow>
          if max_secret_bytes < len then (Inl (PollError (Format ''{} is too large'' [path])), w)
          else (case o_read op path w of
            (Inl e, w) \<Rightarrow> (Inl (PollError (Format ''cannot read {}: {error}'' [path, e])), w)
          | (Inr bytes, w) \<Rightarrow>
              let secret = trim_ascii_end bytes in
              if secret = [] then (Inl (PollError (Format ''{} is empty'' [path])), w)
              else (Inr secret, w)))"

definition open_session ::
  "('a, 'x, 'w) opener \<Rightarrow> target \<Rightarrow> credentials \<Rightarrow> duration \<Rightarrow> 'w \<Rightarrow> (poll_error + 'x) \<times> 'w" where
  "open_session op tgt cr timeout w =
     (case o_resolve op (t_host tgt) (t_port tgt) w of
        (Inl e, w) \<Rightarrow> (Inl (PollError (Format ''cannot resolve {}: {error}'' [t_host tgt, e])), w)
      | (Inr [], w) \<Rightarrow> (Inl (PollError (Format ''cannot resolve {}'' [t_host tgt])), w)
      | (Inr (address # _), w) \<Rightarrow>
          (case cr of
             V2cCredentials file \<Rightarrow>
               (case read_secret op file w of
                  (Inl e, w) \<Rightarrow> (Inl e, w)
                | (Inr community, w) \<Rightarrow>
                    (case o_v2c op address community timeout w of
                       (Inl e, w) \<Rightarrow> (Inl (PollError (Format ''cannot open a socket: {error}'' [e])), w)
                     | (Inr x, w) \<Rightarrow> (Inr x, w)))
           | V3Credentials user auth auth_file privacy privacy_file \<Rightarrow>
               (case read_secret op auth_file w of
                  (Inl e, w) \<Rightarrow> (Inl e, w)
                | (Inr password, w) \<Rightarrow>
                    (case read_secret op privacy_file w of
                       (Inl e, w) \<Rightarrow> (Inl e, w)
                     | (Inr privacy_password, w) \<Rightarrow>
                         (case o_v3 op address timeout user auth password privacy privacy_password w of
                            (Inl e, w) \<Rightarrow> (Inl (PollError (Format ''cannot open a socket: {error}'' [e])), w)
                          | (Inr x, w) \<Rightarrow>
                              (case o_init op x w of
                                 (Inl e, w) \<Rightarrow> (Inl (wire_error e), w)
                               | (Inr _, w) \<Rightarrow> (Inr x, w)))))))"

end
