(* ===== verification/Snmp_Walk.thy ===== *)
theory Snmp_Walk
  imports Snmp_Client
begin

text \<open>
  Facts about walking a column: the order of object identifiers, how many requests a walk makes,
  and what one batch of a device that answers its own variables in order adds to a walk.
\<close>

section \<open>Object identifier order\<close>

lemma le_append: "c \<le> (c @ z :: nat list)"
  by (induction c) simp_all

lemma prefix_le: "prefix c o' \<Longrightarrow> c \<le> (o' :: nat list)"
  by (auto simp: prefix_def le_append)

lemma past_column:
  "c \<le> a \<Longrightarrow> \<not> prefix c a \<Longrightarrow> a \<le> b \<Longrightarrow> \<not> prefix c (b :: nat list)"
proof (induction c arbitrary: a b)
  case (Cons x c)
  from Cons.prems obtain y ys where a: "a = y # ys" by (cases a) auto
  with Cons.prems obtain z zs where b: "b = z # zs" by (cases b) auto
  show ?case using Cons.prems Cons.IH [of ys zs] unfolding a b by auto
qed simp

lemma strict_prefix_iff_after: "strict_prefix c o' \<longleftrightarrow> prefix c o' \<and> c < (o' :: nat list)"
  using prefix_le [of c o'] by (auto simp: strict_prefix_def)

section \<open>Requests\<close>

definition counting :: "'w snmp_session \<Rightarrow> ('w \<times> nat) snmp_session" where
  "counting s =
     \<lparr>s_get = (\<lambda>oids (w, n). case s_get s oids w of (r, w) \<Rightarrow> (r, (w, n))),
      s_next = (\<lambda>oid count (w, n). case s_next s oid count w of (r, w) \<Rightarrow> (r, (w, Suc n))),
      s_now = (\<lambda>(w, n). case s_now s w of (t, w) \<Rightarrow> (t, (w, n))),
      s_stopped = (\<lambda>(w, n). case s_stopped s w of (b, w) \<Rightarrow> (b, (w, n)))\<rparr>"

lemma counting_simps [simp]:
  "s_get (counting s) oids (w, n) = (fst (s_get s oids w), (snd (s_get s oids w), n))"
  "s_next (counting s) oid count (w, n) = (fst (s_next s oid count w), (snd (s_next s oid count w), Suc n))"
  "s_now (counting s) (w, n) = (fst (s_now s w), (snd (s_now s w), n))"
  "s_stopped (counting s) (w, n) = (fst (s_stopped s w), (snd (s_stopped s w), n))"
  by (simp_all add: counting_def split: prod.splits)

text \<open>
  One induction over the walk gives both that the count observes without changing anything and
  that every request but the column's last brought in at least one variable.
\<close>

lemma take_batch_finished:
  "take_batch column batch wk = Inr (fin, wk') \<Longrightarrow> wk_total wk \<le> max_variables \<Longrightarrow>
     wk_total wk \<le> wk_total wk' \<and> wk_total wk' \<le> max_variables"
  by (induction column batch wk arbitrary: wk' rule: take_batch.induct)
    (fastforce simp: Let_def split: if_splits)+

definition requests_ok :: "walk \<Rightarrow> nat \<Rightarrow> poll_error + walk \<Rightarrow> nat \<Rightarrow> bool" where
  "requests_ok wk n r n' =
     (case r of
        Inl _ \<Rightarrow> n' + wk_total wk \<le> Suc n + max_variables
      | Inr wk' \<Rightarrow> n' + wk_total wk \<le> Suc n + wk_total wk' \<and> wk_total wk' \<le> max_variables)"

lemma walk_column_counting:
  "wk_total wk \<le> max_variables \<Longrightarrow>
   \<exists>n'. walk_column (counting s) deadline column wk (w, n) =
      (fst (walk_column s deadline column wk w), (snd (walk_column s deadline column wk w), n'))
    \<and> requests_ok wk n (fst (walk_column s deadline column wk w)) n'"
proof (induction s deadline column wk w arbitrary: n rule: walk_column.induct)
  case (1 s deadline column wk w)
  obtain now w1 where now: "s_now s w = (now, w1)" by fastforce
  obtain stop w2 where stop: "s_stopped s w1 = (stop, w2)" by fastforce
  obtain r w3 where nx: "s_next s (wk_cursor wk) bulk_repetitions w2 = (r, w3)" by fastforce
  note step = walk_column.simps [of s deadline column wk w]
    walk_column.simps [of "counting s" deadline column wk "(w, n)"]
  consider (early) "deadline \<le> now" | (stop) "\<not> deadline \<le> now" stop
    | (failed) e where "\<not> deadline \<le> now" "\<not> stop" "r = Inl e"
    | (last) "\<not> deadline \<le> now" "\<not> stop" "r = Inr []"
    | (refused) batch e where "\<not> deadline \<le> now" "\<not> stop" "r = Inr batch" "batch \<noteq> []"
        "take_batch column batch wk = Inl e"
    | (over) batch wk' where "\<not> deadline \<le> now" "\<not> stop" "r = Inr batch" "batch \<noteq> []"
        "take_batch column batch wk = Inr (True, wk')"
    | (again) batch wk' where "\<not> deadline \<le> now" "\<not> stop" "r = Inr batch" "batch \<noteq> []"
        "take_batch column batch wk = Inr (False, wk')"
    by (cases r; cases "take_batch column (projr r) wk"; cases "projr r = []") (auto, metis (full_types))
  thus ?case
  proof cases
    case again
    have less: "wk_total wk < wk_total wk'" and le: "wk_total wk' \<le> max_variables"
      using take_batch_advances [OF again(5,4)] by auto
    obtain n' where n': "walk_column (counting s) deadline column wk' (w3, Suc n) =
        (fst (walk_column s deadline column wk' w3), (snd (walk_column s deadline column wk' w3), n'))"
      "requests_ok wk' (Suc n) (fst (walk_column s deadline column wk' w3)) n'"
      using "1.IH" [of now w1 stop w2 r w3 batch "(False, wk')" False wk' "Suc n"]
        again now stop nx le by auto
    have "requests_ok wk n (fst (walk_column s deadline column wk' w3)) n'"
      using n'(2) less by (auto simp: requests_ok_def split: sum.splits)
    thus ?thesis using step again now stop nx n'(1) by auto
  qed (use "1.prems" step now stop nx take_batch_finished in
      \<open>auto simp: requests_ok_def split: sum.splits\<close>)
qed

lemma walk_columns_counting:
  "wk_total wk \<le> max_variables \<Longrightarrow>
   \<exists>n'. walk_columns (counting s) deadline columns wk (w, n) =
      (fst (walk_columns s deadline columns wk w), (snd (walk_columns s deadline columns wk w), n'))
    \<and> n' + wk_total wk \<le> n + length columns + max_variables"
proof (induction columns arbitrary: wk w n)
  case (Cons column columns)
  obtain n1 where n1: "walk_column (counting s) deadline column (wk\<lparr>wk_cursor := column\<rparr>) (w, n) =
      (fst (walk_column s deadline column (wk\<lparr>wk_cursor := column\<rparr>) w),
       (snd (walk_column s deadline column (wk\<lparr>wk_cursor := column\<rparr>) w), n1))"
    "requests_ok (wk\<lparr>wk_cursor := column\<rparr>) n (fst (walk_column s deadline column (wk\<lparr>wk_cursor := column\<rparr>) w)) n1"
    using walk_column_counting [of "wk\<lparr>wk_cursor := column\<rparr>" s deadline column w n] Cons.prems by auto
  obtain r w1 where r: "walk_column s deadline column (wk\<lparr>wk_cursor := column\<rparr>) w = (r, w1)" by fastforce
  show ?case
  proof (cases r)
    case (Inl e)
    thus ?thesis using n1 r by (auto simp: requests_ok_def)
  next
    case (Inr wk1)
    with n1 r have b: "n1 + wk_total wk \<le> Suc n + wk_total wk1" "wk_total wk1 \<le> max_variables"
      by (auto simp: requests_ok_def)
    show ?thesis using Cons.IH [OF b(2), of w1 n1] b(1) n1(1) r Inr by fastforce
  qed
qed auto

section \<open>Faithful answers\<close>

text \<open>
  A device holds its variables in order and answers a request for the ones after an identifier
  with some of them, at least one if there are any, and may pad with end-of-view markers only
  after the last. A request may also fail.
\<close>

definition following :: "answers \<Rightarrow> oid \<Rightarrow> answers" where
  "following mib oid = filter (\<lambda>(o', _). oid < o') mib"

definition faithful_batch :: "answers \<Rightarrow> oid \<Rightarrow> (oid \<times> snmp_value) list \<Rightarrow> bool" where
  "faithful_batch mib oid batch =
     (\<exists>n ends. 0 < n \<and> batch = take n (following mib oid) @ ends
        \<and> list_all (\<lambda>(_, v). v = Missing) ends \<and> (ends = [] \<or> length (following mib oid) \<le> n))"

definition answers_from :: "answers \<Rightarrow> 'w snmp_session \<Rightarrow> bool" where
  "answers_from mib s \<longleftrightarrow>
     (\<forall>oid count w. case fst (s_next s oid count w) of Inl _ \<Rightarrow> True | Inr batch \<Rightarrow> faithful_batch mib oid batch)
   \<and> (\<forall>oids w. case fst (s_get s oids w) of Inl _ \<Rightarrow> True
        | Inr vars \<Rightarrow> vars = map (\<lambda>oid. (oid, case map_of mib oid of None \<Rightarrow> Missing | Some v \<Rightarrow> v)) oids)"

definition mib_ok :: "answers \<Rightarrow> bool" where
  "mib_ok mib \<longleftrightarrow> ordered mib \<and> list_all (\<lambda>(_, v). v \<noteq> Missing) mib"

abbreviation in_column :: "oid \<Rightarrow> oid \<times> snmp_value \<Rightarrow> bool" where
  "in_column c \<equiv> \<lambda>(o', v). prefix c o'"

abbreviation wanted :: "oid \<Rightarrow> oid \<times> snmp_value \<Rightarrow> bool" where
  "wanted c \<equiv> \<lambda>(o', v). v \<noteq> Missing \<and> prefix c o'"

definition variable_bytes :: "oid \<times> snmp_value \<Rightarrow> nat" where
  "variable_bytes = (\<lambda>(o', v). length o' * 4 + value_bytes v)"

definition advance :: "(oid \<times> snmp_value) list \<Rightarrow> walk \<Rightarrow> walk" where
  "advance good wk =
     \<lparr>wk_cursor = (if good = [] then wk_cursor wk else fst (last good)),
      wk_total = wk_total wk + length good,
      wk_bytes = wk_bytes wk + sum_list (map variable_bytes good),
      wk_answers = fold (\<lambda>(k, v). btree_insert k v) good (wk_answers wk)\<rparr>"

lemma take_batch_Inr:
  "take_batch c batch wk = Inr (fin, wk') \<Longrightarrow>
     fin = (takeWhile (wanted c) batch \<noteq> batch) \<and> wk' = advance (takeWhile (wanted c) batch) wk"
  by (induction c batch wk arbitrary: fin wk' rule: take_batch.induct)
    (auto simp: Let_def advance_def variable_bytes_def split: if_splits)

lemma take_batch_within:
  "\<lbrakk>sorted_wrt (<) (wk_cursor wk # map fst (takeWhile (wanted c) batch));
    wk_total wk + length (takeWhile (wanted c) batch) \<le> max_variables;
    wk_bytes wk + sum_list (map variable_bytes (takeWhile (wanted c) batch)) \<le> max_answer_bytes\<rbrakk>
   \<Longrightarrow> \<exists>r. take_batch c batch wk = Inr r"
  by (induction c batch wk rule: take_batch.induct)
    (auto simp: Let_def variable_bytes_def not_le split: if_splits)

lemma following_ordered:
  assumes "mib_ok mib"
  shows "ordered (following mib oid)" "\<And>x. x \<in> set (following mib oid) \<Longrightarrow> oid < fst x \<and> snd x \<noteq> Missing"
  using assms by (auto simp: following_def mib_ok_def list_all_iff)

text \<open>The column's variables after the cursor come first among the following ones.\<close>

lemma column_comes_first:
  assumes "ordered rest" "\<forall>x\<in>set rest. cur < fst x \<and> snd x \<noteq> Missing" "prefix c cur"
  shows "takeWhile (wanted c) rest = filter (in_column c) rest"
  using assms
proof (induction rest)
  case (Cons x rest)
  obtain o' v where x: "x = (o', v)" by fastforce
  show ?case
  proof (cases "prefix c o'")
    case True
    thus ?thesis using Cons x by (auto simp: ordered_Cons)
  next
    case False
    have "c \<le> o'" using Cons.prems x prefix_le [of c cur] by auto
    moreover have "\<forall>y\<in>set rest. o' \<le> fst y" using Cons.prems(1) x by (auto simp: ordered_Cons less_imp_le)
    ultimately have "\<forall>y\<in>set rest. \<not> prefix c (fst y)" using past_column False by blast
    hence "filter (in_column c) rest = []" by (auto simp: filter_empty_conv)
    thus ?thesis using False x by simp
  qed
qed simp

lemma ordered_split:
  assumes "ordered (xs @ ys)" "xs \<noteq> []"
  shows "filter (\<lambda>(o', _). fst (last xs) < o') (xs @ ys) = ys"
proof -
  obtain zs z where xs: "xs = zs @ [z]" using assms(2) by (metis append_butlast_last_id)
  have o: "\<forall>x\<in>set zs. fst x < fst z" "\<forall>y\<in>set ys. fst z < fst y"
    using assms(1) unfolding xs by (auto simp: ordered_def sorted_wrt_append)
  have "filter (\<lambda>(o', _). fst z < o') zs = []" using o(1) by (auto simp: filter_empty_conv)
  moreover have "filter (\<lambda>(o', _). fst z < o') ys = ys" using o(2) by (auto simp: filter_id_conv)
  ultimately show ?thesis unfolding xs by (simp add: case_prod_unfold)
qed

text \<open>
  What one faithful batch does to a walk, by whether it ended the column: \<open>good\<close> is what the
  walk keeps of it.
\<close>

lemma takeWhile_ends: "takeWhile P ys = [] \<Longrightarrow> takeWhile P (xs @ ys) = takeWhile P xs"
  by (induction xs) auto

lemma faithful_good:
  assumes mib: "mib_ok mib" and cur: "prefix c cur" and batch: "faithful_batch mib cur batch"
  obtains n where "0 < n" "takeWhile (wanted c) batch = takeWhile (wanted c) (take n (following mib cur))"
    "takeWhile (wanted c) batch = batch \<longrightarrow> batch = take n (following mib cur)"
    "takeWhile (wanted c) batch \<noteq> batch \<longrightarrow>
       takeWhile (wanted c) batch = filter (in_column c) (following mib cur)"
proof -
  define rest where "rest = following mib cur"
  obtain n ends where b: "0 < n" "batch = take n rest @ ends" "list_all (\<lambda>(_, v). v = Missing) ends"
    "ends = [] \<or> length rest \<le> n" using batch by (auto simp: faithful_batch_def rest_def)
  have ends: "takeWhile (wanted c) ends = []" using b(3) by (cases ends) auto
  have tw: "takeWhile (wanted c) rest = filter (in_column c) rest"
    unfolding rest_def
    by (rule column_comes_first [OF following_ordered(1) [OF mib] ballI cur]) (rule following_ordered(2) [OF mib])
  have good: "takeWhile (wanted c) batch = takeWhile (wanted c) (take n rest)"
    unfolding b(2) by (rule takeWhile_ends [OF ends])
  have all: "batch = take n rest" if "takeWhile (wanted c) batch = batch"
  proof -
    have "length batch \<le> length (take n rest)"
      using that good length_takeWhile_le [of "wanted c" "take n rest"] by simp
    thus ?thesis using b(2) by (cases ends) (auto simp del: length_take)
  qed
  have over: "takeWhile (wanted c) batch = filter (in_column c) rest" if ne: "takeWhile (wanted c) batch \<noteq> batch"
  proof (cases "takeWhile (wanted c) (take n rest) = take n rest")
    case True
    with ne b(2,4) good have "length rest \<le> n" by auto
    thus ?thesis using good tw by simp
  next
    case False
    then obtain x where "x \<in> set (take n rest)" "\<not> wanted c x" 
      unfolding takeWhile_eq_all_conv by blast
    thus ?thesis using takeWhile_append1 [of x "take n rest" "wanted c" "drop n rest"] good tw by simp
  qed
  show thesis
  proof (rule that)
    show "0 < n" by (rule b(1))
    show "takeWhile (wanted c) batch = takeWhile (wanted c) (take n (following mib cur))"
      using good unfolding rest_def .
    show "takeWhile (wanted c) batch = batch \<longrightarrow> batch = take n (following mib cur)"
      using all unfolding rest_def ..
    show "takeWhile (wanted c) batch \<noteq> batch \<longrightarrow>
       takeWhile (wanted c) batch = filter (in_column c) (following mib cur)"
      using over unfolding rest_def ..
  qed
qed

lemma faithful_over:
  assumes "mib_ok mib" "prefix c cur" "faithful_batch mib cur batch" "takeWhile (wanted c) batch \<noteq> batch"
  shows "takeWhile (wanted c) batch = filter (in_column c) (following mib cur)"
proof -
  obtain n where "takeWhile (wanted c) batch \<noteq> batch \<longrightarrow>
       takeWhile (wanted c) batch = filter (in_column c) (following mib cur)"
    by (rule faithful_good [OF assms(1-3)])
  thus ?thesis using assms(4) ..
qed

lemma faithful_more:
  assumes mib: "mib_ok mib" and cur: "prefix c cur" and batch: "faithful_batch mib cur batch" "batch \<noteq> []"
    and all: "takeWhile (wanted c) batch = batch"
  shows "prefix c (fst (last batch))"
    and "filter (in_column c) (following mib cur) = batch @ filter (in_column c) (following mib (fst (last batch)))"
proof -
  obtain n where "takeWhile (wanted c) batch = batch \<longrightarrow> batch = take n (following mib cur)"
    by (rule faithful_good [OF mib cur batch(1)])
  hence n: "batch = take n (following mib cur)" using all by simp
  have in_col: "\<forall>x\<in>set batch. in_column c x" using all by (auto simp: takeWhile_eq_all_conv)
  thus "prefix c (fst (last batch))" using batch(2) last_in_set [of batch] by (auto simp: case_prod_unfold)
  have last: "last batch \<in> set (following mib cur)" using n batch(2) by (metis in_set_takeD last_in_set)
  have lt: "cur < fst (last batch)" using following_ordered(2) [OF mib last] by simp
  obtain tl where tl: "following mib cur = batch @ tl" using n by (metis append_take_drop_id)
  have "filter (\<lambda>(o', _). fst (last batch) < o') (batch @ tl) = tl"
    using ordered_split [of batch tl] following_ordered(1) [OF mib, of cur] batch(2) unfolding tl by simp
  moreover have "filter (\<lambda>(o', _). fst (last batch) < o') (following mib cur) = following mib (fst (last batch))"
    unfolding following_def filter_filter by (rule filter_cong) (use lt in \<open>auto dest: less_trans\<close>)
  ultimately have "following mib (fst (last batch)) = tl" unfolding tl by simp
  thus "filter (in_column c) (following mib cur) =
      batch @ filter (in_column c) (following mib (fst (last batch)))"
    using in_col unfolding tl by (simp add: filter_id_conv)
qed

lemma faithful_sorted:
  assumes mib: "mib_ok mib" and cur: "prefix c cur" and batch: "faithful_batch mib cur batch"
  shows "sorted_wrt (<) (cur # map fst (takeWhile (wanted c) batch))"
    and "\<exists>tl. filter (in_column c) (following mib cur) = takeWhile (wanted c) batch @ tl"
proof -
  obtain n where n: "takeWhile (wanted c) batch = takeWhile (wanted c) (take n (following mib cur))"
    by (rule faithful_good [OF assms])
  obtain tl where tl: "following mib cur = takeWhile (wanted c) batch @ tl"
    using takeWhile_dropWhile_id [of "wanted c" "take n (following mib cur)"]
      append_take_drop_id [of n "following mib cur"] unfolding n by (metis append_assoc)
  have "sorted_wrt (<) (map fst (takeWhile (wanted c) batch))"
    using following_ordered(1) [OF mib, of cur] tl by (simp add: ordered_def sorted_wrt_append)
  moreover have "\<forall>x\<in>set (takeWhile (wanted c) batch). cur < fst x"
    using following_ordered(2) [OF mib, of _ cur] unfolding tl by simp
  ultimately show "sorted_wrt (<) (cur # map fst (takeWhile (wanted c) batch))" by simp
  have "filter (in_column c) (takeWhile (wanted c) batch) = takeWhile (wanted c) batch"
    unfolding filter_id_conv by (auto dest!: set_takeWhileD)
  thus "\<exists>tl. filter (in_column c) (following mib cur) = takeWhile (wanted c) batch @ tl"
    unfolding tl by simp
qed

end
