(* ===== verification/Snmp_Correct.thy ===== *)
theory Snmp_Correct
  imports Snmp_Walk
begin

text \<open>
  What a read of one device guarantees: it ends after a bounded number of requests whatever the
  device answers, and a read of a device that answers its own variables in order returns exactly
  the scalars and columns asked for, never a shortened table.
\<close>

section \<open>Completeness of a walk\<close>

lemma answers_from_next:
  assumes "answers_from mib s" "s_next s oid count w = (Inr batch, w')"
  shows "faithful_batch mib oid batch"
proof -
  have "case fst (s_next s oid count w) of Inl _ \<Rightarrow> True | Inr batch \<Rightarrow> faithful_batch mib oid batch"
    using assms(1) unfolding answers_from_def by (rule conjE) (erule allE)+
  thus ?thesis using assms(2) by simp
qed

lemma answers_from_get:
  assumes "answers_from mib s" "s_get s oids w = (Inr vars, w')"
  shows "vars = map (\<lambda>oid. (oid, case map_of mib oid of None \<Rightarrow> Missing | Some v \<Rightarrow> v)) oids"
proof -
  have "case fst (s_get s oids w) of Inl _ \<Rightarrow> True
      | Inr vars \<Rightarrow> vars = map (\<lambda>oid. (oid, case map_of mib oid of None \<Rightarrow> Missing | Some v \<Rightarrow> v)) oids"
    using assms(1) unfolding answers_from_def by (rule conjE) (erule allE)+
  thus ?thesis using assms(2) by simp
qed

lemma advance_advance: "xs \<noteq> [] \<Longrightarrow> advance ys (advance xs wk) = advance (xs @ ys) wk"
  by (simp add: advance_def)

lemma walk_column_exact:
  assumes "mib_ok mib" "answers_from mib s"
  shows "prefix column (wk_cursor wk) \<Longrightarrow> walk_column s deadline column wk w = (Inr wk', w') \<Longrightarrow>
     wk' = advance (filter (in_column column) (following mib (wk_cursor wk))) wk"
  using assms(2)
proof (induction s deadline column wk w rule: walk_column.induct)
  case (1 s deadline column wk w)
  obtain now w1 where now: "s_now s w = (now, w1)" by fastforce
  obtain stop w2 where stop: "s_stopped s w1 = (stop, w2)" by fastforce
  obtain r w3 where nx: "s_next s (wk_cursor wk) bulk_repetitions w2 = (r, w3)" by fastforce
  note res = "1.prems"(2) [unfolded walk_column.simps [of s deadline column wk w] now stop nx prod.case]
  obtain batch where go: "\<not> deadline \<le> now" "\<not> stop" "r = Inr batch" using res by (auto split: if_splits sum.splits)
  have f: "faithful_batch mib (wk_cursor wk) batch" using answers_from_next [OF "1.prems"(3)] nx go(3) by simp
  show ?case
  proof (cases "batch = []")
    case True
    hence "following mib (wk_cursor wk) = []" using f by (auto simp: faithful_batch_def)
    thus ?thesis using res go True by (simp add: advance_def)
  next
    case False
    then obtain fin wk1 where tb: "take_batch column batch wk = Inr (fin, wk1)"
      using res go by (auto split: sum.splits)
    note fin = take_batch_Inr [OF tb]
    show ?thesis
    proof (cases fin)
      case True
      hence "takeWhile (wanted column) batch = filter (in_column column) (following mib (wk_cursor wk))"
        using fin faithful_over [OF assms(1) "1.prems"(1) f] by simp
      thus ?thesis using res go False tb fin True by simp
    next
      case nfin: False
      hence all: "takeWhile (wanted column) batch = batch" using fin by simp
      note more = faithful_more [OF assms(1) "1.prems"(1) f False all]
      have cur: "wk_cursor wk1 = fst (last batch)" and wk1: "wk1 = advance batch wk"
        using fin all False by (auto simp: advance_def)
      have "walk_column s deadline column wk1 w3 = (Inr wk', w')" using res go False tb nfin by simp
      thus ?thesis
        using "1.IH" [of now w1 stop w2 r w3 batch "(fin, wk1)" fin wk1] now stop nx go False tb nfin more cur "1.prems"(3)
        by (simp add: wk1 advance_advance)
    qed
  qed
qed

definition reliable :: "instant \<Rightarrow> 'w snmp_session \<Rightarrow> bool" where
  "reliable deadline s \<longleftrightarrow> (\<forall>w. fst (s_now s w) < deadline) \<and> (\<forall>w. \<not> fst (s_stopped s w))
     \<and> (\<forall>oid count w. \<not> isl (fst (s_next s oid count w))) \<and> (\<forall>oids w. \<not> isl (fst (s_get s oids w)))"

definition within_limits :: "walk \<Rightarrow> bool" where
  "within_limits wk \<longleftrightarrow> wk_total wk \<le> max_variables \<and> wk_bytes wk \<le> max_answer_bytes"

lemma within_limits_mono: "within_limits (advance (xs @ ys) wk) \<Longrightarrow> within_limits (advance xs wk)"
  by (auto simp: within_limits_def advance_def)

lemma walk_column_returns:
  assumes "mib_ok mib" "answers_from mib s"
  shows "reliable deadline s \<Longrightarrow> prefix column (wk_cursor wk) \<Longrightarrow>
     within_limits (advance (filter (in_column column) (following mib (wk_cursor wk))) wk) \<Longrightarrow>
     \<not> isl (fst (walk_column s deadline column wk w))"
  using assms(2)
proof (induction s deadline column wk w rule: walk_column.induct)
  case (1 s deadline column wk w)
  obtain now w1 where now: "s_now s w = (now, w1)" by fastforce
  obtain stop w2 where stop: "s_stopped s w1 = (stop, w2)" by fastforce
  obtain r w3 where nx: "s_next s (wk_cursor wk) bulk_repetitions w2 = (r, w3)" by fastforce
  have go: "\<not> deadline \<le> now" "\<not> stop" "\<not> isl r"
    using "1.prems"(1) now stop nx unfolding reliable_def by (metis fst_conv not_le)+
  then obtain batch where r: "r = Inr batch" by (cases r) auto
  have f: "faithful_batch mib (wk_cursor wk) batch" using answers_from_next [OF "1.prems"(4)] nx r by simp
  note srt = faithful_sorted [OF assms(1) "1.prems"(2) f]
  obtain tl where tl: "filter (in_column column) (following mib (wk_cursor wk)) = takeWhile (wanted column) batch @ tl"
    using srt(2) by auto
  have lim: "within_limits (advance (takeWhile (wanted column) batch) wk)"
    using "1.prems"(3) within_limits_mono unfolding tl by blast
  obtain fin wk1 where tb: "take_batch column batch wk = Inr (fin, wk1)"
    using take_batch_within [OF srt(1)] lim by (auto simp: within_limits_def advance_def)
  note step = walk_column.simps [of s deadline column wk w] now stop nx r go tb
  show ?case
  proof (cases "batch = [] \<or> fin")
    case True
    thus ?thesis using step by auto
  next
    case False
    hence all: "takeWhile (wanted column) batch = batch" using take_batch_Inr [OF tb] by simp
    note more = faithful_more [OF assms(1) "1.prems"(2) f _ all]
    have wk1: "wk1 = advance batch wk" "wk_cursor wk1 = fst (last batch)"
      using take_batch_Inr [OF tb] all False by (auto simp: advance_def)
    have "\<not> isl (fst (walk_column s deadline column wk1 w3))"
      using "1.IH" [of now w1 stop w2 r w3 batch "(fin, wk1)" fin wk1] now stop nx go r tb False
        "1.prems" more wk1 by (simp add: advance_advance)
    thus ?thesis using step False by auto
  qed
qed

section \<open>Reading a device\<close>

text \<open>
  C27. Whatever a device answers, \<open>read\<close> ends after at most one request per column and one per
  variable it may keep. The counting session only observes: the result is the session's own.
\<close>

theorem read_requests_bounded:
  "fst (read_device (counting s) deadline scalars columns (w, 0)) = fst (read_device s deadline scalars columns w)
   \<and> snd (snd (read_device (counting s) deadline scalars columns (w, 0))) \<le> length columns + max_variables"
proof -
  obtain stop w1 where stop: "s_stopped s w = (stop, w1)" by fastforce
  obtain r w2 where r: "(if scalars = [] then (Inr [], w1) else s_get s scalars w1) = (r, w2)" by fastforce
  have cr: "(if scalars = [] then (Inr [], (w1, 0)) else s_get (counting s) scalars (w1, 0)) = (r, (w2, 0))"
    using r by (auto split: if_splits)
  show ?thesis
  proof (cases "stop \<or> isl r")
    case True
    thus ?thesis using stop r cr by (auto simp: read_device_def isl_def)
  next
    case False
    then obtain vars where v: "r = Inr vars" "\<not> stop" by (cases r) auto
    show ?thesis
      using stop r cr v walk_columns_counting
        [of "\<lparr>wk_cursor = [], wk_total = 0, wk_bytes = 0, wk_answers = btree_collect vars\<rparr>"
            s deadline columns w2 0]
      by (auto simp: read_device_def)
  qed
qed

text \<open>The answers a read should return, and the total it may keep.\<close>

definition expected :: "answers \<Rightarrow> oid list \<Rightarrow> oid list \<Rightarrow> oid \<Rightarrow> snmp_value option" where
  "expected mib scalars columns oid =
     (if oid \<in> set scalars then Some (case map_of mib oid of None \<Rightarrow> Missing | Some v \<Rightarrow> v)
      else if list_ex (\<lambda>c. strict_prefix c oid) columns then map_of mib oid else None)"

definition rows :: "answers \<Rightarrow> oid \<Rightarrow> answers" where
  "rows mib column = filter (\<lambda>(oid, _). strict_prefix column oid) mib"

lemma rows_following: "filter (in_column c) (following mib c) = rows mib c"
  unfolding rows_def following_def filter_filter
  by (rule filter_cong) (auto simp: strict_prefix_iff_after)

lemma map_of_filter_key: "map_of (filter (\<lambda>(k, _). P k) m) k = (if P k then map_of m k else None)"
  by (induction m) auto

lemma map_of_rows: "map_of (rows mib c) oid = (if strict_prefix c oid then map_of mib oid else None)"
  by (simp add: rows_def map_of_filter_key)

lemma map_of_rev_distinct: "distinct (map fst m) \<Longrightarrow> map_of (rev m) = map_of m"
  by (rule map_of_inject_set [THEN iffD2]) (simp_all add: rev_map [symmetric])

lemma walk_columns_exact:
  assumes "mib_ok mib" "answers_from mib s"
  shows "ordered (wk_answers wk) \<Longrightarrow> walk_columns s deadline columns wk w = (Inr answers, w') \<Longrightarrow>
     ordered answers \<and> map_of answers oid =
       (if list_ex (\<lambda>c. strict_prefix c oid) columns \<and> map_of mib oid \<noteq> None
        then map_of mib oid else map_of (wk_answers wk) oid)"
proof (induction columns arbitrary: wk w)
  case (Cons c columns)
  obtain wk1 w1 where col: "walk_column s deadline c (wk\<lparr>wk_cursor := c\<rparr>) w = (Inr wk1, w1)"
    and rest: "walk_columns s deadline columns wk1 w1 = (Inr answers, w')"
    using Cons.prems(2) by (auto split: prod.splits sum.splits)
  have wk1: "wk1 = advance (rows mib c) (wk\<lparr>wk_cursor := c\<rparr>)"
    using walk_column_exact [OF assms _ col] by (simp add: rows_following)
  have o: "ordered (rows mib c)" using assms(1) by (auto simp: rows_def mib_ok_def)
  have a: "ordered (wk_answers wk1)" using Cons.prems(1) by (simp add: wk1 advance_def ordered_fold_insert)
  have "map_of (rev (rows mib c)) = map_of (rows mib c)"
    using ordered_distinct [OF o] by (rule map_of_rev_distinct)
  hence "map_of (wk_answers wk1) oid =
      (if strict_prefix c oid \<and> map_of mib oid \<noteq> None then map_of mib oid else map_of (wk_answers wk) oid)"
    using Cons.prems(1) assms(1)
    by (auto simp: wk1 advance_def map_of_fold_insert map_add_def map_of_rows mib_ok_def split: option.splits)
  thus ?case using Cons.IH [OF a rest] by auto
qed auto

definition kept :: "answers \<Rightarrow> oid list \<Rightarrow> answers" where
  "kept mib columns = concat (map (rows mib) columns)"

lemma walk_columns_returns:
  assumes "mib_ok mib" "answers_from mib s" "reliable deadline s"
  shows "within_limits (advance (kept mib columns) wk) \<Longrightarrow>
     \<exists>answers. fst (walk_columns s deadline columns wk w) = Inr answers"
proof (induction columns arbitrary: wk w)
  case (Cons c columns)
  let ?wk = "wk\<lparr>wk_cursor := c\<rparr>"
  have lim: "within_limits (advance (rows mib c) ?wk)"
    using Cons.prems by (auto simp: within_limits_def advance_def kept_def)
  obtain r w1 where r: "walk_column s deadline c ?wk w = (r, w1)" by fastforce
  have "\<not> isl r"
    using walk_column_returns [OF assms(1,2,3), of c ?wk w] lim r by (simp add: rows_following)
  then obtain wk1 where wk1: "r = Inr wk1" by (cases r) auto
  have "wk1 = advance (rows mib c) ?wk"
    using walk_column_exact [OF assms(1,2), of c ?wk deadline w wk1 w1] r wk1 by (simp add: rows_following)
  hence "within_limits (advance (kept mib columns) wk1)"
    using Cons.prems by (simp add: within_limits_def advance_def kept_def add.assoc)
  thus ?case using Cons.IH [of wk1 w1] r wk1 by simp
qed simp

lemma map_of_scalars:
  "map_of (btree_collect (map (\<lambda>oid. (oid, f oid)) oids)) oid = (if oid \<in> set oids then Some (f oid) else None)"
  by (simp add: map_of_collect rev_map map_of_map_restrict restrict_map_def)

text \<open>
  C13. Reading a device that answers its own variables in order. Whatever \<open>read\<close> returns is the
  scalars asked for, each with the device's value or as missing, and exactly the rows of the
  columns asked for: a failing or late request is an error, never a shortened table. When no
  request fails before the deadline and the columns stay within the limits on variables and
  bytes, \<open>read\<close> does return.
\<close>

theorem read_is_exact:
  assumes "mib_ok mib" "answers_from mib s"
  shows "(case fst (read_device s deadline scalars columns w) of
            Inl _ \<Rightarrow> True
          | Inr answers \<Rightarrow> ordered answers \<and> map_of answers = expected mib scalars columns)
     \<and> (reliable deadline s \<and> length (kept mib columns) \<le> max_variables
          \<and> sum_list (map variable_bytes (kept mib columns)) \<le> max_answer_bytes
        \<longrightarrow> \<not> isl (fst (read_device s deadline scalars columns w)))"
proof -
  define start where "start vars = \<lparr>wk_cursor = [], wk_total = 0, wk_bytes = 0, wk_answers = btree_collect vars\<rparr>"
    for vars :: "(oid \<times> snmp_value) list"
  define val where "val oid = (case map_of mib oid of None \<Rightarrow> Missing | Some v \<Rightarrow> v)" for oid
  obtain stop w1 where stop: "s_stopped s w = (stop, w1)" by fastforce
  obtain r w2 where r: "(if scalars = [] then (Inr [], w1) else s_get s scalars w1) = (r, w2)" by fastforce
  have run: "read_device s deadline scalars columns w =
      (if stop then (Inl poll_cancelled, w1)
       else case r of Inl e \<Rightarrow> (Inl e, w2) | Inr vars \<Rightarrow> walk_columns s deadline columns (start vars) w2)"
    using stop r by (simp add: read_device_def start_def split: sum.splits)
  have got: "vars = map (\<lambda>oid. (oid, val oid)) scalars" if "r = Inr vars" for vars
    using r that answers_from_get [OF assms(2)] unfolding val_def by (cases "scalars = []") auto
  have exact: "ordered answers \<and> map_of answers = expected mib scalars columns"
    if res: "fst (read_device s deadline scalars columns w) = Inr answers" for answers
  proof -
    have "\<not> stop" using res run by auto
    then obtain vars where v: "r = Inr vars" using res run by (cases r) auto
    obtain a w3 where a: "walk_columns s deadline columns (start vars) w2 = (a, w3)" by fastforce
    hence v2: "walk_columns s deadline columns (start vars) w2 = (Inr answers, w3)"
      using res run v \<open>\<not> stop\<close> by simp
    have "ordered (wk_answers (start vars))" by (simp add: start_def)
    from walk_columns_exact [OF assms this v2] show ?thesis
      unfolding start_def got [OF v]
      by (auto simp: fun_eq_iff expected_def map_of_scalars val_def split: option.splits)
  qed
  have "\<not> isl (fst (read_device s deadline scalars columns w))"
    if "reliable deadline s" "length (kept mib columns) \<le> max_variables"
      "sum_list (map variable_bytes (kept mib columns)) \<le> max_answer_bytes"
  proof -
    have "\<not> fst (s_stopped s w)" "\<not> isl (fst (s_get s scalars w1))"
      using that(1) by (simp_all add: reliable_def)
    hence "\<not> stop" "\<not> isl r" using stop r by (auto split: if_splits)
    then obtain vars where "r = Inr vars" by (cases r) auto
    thus ?thesis using \<open>\<not> stop\<close> walk_columns_returns [OF assms that(1), of columns "start vars" w2] that(2,3)
      by (auto simp: run start_def within_limits_def advance_def)
  qed
  thus ?thesis using exact by (auto split: sum.splits)
qed

text \<open>A session that answers from a recording, as the agent's own tests use.\<close>

definition recorded :: "answers \<Rightarrow> unit snmp_session" where
  "recorded mib =
     \<lparr>s_get = (\<lambda>oids w. (Inr (map (\<lambda>oid. (oid, case map_of mib oid of None \<Rightarrow> Missing | Some v \<Rightarrow> v)) oids), w)),
      s_next = (\<lambda>oid count w. (Inr (take (max 1 count) (following mib oid)), w)),
      s_now = (\<lambda>w. (0, w)), s_stopped = (\<lambda>w. (False, w))\<rparr>"

lemma recorded_batch: "faithful_batch mib oid (take (max 1 count) (following mib oid))"
  unfolding faithful_batch_def by (rule exI [of _ "max 1 count"], rule exI [of _ "[]"]) simp

lemma recorded_honest: "answers_from mib (recorded mib)" "reliable 1 (recorded mib)"
  using recorded_batch by (simp_all add: answers_from_def reliable_def recorded_def)

definition sample_mib :: answers where
  "sample_mib = [([1, 1, 0], Integer 5), ([1, 2, 1], Octets ''eth0''), ([1, 2, 2], Octets ''eth1''),
     ([1, 3, 1], Unsigned 9000)]"

theorem read_is_exact_witness:
  "case fst (read_device (recorded sample_mib) 1 [[1, 1, 0], [1, 9, 0]] [[1, 2]] ()) of
     Inl _ \<Rightarrow> False
   | Inr answers \<Rightarrow> map_of answers [1, 9, 0] = Some Missing \<and> map_of answers [1, 2, 2] = Some (Octets ''eth1'')
       \<and> map_of answers [1, 3, 1] = None"
proof -
  have ok: "mib_ok sample_mib" by (simp add: mib_ok_def sample_mib_def ordered_def)
  have small: "length (kept sample_mib [[1, 2]]) \<le> max_variables"
    "sum_list (map variable_bytes (kept sample_mib [[1, 2]])) \<le> max_answer_bytes"
    by (simp_all add: kept_def rows_def sample_mib_def strict_prefix_def variable_bytes_def
        max_variables_def max_answer_bytes_def)
  show ?thesis
    using read_is_exact [OF ok recorded_honest(1), of "[[1, 1, 0], [1, 9, 0]]" "[[1, 2]]" 1 "()"]
      small recorded_honest(2) [of sample_mib]
    by (auto simp: expected_def sample_mib_def strict_prefix_def split: sum.splits)
qed

end
