(* ===== verification/Report_Types.thy ===== *)
theory Report_Types
  imports Text_Json Decimal
begin

text \<open>
  The resources collectors report (\<open>payload.rs\<close>): switches with their interfaces, VLANs and
  neighbors, the scoped report around them, and the value clean-up every collector shares
  (\<open>collectors/mod.rs\<close>).
\<close>

section \<open>Resources\<close>

datatype tagging_mode = Tagged | Untagged

record vlan_membership =
  vm_vid :: nat
  vm_tagging_mode :: tagging_mode

record neighbor =
  nb_protocol :: string
  nb_remote_chassis_id :: string
  nb_remote_chassis_id_kind :: string
  nb_remote_port_id :: string
  nb_remote_port_id_kind :: string
  nb_remote_system_name :: "string option"
  nb_remote_port_description :: "string option"
  nb_ttl_seconds :: nat

record address =
  ad_address :: string
  ad_kind :: "string option"
  ad_scope :: "string option"

record interface =
  ifc_name :: string
  ifc_kind :: string
  ifc_status :: string
  ifc_mac_address :: "string option"
  ifc_mtu :: "nat option"
  ifc_speed_mbps :: "nat option"
  ifc_addresses :: "address list option"
  ifc_vlan_mode :: "string option"
  ifc_vlans :: "vlan_membership list option"
  ifc_neighbors :: "neighbor list option"

definition default_interface :: interface where
  "default_interface = \<lparr>ifc_name = [], ifc_kind = [], ifc_status = [], ifc_mac_address = None, ifc_mtu = None,
     ifc_speed_mbps = None, ifc_addresses = None, ifc_vlan_mode = None, ifc_vlans = None, ifc_neighbors = None\<rparr>"

record collector_identifiers =
  ci_hostname :: "string option"
  ci_serial_number :: "string option"
  ci_dmi_uuid :: "string option"
  ci_mac_address :: "string list"

record host_attributes =
  ha_hostname :: "string option"
  ha_fqdn :: "string option"
  ha_vendor :: "string option"
  ha_model :: "string option"
  ha_asset_tag :: "string option"

datatype collector_resource_kind = Switch | Pdu | Server | Vm

record collector_resource =
  cr_kind :: collector_resource_kind
  cr_target :: "string option"
  cr_identifiers :: collector_identifiers
  cr_attributes :: "host_attributes option"
  cr_interfaces :: "interface list option"

section \<open>Reports\<close>

definition max_string_chars :: nat where "max_string_chars = 255"

datatype reachability = Reachable | Unreachable

record target_status =
  ts_address :: string
  ts_status :: reachability
  ts_error :: "string option"

datatype collector_kind = BmcPower | PowerPoller | SwitchPoller | VmProvider

record section_completeness =
  sc_interface_vlans :: bool
  sc_interface_neighbors :: bool

record scoped_report =
  sr_observation_id :: string
  sr_observed_at :: system_time
  sr_targets :: "target_status list"
  sr_collector_id :: string
  sr_collector_kind :: collector_kind
  sr_complete :: bool
  sr_resources :: "collector_resource list"
  sr_section_completeness :: section_completeness

definition scoped_report_new ::
  "string \<Rightarrow> system_time \<Rightarrow> string \<Rightarrow> collector_kind \<Rightarrow> target_status list \<Rightarrow> bool
   \<Rightarrow> collector_resource list \<Rightarrow> scoped_report" where
  \<comment> \<open>\<open>Uuid::new_v4()\<close> and \<open>Utc::now()\<close> are the first two arguments\<close>
  "scoped_report_new i now collector_id kind targets complete resources =
     \<lparr>sr_observation_id = i, sr_observed_at = now, sr_targets = targets, sr_collector_id = collector_id,
      sr_collector_kind = kind, sr_complete = complete, sr_resources = resources,
      sr_section_completeness = \<lparr>sc_interface_vlans = False, sc_interface_neighbors = False\<rparr>\<rparr>"

definition with_section_completeness :: "section_completeness \<Rightarrow> scoped_report \<Rightarrow> scoped_report" where
  "with_section_completeness sc r = r\<lparr>sr_section_completeness := sc\<rparr>"

section \<open>Values\<close>

definition placeholders :: "string list" where
  "placeholders = [''none'', ''unknown'', ''not specified'', ''not applicable'',
     ''to be filled by o.e.m.'', ''default string'']"

definition normalize_value :: "string \<Rightarrow> string option" where
  "normalize_value v =
     (let v = trim v in
      if v = [] \<or> map to_ascii_lowercase v \<in> set placeholders then None else Some v)"

lemma normalize_value_not_Nil: "normalize_value v = Some s \<Longrightarrow> s \<noteq> []"
  by (auto simp: normalize_value_def Let_def split: if_splits)

section \<open>Hexadecimal\<close>

definition hex_digit :: "nat \<Rightarrow> char" where
  "hex_digit n = (if n < 10 then char_of (48 + n) else char_of (87 + n))"

fun hex :: "nat \<Rightarrow> string" where
  \<comment> \<open>\<open>{:x}\<close>\<close>
  "hex n = (if n < 16 then [hex_digit n] else hex (n div 16) @ [hex_digit (n mod 16)])"

declare hex.simps [simp del]

definition hex_byte :: "nat \<Rightarrow> string" where
  \<comment> \<open>\<open>{:02x}\<close> of a byte\<close>
  "hex_byte n = [hex_digit (n div 16), hex_digit (n mod 16)]"

fun join :: "string \<Rightarrow> string list \<Rightarrow> string" where
  "join sep [] = []"
| "join sep [s] = s"
| "join sep (s # ss) = s @ sep @ join sep ss"

end
