(* ===== verification/Snmp_Mibs.thy ===== *)
theory Snmp_Mibs
  imports Snmp_Client Report_Types "HOL-Library.Product_Lexorder"
begin

text \<open>
  Turning what a switch answered into the resource Renga reconciles (\<open>snmp/mibs.rs\<close>): identity
  from ENTITY-MIB, interfaces from IF-MIB, neighbors from LLDP-MIB, VLANs from Q-BRIDGE-MIB.
\<close>

section \<open>Object identifiers\<close>

definition sys_descr :: oid where "sys_descr = [1, 3, 6, 1, 2, 1, 1, 1, 0]"
definition sys_name :: oid where "sys_name = [1, 3, 6, 1, 2, 1, 1, 5, 0]"
definition lldp_loc_chassis_id_subtype :: oid where "lldp_loc_chassis_id_subtype = [1, 0, 8802, 1, 1, 2, 1, 3, 1, 0]"
definition lldp_loc_chassis_id :: oid where "lldp_loc_chassis_id = [1, 0, 8802, 1, 1, 2, 1, 3, 2, 0]"
definition dot1q_vlan_version :: oid where "dot1q_vlan_version = [1, 3, 6, 1, 2, 1, 17, 7, 1, 1, 1, 0]"
definition ent_physical_class :: oid where "ent_physical_class = [1, 3, 6, 1, 2, 1, 47, 1, 1, 1, 1, 5]"
definition ent_physical_mfg_name :: oid where "ent_physical_mfg_name = [1, 3, 6, 1, 2, 1, 47, 1, 1, 1, 1, 12]"
definition ent_physical_serial_num :: oid where "ent_physical_serial_num = [1, 3, 6, 1, 2, 1, 47, 1, 1, 1, 1, 11]"
definition ent_physical_model_name :: oid where "ent_physical_model_name = [1, 3, 6, 1, 2, 1, 47, 1, 1, 1, 1, 13]"
definition if_descr :: oid where "if_descr = [1, 3, 6, 1, 2, 1, 2, 2, 1, 2]"
definition if_type :: oid where "if_type = [1, 3, 6, 1, 2, 1, 2, 2, 1, 3]"
definition if_mtu :: oid where "if_mtu = [1, 3, 6, 1, 2, 1, 2, 2, 1, 4]"
definition if_speed :: oid where "if_speed = [1, 3, 6, 1, 2, 1, 2, 2, 1, 5]"
definition if_phys_address :: oid where "if_phys_address = [1, 3, 6, 1, 2, 1, 2, 2, 1, 6]"
definition if_oper_status :: oid where "if_oper_status = [1, 3, 6, 1, 2, 1, 2, 2, 1, 8]"
definition if_name :: oid where "if_name = [1, 3, 6, 1, 2, 1, 31, 1, 1, 1, 1]"
definition if_high_speed :: oid where "if_high_speed = [1, 3, 6, 1, 2, 1, 31, 1, 1, 1, 15]"
definition lldp_loc_port_id_subtype :: oid where "lldp_loc_port_id_subtype = [1, 0, 8802, 1, 1, 2, 1, 3, 7, 1, 2]"
definition lldp_loc_port_id :: oid where "lldp_loc_port_id = [1, 0, 8802, 1, 1, 2, 1, 3, 7, 1, 3]"
definition lldp_rem_chassis_id_subtype :: oid where "lldp_rem_chassis_id_subtype = [1, 0, 8802, 1, 1, 2, 1, 4, 1, 1, 4]"
definition lldp_rem_chassis_id :: oid where "lldp_rem_chassis_id = [1, 0, 8802, 1, 1, 2, 1, 4, 1, 1, 5]"
definition lldp_rem_port_id_subtype :: oid where "lldp_rem_port_id_subtype = [1, 0, 8802, 1, 1, 2, 1, 4, 1, 1, 6]"
definition lldp_rem_port_id :: oid where "lldp_rem_port_id = [1, 0, 8802, 1, 1, 2, 1, 4, 1, 1, 7]"
definition lldp_rem_port_desc :: oid where "lldp_rem_port_desc = [1, 0, 8802, 1, 1, 2, 1, 4, 1, 1, 8]"
definition lldp_rem_sys_name :: oid where "lldp_rem_sys_name = [1, 0, 8802, 1, 1, 2, 1, 4, 1, 1, 9]"
definition dot1d_base_port_if_index :: oid where "dot1d_base_port_if_index = [1, 3, 6, 1, 2, 1, 17, 1, 4, 1, 2]"
definition dot1q_vlan_current_egress_ports :: oid where "dot1q_vlan_current_egress_ports = [1, 3, 6, 1, 2, 1, 17, 7, 1, 4, 2, 1, 4]"
definition dot1q_vlan_current_untagged_ports :: oid where "dot1q_vlan_current_untagged_ports = [1, 3, 6, 1, 2, 1, 17, 7, 1, 4, 2, 1, 5]"

definition scalars :: "oid list" where
  "scalars = [sys_descr, sys_name, lldp_loc_chassis_id_subtype, lldp_loc_chassis_id,
     dot1q_vlan_version]"

definition columns :: "oid list" where
  "columns = [ent_physical_class, ent_physical_mfg_name, ent_physical_serial_num,
     ent_physical_model_name, if_descr, if_type, if_mtu, if_speed, if_phys_address,
     if_oper_status, if_name, if_high_speed, lldp_loc_port_id_subtype, lldp_loc_port_id,
     lldp_rem_chassis_id_subtype, lldp_rem_chassis_id, lldp_rem_port_id_subtype,
     lldp_rem_port_id, lldp_rem_port_desc, lldp_rem_sys_name, dot1d_base_port_if_index,
     dot1q_vlan_current_egress_ports, dot1q_vlan_current_untagged_ports]"

lemmas oid_defs = sys_descr_def sys_name_def lldp_loc_chassis_id_subtype_def
  lldp_loc_chassis_id_def dot1q_vlan_version_def ent_physical_class_def
  ent_physical_mfg_name_def ent_physical_serial_num_def ent_physical_model_name_def
  if_descr_def if_type_def if_mtu_def if_speed_def if_phys_address_def
  if_oper_status_def if_name_def if_high_speed_def lldp_loc_port_id_subtype_def
  lldp_loc_port_id_def lldp_rem_chassis_id_subtype_def lldp_rem_chassis_id_def
  lldp_rem_port_id_subtype_def lldp_rem_port_id_def lldp_rem_port_desc_def
  lldp_rem_sys_name_def dot1d_base_port_if_index_def
  dot1q_vlan_current_egress_ports_def dot1q_vlan_current_untagged_ports_def

definition ent_class_chassis :: int where "ent_class_chassis = 3"
definition max_int32 :: nat where "max_int32 = 2147483647"
definition max_vlan_memberships :: nat where "max_vlan_memberships = 100000"

section \<open>Answers\<close>

definition scalar :: "answers \<Rightarrow> oid \<Rightarrow> snmp_value option" where
  "scalar answers oid =
     (case map_of answers oid of None \<Rightarrow> None | Some v \<Rightarrow> if v = Missing then None else Some v)"

definition column :: "answers \<Rightarrow> oid \<Rightarrow> (oid \<times> snmp_value) list" where
  "column answers col =
     map (\<lambda>(oid, v). (drop (length col) oid, v))
       (filter (\<lambda>(oid, v). length col < length oid \<and> v \<noteq> Missing)
         (takeWhile (\<lambda>(oid, _). prefix col oid) (dropWhile (\<lambda>(oid, _). oid < col) answers)))"

definition by_index :: "answers \<Rightarrow> oid \<Rightarrow> (nat, snmp_value) btree" where
  "by_index answers col =
     btree_collect (List.map_filter (\<lambda>(index, v). case index of [i] \<Rightarrow> Some (i, v) | _ \<Rightarrow> None) (column answers col))"

definition remote_rows :: "answers \<Rightarrow> oid \<Rightarrow> (nat \<times> nat, snmp_value) btree" where
  "remote_rows answers col =
     btree_collect (List.map_filter (\<lambda>(index, v). case index of [_, port, remote] \<Rightarrow> Some ((port, remote), v) | _ \<Rightarrow> None)
       (column answers col))"

section \<open>Values\<close>

text \<open>\<open>trim_matches(|c| c.is_whitespace() || c == '\\0')\<close>, from both ends.\<close>

function trim_by :: "(nat list \<Rightarrow> nat) \<Rightarrow> string \<Rightarrow> string" where
  "trim_by len s = (let n = len (map byte_of s) in if n = 0 \<or> s = [] then s else trim_by len (drop n s))"
  by pat_completeness auto
termination
  by (relation "measure (\<lambda>(_, s). length s)") auto

declare trim_by.simps [simp del]

definition or_nul :: "(nat list \<Rightarrow> nat) \<Rightarrow> nat list \<Rightarrow> nat" where
  "or_nul len bs = (case bs of b # _ \<Rightarrow> if b = 0 then 1 else len bs | [] \<Rightarrow> 0)"

definition trim_nul :: "string \<Rightarrow> string" where
  "trim_nul s = rev (trim_by (or_nul ws_len_rev) (rev (trim_by (or_nul ws_len) s)))"

definition within_string_limit :: "string \<Rightarrow> bool" where
  "within_string_limit s = (char_count s \<le> max_string_chars)"

definition filter_opt :: "('a \<Rightarrow> bool) \<Rightarrow> 'a option \<Rightarrow> 'a option" where
  "filter_opt P x = (case x of None \<Rightarrow> None | Some a \<Rightarrow> if P a then Some a else None)"

fun text_of :: "snmp_value \<Rightarrow> string option" where
  "text_of (Octets bytes) =
     (case from_utf8 bytes of None \<Rightarrow> None
      | Some s \<Rightarrow> filter_opt within_string_limit (normalize_value (trim_nul s)))"
| "text_of _ = None"

definition hex_bytes :: "bytes \<Rightarrow> string" where
  "hex_bytes bytes = join '':'' (map (\<lambda>b. hex_byte (byte_of b)) bytes)"

definition text_or_hex :: "snmp_value \<Rightarrow> string option" where
  "text_or_hex v =
     (case text_of v of Some s \<Rightarrow> Some s
      | None \<Rightarrow>
          (case v of
             Octets bytes \<Rightarrow> if bytes \<noteq> [] then filter_opt within_string_limit (Some (hex_bytes bytes)) else None
           | _ \<Rightarrow> None))"

fun mac :: "snmp_value \<Rightarrow> string option" where
  "mac (Octets bytes) =
     (if length bytes = 6 \<and> list_ex (\<lambda>b. byte_of b \<noteq> 0) bytes then Some (hex_bytes bytes) else None)"
| "mac _ = None"

fun integer_of :: "snmp_value \<Rightarrow> int option" where
  "integer_of (Integer v) = Some v"
| "integer_of (Unsigned v) = (if v < 2 ^ 63 then Some (int v) else None)"
| "integer_of _ = None"

fun unsigned_of :: "snmp_value \<Rightarrow> nat option" where
  "unsigned_of (Unsigned v) = Some v"
| "unsigned_of (Integer v) = (if 0 \<le> v then Some (nat v) else None)"
| "unsigned_of _ = None"

section \<open>Chassis\<close>

record chassis_entry =
  ch_serial :: string
  ch_vendor :: "string option"
  ch_model :: "string option"

definition get_text :: "('k \<times> snmp_value) list \<Rightarrow> 'k \<Rightarrow> string option" where
  "get_text m k = Option.bind (map_of m k) text_of"

fun find_chassis ::
  "(nat, snmp_value) btree \<Rightarrow> (nat, snmp_value) btree \<Rightarrow> (nat, snmp_value) btree
   \<Rightarrow> (nat \<times> snmp_value) list \<Rightarrow> chassis_entry option" where
  "find_chassis serials vendors models [] = None"
| "find_chassis serials vendors models ((index, class) # rest) =
     (if class = Integer ent_class_chassis
      then (case get_text serials index of
              Some serial \<Rightarrow> Some \<lparr>ch_serial = serial, ch_vendor = get_text vendors index,
                               ch_model = get_text models index\<rparr>
            | None \<Rightarrow> find_chassis serials vendors models rest)
      else find_chassis serials vendors models rest)"

definition chassis :: "answers \<Rightarrow> chassis_entry option" where
  "chassis answers =
     find_chassis (by_index answers ent_physical_serial_num) (by_index answers ent_physical_mfg_name)
       (by_index answers ent_physical_model_name) (by_index answers ent_physical_class)"

section \<open>Interfaces\<close>

record switch_entry =
  en_interface :: interface
  en_descr :: "string option"
  en_mac :: "string option"

type_synonym port_entries = "(nat, switch_entry) btree"

definition interface_kind :: "int option \<Rightarrow> string" where
  "interface_kind t =
     (case t of None \<Rightarrow> ''unknown''
      | Some n \<Rightarrow> if n \<in> {6, 7, 62, 69, 117} then ''ethernet''
                  else if n = 24 then ''loopback''
                  else if n = 161 then ''bond''
                  else if n = 209 then ''bridge''
                  else if n \<in> {135, 136} then ''vlan''
                  else if n = 53 then ''virtual''
                  else ''unknown'')"

definition oper_status :: "int option \<Rightarrow> string" where
  "oper_status t =
     (case t of None \<Rightarrow> ''unknown''
      | Some n \<Rightarrow> if n = 1 then ''up''
                  else if n \<in> {2, 7} then ''down''
                  else if n = 5 then ''dormant''
                  else if n = 6 then ''not_present''
                  else ''unknown'')"

record interface_columns =
  ic_descrs :: "(nat, snmp_value) btree"
  ic_names :: "(nat, snmp_value) btree"
  ic_types :: "(nat, snmp_value) btree"
  ic_mtus :: "(nat, snmp_value) btree"
  ic_speeds :: "(nat, snmp_value) btree"
  ic_high_speeds :: "(nat, snmp_value) btree"
  ic_addresses :: "(nat, snmp_value) btree"
  ic_statuses :: "(nat, snmp_value) btree"

definition speed_mbps :: "interface_columns \<Rightarrow> nat \<Rightarrow> nat option" where
  "speed_mbps ic index =
     filter_opt (\<lambda>speed. speed \<le> max_int32)
       (case filter_opt (\<lambda>speed. 0 < speed) (Option.bind (map_of (ic_high_speeds ic) index) unsigned_of) of
          Some speed \<Rightarrow> Some speed
        | None \<Rightarrow> filter_opt (\<lambda>speed. 0 < speed)
            (map_option (\<lambda>bits. bits div 1000000) (Option.bind (map_of (ic_speeds ic) index) unsigned_of)))"

definition interface_entry :: "interface_columns \<Rightarrow> nat \<Rightarrow> string \<Rightarrow> string option \<Rightarrow> switch_entry" where
  "interface_entry ic index name descr =
     (let address = Option.bind (map_of (ic_addresses ic) index) mac in
      \<lparr>en_interface = default_interface
         \<lparr>ifc_name := name,
          ifc_kind := interface_kind (Option.bind (map_of (ic_types ic) index) integer_of),
          ifc_status := oper_status (Option.bind (map_of (ic_statuses ic) index) integer_of),
          ifc_mac_address := address,
          ifc_mtu := filter_opt (\<lambda>mtu. 1 \<le> mtu \<and> mtu \<le> max_int32)
                      (Option.bind (map_of (ic_mtus ic) index) unsigned_of),
          ifc_speed_mbps := speed_mbps ic index\<rparr>,
       en_descr = descr, en_mac = address\<rparr>)"

fun interfaces_loop :: "interface_columns \<Rightarrow> nat list \<Rightarrow> string list \<Rightarrow> (nat \<times> switch_entry) list" where
  "interfaces_loop ic [] seen = []"
| "interfaces_loop ic (index # indexes) seen =
     (let descr = get_text (ic_descrs ic) index in
      case (case get_text (ic_names ic) index of Some name \<Rightarrow> Some name | None \<Rightarrow> descr) of
        None \<Rightarrow> interfaces_loop ic indexes seen
      | Some name \<Rightarrow>
          if name \<in> set seen then interfaces_loop ic indexes seen
          else (index, interface_entry ic index name descr) # interfaces_loop ic indexes (name # seen))"

definition interface_columns_of :: "answers \<Rightarrow> interface_columns" where
  "interface_columns_of answers =
     \<lparr>ic_descrs = by_index answers if_descr, ic_names = by_index answers if_name,
      ic_types = by_index answers if_type, ic_mtus = by_index answers if_mtu,
      ic_speeds = by_index answers if_speed, ic_high_speeds = by_index answers if_high_speed,
      ic_addresses = by_index answers if_phys_address, ic_statuses = by_index answers if_oper_status\<rparr>"

definition interfaces :: "answers \<Rightarrow> port_entries" where
  "interfaces answers =
     (let ic = interface_columns_of answers;
          indexes = map fst (btree_collect (map (\<lambda>(i, _). (i, ())) (ic_descrs ic @ ic_names ic)))
      in btree_collect (interfaces_loop ic indexes []))"

section \<open>Neighbors\<close>

definition local_port :: "(nat, snmp_value) btree \<Rightarrow> port_entries \<Rightarrow> nat \<Rightarrow> snmp_value \<Rightarrow> nat option" where
  "local_port subtypes es port i =
     (let matched =
        (case map_of subtypes port of
           Some (Integer t) \<Rightarrow>
             if t = 3 then Option.bind (mac i) (\<lambda>address. find (\<lambda>(_, e). en_mac e = Some address) es)
             else if t \<in> {1, 5, 7}
             then Option.bind (text_of i)
               (\<lambda>name. find (\<lambda>(_, e). ifc_name (en_interface e) = name \<or> en_descr e = Some name) es)
             else None
         | _ \<Rightarrow> None)
      in case matched of
           Some (index, _) \<Rightarrow> Some index
         | None \<Rightarrow> if map_of es port \<noteq> None then Some port else None)"

definition local_ports :: "answers \<Rightarrow> port_entries \<Rightarrow> (nat, nat) btree" where
  "local_ports answers es =
     (let subtypes = by_index answers lldp_loc_port_id_subtype in
      btree_collect (List.map_filter
        (\<lambda>(port, i). map_option (\<lambda>index. (port, index)) (local_port subtypes es port i))
        (by_index answers lldp_loc_port_id)))"

definition ipv4_text :: "nat list \<Rightarrow> string" where
  "ipv4_text octets = join ''.'' (map dec octets)"

fun segments_of :: "nat list \<Rightarrow> nat list" where
  "segments_of (a # b # rest) = (a * 256 + b) # segments_of rest"
| "segments_of _ = []"

fun zero_span :: "nat list \<Rightarrow> nat \<Rightarrow> nat \<times> nat \<Rightarrow> nat \<times> nat \<Rightarrow> nat \<times> nat" where
  \<comment> \<open>start and length of the first longest run of zero segments; then the current run\<close>
  "zero_span [] i longest current = longest"
| "zero_span (seg # segs) i longest current =
     (if seg = 0
      then let current = (if snd current = 0 then (i, 1) else (fst current, snd current + 1))
           in zero_span segs (Suc i) (if snd longest < snd current then current else longest) current
      else zero_span segs (Suc i) longest (0, 0))"

definition ipv6_text :: "nat list \<Rightarrow> string" where
  "ipv6_text octets =
     (let segs = segments_of octets; words = (\<lambda>xs. join '':'' (map hex xs)) in
      if take 5 segs = [0, 0, 0, 0, 0] \<and> segs ! 5 = 65535
      then ''::ffff:'' @ ipv4_text (drop 12 octets)
      else (case zero_span segs 0 (0, 0) (0, 0) of (start, len) \<Rightarrow>
        if 1 < len then words (take start segs) @ ''::'' @ words (drop (start + len) segs)
        else words segs))"

fun network_address :: "snmp_value \<Rightarrow> string option" where
  "network_address (Octets bytes) =
     (case map byte_of bytes of
        family # rest \<Rightarrow>
          if family = 1 \<and> length rest = 4 then Some (ipv4_text rest)
          else if family = 2 \<and> length rest = 16 then Some (ipv6_text rest)
          else None
      | [] \<Rightarrow> None)"
| "network_address _ = None"

fun chassis_id_value :: "snmp_value \<Rightarrow> snmp_value \<Rightarrow> (string \<times> string) option" where
  "chassis_id_value (Integer t) v =
     (if t = 4 then map_option (\<lambda>s. (s, ''mac_address'')) (mac v)
      else if t = 5 then map_option (\<lambda>s. (s, ''network_address'')) (network_address v)
      else if t = 6 then map_option (\<lambda>s. (s, ''name'')) (text_of v)
      else map_option (\<lambda>s. (s, ''local'')) (text_or_hex v))"
| "chassis_id_value _ v = None"

definition port_id_value :: "snmp_value option \<Rightarrow> snmp_value \<Rightarrow> (string \<times> string) option" where
  "port_id_value subtype v =
     (if subtype = Some (Integer 3) then map_option (\<lambda>s. (s, ''mac_address'')) (mac v)
      else if subtype \<in> {Some (Integer 1), Some (Integer 5)} then map_option (\<lambda>s. (s, ''name'')) (text_of v)
      else map_option (\<lambda>s. (s, ''local'')) (text_or_hex v))"

text \<open>\<open>lower\<close> maps every character of a string to its Unicode lower case.\<close>

definition endpoint :: "(string \<Rightarrow> string) \<Rightarrow> neighbor \<Rightarrow> string \<times> string \<times> string \<times> string" where
  "endpoint lower n =
     (nb_remote_chassis_id_kind n,
      if nb_remote_chassis_id_kind n = ''name'' then lower (nb_remote_chassis_id n) else nb_remote_chassis_id n,
      nb_remote_port_id_kind n, nb_remote_port_id n)"

definition push_neighbor :: "(string \<Rightarrow> string) \<Rightarrow> neighbor \<Rightarrow> switch_entry \<Rightarrow> switch_entry" where
  "push_neighbor lower n e =
     (let ns = (case ifc_neighbors (en_interface e) of None \<Rightarrow> [] | Some ns \<Rightarrow> ns) in
      e\<lparr>en_interface := (en_interface e)
          \<lparr>ifc_neighbors := Some (if list_ex (\<lambda>x. endpoint lower x = endpoint lower n) ns then ns else ns @ [n])\<rparr>\<rparr>)"

definition btree_update :: "'k \<Rightarrow> ('v \<Rightarrow> 'v) \<Rightarrow> ('k, 'v) btree \<Rightarrow> ('k, 'v) btree" where
  \<comment> \<open>\<open>get_mut\<close>\<close>
  "btree_update k f m = map (\<lambda>(a, b). if a = k then (a, f b) else (a, b)) m"

definition remote_neighbor ::
  "answers \<Rightarrow> nat \<Rightarrow> nat \<times> nat \<Rightarrow> snmp_value \<Rightarrow> neighbor option" where
  "remote_neighbor answers ttl_seconds key chassis_id =
     (case (Option.bind (map_of (remote_rows answers lldp_rem_chassis_id_subtype) key)
              (\<lambda>subtype. chassis_id_value subtype chassis_id),
            Option.bind (map_of (remote_rows answers lldp_rem_port_id) key)
              (port_id_value (map_of (remote_rows answers lldp_rem_port_id_subtype) key))) of
        (Some (chassis_text, chassis_kind), Some (port_text, port_kind)) \<Rightarrow>
          Some \<lparr>nb_protocol = ''lldp'', nb_remote_chassis_id = chassis_text,
            nb_remote_chassis_id_kind = chassis_kind, nb_remote_port_id = port_text,
            nb_remote_port_id_kind = port_kind,
            nb_remote_system_name = get_text (remote_rows answers lldp_rem_sys_name) key,
            nb_remote_port_description = get_text (remote_rows answers lldp_rem_port_desc) key,
            nb_ttl_seconds = ttl_seconds\<rparr>
      | _ \<Rightarrow> None)"

fun neighbors_loop ::
  "(string \<Rightarrow> string) \<Rightarrow> answers \<Rightarrow> nat \<Rightarrow> (nat, nat) btree \<Rightarrow> ((nat \<times> nat) \<times> snmp_value) list \<Rightarrow> port_entries \<Rightarrow> port_entries" where
  "neighbors_loop lower answers ttl lports [] es = es"
| "neighbors_loop lower answers ttl lports ((key, chassis_id) # rest) es =
     neighbors_loop lower answers ttl lports rest
       (case map_of lports (fst key) of
          None \<Rightarrow> es
        | Some index \<Rightarrow>
            (case remote_neighbor answers ttl key chassis_id of
               None \<Rightarrow> es
             | Some n \<Rightarrow> btree_update index (push_neighbor lower n) es))"

definition attach_neighbors :: "(string \<Rightarrow> string) \<Rightarrow> answers \<Rightarrow> port_entries \<Rightarrow> nat \<Rightarrow> port_entries" where
  "attach_neighbors lower answers es ttl =
     neighbors_loop lower answers ttl (local_ports answers es) (remote_rows answers lldp_rem_chassis_id)
       (map (\<lambda>(i, e). (i, e\<lparr>en_interface := (en_interface e)\<lparr>ifc_neighbors := Some []\<rparr>\<rparr>)) es)"

section \<open>VLANs\<close>

datatype map_error = MapError error_text

definition in_port_list :: "bytes \<Rightarrow> nat \<Rightarrow> bool" where
  "in_port_list bitmap port =
     (if port = 0 then False
      else let b = port - 1 in
        b div 8 < length bitmap \<and> odd (byte_of (bitmap ! (b div 8)) div 2 ^ (7 - b mod 8)))"

definition bridge_ports :: "answers \<Rightarrow> port_entries \<Rightarrow> (nat \<times> nat) list" where
  "bridge_ports answers es =
     filter (\<lambda>(_, if_index). map_of es if_index \<noteq> None)
       (List.map_filter
         (\<lambda>(port, v). case integer_of v of None \<Rightarrow> None
            | Some n \<Rightarrow> if 0 \<le> n \<and> n \<le> int u32_max then Some (port, nat n) else None)
         (by_index answers dot1d_base_port_if_index))"

definition vlan_ports :: "answers \<Rightarrow> oid \<Rightarrow> (nat, bytes) btree" where
  "vlan_ports answers col =
     btree_collect (List.map_filter
       (\<lambda>(index, v). case (index, v) of
            ([_, vid], Octets bitmap) \<Rightarrow> if 1 \<le> vid \<and> vid \<le> 4094 then Some (vid, bitmap) else None
          | _ \<Rightarrow> None)
       (column answers col))"

definition push_membership :: "nat \<Rightarrow> vlan_membership \<Rightarrow> (nat, vlan_membership list) btree
   \<Rightarrow> (nat, vlan_membership list) btree" where
  "push_membership index v m =
     btree_insert index ((case map_of m index of None \<Rightarrow> [] | Some vs \<Rightarrow> vs) @ [v]) m"

fun memberships_loop ::
  "(nat, bytes) btree \<Rightarrow> (nat \<times> bytes \<times> nat \<times> nat) list \<Rightarrow> nat \<Rightarrow> (nat, vlan_membership list) btree
   \<Rightarrow> map_error + (nat, vlan_membership list) btree" where
  \<comment> \<open>the two nested loops over VLANs and bridge ports, in their order\<close>
  "memberships_loop untagged [] n m = Inr m"
| "memberships_loop untagged ((vid, ports, port, if_index) # rest) n m =
     (if \<not> in_port_list ports port then memberships_loop untagged rest n m
      else if max_vlan_memberships < n + 1
      then Inl (MapError (Format ''the switch reports more than {} VLAN memberships'' [dec max_vlan_memberships]))
      else memberships_loop untagged rest (n + 1)
        (push_membership if_index
           \<lparr>vm_vid = vid,
            vm_tagging_mode =
              (case map_of untagged vid of
                 None \<Rightarrow> Tagged
               | Some ports \<Rightarrow> if in_port_list ports port then Untagged else Tagged)\<rparr> m))"

definition memberships ::
  "answers \<Rightarrow> port_entries \<Rightarrow> map_error + (nat, vlan_membership list) btree" where
  "memberships answers es =
     memberships_loop (vlan_ports answers dot1q_vlan_current_untagged_ports)
       (concat (map (\<lambda>(vid, ports). map (\<lambda>(port, if_index). (vid, ports, port, if_index)) (bridge_ports answers es))
          (vlan_ports answers dot1q_vlan_current_egress_ports)))
       0 []"

definition set_vlans :: "vlan_membership list \<Rightarrow> switch_entry \<Rightarrow> switch_entry" where
  "set_vlans vlans e =
     (let vlans = (if 1 < length (filter (\<lambda>v. vm_tagging_mode v = Untagged) vlans)
                   then map (\<lambda>v. v\<lparr>vm_tagging_mode := Tagged\<rparr>) vlans else vlans)
      in e\<lparr>en_interface :=
           (if vlans = [] then (en_interface e)\<lparr>ifc_vlans := Some vlans\<rparr>
            else (en_interface e)
              \<lparr>ifc_vlan_mode := Some (if length vlans = 1 \<and> vm_tagging_mode (hd vlans) = Untagged
                                      then ''access'' else ''trunk''),
               ifc_vlans := Some vlans\<rparr>)\<rparr>)"

definition attach_vlans :: "answers \<Rightarrow> port_entries \<Rightarrow> map_error + port_entries" where
  "attach_vlans answers es =
     (case memberships answers es of
        Inl e \<Rightarrow> Inl e
      | Inr m \<Rightarrow> Inr (map (\<lambda>(i, e). (i, set_vlans (case map_of m i of None \<Rightarrow> [] | Some vs \<Rightarrow> vs) e)) es))"

section \<open>The switch\<close>

record sections =
  se_interface_neighbors :: bool
  se_interface_vlans :: bool

definition switch_resource :: "string \<Rightarrow> string option \<Rightarrow> chassis_entry \<Rightarrow> port_entries \<Rightarrow> collector_resource" where
  "switch_resource tgt hostname ch es =
     \<lparr>cr_kind = Switch, cr_target = Some tgt,
      cr_identifiers = \<lparr>ci_hostname = hostname, ci_serial_number = Some (ch_serial ch), ci_dmi_uuid = None,
        ci_mac_address = []\<rparr>,
      cr_attributes = Some \<lparr>ha_hostname = hostname, ha_fqdn = None, ha_vendor = ch_vendor ch,
        ha_model = ch_model ch, ha_asset_tag = None\<rparr>,
      cr_interfaces = Some (map (\<lambda>(_, e). en_interface e) es)\<rparr>"

definition switch ::
  "(string \<Rightarrow> string) \<Rightarrow> string \<Rightarrow> answers \<Rightarrow> nat \<Rightarrow> map_error + (collector_resource \<times> sections)" where
  "switch lower tgt answers ttl =
     (case chassis answers of
        None \<Rightarrow> Inl (MapError (Text
          ''no chassis serial number in ENTITY-MIB; the switch cannot be identified''))
      | Some ch \<Rightarrow>
          let se = \<lparr>se_interface_neighbors = scalar answers lldp_loc_chassis_id \<noteq> None,
                    se_interface_vlans = scalar answers dot1q_vlan_version \<noteq> None\<rparr>;
              es = interfaces answers;
              es = (if se_interface_neighbors se then attach_neighbors lower answers es ttl else es)
          in (case (if se_interface_vlans se then attach_vlans answers es else Inr es) of
                Inl e \<Rightarrow> Inl e
              | Inr es \<Rightarrow> Inr (switch_resource tgt (Option.bind (scalar answers sys_name) text_of) ch es, se)))"

end
