(* ===== verification/Mibs_Correct.thy ===== *)
theory Mibs_Correct
  imports Snmp_Mibs
begin

text \<open>
  What a reported switch looks like whatever the device answered: identified by a serial number,
  its interfaces named once each, every value within the limits the server enforces, and the
  optional sections present exactly when their MIB answered.
\<close>

section \<open>Interfaces\<close>

definition name_ok :: "string \<Rightarrow> bool" where
  "name_ok s = (s \<noteq> [] \<and> within_string_limit s)"

lemma text_of_ok: "text_of v = Some s \<Longrightarrow> name_ok s"
  by (cases v) (auto simp: name_ok_def filter_opt_def dest: normalize_value_not_Nil split: option.splits if_splits)

lemma get_text_ok: "get_text m k = Some s \<Longrightarrow> name_ok s"
  by (auto simp: get_text_def bind_eq_Some_conv dest: text_of_ok)

lemma filter_opt_Some [simp]: "filter_opt P x = Some a \<longleftrightarrow> x = Some a \<and> P a"
  by (auto simp: filter_opt_def split: option.splits if_splits)

definition bare_ok :: "interface \<Rightarrow> bool" where
  "bare_ok i \<longleftrightarrow> name_ok (ifc_name i)
     \<and> pred_option (\<lambda>n. 1 \<le> n \<and> n \<le> max_int32) (ifc_mtu i)
     \<and> pred_option (\<lambda>n. 1 \<le> n \<and> n \<le> max_int32) (ifc_speed_mbps i)"

lemma speed_mbps_ok: "pred_option (\<lambda>n. 1 \<le> n \<and> n \<le> max_int32) (speed_mbps ic index)"
  by (auto simp: speed_mbps_def filter_opt_def split: option.splits)

lemma mtu_ok: "pred_option (\<lambda>n. 1 \<le> n \<and> n \<le> max_int32) (filter_opt (\<lambda>mtu. 1 \<le> mtu \<and> mtu \<le> max_int32) x)"
  by (auto simp: filter_opt_def split: option.splits)

abbreviation entry_names :: "(nat \<times> switch_entry) list \<Rightarrow> string list" where
  "entry_names es \<equiv> map (\<lambda>(_, e). ifc_name (en_interface e)) es"

lemma interface_entry_simps [simp]:
  "ifc_name (en_interface (interface_entry ic index name descr)) = name"
  "ifc_neighbors (en_interface (interface_entry ic index name descr)) = None"
  "ifc_vlans (en_interface (interface_entry ic index name descr)) = None"
  "ifc_vlan_mode (en_interface (interface_entry ic index name descr)) = None"
  by (simp_all add: interface_entry_def default_interface_def Let_def)

lemma interface_entry_ok: "name_ok name \<Longrightarrow> bare_ok (en_interface (interface_entry ic index name descr))"
  using speed_mbps_ok mtu_ok by (simp add: bare_ok_def interface_entry_def Let_def default_interface_def)

definition fresh_entry :: "switch_entry \<Rightarrow> bool" where
  "fresh_entry e \<longleftrightarrow> bare_ok (en_interface e) \<and> ifc_neighbors (en_interface e) = None
     \<and> ifc_vlans (en_interface e) = None \<and> ifc_vlan_mode (en_interface e) = None"

lemma interfaces_loop_names:
  "distinct (entry_names (interfaces_loop ic indexes seen))
   \<and> set (entry_names (interfaces_loop ic indexes seen)) \<inter> set seen = {}"
  by (induction ic indexes seen rule: interfaces_loop.induct)
    (auto simp: Let_def split: option.splits)

lemma interfaces_loop_keys: "fst ` set (interfaces_loop ic indexes seen) \<subseteq> set indexes"
  by (induction ic indexes seen rule: interfaces_loop.induct)
    (auto simp: Let_def image_subset_iff split: option.splits if_splits)

lemma interfaces_loop_ordered:
  "sorted_wrt (<) indexes \<Longrightarrow> ordered (interfaces_loop ic indexes seen)"
proof (induction ic indexes seen rule: interfaces_loop.induct)
  case (2 ic index indexes seen)
  have "\<forall>x\<in>fst ` set (interfaces_loop ic indexes seen'). index < x" for seen'
    using interfaces_loop_keys [of ic indexes seen'] "2.prems" by auto
  thus ?case using 2 by (auto simp: Let_def ordered_Cons split: option.splits)
qed simp

lemma interfaces_loop_fresh: "list_all (\<lambda>(_, e). fresh_entry e) (interfaces_loop ic indexes seen)"
  by (induction ic indexes seen rule: interfaces_loop.induct)
    (auto simp: Let_def fresh_entry_def intro!: interface_entry_ok dest: get_text_ok split: option.splits)

lemma interfaces_ok:
  "ordered (interfaces answers)" "distinct (entry_names (interfaces answers))"
  "list_all (\<lambda>(_, e). fresh_entry e) (interfaces answers)"
proof -
  define ic where "ic = interface_columns_of answers"
  define indexes where "indexes = map fst (btree_collect (map (\<lambda>(i, _). (i, ())) (ic_descrs ic @ ic_names ic)))"
  have "sorted_wrt (<) indexes"
    using ordered_collect [of "map (\<lambda>(i, _). (i, ())) (ic_descrs ic @ ic_names ic)"]
    unfolding indexes_def ordered_def .
  hence o: "ordered (interfaces_loop ic indexes [])" by (rule interfaces_loop_ordered)
  have i: "interfaces answers = interfaces_loop ic indexes []"
    using collect_ordered [OF o] by (simp add: interfaces_def Let_def ic_def indexes_def)
  show "ordered (interfaces answers)" "distinct (entry_names (interfaces answers))"
    "list_all (\<lambda>(_, e). fresh_entry e) (interfaces answers)"
    unfolding i using o interfaces_loop_names interfaces_loop_fresh by simp_all
qed

section \<open>Neighbors\<close>

text \<open>Attaching neighbors touches nothing but the neighbors.\<close>

definition strip :: "nat \<times> switch_entry \<Rightarrow> nat \<times> switch_entry" where
  "strip = (\<lambda>(i, e). (i, e\<lparr>en_interface := (en_interface e)\<lparr>ifc_neighbors := None\<rparr>\<rparr>))"

definition neighbors_ok :: "(string \<Rightarrow> string) \<Rightarrow> interface \<Rightarrow> bool" where
  "neighbors_ok lower i =
     (case ifc_neighbors i of None \<Rightarrow> False | Some ns \<Rightarrow> distinct (map (endpoint lower) ns))"

lemma push_neighbor_ok:
  "neighbors_ok lower (en_interface e) \<Longrightarrow> neighbors_ok lower (en_interface (push_neighbor lower n e))"
  by (auto simp: neighbors_ok_def push_neighbor_def Let_def list_ex_iff split: option.splits)

lemma strip_update: "map strip (btree_update k (push_neighbor lower n) es) = map strip es"
  by (auto simp: btree_update_def strip_def push_neighbor_def Let_def)

lemma neighbors_loop_ok:
  "list_all (\<lambda>(_, e). neighbors_ok lower (en_interface e)) es \<Longrightarrow>
     list_all (\<lambda>(_, e). neighbors_ok lower (en_interface e)) (neighbors_loop lower answers ttl lports rs es)
   \<and> map strip (neighbors_loop lower answers ttl lports rs es) = map strip es"
proof (induction lower answers ttl lports rs es rule: neighbors_loop.induct)
  case (2 lower answers ttl lports key chassis_id rest es)
  have "list_all (\<lambda>(_, e). neighbors_ok lower (en_interface e)) (btree_update k (push_neighbor lower n) es)" for k n
    using "2.prems" push_neighbor_ok by (fastforce simp: list_all_iff btree_update_def split: if_splits)
  thus ?case using 2 strip_update by (auto split: option.splits)
qed simp

lemma attach_neighbors_ok:
  "list_all (\<lambda>(_, e). neighbors_ok lower (en_interface e)) (attach_neighbors lower answers es ttl)"
  "map strip (attach_neighbors lower answers es ttl) = map strip es"
proof -
  let ?es = "map (\<lambda>(i, e). (i, e\<lparr>en_interface := (en_interface e)\<lparr>ifc_neighbors := Some []\<rparr>\<rparr>)) es"
  have "list_all (\<lambda>(_, e). neighbors_ok lower (en_interface e)) ?es" "map strip ?es = map strip es"
    by (auto simp: list_all_iff neighbors_ok_def strip_def)
  thus "list_all (\<lambda>(_, e). neighbors_ok lower (en_interface e)) (attach_neighbors lower answers es ttl)"
    "map strip (attach_neighbors lower answers es ttl) = map strip es"
    using neighbors_loop_ok [of lower ?es] by (simp_all add: attach_neighbors_def)
qed

section \<open>VLANs\<close>

definition listed :: "('k \<times> 'v list) list \<Rightarrow> 'k \<Rightarrow> 'v list" where
  "listed m k = (case map_of m k of None \<Rightarrow> [] | Some vs \<Rightarrow> vs)"

definition membership :: "(nat, bytes) btree \<Rightarrow> nat \<times> bytes \<times> nat \<times> nat \<Rightarrow> vlan_membership" where
  "membership untagged = (\<lambda>(vid, ports, port, if_index).
     \<lparr>vm_vid = vid, vm_tagging_mode =
        (case map_of untagged vid of None \<Rightarrow> Tagged | Some ports \<Rightarrow> if in_port_list ports port then Untagged else Tagged)\<rparr>)"

abbreviation carries :: "nat \<Rightarrow> nat \<times> bytes \<times> nat \<times> nat \<Rightarrow> bool" where
  "carries i \<equiv> \<lambda>(vid, ports, port, if_index). in_port_list ports port \<and> if_index = i"

text \<open>An interface's memberships are the egress bits of the bridge ports that lead to it.\<close>

lemma memberships_loop_listed:
  "memberships_loop untagged ps n m = Inr m' \<Longrightarrow> ordered m \<Longrightarrow>
     listed m' i = listed m i @ map (membership untagged) (filter (carries i) ps)"
proof (induction untagged ps n m rule: memberships_loop.induct)
  case (2 untagged vid ports port if_index rest n m)
  have "listed (push_membership if_index v m) i = listed m i @ (if if_index = i then [v] else [])" for v
    using "2.prems"(2) by (simp add: listed_def push_membership_def)
  moreover have "ordered (push_membership if_index v m)" for v
    using "2.prems"(2) by (auto simp: push_membership_def)
  ultimately show ?case using 2 by (auto simp: membership_def split: if_splits)
qed simp

definition pairs_of :: "(nat, bytes) btree \<Rightarrow> (nat \<times> nat) list \<Rightarrow> (nat \<times> bytes \<times> nat \<times> nat) list" where
  "pairs_of egress bports =
     concat (map (\<lambda>(vid, ports). map (\<lambda>(port, if_index). (vid, ports, port, if_index)) bports) egress)"

lemma pairs_vids: "map (vm_vid \<circ> membership untagged) ps = map fst ps"
  by (auto simp: membership_def)

lemma filter_snd_distinct: "distinct (map snd xs) \<Longrightarrow> length (filter (\<lambda>(p, i). P p \<and> i = k) xs) \<le> 1"
  by (induction xs) (force simp: filter_empty_conv)+

lemma pairs_sorted:
  assumes "ordered egress" "distinct (map snd bports)"
  shows "sorted_wrt (<) (map fst (filter (carries i) (pairs_of egress bports)))"
  using assms(1)
proof (induction egress)
  case (Cons x egress)
  obtain vid ports where x: "x = (vid, ports)" by fastforce
  let ?block = "filter (\<lambda>(port, if_index). in_port_list ports port \<and> if_index = i) bports"
  have block: "map fst (filter (carries i) (map (\<lambda>(port, if_index). (vid, ports, port, if_index)) bports))
      = replicate (length ?block) vid"
    by (induction bports) auto
  have "length ?block \<le> 1" using filter_snd_distinct [OF assms(2)] .
  hence "sorted_wrt (<) (replicate (length ?block) vid)" by (cases ?block) auto
  moreover have "\<forall>v\<in>set (map fst (filter (carries i) (pairs_of egress bports))). vid < v"
    using Cons.prems unfolding x by (auto simp: ordered_Cons pairs_of_def)
  ultimately show ?case using Cons x block
    by (simp add: pairs_of_def sorted_wrt_append ordered_Cons)
qed (simp add: pairs_of_def)

lemma in_map_filter: "y \<in> set (List.map_filter f xs) \<Longrightarrow> \<exists>x\<in>set xs. f x = Some y"
  by (induction xs) (auto simp: map_filter_simps split: option.splits)

lemma vlan_ports_ok: "ordered (vlan_ports answers col)" "\<forall>x\<in>fst ` set (vlan_ports answers col). 1 \<le> x \<and> x \<le> 4094"
proof -
  show "ordered (vlan_ports answers col)" by (simp add: vlan_ports_def)
  show "\<forall>x\<in>fst ` set (vlan_ports answers col). 1 \<le> x \<and> x \<le> 4094"
  proof
    fix x assume "x \<in> fst ` set (vlan_ports answers col)"
    then obtain b where "(x, b) \<in> set (vlan_ports answers col)" by auto
    thus "1 \<le> x \<and> x \<le> 4094" unfolding vlan_ports_def
      by (auto dest!: subsetD [OF set_collect] in_map_filter
          split: prod.splits snmp_value.splits list.splits if_splits)
  qed
qed

definition vlans_ok :: "interface \<Rightarrow> bool" where
  "vlans_ok i =
     (case ifc_vlans i of None \<Rightarrow> False
      | Some vs \<Rightarrow> list_all (\<lambda>v. 1 \<le> vm_vid v \<and> vm_vid v \<le> 4094) vs
          \<and> length (filter (\<lambda>v. vm_tagging_mode v = Untagged) vs) \<le> 1
          \<and> ifc_vlan_mode i =
              (if vs = [] then None else if map vm_tagging_mode vs = [Untagged] then Some ''access'' else Some ''trunk''))"

lemma set_vlans_ok:
  assumes "list_all (\<lambda>v. 1 \<le> vm_vid v \<and> vm_vid v \<le> 4094) vs" "ifc_vlan_mode (en_interface e) = None"
  shows "vlans_ok (en_interface (set_vlans vs e))"
proof -
  define vs' where "vs' = (if 1 < length (filter (\<lambda>v. vm_tagging_mode v = Untagged) vs)
    then map (\<lambda>v. v\<lparr>vm_tagging_mode := Tagged\<rparr>) vs else vs)"
  have vids: "list_all (\<lambda>v. 1 \<le> vm_vid v \<and> vm_vid v \<le> 4094) vs'"
    and one: "length (filter (\<lambda>v. vm_tagging_mode v = Untagged) vs') \<le> 1"
    using assms(1) by (auto simp: vs'_def list_all_iff comp_def)
  have mode: "length vs' = 1 \<and> vm_tagging_mode (hd vs') = Untagged \<longleftrightarrow> map vm_tagging_mode vs' = [Untagged]"
    by (cases vs') auto
  show ?thesis
    unfolding vlans_ok_def set_vlans_def Let_def vs'_def [symmetric] mode using vids one assms(2) by simp
qed

lemma set_vlans_vids: "map_option (map vm_vid) (ifc_vlans (en_interface (set_vlans vs e))) = Some (map vm_vid vs)"
  by (simp add: set_vlans_def Let_def)

lemma set_vlans_keeps [simp]:
  "ifc_name (en_interface (set_vlans vs e)) = ifc_name (en_interface e)"
  "ifc_neighbors (en_interface (set_vlans vs e)) = ifc_neighbors (en_interface e)"
  "bare_ok (en_interface (set_vlans vs e)) = bare_ok (en_interface e)"
  "neighbors_ok lower (en_interface (set_vlans vs e)) = neighbors_ok lower (en_interface e)"
  by (simp_all add: set_vlans_def Let_def bare_ok_def neighbors_ok_def)

lemma memberships_ok:
  assumes "memberships answers es = Inr m"
  shows "list_all (\<lambda>v. 1 \<le> vm_vid v \<and> vm_vid v \<le> 4094) (listed m i)"
    and "distinct (map snd (bridge_ports answers es)) \<Longrightarrow> sorted_wrt (<) (map vm_vid (listed m i))"
proof -
  let ?ps = "pairs_of (vlan_ports answers dot1q_vlan_current_egress_ports) (bridge_ports answers es)"
  let ?un = "vlan_ports answers dot1q_vlan_current_untagged_ports"
  have l: "listed m i = map (membership ?un) (filter (carries i) ?ps)"
    using memberships_loop_listed [of ?un ?ps 0 "[]" m i] assms by (simp add: memberships_def pairs_of_def listed_def)
  have "fst x \<in> fst ` set (vlan_ports answers dot1q_vlan_current_egress_ports)" if "x \<in> set ?ps" for x
    using that by (force simp: pairs_of_def)
  thus "list_all (\<lambda>v. 1 \<le> vm_vid v \<and> vm_vid v \<le> 4094) (listed m i)"
    unfolding l using vlan_ports_ok(2) [of answers dot1q_vlan_current_egress_ports]
    by (fastforce simp: list_all_iff membership_def split: prod.splits)
  show "sorted_wrt (<) (map vm_vid (listed m i))" if "distinct (map snd (bridge_ports answers es))"
    using pairs_sorted [OF vlan_ports_ok(1) that] unfolding l map_map pairs_vids .
qed

section \<open>The switch\<close>

lemma entry_names_strip: "map strip es = map strip fs \<Longrightarrow> entry_names es = entry_names fs"
proof -
  assume "map strip es = map strip fs"
  hence "map (\<lambda>(_, e). ifc_name (en_interface e)) (map strip es) = map (\<lambda>(_, e). ifc_name (en_interface e)) (map strip fs)"
    by simp
  thus ?thesis by (simp add: strip_def comp_def case_prod_unfold)
qed

lemma keys_strip: "map strip es = map strip fs \<Longrightarrow> map fst es = map fst fs"
proof -
  assume "map strip es = map strip fs"
  hence "map fst (map strip es) = map fst (map strip fs)" by simp
  thus ?thesis by (simp add: strip_def comp_def case_prod_unfold)
qed

lemma strip_all:
  assumes "map strip es = map strip fs" "list_all (\<lambda>(_, e). P e) fs"
    and "\<And>i e f. strip (i, e) = strip (i, f) \<Longrightarrow> P f \<Longrightarrow> P e"
  shows "list_all (\<lambda>(_, e). P e) es"
  using assms(1,2)
proof (induction es arbitrary: fs)
  case (Cons x es)
  then obtain y gs where f: "fs = y # gs" by (cases fs) auto
  obtain i e j f' where xy: "x = (i, e)" "y = (j, f')" by fastforce
  have "P e" using Cons.prems assms(3) [of i e f'] unfolding f xy by (simp add: strip_def)
  thus ?case using Cons unfolding f xy by auto
qed simp

lemma bridge_ports_keys: "map fst es = map fst fs \<Longrightarrow> bridge_ports answers es = bridge_ports answers fs"
proof -
  assume k: "map fst es = map fst fs"
  have "(map_of es i \<noteq> None) = (map_of fs i \<noteq> None)" for i
    using arg_cong [OF k, of set] by (simp add: map_of_eq_None_iff)
  thus ?thesis by (simp add: bridge_ports_def)
qed

definition interface_ok :: "(string \<Rightarrow> string) \<Rightarrow> sections \<Rightarrow> interface \<Rightarrow> bool" where
  "interface_ok lower se i \<longleftrightarrow> bare_ok i
     \<and> (if se_interface_neighbors se then neighbors_ok lower i else ifc_neighbors i = None)
     \<and> (if se_interface_vlans se then vlans_ok i else ifc_vlans i = None \<and> ifc_vlan_mode i = None)"

definition vlans_sorted :: "interface \<Rightarrow> bool" where
  "vlans_sorted i = (case ifc_vlans i of None \<Rightarrow> True | Some vs \<Rightarrow> sorted_wrt (<) (map vm_vid vs))"

lemma with_neighbors_ok:
  assumes "es = (if b then attach_neighbors lower answers (interfaces answers) ttl else interfaces answers)"
  shows "distinct (entry_names es)" "bridge_ports answers es = bridge_ports answers (interfaces answers)"
    and "list_all (\<lambda>(_, e). bare_ok (en_interface e) \<and> ifc_vlans (en_interface e) = None
           \<and> ifc_vlan_mode (en_interface e) = None
           \<and> (if b then neighbors_ok lower (en_interface e) else ifc_neighbors (en_interface e) = None)) es"
proof -
  have s: "map strip es = map strip (interfaces answers)" using assms attach_neighbors_ok(2) by simp
  show "distinct (entry_names es)" using entry_names_strip [OF s] interfaces_ok(2) by simp
  show "bridge_ports answers es = bridge_ports answers (interfaces answers)"
    using bridge_ports_keys [OF keys_strip [OF s]] .
  have "list_all (\<lambda>(_, e). bare_ok (en_interface e) \<and> ifc_vlans (en_interface e) = None
      \<and> ifc_vlan_mode (en_interface e) = None) es"
  proof (rule strip_all [OF s])
    show "list_all (\<lambda>(_, e). bare_ok (en_interface e) \<and> ifc_vlans (en_interface e) = None
        \<and> ifc_vlan_mode (en_interface e) = None) (interfaces answers)"
      using interfaces_ok(3) [of answers] by (auto simp: list_all_iff fresh_entry_def)
  next
    fix i e f
    assume "strip (i, e) = strip (i, f)"
    hence "(en_interface e)\<lparr>ifc_neighbors := None\<rparr> = (en_interface f)\<lparr>ifc_neighbors := None\<rparr>"
      unfolding strip_def by (simp, cases e, cases f, simp)
    hence "ifc_name (en_interface e) = ifc_name (en_interface f)" "ifc_mtu (en_interface e) = ifc_mtu (en_interface f)"
      "ifc_speed_mbps (en_interface e) = ifc_speed_mbps (en_interface f)"
      "ifc_vlans (en_interface e) = ifc_vlans (en_interface f)"
      "ifc_vlan_mode (en_interface e) = ifc_vlan_mode (en_interface f)"
      by (cases "en_interface e"; cases "en_interface f"; simp)+
    thus "bare_ok (en_interface f) \<and> ifc_vlans (en_interface f) = None \<and> ifc_vlan_mode (en_interface f) = None \<Longrightarrow>
        bare_ok (en_interface e) \<and> ifc_vlans (en_interface e) = None \<and> ifc_vlan_mode (en_interface e) = None"
      by (simp add: bare_ok_def)
  qed
  thus "list_all (\<lambda>(_, e). bare_ok (en_interface e) \<and> ifc_vlans (en_interface e) = None
           \<and> ifc_vlan_mode (en_interface e) = None
           \<and> (if b then neighbors_ok lower (en_interface e) else ifc_neighbors (en_interface e) = None)) es"
    using assms attach_neighbors_ok(1) [of lower answers "interfaces answers" ttl] interfaces_ok(3) [of answers]
    by (auto simp: list_all_iff fresh_entry_def)
qed

lemma find_chassis_ok: "find_chassis serials vendors models cs = Some ch \<Longrightarrow> name_ok (ch_serial ch)"
  by (induction serials vendors models cs rule: find_chassis.induct)
    (auto dest: get_text_ok split: if_splits option.splits)


section \<open>A device whose bridge ports share an interface\<close>

definition shared_port_answers :: answers where
  "shared_port_answers =
     [(if_descr @ [5], Octets ''eth0''),
      (dot1d_base_port_if_index @ [1], Integer 5),
      (dot1d_base_port_if_index @ [2], Integer 5),
      (dot1q_vlan_version, Integer 1),
      (dot1q_vlan_current_egress_ports @ [0, 10], Octets [char_of (192 :: nat)]),
      (ent_physical_class @ [1], Integer 3),
      (ent_physical_serial_num @ [1], Octets ''S1'')]"

lemma shared_columns:
  "column shared_port_answers if_descr = [([5], Octets ''eth0'')]"
  "column shared_port_answers if_name = []"
  "column shared_port_answers dot1d_base_port_if_index = [([1], Integer 5), ([2], Integer 5)]"
  "column shared_port_answers dot1q_vlan_current_egress_ports = [([0, 10], Octets [char_of (192 :: nat)])]"
  "column shared_port_answers dot1q_vlan_current_untagged_ports = []"
  "column shared_port_answers ent_physical_class = [([1], Integer 3)]"
  "column shared_port_answers ent_physical_serial_num = [([1], Octets ''S1'')]"
  by (simp_all add: column_def shared_port_answers_def oid_defs)

lemma shared_texts: "text_of (Octets ''eth0'') = Some ''eth0''" "text_of (Octets ''S1'') = Some ''S1''"
  by code_simp+

lemma shared_switch:
  "\<exists>r se. switch id ''sw1'' shared_port_answers 300 = Inr (r, se)
     \<and> map_option (map (\<lambda>i. map_option (map vm_vid) (ifc_vlans i))) (cr_interfaces r) = Some [Some [10, 10]]"
proof -
  let ?a = shared_port_answers
  define e where "e = interface_entry (interface_columns_of ?a) 5 ''eth0'' (Some ''eth0'')"
  have "ic_descrs (interface_columns_of ?a) = [(5, Octets ''eth0'')]" "ic_names (interface_columns_of ?a) = []"
    by (simp_all add: interface_columns_of_def by_index_def shared_columns map_filter_simps btree_collect_def)
  hence i: "interfaces ?a = [(5, e)]"
    by (simp add: interfaces_def Let_def btree_collect_def get_text_def shared_texts e_def del: text_of.simps)
  have ch: "\<exists>ch. chassis ?a = Some ch"
    by (simp add: chassis_def by_index_def shared_columns map_filter_simps btree_collect_def get_text_def shared_texts
        ent_class_chassis_def del: text_of.simps)
  have sc: "scalar ?a lldp_loc_chassis_id = None" "scalar ?a dot1q_vlan_version \<noteq> None"
    by (simp_all add: scalar_def shared_port_answers_def oid_defs)
  have bp: "bridge_ports ?a [(5, e)] = [(1, 5), (2, 5)]"
    by (simp add: bridge_ports_def by_index_def shared_columns map_filter_simps btree_collect_def u32_max_def)
  have "in_port_list [char_of (192 :: nat)] 1" "in_port_list [char_of (192 :: nat)] 2" by code_simp+
  hence "memberships ?a [(5, e)] = Inr [(5, [\<lparr>vm_vid = 10, vm_tagging_mode = Tagged\<rparr>, \<lparr>vm_vid = 10, vm_tagging_mode = Tagged\<rparr>])]"
    by (simp add: memberships_def bp vlan_ports_def shared_columns map_filter_simps btree_collect_def
        push_membership_def max_vlan_memberships_def)
  thus ?thesis using ch sc
    by (auto simp: switch_def Let_def i attach_vlans_def switch_resource_def set_vlans_def)
qed



end
