(* ===== verification/Switch_Report.thy ===== *)
theory Switch_Report
  imports Snmp_Mibs
begin

text \<open>
  Switch poller reports and the polling around them (\<open>switch_report.rs\<close>, \<open>snmp/mod.rs\<close>,
  \<open>snmp/worker.rs\<close>). serde\_json's encoding, fresh identifiers and the wall clock are parameters.
\<close>

section \<open>Outcomes\<close>

definition neighbor_ttl_polls :: nat where "neighbor_ttl_polls = 3"
definition target_entry_bytes :: nat where "target_entry_bytes = 96"
definition report_envelope_bytes :: nat where "report_envelope_bytes = 1024"
definition poll_wait_slice :: duration where "poll_wait_slice = millis 250"

record target_outcome =
  to_address :: string
  to_result :: "string + collector_resource \<times> sections"

definition neighbor_ttl :: "duration \<Rightarrow> nat" where
  "neighbor_ttl interval =
     min (min ((if as_secs interval \<le> u32_max then as_secs interval else u32_max) * neighbor_ttl_polls) u32_max) 65535"

section \<open>Encoding\<close>

record 'w report_env =
  e_fresh :: "'w \<Rightarrow> (string \<times> system_time) \<times> 'w"
  e_to_vec :: "scoped_report \<Rightarrow> bytes option"
  e_resource_len :: "collector_resource \<Rightarrow> nat option"

fun outcome_status :: "target_outcome \<Rightarrow> target_status" where
  "outcome_status o' =
     (case to_result o' of
        Inr _ \<Rightarrow> \<lparr>ts_address = to_address o', ts_status = Reachable, ts_error = None\<rparr>
      | Inl error \<Rightarrow> \<lparr>ts_address = to_address o', ts_status = Unreachable,
                       ts_error = Some (take_chars max_string_chars error)\<rparr>)"

definition reached :: "target_outcome list \<Rightarrow> (collector_resource \<times> sections) list" where
  "reached os = List.map_filter (\<lambda>o'. case to_result o' of Inl _ \<Rightarrow> None | Inr rs \<Rightarrow> Some rs) os"

definition targets_report :: "string \<Rightarrow> target_outcome list \<Rightarrow> string \<times> system_time \<Rightarrow> scoped_report" where
  "targets_report collector_id os = (\<lambda>(i, now).
     with_section_completeness
       \<lparr>sc_interface_vlans = reached os \<noteq> [] \<and> list_all (\<lambda>(_, se). se_interface_vlans se) (reached os),
        sc_interface_neighbors = reached os \<noteq> [] \<and> list_all (\<lambda>(_, se). se_interface_neighbors se) (reached os)\<rparr>
       (scoped_report_new i now collector_id SwitchPoller (map outcome_status os) True (map fst (reached os))))"

definition encode ::
  "'w report_env \<Rightarrow> string \<Rightarrow> target_outcome list \<Rightarrow> 'w \<Rightarrow> (string \<times> bytes) option \<times> 'w" where
  "encode env collector_id os w =
     (if os = [] then (None, w)
      else (case e_fresh env w of (f, w) \<Rightarrow>
        (case e_to_vec env (targets_report collector_id os f) of
           None \<Rightarrow> (None, w)
         | Some body \<Rightarrow>
             (if length body \<le> max_observation_bytes then Some (fst f, body) else None, w))))"

definition encoded_size :: "'w report_env \<Rightarrow> target_outcome \<Rightarrow> nat" where
  "encoded_size env o' =
     (case to_result o' of
        Inr (resource, _) \<Rightarrow> (case e_resource_len env resource of None \<Rightarrow> 0 | Some n \<Rightarrow> n)
      | Inl error \<Rightarrow> length error)
     + length (to_address o') + target_entry_bytes"

definition too_large :: string where
  "too_large = ''the switch's report exceeds '' @ dec max_observation_bytes @ '' bytes''"

definition within_limit ::
  "'w report_env \<Rightarrow> string \<Rightarrow> target_outcome \<Rightarrow> 'w \<Rightarrow> target_outcome \<times> 'w" where
  "within_limit env collector_id o' w =
     (if isl (to_result o') then (o', w)
      else (case encode env collector_id [o'] w of
        (Some _, w) \<Rightarrow> (o', w)
      | (None, w) \<Rightarrow> (\<lparr>to_address = to_address o', to_result = Inl too_large\<rparr>, w)))"

section \<open>Batches\<close>

fun pack ::
  "'w report_env \<Rightarrow> string \<Rightarrow> target_outcome list \<Rightarrow> target_outcome list list \<Rightarrow> nat \<Rightarrow> 'w
   \<Rightarrow> target_outcome list list \<times> 'w" where
  \<comment> \<open>\<open>batches\<close> is a stack: its last element comes first\<close>
  "pack env collector_id [] batches used w = (batches, w)"
| "pack env collector_id (o' # os) batches used w =
     (case within_limit env collector_id o' w of (o', w) \<Rightarrow>
      let sz = encoded_size env o';
          fresh = (max_observation_bytes - report_envelope_bytes < used + sz \<or> batches = []);
          used = (if fresh then 0 else used);
          batches = (if fresh then [] # batches else batches)
      in pack env collector_id os ((hd batches @ [o']) # tl batches) (used + sz) w)"

definition batch_weight :: "'a list \<Rightarrow> nat" where
  "batch_weight b = max 1 (2 * length b - 1)"

lemma batch_weight_pos [simp]: "0 < batch_weight b"
  by (simp add: batch_weight_def)

lemma batch_weight_split:
  assumes "1 < length b"
  shows "batch_weight (take (length b div 2) b) + batch_weight (drop (length b div 2) b) < batch_weight b"
proof -
  have k: "1 \<le> length b div 2" "length b div 2 < length b" using assms by linarith+
  have "batch_weight (take (length b div 2) b) = 2 * (length b div 2) - 1"
    "batch_weight (drop (length b div 2) b) = 2 * (length b - length b div 2) - 1"
    "batch_weight b = 2 * length b - 1"
    using k by (simp_all add: batch_weight_def max_def)
  thus ?thesis using k by linarith
qed

function unload ::
  "'w report_env \<Rightarrow> string \<Rightarrow> target_outcome list list \<Rightarrow> (string \<times> bytes) list \<Rightarrow> 'w
   \<Rightarrow> (string \<times> bytes) list \<times> 'w" where
  "unload env collector_id [] rs w = (rs, w)"
| "unload env collector_id (batch # batches) rs w =
     (case encode env collector_id batch w of
        (Some r, w) \<Rightarrow> unload env collector_id batches (rs @ [r]) w
      | (None, w) \<Rightarrow>
          if 1 < length batch
          then unload env collector_id
                 (take (length batch div 2) batch # drop (length batch div 2) batch # batches) rs w
          else unload env collector_id batches rs w)"
  by pat_completeness auto
termination
  by (relation "measure (\<lambda>(_, _, bs, _, _). sum_list (map batch_weight bs))") (use batch_weight_split in auto)

definition switch_reports ::
  "'w report_env \<Rightarrow> string \<Rightarrow> target_outcome list \<Rightarrow> 'w \<Rightarrow> (string \<times> bytes) list \<times> 'w" where
  "switch_reports env collector_id os w =
     (case pack env collector_id os [] 0 w of (batches, w) \<Rightarrow>
      case unload env collector_id batches [] w of (rs, w) \<Rightarrow> (rev rs, w))"

section \<open>Polling several targets at once\<close>

text \<open>
  \<open>snmp::each\<close>: worker threads share a counter and a locked result list. One step is a
  \<open>fetch_add\<close> that yields an item or ends the worker, or the push of a finished read. The results
  are sorted by index after every worker ended.
\<close>

datatype each_worker = Idle | Busy nat | Done

record 'b pool =
  p_next :: nat
  p_workers :: "each_worker list"
  p_results :: "(nat \<times> 'b) list"

definition pool_start :: "nat \<Rightarrow> 'a list \<Rightarrow> 'b pool" where
  "pool_start max_concurrent items =
     \<lparr>p_next = 0, p_workers = replicate (min max_concurrent (length items)) Idle, p_results = []\<rparr>"

inductive each_step :: "('a \<Rightarrow> 'b) \<Rightarrow> 'a list \<Rightarrow> 'b pool \<Rightarrow> 'b pool \<Rightarrow> bool"
  for read :: "'a \<Rightarrow> 'b" and items :: "'a list" where
  fetch: "\<lbrakk>k < length (p_workers p); p_workers p ! k = Idle; p_next p < length items\<rbrakk> \<Longrightarrow>
    each_step read items p (p\<lparr>p_next := Suc (p_next p), p_workers := (p_workers p)[k := Busy (p_next p)]\<rparr>)"
| leave: "\<lbrakk>k < length (p_workers p); p_workers p ! k = Idle; length items \<le> p_next p\<rbrakk> \<Longrightarrow>
    each_step read items p (p\<lparr>p_next := Suc (p_next p), p_workers := (p_workers p)[k := Done]\<rparr>)"
| finish: "\<lbrakk>k < length (p_workers p); p_workers p ! k = Busy i\<rbrakk> \<Longrightarrow>
    each_step read items p (p\<lparr>p_workers := (p_workers p)[k := Idle],
                              p_results := p_results p @ [(i, read (items ! i))]\<rparr>)"

definition ended :: "'b pool \<Rightarrow> bool" where
  "ended p = list_all (\<lambda>w. w = Done) (p_workers p)"

definition each_results :: "'b pool \<Rightarrow> 'b list" where
  "each_results p = map snd (sort_key fst (p_results p))"

definition poll_each_read ::
  "(target \<Rightarrow> bool) \<Rightarrow> (target \<Rightarrow> string + collector_resource \<times> sections) \<Rightarrow> target \<Rightarrow> target_outcome" where
  \<comment> \<open>what \<open>poll_each\<close> runs for one target: whether the module was stopped by then, and the poll\<close>
  "poll_each_read stopped poll_target tgt =
     \<lparr>to_address = t_address tgt,
      to_result = (if stopped tgt then Inl ''polling was cancelled'' else poll_target tgt)\<rparr>"

definition target_budget_timeouts :: nat where "target_budget_timeouts = 24"

text \<open>One target: connect, read, map. \<open>display\<close> is the text of an error.\<close>

definition poll_target ::
  "(error_text \<Rightarrow> string) \<Rightarrow> (string \<Rightarrow> string) \<Rightarrow> (target \<Rightarrow> 'w \<Rightarrow> (poll_error + 'w snmp_session) \<times> 'w)
   \<Rightarrow> ('w \<Rightarrow> instant \<times> 'w) \<Rightarrow> target \<Rightarrow> duration \<Rightarrow> nat \<Rightarrow> 'w
   \<Rightarrow> (string + collector_resource \<times> sections) \<times> 'w" where
  "poll_target display lower open' clock tgt budget ttl w =
     (case clock w of (now, w) \<Rightarrow>
      case open' tgt w of
        (Inl (PollError e), w) \<Rightarrow> (Inl (display e), w)
      | (Inr s, w) \<Rightarrow>
          (case read_device s (now + budget) scalars columns w of
             (Inl (PollError e), w) \<Rightarrow> (Inl (display e), w)
           | (Inr answers, w) \<Rightarrow>
               ((case switch lower (t_address tgt) answers ttl of
                   Inl (MapError e) \<Rightarrow> Inl (display e) | Inr r \<Rightarrow> Inr r), w)))"

section \<open>One module's loop\<close>

record 'w module_env =
  m_stopped :: "'w \<Rightarrow> bool \<times> 'w"
  m_now :: "'w \<Rightarrow> instant \<times> 'w"
  m_poll :: "'w \<Rightarrow> target_outcome list \<times> 'w"
  m_sink :: "string \<Rightarrow> bytes \<Rightarrow> 'w \<Rightarrow> 'w"
  m_sleep :: "duration \<Rightarrow> 'w \<Rightarrow> 'w"

partial_function (option) wait_until :: "'w module_env \<Rightarrow> instant \<Rightarrow> 'w \<Rightarrow> 'w option" where
  "wait_until env until w =
     (case m_stopped env w of (stop, w) \<Rightarrow>
      if stop then Some w
      else (case m_now env w of (now, w) \<Rightarrow>
        if until \<le> now then Some w
        else (case m_now env w of (now, w) \<Rightarrow> wait_until env until (m_sleep env (min poll_wait_slice (until - now)) w))))"

definition cycle ::
  "'w module_env \<Rightarrow> 'w report_env \<Rightarrow> string \<Rightarrow> duration \<Rightarrow> 'w \<Rightarrow> (instant option) option \<times> 'w" where
  \<comment> \<open>one turn of the loop up to its wait: \<open>None\<close> when stopped; the instant to wait for is itself
    \<open>None\<close> when \<open>started + interval\<close> panics\<close>
  "cycle env renv collector_id interval w =
     (case m_now env w of (started, w) \<Rightarrow>
      case m_poll env w of (outcomes, w) \<Rightarrow>
      case m_stopped env w of (stop, w) \<Rightarrow>
      if stop then (None, w)
      else (case switch_reports renv collector_id outcomes w of (rs, w) \<Rightarrow>
        (Some (instant_add started interval), fold (\<lambda>(i, body). m_sink env i body) rs w)))"

datatype module_end = Stopped | Panicked

partial_function (option) run_module ::
  "'w module_env \<Rightarrow> 'w report_env \<Rightarrow> string \<Rightarrow> duration \<Rightarrow> 'w \<Rightarrow> (module_end \<times> 'w) option" where
  "run_module env renv collector_id interval w =
     (case m_stopped env w of (stop, w) \<Rightarrow>
      if stop then Some (Stopped, w)
      else (case cycle env renv collector_id interval w of (turn, w) \<Rightarrow>
        if turn = None then Some (Stopped, w)
        else if the turn = None then Some (Panicked, w)
        else Option.bind (wait_until env (the (the turn)) w) (run_module env renv collector_id interval)))"

end
