(* ===== verification/Switch_Correct.thy ===== *)
theory Switch_Correct
  imports Switch_Report "HOL-Library.Multiset"
begin

text \<open>
  Splitting a poll into reports loses no target: every outcome appears in exactly one report, each
  within the size the server accepts. And running the polls on several threads gives what running
  them one after the other would.
\<close>

section \<open>Batches\<close>

definition report_fits :: "'w report_env \<Rightarrow> string \<Rightarrow> target_outcome list \<Rightarrow> string \<times> system_time \<Rightarrow> bool" where
  "report_fits env collector_id os f =
     (case e_to_vec env (targets_report collector_id os f) of
        None \<Rightarrow> False | Some body \<Rightarrow> length body \<le> max_observation_bytes)"

definition limited :: "'w report_env \<Rightarrow> string \<Rightarrow> target_outcome \<Rightarrow> target_outcome" where
  "limited env collector_id o' =
     (if isl (to_result o') \<or> report_fits env collector_id [o'] ([], 0) then o'
      else \<lparr>to_address = to_address o', to_result = Inl too_large\<rparr>)"

definition carries_batch :: "'w report_env \<Rightarrow> string \<Rightarrow> target_outcome list \<Rightarrow> string \<times> bytes \<Rightarrow> bool" where
  "carries_batch env collector_id b = (\<lambda>(i, body). b \<noteq> [] \<and> length body \<le> max_observation_bytes
     \<and> (\<exists>now. e_to_vec env (targets_report collector_id b (i, now)) = Some body))"

definition size_stable :: "'w report_env \<Rightarrow> string \<Rightarrow> bool" where
  \<comment> \<open>an identifier and a timestamp take the same room in every report\<close>
  "size_stable env collector_id \<longleftrightarrow> (\<forall>os f g. report_fits env collector_id os f = report_fits env collector_id os g)"

lemma encode_Some:
  "encode env collector_id os w = (Some r, w') \<Longrightarrow> carries_batch env collector_id os r"
  by (auto simp: encode_def carries_batch_def split: if_splits prod.splits option.splits)

lemma encode_None:
  assumes "size_stable env collector_id" "encode env collector_id os w = (None, w')" "os \<noteq> []"
  shows "\<not> report_fits env collector_id os f"
proof -
  obtain g w1 where g: "e_fresh env w = (g, w1)" by fastforce
  have "\<not> report_fits env collector_id os g"
    using assms(2,3) g by (auto simp: encode_def report_fits_def split: if_splits option.splits)
  thus ?thesis using assms(1) unfolding size_stable_def by blast
qed

lemma encode_Some_fits:
  assumes "size_stable env collector_id" "encode env collector_id os w = (Some r, w')"
  shows "report_fits env collector_id os f"
proof -
  obtain i body now where r: "r = (i, body)" "e_to_vec env (targets_report collector_id os (i, now)) = Some body"
    "length body \<le> max_observation_bytes"
    using encode_Some [OF assms(2)] by (auto simp: carries_batch_def)
  hence "report_fits env collector_id os (i, now)" by (simp add: report_fits_def)
  thus ?thesis using assms(1) unfolding size_stable_def by blast
qed

lemma within_limit_limited:
  assumes "size_stable env collector_id"
  shows "fst (within_limit env collector_id o' w) = limited env collector_id o'"
proof (cases "encode env collector_id [o'] w")
  case (Pair r w')
  thus ?thesis
    using encode_None [OF assms, of "[o']" w w' "([], 0)"] encode_Some_fits [OF assms, of "[o']" w _ w' "([], 0)"]
    by (cases r) (auto simp: within_limit_def limited_def)
qed

lemma pack_outcomes:
  assumes "size_stable env collector_id"
  shows "mset (concat (fst (pack env collector_id os batches used w))) =
     mset (map (limited env collector_id) os) + mset (concat batches)"
proof (induction os arbitrary: batches used w)
  case (Cons o' os)
  obtain o1 w1 where o1: "within_limit env collector_id o' w = (o1, w1)" by fastforce
  hence "o1 = limited env collector_id o'" using within_limit_limited [OF assms, of o' w] by simp
  thus ?case using o1 Cons.IH by (cases batches) (auto simp: Let_def)
qed simp

lemma unload_batches:
  assumes "size_stable env collector_id"
  shows "list_all (list_all (\<lambda>o'. report_fits env collector_id [o'] ([], 0))) batches \<Longrightarrow>
     \<exists>bs rs'. fst (unload env collector_id batches rs w) = rs @ rs'
       \<and> list_all2 (carries_batch env collector_id) bs rs' \<and> mset (concat bs) = mset (concat batches)"
  using assms
proof (induction env collector_id batches rs w rule: unload.induct)
  case (2 env collector_id batch batches rs w)
  obtain r w1 where e: "encode env collector_id batch w = (r, w1)" by fastforce
  show ?case
  proof (cases r)
    case (Some x)
    then obtain bs rs' where "fst (unload env collector_id batches (rs @ [x]) w1) = (rs @ [x]) @ rs'"
      "list_all2 (carries_batch env collector_id) bs rs'" "mset (concat bs) = mset (concat batches)"
      using "2.IH"(3) [OF e [symmetric] Some] "2.prems" by auto
    thus ?thesis using e Some encode_Some [of env collector_id batch w x w1]
      by (intro exI [of _ "batch # bs"] exI [of _ "x # rs'"]) simp
  next
    case None
    show ?thesis
    proof (cases "1 < length batch")
      case True
      let ?k = "length batch div 2"
      have "list_all (list_all (\<lambda>o'. report_fits env collector_id [o'] ([], 0))) (take ?k batch # drop ?k batch # batches)"
        using "2.prems" by (auto simp: list_all_iff dest: in_set_takeD in_set_dropD)
      moreover have "mset (concat (take ?k batch # drop ?k batch # batches)) = mset (concat (batch # batches))"
        by (metis append_take_drop_id append_assoc concat.simps(2))
      moreover have "unload env collector_id (batch # batches) rs w =
          unload env collector_id (take ?k batch # drop ?k batch # batches) rs w1"
        by (subst unload.simps) (simp only: e None True prod.case option.case if_True)
      ultimately show ?thesis using "2.IH"(1) [OF e [symmetric] None True] "2.prems"(2) by metis
    next
      case False
      have "batch = []"
      proof (rule ccontr)
        assume "batch \<noteq> []"
        with False obtain o' where b: "batch = [o']" by (cases batch) auto
        show False using encode_None [OF "2.prems"(2), of batch w w1 "([], 0)"] e None "2.prems" b by simp
      qed
      thus ?thesis using "2.IH"(2) [OF e [symmetric] None False] e None False "2.prems" by simp
    qed
  qed
qed (auto intro: exI [of _ "[]"])


definition plain_env :: "unit report_env" where
  "plain_env = \<lparr>e_fresh = (\<lambda>w. ((''0001'', 0), w)),
     e_to_vec = (\<lambda>r. Some (concat (map (\<lambda>t. ts_address t @ '';'') (sr_targets r)))), e_resource_len = (\<lambda>_. Some 2)\<rparr>"

lemma plain_env_fits:
  "report_fits plain_env collector_id os f \<longleftrightarrow> length (concat (map (\<lambda>o'. to_address o' @ '';'') os)) \<le> max_observation_bytes"
proof -
  have "ts_address (outcome_status o') = to_address o'" for o' by (auto split: sum.splits)
  thus ?thesis
    by (cases f) (simp add: report_fits_def plain_env_def targets_report_def with_section_completeness_def
        scoped_report_new_def comp_def)
qed


section \<open>Concurrent polls\<close>

fun held1 :: "each_worker \<Rightarrow> nat list" where
  "held1 (Busy i) = [i]"
| "held1 _ = []"

definition held :: "each_worker list \<Rightarrow> nat list" where
  "held ws = concat (map held1 ws)"

lemma length_held: "length (held ws) \<le> length ws"
proof (induction ws)
  case (Cons w ws)
  have "length (held1 w) \<le> 1" by (cases w) auto
  thus ?case using Cons by (simp add: held_def)
qed (simp add: held_def)

lemma held_update:
  assumes "k < length ws"
  shows "mset (held (ws[k := w])) + mset (held1 (ws ! k)) = mset (held ws) + mset (held1 w)"
proof -
  have "held ws = held (take k ws @ ws ! k # drop (Suc k) ws)"
    by (rule arg_cong [OF id_take_nth_drop [OF assms]])
  thus ?thesis by (simp add: upd_conv_take_nth_drop [OF assms] held_def)
qed

lemma held_steps:
  assumes "k < length ws"
  shows "ws ! k = Idle \<Longrightarrow> mset (held (ws[k := Busy i])) = add_mset i (mset (held ws))"
    and "ws ! k = Idle \<Longrightarrow> mset (held (ws[k := Done])) = mset (held ws)"
    and "ws ! k = Busy i \<Longrightarrow> mset (held ws) = add_mset i (mset (held (ws[k := Idle])))"
  using held_update [OF assms, of "Busy i"] held_update [OF assms, of Done] held_update [OF assms, of Idle] by simp_all

definition pool_ok :: "('a \<Rightarrow> 'b) \<Rightarrow> 'a list \<Rightarrow> nat \<Rightarrow> 'b pool \<Rightarrow> bool" where
  "pool_ok read items n p \<longleftrightarrow> length (p_workers p) = n
     \<and> image_mset fst (mset (p_results p)) + mset (held (p_workers p)) = mset [0..<min (p_next p) (length items)]
     \<and> (\<forall>x\<in>set (p_results p). snd x = read (items ! fst x))
     \<and> (Done \<in> set (p_workers p) \<longrightarrow> length items \<le> p_next p)"

lemma pool_ok_start: "pool_ok read items (min c (length items)) (pool_start c items)"
proof -
  have "held (replicate m Idle) = []" for m by (simp add: held_def)
  thus ?thesis by (simp add: pool_ok_def pool_start_def)
qed

lemma Done_update: "w \<noteq> Done \<Longrightarrow> Done \<in> set (ws[k := w]) \<Longrightarrow> Done \<in> set ws"
  using set_update_subset_insert [of ws k w] by auto

lemma upt_min_Suc: "n < m \<Longrightarrow> mset [0..<min (Suc n) m] = add_mset n (mset [0..<min n m])"
  by (simp add: min_def)

lemma pool_ok_step: "each_step read items p q \<Longrightarrow> pool_ok read items n p \<Longrightarrow> pool_ok read items n q"
proof (induction rule: each_step.induct)
  case (fetch k p)
  show ?case unfolding pool_ok_def
  proof (intro conjI)
    show "image_mset fst (mset (p_results (p\<lparr>p_next := Suc (p_next p), p_workers := (p_workers p)[k := Busy (p_next p)]\<rparr>)))
        + mset (held (p_workers (p\<lparr>p_next := Suc (p_next p), p_workers := (p_workers p)[k := Busy (p_next p)]\<rparr>)))
        = mset [0..<min (p_next (p\<lparr>p_next := Suc (p_next p), p_workers := (p_workers p)[k := Busy (p_next p)]\<rparr>)) (length items)]"
      using fetch by (simp add: pool_ok_def held_steps(1) upt_min_Suc del: mset_upt)
  qed (use fetch Done_update [of "Busy (p_next p)" "p_workers p" k] in \<open>auto simp: pool_ok_def\<close>)
next
  case (leave k p)
  hence "min (Suc (p_next p)) (length items) = min (p_next p) (length items)" by simp
  thus ?case using leave by (simp add: pool_ok_def held_steps(2) del: mset_upt)
next
  case (finish k p i)
  thus ?case using held_steps(3) [OF finish(1,2)] Done_update [of Idle "p_workers p" k]
    by (auto simp: pool_ok_def simp del: mset_upt)
qed

lemma pool_ok_steps:
  "(each_step read items ^^ m) (pool_start c items) p \<Longrightarrow> pool_ok read items (min c (length items)) p"
  by (induction m arbitrary: p) (auto intro: pool_ok_start pool_ok_step)

text \<open>Every step uses up a share of the work still to do.\<close>

definition work_left :: "'a list \<Rightarrow> 'b pool \<Rightarrow> nat" where
  "work_left items p = 2 * (length items - p_next p) + length (held (p_workers p))
     + length (filter (\<lambda>w. w \<noteq> Done) (p_workers p))"

lemma alive_update:
  assumes "k < length ws"
  shows "length (filter (\<lambda>w. w \<noteq> Done) (ws[k := w])) + (if ws ! k = Done then 0 else 1)
    = length (filter (\<lambda>w. w \<noteq> Done) ws) + (if w = Done then 0 else 1)"
proof -
  have "filter (\<lambda>w. w \<noteq> Done) ws = filter (\<lambda>w. w \<noteq> Done) (take k ws @ ws ! k # drop (Suc k) ws)"
    by (rule arg_cong [OF id_take_nth_drop [OF assms]])
  thus ?thesis by (simp add: upd_conv_take_nth_drop [OF assms])
qed

lemma work_left_step: "each_step read items p q \<Longrightarrow> work_left items q < work_left items p"
proof (induction rule: each_step.induct)
  case (fetch k p)
  have "length (held ((p_workers p)[k := Busy (p_next p)])) = Suc (length (held (p_workers p)))"
    using arg_cong [OF held_steps(1) [OF fetch(1,2)], of size] by simp
  thus ?case using fetch alive_update [OF fetch(1), of "Busy (p_next p)"] by (simp add: work_left_def)
next
  case (leave k p)
  have "length (held ((p_workers p)[k := Done])) = length (held (p_workers p))"
    using arg_cong [OF held_steps(2) [OF leave(1,2)], of size] by simp
  thus ?case using leave alive_update [OF leave(1), of Done] by (simp add: work_left_def)
next
  case (finish k p i)
  have "length (held (p_workers p)) = Suc (length (held ((p_workers p)[k := Idle])))"
    using arg_cong [OF held_steps(3) [OF finish(1,2)], of size] by simp
  thus ?case using finish alive_update [OF finish(1), of Idle] by (simp add: work_left_def)
qed

lemma work_left_steps:
  "(each_step read items ^^ m) p q \<Longrightarrow> m + work_left items q \<le> work_left items p"
proof (induction m arbitrary: q)
  case (Suc m)
  then obtain r where r: "(each_step read items ^^ m) p r" "each_step read items r q" by auto
  show ?case using Suc.IH [OF r(1)] work_left_step [OF r(2)] by simp
qed simp

lemma ended_results:
  assumes ok: "pool_ok read items n p" and "ended p" and n: "n = 0 \<longrightarrow> items = []"
  shows "each_results p = map read items"
proof -
  have none: "held (p_workers p) = []" using assms(2) by (auto simp: ended_def list_all_iff held_def)
  have "length items \<le> p_next p"
    using ok n assms(2) by (cases "p_workers p") (auto simp: pool_ok_def ended_def)
  hence keys: "mset (map fst (p_results p)) = mset [0..<length items]"
    using ok none by (simp add: pool_ok_def min_def del: mset_upt)
  have "map fst (sort_key fst (p_results p)) = sort (map fst (p_results p))"
    by (rule properties_for_sort [symmetric]) simp_all
  also have "\<dots> = [0..<length items]" by (rule properties_for_sort) (use keys in auto)
  finally have idx: "map fst (sort_key fst (p_results p)) = [0..<length items]" .
  have "map snd (sort_key fst (p_results p)) = map (\<lambda>i. read (items ! i)) (map fst (sort_key fst (p_results p)))"
    using ok by (auto simp: pool_ok_def)
  thus ?thesis
    using arg_cong [OF map_nth [of items], of "map read"] by (simp add: each_results_def idx comp_def)
qed

lemma pool_progress: "\<not> ended p \<Longrightarrow> \<exists>q. each_step read items p q"
proof -
  assume "\<not> ended p"
  then obtain k where k: "k < length (p_workers p)" "p_workers p ! k \<noteq> Done"
    by (auto simp: ended_def list_all_length)
  show ?thesis
  proof (cases "p_workers p ! k")
    case Idle
    thus ?thesis using each_step.fetch [OF k(1)] each_step.leave [OF k(1)] by (metis not_le)
  next
    case (Busy i)
    thus ?thesis using each_step.finish [OF k(1)] by blast
  qed (use k in simp)
qed

text \<open>
  C25. Polling on several threads. After any interleaving of the workers' steps, at most
  \<open>max_concurrent\<close> reads are in progress; while a worker has not ended some step is possible, and
  no schedule has more than \<open>2 n + max_concurrent\<close> steps for \<open>n\<close> targets; and once every worker
  ended, the results are those of reading the targets one after the other, in their order.
\<close>

theorem each_is_sequential:
  fixes read :: "'a \<Rightarrow> 'b"
  assumes "0 < c" "(each_step read items ^^ m) (pool_start c items) p"
  shows "length (held (p_workers p)) \<le> c \<and> m \<le> 2 * length items + c
     \<and> (if ended p then each_results p = map read items else \<exists>q. each_step read items p q)"
proof -
  have ok: "pool_ok read items (min c (length items)) p" using pool_ok_steps [OF assms(2)] .
  have busy: "length (held (p_workers p)) \<le> c"
    using ok length_held [of "p_workers p"] by (simp add: pool_ok_def)
  have "held (replicate j Idle) = []" for j by (simp add: held_def)
  hence "work_left items (pool_start c items :: 'b pool) \<le> 2 * length items + c"
    by (simp add: work_left_def pool_start_def)
  hence steps: "m \<le> 2 * length items + c" using work_left_steps [OF assms(2)] by linarith
  have "min c (length items) = 0 \<longrightarrow> items = []" using assms(1) by (auto simp: min_def split: if_splits)
  thus ?thesis using busy steps ended_results [OF ok] pool_progress [of p read items] by simp
qed

text \<open>Two workers read three targets; the second finishes the middle one before the first ends.\<close>

theorem each_is_sequential_witness:
  "let p = \<lparr>p_next = 2, p_workers = [Busy 0, Idle], p_results = [(1, 20)]\<rparr>
   in length (held (p_workers p)) \<le> 2 \<and> 3 \<le> 2 * length [1 :: nat, 2, 3] + 2
     \<and> (\<exists>q. each_step (\<lambda>x. 10 * x) [1 :: nat, 2, 3] p q)"
proof -
  let ?step = "each_step (\<lambda>x :: nat. 10 * x) [1, 2, 3]"
  let ?p0 = "\<lparr>p_next = 0, p_workers = [Idle, Idle], p_results = []\<rparr> :: nat pool"
  let ?p1 = "\<lparr>p_next = 1, p_workers = [Busy 0, Idle], p_results = []\<rparr> :: nat pool"
  let ?p2 = "\<lparr>p_next = 2, p_workers = [Busy 0, Busy 1], p_results = []\<rparr> :: nat pool"
  let ?p3 = "\<lparr>p_next = 2, p_workers = [Busy 0, Idle], p_results = [(1, 20)]\<rparr> :: nat pool"
  have s1: "?step ?p0 ?p1" using each_step.fetch [of 0 ?p0 "[1, 2, 3]" "\<lambda>x. 10 * x"] by simp
  have s2: "?step ?p1 ?p2" using each_step.fetch [of 1 ?p1 "[1, 2, 3]" "\<lambda>x. 10 * x"] by (simp add: numeral_2_eq_2)
  have s3: "?step ?p2 ?p3" using each_step.finish [of 1 ?p2 1 "\<lambda>x. 10 * x" "[1, 2, 3]"] by simp
  have start: "pool_start 2 [1 :: nat, 2, 3] = ?p0" by (simp add: pool_start_def numeral_2_eq_2)
  have "(?step ^^ 0) ?p0 ?p0" by simp
  hence "(?step ^^ Suc 0) ?p0 ?p1" using s1 by (rule relpowp_Suc_I)
  hence "(?step ^^ Suc (Suc 0)) ?p0 ?p2" using s2 by (rule relpowp_Suc_I)
  hence "(?step ^^ Suc (Suc (Suc 0))) ?p0 ?p3" using s3 by (rule relpowp_Suc_I)
  hence "(?step ^^ Suc (Suc (Suc 0))) (pool_start 2 [1 :: nat, 2, 3]) ?p3" unfolding start .
  from each_is_sequential [OF _ this] show ?thesis by (simp add: ended_def Let_def)
qed

end
