(* ===== verification/Snmp_Config.thy ===== *)
theory Snmp_Config
  imports Snmp_Client Text_Json "HOL-Library.Multiset"
begin

text \<open>
  The \<open>[[collectors.snmp]]\<close> tables (\<open>snmp/config.rs\<close>), also used by the PDU poller, and the
  modules that run from them (\<open>snmp/worker.rs\<close>): validation, and which modules a reload keeps,
  stops and starts.
\<close>

section \<open>Validation\<close>

record intervals =
  iv_default :: nat
  iv_min :: nat

definition switch_intervals :: intervals where "switch_intervals = \<lparr>iv_default = 900, iv_min = 60\<rparr>"
definition snmp_port :: nat where "snmp_port = 161"
definition snmp_timeout_default :: nat where "snmp_timeout_default = 5"
definition snmp_timeout_max :: nat where "snmp_timeout_max = 60"
definition concurrency_default :: nat where "concurrency_default = 4"
definition concurrency_max :: nat where "concurrency_max = 32"
definition collector_id_max :: nat where "collector_id_max = 64"
definition targets_max :: nat where "targets_max = 1000"
definition target_address_max :: nat where "target_address_max = 255"

record snmp_collector =
  sn_id :: string
  sn_targets :: "target list"
  sn_credentials :: credentials
  sn_interval :: duration
  sn_timeout :: duration
  sn_max_concurrent_targets :: nat

record raw_snmp_collector =
  rs_id :: "string option"
  rs_targets :: "string list option"
  rs_version :: "string option"
  rs_allow_v2c :: "bool option"
  rs_username :: "string option"
  rs_auth_protocol :: "auth_protocol option"
  rs_auth_password_file :: "string option"
  rs_privacy_protocol :: "privacy_protocol option"
  rs_privacy_password_file :: "string option"
  rs_community_file :: "string option"
  rs_interval_seconds :: "nat option"
  rs_timeout_seconds :: "nat option"
  rs_max_concurrent_targets :: "nat option"

definition valid_collector_id :: "string \<Rightarrow> bool" where
  "valid_collector_id i =
     (i \<noteq> [] \<and> length i \<le> collector_id_max \<and> is_ascii_alphanumeric (hd i) \<and> is_ascii_alphanumeric (last i)
      \<and> list_all (\<lambda>c. is_ascii_alphanumeric c \<or> c \<in> set ''._-'') i)"

text \<open>Some character of the string is white space: \<open>chars().any(char::is_whitespace)\<close>.\<close>

fun has_whitespace :: "string \<Rightarrow> bool" where
  "has_whitespace [] = False"
| "has_whitespace (c # cs) = (ws_len (map byte_of (c # cs)) \<noteq> 0 \<or> has_whitespace cs)"

definition host_and_port :: "string \<Rightarrow> nat \<Rightarrow> (string \<times> nat) option" where
  "host_and_port address default_port =
     (case strip_prefix ''['' address of
        Some rest \<Rightarrow>
          (case split_once (CHR '']'') rest of
             None \<Rightarrow> None
           | Some (host, rest) \<Rightarrow>
               if rest = [] then Some (host, default_port)
               else (case strip_prefix '':'' rest of
                 None \<Rightarrow> None
               | Some port \<Rightarrow> map_option (\<lambda>p. (host, p)) (parse_uint 65535 port)))
      | None \<Rightarrow>
          if 1 < length (filter (\<lambda>c. c = CHR '':'') address) then Some (address, default_port)
          else (case split_once (CHR '':'') address of
            Some (host, port) \<Rightarrow> map_option (\<lambda>p. (host, p)) (parse_uint 65535 port)
          | None \<Rightarrow> Some (address, default_port)))"

definition parse_with_default_port :: "string \<Rightarrow> nat \<Rightarrow> target option" where
  "parse_with_default_port address default_port =
     (let trimmed = trim address in
      if trimmed = [] \<or> trimmed \<noteq> address \<or> target_address_max < char_count address then None
      else (case host_and_port trimmed default_port of
        None \<Rightarrow> None
      | Some (host, port) \<Rightarrow>
          if host = [] \<or> port = 0 \<or> has_whitespace host then None
          else Some \<lparr>t_address = address, t_host = host, t_port = port\<rparr>))"

fun targets_loop ::
  "nat \<Rightarrow> string list \<Rightarrow> (string \<times> nat) list \<Rightarrow> error_text + target list" where
  "targets_loop default_port [] seen = Inr []"
| "targets_loop default_port (address # raw) seen =
     (case parse_with_default_port address default_port of
        None \<Rightarrow> Inl (Format ''target {address:?} must be a host or host:port'' [address])
      | Some tgt \<Rightarrow>
          if (t_host tgt, t_port tgt) \<in> set seen
          then Inl (Format ''target {address:?} is listed twice'' [address])
          else (case targets_loop default_port raw ((t_host tgt, t_port tgt) # seen) of
            Inl e \<Rightarrow> Inl e | Inr ts \<Rightarrow> Inr (tgt # ts)))"

definition targets :: "string list \<Rightarrow> nat \<Rightarrow> error_text + target list" where
  "targets raw default_port =
     (if raw = [] then Inl (Text ''targets must list at least one address'')
      else if targets_max < length raw then Inl (Format ''targets must have at most {} entries'' [dec targets_max])
      else targets_loop default_port raw [])"

definition snmp_credentials :: "raw_snmp_collector \<Rightarrow> error_text + credentials" where
  "snmp_credentials raw =
     (let version = (case rs_version raw of None \<Rightarrow> ''3'' | Some v \<Rightarrow> v) in
      if version = ''3'' then
        (if rs_community_file raw \<noteq> None then Inl (Text ''community_file is only for version \"2c\"'')
         else (case rs_username raw of
           None \<Rightarrow> Inl (Text ''username is required for SNMPv3'')
         | Some user \<Rightarrow>
             if trim user = [] then Inl (Text ''username is required for SNMPv3'')
             else (case rs_auth_password_file raw of
               None \<Rightarrow> Inl (Text ''auth_password_file is required for SNMPv3'')
             | Some auth_file \<Rightarrow>
                 (case rs_privacy_password_file raw of
                    None \<Rightarrow> Inl (Text ''privacy_password_file is required for SNMPv3'')
                  | Some privacy_file \<Rightarrow>
                      Inr (V3Credentials user (case rs_auth_protocol raw of None \<Rightarrow> Sha256 | Some a \<Rightarrow> a) auth_file
                             (case rs_privacy_protocol raw of None \<Rightarrow> Aes128 | Some p \<Rightarrow> p) privacy_file)))))
      else if version = ''2c'' then
        (if rs_allow_v2c raw \<noteq> Some True
         then Inl (Text ''version \"2c\" sends the community in clear text; set allow_v2c = true to use it'')
         else if rs_username raw \<noteq> None \<or> rs_auth_password_file raw \<noteq> None \<or> rs_privacy_password_file raw \<noteq> None
         then Inl (Text ''SNMPv3 credentials are not used with version \"2c\"'')
         else (case rs_community_file raw of
           None \<Rightarrow> Inl (Text ''community_file is required for version \"2c\"'')
         | Some file \<Rightarrow> Inr (V2cCredentials file)))
      else Inl (Format ''version must be \"3\" or \"2c\", not {other:?}'' [version]))"

definition or_default :: "'a \<Rightarrow> 'a option \<Rightarrow> 'a" where
  "or_default d x = (case x of None \<Rightarrow> d | Some v \<Rightarrow> v)"

definition snmp_collector_of :: "intervals \<Rightarrow> raw_snmp_collector \<Rightarrow> error_text + snmp_collector" where
  "snmp_collector_of iv raw =
     (case rs_id raw of
        None \<Rightarrow> Inl (Text ''id is required'')
      | Some i \<Rightarrow>
          if \<not> valid_collector_id i
          then Inl (Format ''id must be 1-{} letters, digits, '.', '_', or '-', starting and ending with a letter or digit''
                 [dec collector_id_max])
          else (case targets (or_default [] (rs_targets raw)) snmp_port of
            Inl e \<Rightarrow> Inl e
          | Inr ts \<Rightarrow>
            (case snmp_credentials raw of
               Inl e \<Rightarrow> Inl e
             | Inr cr \<Rightarrow>
                 let interval = or_default (iv_default iv) (rs_interval_seconds raw);
                     timeout = or_default snmp_timeout_default (rs_timeout_seconds raw);
                     concurrent = or_default concurrency_default (rs_max_concurrent_targets raw)
                 in if interval < iv_min iv
                    then Inl (Format ''interval_seconds must be at least {}'' [dec (iv_min iv)])
                    else if \<not> (1 \<le> timeout \<and> timeout \<le> snmp_timeout_max)
                    then Inl (Format ''timeout_seconds must be between 1 and {}'' [dec snmp_timeout_max])
                    else if \<not> (1 \<le> concurrent \<and> concurrent \<le> concurrency_max)
                    then Inl (Format ''max_concurrent_targets must be between 1 and {}'' [dec concurrency_max])
                    else Inr \<lparr>sn_id = i, sn_targets = ts, sn_credentials = cr, sn_interval = secs interval,
                              sn_timeout = secs timeout, sn_max_concurrent_targets = concurrent\<rparr>)))"

fun section_loop ::
  "string \<Rightarrow> intervals \<Rightarrow> nat \<Rightarrow> raw_snmp_collector list \<Rightarrow> string list \<Rightarrow> error_text + snmp_collector list" where
  "section_loop name iv n [] seen = Inr []"
| "section_loop name iv n (raw # rest) seen =
     (case snmp_collector_of iv raw of
        Inl (Text e) \<Rightarrow> Inl (Format ''{section}[{index}]: {error}'' [name, dec n, e])
      | Inl (Format e args) \<Rightarrow> Inl (Format (''{section}[{index}]: '' @ e) (name # dec n # args))
      | Inr c \<Rightarrow>
          if sn_id c \<in> set seen
          then Inl (Format ''{section}[{index}]: id {:?} is used twice'' [name, dec n, sn_id c])
          else (case section_loop name iv (Suc n) rest (sn_id c # seen) of
            Inl e \<Rightarrow> Inl e | Inr cs \<Rightarrow> Inr (c # cs)))"

definition from_raw_section ::
  "raw_snmp_collector list \<Rightarrow> string \<Rightarrow> intervals \<Rightarrow> error_text + snmp_collector list" where
  "from_raw_section raw name iv = section_loop name iv 0 raw []"

section \<open>What validation establishes\<close>

definition collector_ok :: "intervals \<Rightarrow> snmp_collector \<Rightarrow> bool" where
  "collector_ok iv c \<longleftrightarrow> valid_collector_id (sn_id c)
     \<and> sn_targets c \<noteq> [] \<and> length (sn_targets c) \<le> targets_max
     \<and> distinct (map (\<lambda>t. (t_host t, t_port t)) (sn_targets c))
     \<and> list_all (\<lambda>t. t_host t \<noteq> [] \<and> 0 < t_port t \<and> char_count (t_address t) \<le> target_address_max) (sn_targets c)
     \<and> secs (iv_min iv) \<le> sn_interval c
     \<and> secs 1 \<le> sn_timeout c \<and> sn_timeout c \<le> secs snmp_timeout_max
     \<and> 1 \<le> sn_max_concurrent_targets c \<and> sn_max_concurrent_targets c \<le> concurrency_max"

lemma parse_with_default_port_ok:
  "parse_with_default_port address p = Some t \<Longrightarrow>
     t_address t = address \<and> t_host t \<noteq> [] \<and> 0 < t_port t \<and> char_count address \<le> target_address_max"
  by (auto simp: parse_with_default_port_def Let_def split: if_splits option.splits)

lemma targets_loop_ok:
  "targets_loop p raw seen = Inr ts \<Longrightarrow> length ts = length raw
     \<and> distinct (map (\<lambda>t. (t_host t, t_port t)) ts) \<and> (\<forall>t\<in>set ts. (t_host t, t_port t) \<notin> set seen)
     \<and> list_all (\<lambda>t. t_host t \<noteq> [] \<and> 0 < t_port t \<and> char_count (t_address t) \<le> target_address_max) ts"
proof (induction p raw seen arbitrary: ts rule: targets_loop.induct)
  case (2 p address raw seen)
  obtain t ts' where t: "parse_with_default_port address p = Some t" "(t_host t, t_port t) \<notin> set seen"
    "targets_loop p raw ((t_host t, t_port t) # seen) = Inr ts'" "ts = t # ts'"
    using "2.prems" by (auto split: option.splits if_splits sum.splits)
  show ?case using "2.IH" [OF t(1,2,3)] parse_with_default_port_ok [OF t(1)] t(2) by (auto simp: t(4))
qed simp

lemma snmp_collector_of_ok: "snmp_collector_of iv raw = Inr c \<Longrightarrow> collector_ok iv c"
  using targets_loop_ok [of snmp_port "or_default [] (rs_targets raw)" "[]" "sn_targets c"]
  by (auto simp: snmp_collector_of_def collector_ok_def targets_def Let_def
      split: option.splits if_splits sum.splits)

lemma from_raw_section_ok:
  "section_loop name iv n raw seen = Inr cs \<Longrightarrow>
     list_all (collector_ok iv) cs \<and> distinct (map sn_id cs) \<and> (\<forall>c\<in>set cs. sn_id c \<notin> set seen)"
proof (induction name iv n raw seen arbitrary: cs rule: section_loop.induct)
  case (2 name iv n raw rest seen)
  obtain c cs' where c: "snmp_collector_of iv raw = Inr c" "sn_id c \<notin> set seen"
    "section_loop name iv (Suc n) rest (sn_id c # seen) = Inr cs'" "cs = c # cs'"
    using "2.prems" by (auto split: sum.splits error_text.splits if_splits)
  show ?case using "2.IH" [OF c(1,2,3)] snmp_collector_of_ok [OF c(1)] c(2) by (auto simp: c(4))
qed simp

lemma v2c_needs_consent:
  "snmp_credentials raw = Inr (V2cCredentials file) \<Longrightarrow> rs_allow_v2c raw = Some True"
  by (auto simp: snmp_credentials_def Let_def split: if_splits option.splits)

section \<open>Running modules\<close>

text \<open>
  A module runs with its own stop token, here a number. \<open>swap_remove\<close> moves the last running
  module into the gap, so the order of the others may change.
\<close>

fun position :: "('a \<Rightarrow> bool) \<Rightarrow> 'a list \<Rightarrow> nat option" where
  "position P [] = None"
| "position P (x # xs) = (if P x then Some 0 else map_option Suc (position P xs))"

definition swap_remove :: "nat \<Rightarrow> 'a list \<Rightarrow> 'a \<times> 'a list" where
  "swap_remove i xs = (xs ! i, butlast (xs[i := last xs]))"

fun keep_running ::
  "'c list \<Rightarrow> ('c \<times> nat) list \<Rightarrow> ('c \<times> nat) list \<Rightarrow> 'c list
   \<Rightarrow> ('c \<times> nat) list \<times> ('c \<times> nat) list \<times> 'c list" where
  "keep_running [] previous running starting = (previous, running, starting)"
| "keep_running (c # cs) previous running starting =
     (case position (\<lambda>(r, _). r = c) previous of
        Some i \<Rightarrow> (case swap_remove i previous of (m, previous) \<Rightarrow>
           keep_running cs previous (running @ [m]) starting)
      | None \<Rightarrow> keep_running cs previous running (starting @ [c]))"

definition reload_with ::
  "'c list \<Rightarrow> nat list \<Rightarrow> ('c \<times> nat) list \<Rightarrow> ('c \<times> nat) list \<times> nat list" where
  \<comment> \<open>the new running modules and the tokens cancelled, given the tokens of the modules it starts\<close>
  "reload_with collectors tokens modules =
     (case keep_running collectors modules [] [] of (previous, running, starting) \<Rightarrow>
        (running @ zip starting tokens, map snd previous))"

lemma position_Some: "position P xs = Some i \<Longrightarrow> i < length xs \<and> P (xs ! i)"
  by (induction xs arbitrary: i) (auto split: if_splits)

lemma position_None: "position P xs = None \<longleftrightarrow> (\<forall>x\<in>set xs. \<not> P x)"
  by (induction xs) auto

lemma mset_swap_remove:
  assumes "i < length xs"
  shows "add_mset (xs ! i) (mset (butlast (xs[i := last xs]))) = mset xs"
proof -
  have ne: "xs[i := last xs] \<noteq> []" using assms by auto
  have l: "last (xs[i := last xs]) = last xs"
    using assms by (cases xs rule: rev_cases) (auto simp: list_update_append split: nat.splits)
  have "mset (xs[i := last xs]) = add_mset (last xs) (mset xs - {#xs ! i#})" using assms by (rule mset_update)
  moreover have "mset (xs[i := last xs]) = add_mset (last xs) (mset (butlast (xs[i := last xs])))"
    using arg_cong [OF append_butlast_last_id [OF ne], of mset] l by simp
  ultimately have "mset (butlast (xs[i := last xs])) = mset xs - {#xs ! i#}" by simp
  thus ?thesis using assms by simp
qed

text \<open>
  A reload runs exactly the configured modules: one already running with the same settings keeps
  its token, every other token is cancelled, and each remaining collector starts once.
\<close>

lemma keep_running_ok:
  "keep_running cs previous running starting = (p', r', s') \<Longrightarrow>
     mset (map fst r') + mset s' = mset (map fst running) + mset starting + mset cs
     \<and> mset r' + mset p' = mset running + mset previous"
proof (induction cs previous running starting rule: keep_running.induct)
  case (2 c cs previous running starting)
  show ?case
  proof (cases "position (\<lambda>(r, _). r = c) previous")
    case None
    thus ?thesis using 2 by simp
  next
    case (Some i)
    have i: "i < length previous" "fst (previous ! i) = c" using position_Some [OF Some] by (auto simp: case_prod_unfold)
    obtain m q where m: "swap_remove i previous = (m, q)" by fastforce
    hence mq: "m = previous ! i" "add_mset m (mset q) = mset previous"
      using mset_swap_remove [OF i(1)] by (auto simp: swap_remove_def)
    have "mset (map fst r') + mset s' = mset (map fst (running @ [m])) + mset starting + mset cs
        \<and> mset r' + mset p' = mset (running @ [m]) + mset q"
      using "2.IH"(2) [OF Some m [symmetric]] "2.prems" Some m by auto
    thus ?thesis using mq i by (simp add: ac_simps)
  qed
qed simp

lemma reload_runs_configured:
  assumes "reload_with cs tokens modules = (running, cancelled)" "length cs \<le> length tokens"
  shows "mset (map fst running) = mset cs"
    and "set cancelled \<subseteq> snd ` set modules"
proof -
  obtain p r s where k: "keep_running cs modules [] [] = (p, r, s)" by (metis prod_cases3)
  note ok = keep_running_ok [OF k, simplified]
  have "size (mset (map fst r) + mset s) = size (mset cs)" using ok by simp
  hence "length s \<le> length cs" by simp
  hence z: "map fst (zip s tokens) = s" using assms(2) by (simp add: map_fst_zip_take)
  have run: "running = r @ zip s tokens" "cancelled = map snd p" using assms(1) k by (auto simp: reload_with_def)
  show "mset (map fst running) = mset cs" using ok z by (simp add: run mset_map [symmetric] del: mset_map)
  have "set_mset (mset r + mset p) = set_mset (mset modules)" using ok by simp
  hence "set p \<subseteq> set modules" by auto
  thus "set cancelled \<subseteq> snd ` set modules" by (auto simp: run)
qed

end
