(* ===== verification/Home.thy ===== *)
theory Home
  imports Transport Files Config
begin

text \<open>
  The agent's home deployment (\<open>home.rs\<close>): the origin its authenticated requests go to, the
  deployment identifier an intake key carries, and the answer kept in the state directory. Reading
  and writing the JSON of a home, how a URL prints and the wall clock are parameters.
\<close>

section \<open>Deployment identifiers\<close>

definition home_file :: string where "home_file = ''home.json''"
definition intake_key_prefix :: string where "intake_key_prefix = ''renga_intake_''"
definition secret_length :: nat where "secret_length = 43"

definition valid_deployment_id :: "string \<Rightarrow> bool" where
  "valid_deployment_id v =
     (1 \<le> length v \<and> length v \<le> 16
      \<and> list_all (\<lambda>c. is_ascii_lowercase c \<or> is_ascii_digit c \<or> c = CHR ''-'') v
      \<and> hd v \<noteq> CHR ''-'' \<and> last v \<noteq> CHR ''-'')"

definition is_char_boundary :: "nat \<Rightarrow> string \<Rightarrow> bool" where
  "is_char_boundary n s = (n = 0 \<or> n = length s \<or> n < length s \<and> \<not> is_continuation (s ! n))"

definition split_at_checked :: "nat \<Rightarrow> string \<Rightarrow> (string \<times> string) option" where
  "split_at_checked n s = (if is_char_boundary n s then Some (take n s, drop n s) else None)"

definition deployment_id :: "string \<Rightarrow> string option" where
  "deployment_id key =
     (case strip_prefix intake_key_prefix key of
        None \<Rightarrow> None
      | Some rest \<Rightarrow>
          if length rest < secret_length + 1 then None
          else (case split_at_checked (length rest - (secret_length + 1)) rest of
            None \<Rightarrow> None
          | Some (identifier, secret) \<Rightarrow>
              if starts_with ''_'' secret \<and> valid_deployment_id identifier then Some identifier else None))"

section \<open>The persisted home\<close>

record home =
  h_renga_url :: string
  h_deployment :: string
  h_home :: url
  h_resolved_at :: system_time

record home_error =
  he_message :: error_text
  he_kind :: failure_class

definition home_state_error :: "error_text \<Rightarrow> home_error" where
  "home_state_error e = \<lparr>he_message = e, he_kind = Permanent\<rparr>"

definition home_transient :: "home_error \<Rightarrow> bool" where
  "home_transient e = (he_kind e = Transient)"

definition home_transport_error :: "transport_error \<Rightarrow> home_error" where
  "home_transport_error e =
     \<lparr>he_message = (case te_message e of
         Text t \<Rightarrow> Format ''cannot resolve home: {error}'' [t]
       | Format t args \<Rightarrow> Format (''cannot resolve home: '' @ t) args),
      he_kind = te_kind e\<rparr>"

definition deployment_of :: "'x client_config_scheme \<Rightarrow> string" where
  "deployment_of config = (case deployment_id (intake_api_key config) of None \<Rightarrow> [] | Some d \<Rightarrow> d)"

definition home_answers ::
  "(string \<Rightarrow> url option) \<Rightarrow> (url \<Rightarrow> string) \<Rightarrow> home \<Rightarrow> 'x client_config_scheme \<Rightarrow> bool" where
  "home_answers parse as_str h config =
     (h_renga_url h = renga_url config \<and> h_deployment h = deployment_of config
      \<and> \<not> isl (origin_url parse (as_str (h_home h)) (allow_insecure_http config) ''home URL''))"

record home_codec =
  hm_parse :: "string \<Rightarrow> url option"
  hm_as_str :: "url \<Rightarrow> string"
  hm_from_slice :: "bytes \<Rightarrow> home option"
  hm_to_vec :: "home \<Rightarrow> bytes option"

definition home_load :: "home_codec \<Rightarrow> disk \<Rightarrow> (home_error + home option) \<times> disk" where
  "home_load hc d =
     (case fs_metadata home_file d of
        (Inl NotFound, d) \<Rightarrow> (Inr None, d)
      | (Inl _, d) \<Rightarrow> (Inl (home_state_error (Format ''cannot inspect persisted home {}: {error}'' [home_file])), d)
      | (Inr (File _ _), d) \<Rightarrow>
          (case fs_read home_file d of
             (Inl _, d) \<Rightarrow> (Inl (home_state_error (Format ''cannot read persisted home {}: {error}'' [home_file])), d)
           | (Inr bytes, d) \<Rightarrow> (Inr (hm_from_slice hc bytes), d))
      | (Inr _, d) \<Rightarrow> (Inl (home_state_error (Format ''persisted home {} is not a regular file'' [home_file])), d))"

definition home_persisted ::
  "home_codec \<Rightarrow> 'x client_config_scheme \<Rightarrow> disk \<Rightarrow> (home_error + home option) \<times> disk" where
  "home_persisted hc config d =
     (case home_load hc d of
        (Inl e, d) \<Rightarrow> (Inl e, d)
      | (Inr None, d) \<Rightarrow> (Inr None, d)
      | (Inr (Some h), d) \<Rightarrow>
          (Inr (if home_answers (hm_parse hc) (hm_as_str hc) h config then Some h else None), d))"

definition home_discard :: "disk \<Rightarrow> (home_error + unit) \<times> disk" where
  "home_discard d =
     (case fs_remove_file home_file d of
        (Inl e, d) \<Rightarrow>
          (if e = NotFound then Inr ()
           else Inl (home_state_error (Format ''cannot discard persisted home: {error}'' [])), d)
      | (Inr _, d) \<Rightarrow> (Inr (), d))"

text \<open>
  Creating the state directory and syncing it only succeed or fail. The steps of \<open>persist\<close> stop
  at the first failure; encoding comes after the file is open.
\<close>

definition home_write_steps :: "home_codec \<Rightarrow> string \<Rightarrow> home \<Rightarrow> disk \<Rightarrow> (io_kind + unit) \<times> disk" where
  "home_write_steps hc temporary h d =
     (case fs_create_new temporary d of
        (Inl e, d) \<Rightarrow> (Inl e, d)
      | (Inr _, d) \<Rightarrow>
          (case hm_to_vec hc h of
             None \<Rightarrow> (Inl OtherIo, d)
           | Some body \<Rightarrow>
               (case fs_write_all temporary body d of
                  (Inl e, d) \<Rightarrow> (Inl e, d)
                | (Inr _, d) \<Rightarrow>
                    (case fs_sync d of
                       (Inl e, d) \<Rightarrow> (Inl e, d)
                     | (Inr _, d) \<Rightarrow>
                         (case fs_rename temporary home_file d of
                            (Inl e, d) \<Rightarrow> (Inl e, d)
                          | (Inr _, d) \<Rightarrow> fs_sync d)))))"

definition home_persist :: "home_codec \<Rightarrow> string \<Rightarrow> home \<Rightarrow> disk \<Rightarrow> (home_error + unit) \<times> disk" where
  \<comment> \<open>\<open>i\<close> is the random identifier of the temporary file\<close>
  "home_persist hc i h d =
     (case fs_sync d of
        (Inl _, d) \<Rightarrow> (Inl (home_state_error (Format ''cannot create state directory {}: {error}'' [])), d)
      | (Inr _, d) \<Rightarrow>
          (case home_write_steps hc (''.home-'' @ i) h d of
             (Inr _, d) \<Rightarrow> (Inr (), d)
           | (Inl _, d) \<Rightarrow>
               (Inl (home_state_error (Format ''cannot persist home: {error}'' [])),
                snd (fs_remove_file (''.home-'' @ i) d))))"

text \<open>
  \<open>fetch\<close> asks \<open>renga_url\<close>; \<open>ask\<close> is \<^const>\<open>fetch_home\<close> for the configuration, which may not
  return, and \<open>utc\<close> the wall clock.
\<close>

definition home_fetch ::
  "('x client_config_scheme \<Rightarrow> string \<Rightarrow> 'w \<Rightarrow> (transport_error + url) option \<times> 'w) \<Rightarrow> ('w \<Rightarrow> system_time \<times> 'w)
   \<Rightarrow> 'x client_config_scheme \<Rightarrow> 'w \<Rightarrow> (home_error + home) option \<times> 'w" where
  "home_fetch ask utc config w =
     (case ask config (deployment_of config) w of
        (None, w) \<Rightarrow> (None, w)
      | (Some (Inl e), w) \<Rightarrow> (Some (Inl (home_transport_error e)), w)
      | (Some (Inr u), w) \<Rightarrow>
          (case utc w of (now, w) \<Rightarrow>
             (Some (Inr \<lparr>h_renga_url = renga_url config, h_deployment = deployment_of config,
                         h_home = u, h_resolved_at = now\<rparr>), w)))"

definition home_resolve ::
  "home_codec \<Rightarrow> string \<Rightarrow> ('x client_config_scheme \<Rightarrow> string \<Rightarrow> 'w \<Rightarrow> (transport_error + url) option \<times> 'w)
   \<Rightarrow> ('w \<Rightarrow> system_time \<times> 'w) \<Rightarrow> 'x client_config_scheme \<Rightarrow> disk \<Rightarrow> 'w
   \<Rightarrow> (home_error + home) option \<times> disk \<times> 'w" where
  "home_resolve hc i ask utc config d w =
     (case home_persisted hc config d of
        (Inl e, d) \<Rightarrow> (Some (Inl e), d, w)
      | (Inr (Some h), d) \<Rightarrow> (Some (Inr h), d, w)
      | (Inr None, d) \<Rightarrow>
          (case home_fetch ask utc config w of
             (None, w) \<Rightarrow> (None, d, w)
           | (Some (Inl e), w) \<Rightarrow> (Some (Inl e), d, w)
           | (Some (Inr h), w) \<Rightarrow>
               (case home_persist hc i h d of
                  (Inl e, d) \<Rightarrow> (Some (Inl e), d, w)
                | (Inr _, d) \<Rightarrow> (Some (Inr h), d, w))))"

section \<open>Laws\<close>

text \<open>The identifier is found by the secret's fixed length, whatever the secret contains.\<close>

lemma deployment_id_of_key:
  assumes "valid_deployment_id i" "length secret = secret_length"
  shows "deployment_id (intake_key_prefix @ i @ ''_'' @ secret) = Some i"
proof -
  have "is_char_boundary (length i) (i @ ''_'' @ secret)"
    by (simp add: is_char_boundary_def nth_append is_continuation_def byte_of_def)
  thus ?thesis using assms by (simp add: deployment_id_def split_at_checked_def starts_with_iff)
qed

lemma deployment_id_valid: "deployment_id key = Some i \<Longrightarrow> valid_deployment_id i"
  by (auto simp: deployment_id_def split: option.splits if_splits prod.splits)

lemma home_discard_forgets:
  assumes "d_events d = []" "\<not> (\<exists>t. map_of (d_files d) home_file = Some (Folder t))"
  shows "fst (home_discard d) = Inr ()" "fst (home_load hc (snd (home_discard d))) = Inr None"
  using assms by (auto simp: home_discard_def home_load_def fs_defs split: option.splits node.splits)

lemma home_persist_load:
  assumes "d_events d = []" "map_of (d_files d) (''.home-'' @ i) = None"
    and "\<not> (\<exists>t. map_of (d_files d) home_file = Some (Folder t))"
    and "hm_to_vec hc h = Some body" "hm_from_slice hc body = Some h"
  shows "fst (home_persist hc i h d) = Inr ()" "fst (home_load hc (snd (home_persist hc i h d))) = Inr (Some h)"
proof -
  have ne: "''.home-'' @ i \<noteq> home_file" by (simp add: home_file_def)
  have nf: "pred_option is_Folder (map_of (d_files d) home_file) \<longleftrightarrow> map_of (d_files d) home_file = None"
    using assms(3) by (cases "map_of (d_files d) home_file") (auto simp: is_Folder_def)
  show "fst (home_persist hc i h d) = Inr ()" "fst (home_load hc (snd (home_persist hc i h d))) = Inr (Some h)"
    using assms ne nf
    by (auto simp: home_persist_def home_write_steps_def home_load_def fs_defs overwrite_def)
qed

end
