(* ===== verification/Daemon.thy ===== *)
theory Daemon
  imports Home Job_Worker Delivery Scheduler
begin

text \<open>
  The daemon of \<open>main.rs\<close>: start-up, the scheduler loop with check-ins, the delivery thread,
  reloads, moves of the home deployment, job passes and the notice socket, and shutdown. One turn
  of the loop is a function of the daemon's state and of a world \<open>'w\<close> that holds the clock, the
  network and whatever the other threads do in the meantime. A panicking \<open>Instant + Duration\<close>
  makes an operation \<open>None\<close>. The build is the one for Linux.
\<close>

section \<open>Pending relocations\<close>

definition home_retry_initial :: duration where "home_retry_initial = secs 5"
definition home_retry_max :: duration where "home_retry_max = secs 300"
definition relocation_retry_initial :: duration where "relocation_retry_initial = secs 30"
definition relocation_retry_max :: duration where "relocation_retry_max = secs 900"
definition reload_defer :: duration where "reload_defer = secs 1"

record relocation =
  rl_not_before :: instant
  rl_delay :: duration

definition relocation_new :: "instant \<Rightarrow> duration \<Rightarrow> relocation" where
  "relocation_new now d = \<lparr>rl_not_before = now, rl_delay = d\<rparr>"

definition relocation_due :: "relocation \<Rightarrow> instant \<Rightarrow> bool" where
  "relocation_due r now = (rl_not_before r \<le> now)"

definition back_off :: "relocation \<Rightarrow> instant \<Rightarrow> relocation option" where
  "back_off r now =
     map_option (\<lambda>t. \<lparr>rl_not_before = t, rl_delay = min (rl_delay r * 2) relocation_retry_max\<rparr>)
       (instant_add now (rl_delay r))"

section \<open>The job catalog\<close>

definition inventory_collect :: capability where
  "inventory_collect =
     \<lparr>cap_name = ''inventory.collect'', cap_version = 1, cap_risk_class = Observe,
      cap_retry_class = Idempotent, cap_timeout = secs 300, cap_override = None\<rparr>"

definition query_entry :: "string \<Rightarrow> nat \<Rightarrow> bool \<Rightarrow> capability" where
  \<comment> \<open>what \<open>QueryCapability\<close> reports of a query; the flag is \<open>Sensitivity::Inventory\<close>\<close>
  "query_entry name n is_inventory =
     \<lparr>cap_name = name, cap_version = 1, cap_risk_class = Observe, cap_retry_class = Idempotent,
      cap_timeout = secs n, cap_override = Some is_inventory\<rparr>"

definition queries_catalog :: catalog where
  "queries_catalog =
     [query_entry ''query.listening_sockets'' 30 False, query_entry ''query.services'' 30 False,
      query_entry ''query.disk_usage'' 30 True, query_entry ''query.routes'' 30 True,
      query_entry ''query.time_sync'' 30 True, query_entry ''query.packages'' 60 False,
      query_entry ''query.sql'' 30 False]"

text \<open>
  What a capability runs with is bound when the catalog is built: the client and the labels in
  \<open>inventory.collect\<close>, the osquery settings in each query.
\<close>

record 'm bound_catalog =
  jc_client :: http_client
  jc_labels :: "(string \<times> string) list"
  jc_osquery :: 'm
  jc_entries :: catalog

definition job_catalog :: "http_client \<Rightarrow> (string \<times> string) list \<Rightarrow> 'm \<Rightarrow> 'm bound_catalog" where
  "job_catalog client ls osquery =
     \<lparr>jc_client = client, jc_labels = ls, jc_osquery = osquery,
      jc_entries = inventory_collect # queries_catalog\<rparr>"

definition collector_capabilities :: "string list" where
  "collector_capabilities = [''host.inventory'']"

definition job_capabilities :: "catalog \<Rightarrow> job_policy \<Rightarrow> string list" where
  "job_capabilities catalog policy = collector_capabilities @ enabled_keys catalog policy"

definition catalog_for :: "'m config \<Rightarrow> http_client \<Rightarrow> 'm bound_catalog" where
  "catalog_for config client = job_catalog client (labels config) (osquery_config config)"

definition advertised_capabilities :: "'m config \<Rightarrow> http_client \<Rightarrow> string list" where
  "advertised_capabilities config client =
     job_capabilities (jc_entries (catalog_for config client)) (jobs config)"

section \<open>State\<close>

datatype 'm purpose = ForReload "'m config" | ForRelocation

text \<open>
  A job pass holds the client and catalog it was built from beside its worker; the listener is the
  client whose endpoint it connects to. \<open>started\<close> is what each family of collector modules runs
  with, and \<open>dm_disk\<close> the state directory as far as the loop uses it.
\<close>

record 'm pass =
  ps_client :: http_client
  ps_catalog :: "'m bound_catalog"
  ps_worker :: worker

record 'm started =
  st_gnmi :: "'m modules"
  st_libvirt :: "(string \<times> 'm) option"
  st_exporters :: "'m list"
  st_pdus :: "'m modules"
  st_bmcs :: "'m modules"

record 'm daemon =
  dm_config :: "'m config"
  dm_home :: home
  dm_client :: http_client
  dm_relocation :: "relocation option"
  dm_resolution :: "'m purpose option"
  dm_generation :: nat
  dm_pass :: "'m pass option"
  dm_listener :: "http_client option"
  dm_delivery :: "delivery_task option"
  dm_started :: "'m started"
  dm_scheduler :: scheduler
  dm_disk :: disk

datatype family = GnmiModules | LibvirtModules | ExporterModules | PduModules | BmcModules

text \<open>
  \<open>g_checkin\<close> is \<open>send_checkin\<close>, which builds the report and posts it; its answer is the
  acknowledgement's \<open>jobs_waiting\<close>. \<open>g_pass_finished\<close> and \<open>g_delivery_finished\<close> ask a thread's
  handle. \<open>g_fetch\<close> starts \<open>home::fetch\<close> on its own thread and \<open>g_resolution_result\<close> is \<open>None\<close>
  while it runs. The cells of the clients are shared with the other threads, which the world
  holds.
\<close>

record ('m, 'w) daemon_env =
  g_now :: "'w \<Rightarrow> instant \<times> 'w"
  g_stopped :: "'w \<Rightarrow> bool \<times> 'w"
  g_sleep :: "duration \<Rightarrow> 'w \<Rightarrow> 'w"
  g_lib :: http_lib
  g_codec :: home_codec
  g_key :: string
  g_uuid :: "'w \<Rightarrow> string \<times> 'w"
  g_cells :: "'w \<Rightarrow> cells"
  g_put_cells :: "cells \<Rightarrow> 'w \<Rightarrow> 'w"
  g_load :: "'w \<Rightarrow> (config_error + 'm config) \<times> 'w"
  g_checkin :: "http_client \<Rightarrow> string list \<Rightarrow> 'm \<Rightarrow> 'w \<Rightarrow> (failure + bool option) \<times> 'w"
  g_fetch :: "'m config \<Rightarrow> 'w \<Rightarrow> 'w"
  g_resolution_result :: "'w \<Rightarrow> (error_text + home) option \<times> 'w"
  g_pass_finished :: "'w \<Rightarrow> bool \<times> 'w"
  g_spawn_pass :: "'m pass \<Rightarrow> 'w \<Rightarrow> 'w"
  g_delivery_finished :: "'w \<Rightarrow> bool \<times> 'w"
  g_spawn_inventory :: "http_client \<Rightarrow> (string \<times> string) list \<Rightarrow> 'w \<Rightarrow> 'w"
  g_spawn_flush :: "http_client \<Rightarrow> 'w \<Rightarrow> 'w"
  g_stop_listener :: "'w \<Rightarrow> 'w"
  g_spawn_listener :: "http_client \<Rightarrow> 'w \<Rightarrow> 'w"
  g_take_notice :: "'w \<Rightarrow> bool \<times> 'w"
  g_start_modules :: "'m config \<Rightarrow> 'w \<Rightarrow> 'w"
  g_reload_snmp :: "'m modules \<Rightarrow> 'w \<Rightarrow> 'w"
  g_restart :: "family \<Rightarrow> 'm config \<Rightarrow> 'w \<Rightarrow> 'w"
  g_join :: "'w \<Rightarrow> 'w"

section \<open>Clients\<close>

definition built_client ::
  "('m, 'w) daemon_env \<Rightarrow> 'm config \<Rightarrow> home \<Rightarrow> 'w \<Rightarrow> (transport_error + http_client) \<times> 'w" where
  "built_client env config home w =
     (case for_home (g_lib env) config (hm_as_str (g_codec env) (h_home home)) (g_cells env w) of
        (Inl e, cells) \<Rightarrow> (Inl e, g_put_cells env cells w)
      | (Inr c, cells) \<Rightarrow> (Inr (with_installation_key c (g_key env)), g_put_cells env cells w))"

definition client_for ::
  "('m, 'w) daemon_env \<Rightarrow> 'm config \<Rightarrow> home \<Rightarrow> http_client \<Rightarrow> 'w \<Rightarrow> (transport_error + http_client) \<times> 'w" where
  "client_for env config home current w =
     (case built_client env config home w of (r, w) \<Rightarrow> (map_sum id (\<lambda>c. sharing_moved_signal c current) r, w))"

definition hears_moved :: "('m, 'w) daemon_env \<Rightarrow> http_client \<Rightarrow> 'w \<Rightarrow> bool \<times> 'w" where
  "hears_moved env client w =
     (case take_moved client (g_cells env w) of (mv, cells) \<Rightarrow> (mv, g_put_cells env cells w))"

section \<open>Job passes and the notice socket\<close>

definition leases_now :: "failure + bool option \<Rightarrow> bool" where
  "leases_now ack = (case ack of Inr jobs_waiting \<Rightarrow> jobs_waiting \<noteq> Some False | Inl _ \<Rightarrow> True)"

definition reload_changes_jobs ::
  "'m config \<Rightarrow> http_client \<Rightarrow> 'm config \<Rightarrow> http_client \<Rightarrow> bool" where
  "reload_changes_jobs old old_client new new_client =
     (\<not> sends_like old_client new_client \<or> labels old \<noteq> labels new \<or> jobs old \<noteq> jobs new
      \<or> osquery_config old \<noteq> osquery_config new)"

definition start_listener ::
  "('m, 'w) daemon_env \<Rightarrow> http_client \<Rightarrow> 'm config \<Rightarrow> 'w \<Rightarrow> http_client option \<times> 'w" where
  "start_listener env client config w =
     (if enabled_keys (jc_entries (catalog_for config client)) (jobs config) = [] then (None, w)
      else (Some client, g_spawn_listener env client w))"

definition restart_listener :: "('m, 'w) daemon_env \<Rightarrow> 'm daemon \<Rightarrow> 'w \<Rightarrow> 'm daemon \<times> 'w" where
  "restart_listener env d w =
     (case start_listener env (dm_client d) (dm_config d)
             (if dm_listener d = None then w else g_stop_listener env w) of
        (l, w) \<Rightarrow> (d\<lparr>dm_listener := l\<rparr>, w))"

definition job_pass_running :: "('m, 'w) daemon_env \<Rightarrow> 'm daemon \<Rightarrow> 'w \<Rightarrow> bool \<times> 'w" where
  "job_pass_running env d w =
     (if dm_pass d = None then (False, w) else case g_pass_finished env w of (f, w) \<Rightarrow> (\<not> f, w))"

definition new_pass :: "'m daemon \<Rightarrow> 'm pass" where
  "new_pass d =
     (let cat = catalog_for (dm_config d) (dm_client d) in
      \<lparr>ps_client = dm_client d, ps_catalog = cat,
       ps_worker = worker_new (jc_entries cat) (jobs (dm_config d)) (dm_generation d)\<rparr>)"

definition spawn_job_pass :: "('m, 'w) daemon_env \<Rightarrow> 'm daemon \<Rightarrow> 'w \<Rightarrow> 'm daemon \<times> 'w" where
  "spawn_job_pass env d w =
     (case job_pass_running env d w of (busy, w) \<Rightarrow>
      if busy then (d, w) else (d\<lparr>dm_pass := Some (new_pass d)\<rparr>, g_spawn_pass env (new_pass d) w))"

section \<open>The delivery thread\<close>

definition delivery_running :: "('m, 'w) daemon_env \<Rightarrow> 'm daemon \<Rightarrow> 'w \<Rightarrow> delivery_task option \<times> 'w" where
  "delivery_running env d w =
     (case dm_delivery d of
        None \<Rightarrow> (None, w)
      | Some task \<Rightarrow>
          (case g_delivery_finished env w of (f, w) \<Rightarrow> (running (Some \<lparr>dw_task = task, dw_finished = f\<rparr>), w)))"

definition spawn_inventory :: "('m, 'w) daemon_env \<Rightarrow> 'm daemon \<Rightarrow> 'w \<Rightarrow> 'm daemon \<times> 'w" where
  "spawn_inventory env d w =
     (d\<lparr>dm_delivery := Some InventoryTask\<rparr>, g_spawn_inventory env (dm_client d) (labels (dm_config d)) w)"

section \<open>Adopting a reload\<close>

definition restarted :: "('m, 'w) daemon_env \<Rightarrow> family \<Rightarrow> 'm config \<Rightarrow> 'v \<Rightarrow> 'v \<Rightarrow> 'w \<Rightarrow> 'v \<times> 'w" where
  "restarted env family config runs wanted w =
     (if runs \<noteq> wanted then (wanted, g_restart env family config w) else (runs, w))"

definition reload_modules ::
  "('m, 'w) daemon_env \<Rightarrow> 'm config \<Rightarrow> 'm started \<Rightarrow> 'w \<Rightarrow> 'm started \<times> 'w" where
  "reload_modules env config st w =
     (let w = g_reload_snmp env (snmp config) w;
          (a, w) = restarted env GnmiModules config (st_gnmi st) (gnmi config) w;
          (b, w) = restarted env LibvirtModules config (st_libvirt st) (libvirt config) w;
          (c, w) = restarted env ExporterModules config (st_exporters st) (exporters config) w;
          (d, w) = restarted env PduModules config (st_pdus st) (power config) w;
          (e, w) = restarted env BmcModules config (st_bmcs st) (bmc config) w
      in (\<lparr>st_gnmi = a, st_libvirt = b, st_exporters = c, st_pdus = d, st_bmcs = e\<rparr>, w))"

definition adopt_reload ::
  "('m, 'w) daemon_env \<Rightarrow> 'm config \<Rightarrow> home \<Rightarrow> http_client \<Rightarrow> 'm daemon \<Rightarrow> 'w \<Rightarrow> ('m daemon \<times> 'w) option" where
  "adopt_reload env new_config new_home new_client d w =
     (let old = dm_config d;
          jobs_changed = reload_changes_jobs old (dm_client d) new_config new_client;
          d = d\<lparr>dm_config := new_config, dm_home := new_home\<rparr>;
          (d, w) = (if jobs_changed
                    then restart_listener env
                           (d\<lparr>dm_client := new_client, dm_generation := dm_generation d + 1\<rparr>) w
                    else (d, w));
          (st, w) = reload_modules env new_config (dm_started d) w;
          (now, w) = g_now env w
      in map_option (\<lambda>s. (d\<lparr>dm_started := st, dm_scheduler := s\<rparr>, w))
           (refresh_intervals (dm_scheduler d) now (checkin_interval old) (checkin_interval new_config)
              (inventory_interval old) (inventory_interval new_config)))"

section \<open>Scheduled jobs\<close>

definition rescheduled ::
  "('m, 'w) daemon_env \<Rightarrow> job \<Rightarrow> duration \<Rightarrow> 'm daemon \<Rightarrow> 'w \<Rightarrow> ('m daemon \<times> 'w) option" where
  "rescheduled env job interval d w =
     (case g_now env w of (now, w) \<Rightarrow>
      map_option (\<lambda>s. (d\<lparr>dm_scheduler := s\<rparr>, w)) (reschedule (dm_scheduler d) job now interval))"

definition run_checkin :: "('m, 'w) daemon_env \<Rightarrow> 'm daemon \<Rightarrow> 'w \<Rightarrow> ('m daemon \<times> 'w) option" where
  "run_checkin env d w =
     (case g_checkin env (dm_client d) (advertised_capabilities (dm_config d) (dm_client d))
             (osquery_config (dm_config d)) w of (ack, w) \<Rightarrow>
      case (if leases_now ack then spawn_job_pass env d w else (d, w)) of (d, w) \<Rightarrow>
      rescheduled env CheckIn (checkin_interval (dm_config d)) d w)"

definition run_inventory :: "('m, 'w) daemon_env \<Rightarrow> 'm daemon \<Rightarrow> 'w \<Rightarrow> ('m daemon \<times> 'w) option" where
  "run_inventory env d w =
     (case delivery_running env d w of
        (Some InventoryTask, w) \<Rightarrow> rescheduled env Inventory (inventory_interval (dm_config d)) d w
      | (Some FlushTask, w) \<Rightarrow> rescheduled env Inventory inventory_defer d w
      | (None, w) \<Rightarrow> (case spawn_inventory env d w of (d, w) \<Rightarrow>
                       rescheduled env Inventory (inventory_interval (dm_config d)) d w))"

definition run_flush :: "('m, 'w) daemon_env \<Rightarrow> 'm daemon \<Rightarrow> 'w \<Rightarrow> ('m daemon \<times> 'w) option" where
  "run_flush env d w =
     (case delivery_running env d w of (busy, w) \<Rightarrow>
      case (if busy = None then (d\<lparr>dm_delivery := Some FlushTask\<rparr>, g_spawn_flush env (dm_client d) w)
            else (d, w)) of (d, w) \<Rightarrow>
      rescheduled env Flush (next_flush busy) d w)"

definition known_home ::
  "('m, 'w) daemon_env \<Rightarrow> 'm config \<Rightarrow> 'm daemon \<Rightarrow> (home_error + home option) \<times> 'm daemon" where
  "known_home env new_config d =
     (if dm_relocation d \<noteq> None
      then (Inr (if home_answers (hm_parse (g_codec env)) (hm_as_str (g_codec env)) (dm_home d) new_config
                 then Some (dm_home d) else None), d)
      else case home_persisted (g_codec env) new_config (dm_disk d) of (r, disk) \<Rightarrow> (r, d\<lparr>dm_disk := disk\<rparr>))"

definition try_reload :: "('m, 'w) daemon_env \<Rightarrow> 'm daemon \<Rightarrow> 'w \<Rightarrow> ('m daemon \<times> 'w) option" where
  "try_reload env d w =
     (case g_load env w of
        (Inl _, w) \<Rightarrow> Some (d, w)
      | (Inr new_config, w) \<Rightarrow>
          (case known_home env new_config d of
             (Inl _, d) \<Rightarrow> Some (d, w)
           | (Inr None, d) \<Rightarrow>
               Some (d\<lparr>dm_resolution := Some (ForReload new_config)\<rparr>, g_fetch env new_config w)
           | (Inr (Some known), d) \<Rightarrow>
               (case client_for env new_config known (dm_client d) w of
                  (Inl _, w) \<Rightarrow> Some (d, w)
                | (Inr new_client, w) \<Rightarrow> adopt_reload env new_config known new_client d w)))"

definition run_reload :: "('m, 'w) daemon_env \<Rightarrow> 'm daemon \<Rightarrow> 'w \<Rightarrow> ('m daemon \<times> 'w) option" where
  "run_reload env d w =
     (if dm_resolution d \<noteq> None then rescheduled env Reload reload_defer d w
      else Option.bind (try_reload env d w)
        (\<lambda>(d, w). rescheduled env Reload (config_refresh_interval (dm_config d)) d w))"

definition run_job :: "('m, 'w) daemon_env \<Rightarrow> job \<Rightarrow> 'm daemon \<Rightarrow> 'w \<Rightarrow> ('m daemon \<times> 'w) option" where
  "run_job env job =
     (case job of CheckIn \<Rightarrow> run_checkin env | Inventory \<Rightarrow> run_inventory env
      | Flush \<Rightarrow> run_flush env | Reload \<Rightarrow> run_reload env)"

fun run_jobs :: "('m, 'w) daemon_env \<Rightarrow> job list \<Rightarrow> 'm daemon \<Rightarrow> 'w \<Rightarrow> ('m daemon \<times> 'w) option" where
  \<comment> \<open>the iterator asks the stop flag before it yields each job\<close>
  "run_jobs env [] d w = Some (d, w)"
| "run_jobs env (job # js) d w =
     (case g_stopped env w of (stop, w) \<Rightarrow>
      if stop then Some (d, w)
      else Option.bind (run_job env job d w) (\<lambda>(d, w). run_jobs env js d w))"

section \<open>Moves\<close>

definition discard_moved_home :: "'m daemon \<Rightarrow> 'm daemon" where
  "discard_moved_home d = d\<lparr>dm_disk := snd (home_discard (dm_disk d))\<rparr>"

definition note_moved :: "('m, 'w) daemon_env \<Rightarrow> 'm daemon \<Rightarrow> 'w \<Rightarrow> 'm daemon \<times> 'w" where
  "note_moved env d w =
     (case hears_moved env (dm_client d) w of (mv, w) \<Rightarrow>
      if mv \<and> dm_relocation d = None
      then (case g_now env w of (now, w) \<Rightarrow>
            ((discard_moved_home d)\<lparr>dm_relocation := Some (relocation_new now relocation_retry_initial)\<rparr>, w))
      else (d, w))"

definition put_off :: "('m, 'w) daemon_env \<Rightarrow> 'm daemon \<Rightarrow> 'w \<Rightarrow> ('m daemon \<times> 'w) option" where
  \<comment> \<open>\<open>if let Some(relocation) = relocation.as_mut()\<close>: back off\<close>
  "put_off env d w =
     (case dm_relocation d of
        None \<Rightarrow> Some (d, w)
      | Some r \<Rightarrow> (case g_now env w of (now, w) \<Rightarrow>
          map_option (\<lambda>r. (d\<lparr>dm_relocation := Some r\<rparr>, w)) (back_off r now)))"

definition persist_home ::
  "('m, 'w) daemon_env \<Rightarrow> home \<Rightarrow> 'm daemon \<Rightarrow> 'w \<Rightarrow> (home_error + unit) \<times> 'm daemon \<times> 'w" where
  "persist_home env new_home d w =
     (case g_uuid env w of (i, w) \<Rightarrow>
      case home_persist (g_codec env) i new_home (dm_disk d) of (r, disk) \<Rightarrow> (r, d\<lparr>dm_disk := disk\<rparr>, w))"

definition settle_reload ::
  "('m, 'w) daemon_env \<Rightarrow> 'm config \<Rightarrow> home \<Rightarrow> 'm daemon \<Rightarrow> 'w \<Rightarrow> ('m daemon \<times> 'w) option" where
  "settle_reload env new_config new_home d w =
     (let still_moved = (dm_relocation d \<noteq> None \<and> h_home new_home = h_home (dm_home d)) in
      case client_for env new_config new_home (dm_client d) w of
        (Inl _, w) \<Rightarrow> Some (d, w)
      | (Inr new_client, w) \<Rightarrow>
          (case (if still_moved then (Inr (), d, w) else persist_home env new_home d w) of
             (Inl _, d, w) \<Rightarrow> Some (d, w)
           | (Inr _, d, w) \<Rightarrow>
               adopt_reload env new_config new_home new_client
                 (if h_home new_home \<noteq> h_home (dm_home d) then d\<lparr>dm_relocation := None\<rparr> else d) w))"

definition settle_relocation ::
  "('m, 'w) daemon_env \<Rightarrow> home \<Rightarrow> 'm daemon \<Rightarrow> 'w \<Rightarrow> ('m daemon \<times> 'w) option" where
  "settle_relocation env new_home d w =
     (if h_home new_home \<noteq> h_home (dm_home d)
      then (case client_for env (dm_config d) new_home (dm_client d) w of
              (Inl _, w) \<Rightarrow> put_off env d w
            | (Inr new_client, w) \<Rightarrow>
                (case persist_home env new_home d w of
                   (Inl _, d, w) \<Rightarrow> put_off env d w
                 | (Inr _, d, w) \<Rightarrow>
                     Some (restart_listener env
                       (d\<lparr>dm_home := new_home, dm_client := new_client, dm_relocation := None,
                          dm_generation := dm_generation d + 1\<rparr>) w)))
      else put_off env d w)"

definition settle :: "('m, 'w) daemon_env \<Rightarrow> 'm daemon \<Rightarrow> 'w \<Rightarrow> ('m daemon \<times> 'w) option" where
  "settle env d w =
     (case dm_resolution d of
        None \<Rightarrow> Some (d, w)
      | Some why \<Rightarrow>
          (case g_resolution_result env w of
             (None, w) \<Rightarrow> Some (d, w)
           | (Some result, w) \<Rightarrow>
               let d = d\<lparr>dm_resolution := None\<rparr> in
               (case (why, result) of
                  (ForReload new_config, Inr new_home) \<Rightarrow> settle_reload env new_config new_home d w
                | (ForReload _, Inl _) \<Rightarrow> Some (d, w)
                | (ForRelocation, Inr new_home) \<Rightarrow> settle_relocation env new_home d w
                | (ForRelocation, Inl _) \<Rightarrow> put_off env d w)))"

definition start_relocation :: "('m, 'w) daemon_env \<Rightarrow> 'm daemon \<Rightarrow> 'w \<Rightarrow> 'm daemon \<times> 'w" where
  "start_relocation env d w =
     (case (dm_resolution d, dm_relocation d) of
        (None, Some r) \<Rightarrow>
          (case g_now env w of (now, w) \<Rightarrow>
             if relocation_due r now
             then (d\<lparr>dm_resolution := Some ForRelocation\<rparr>, g_fetch env (dm_config d) w) else (d, w))
      | _ \<Rightarrow> (d, w))"

section \<open>The loop\<close>

definition answer_notice :: "('m, 'w) daemon_env \<Rightarrow> 'm daemon \<Rightarrow> 'w \<Rightarrow> 'm daemon \<times> 'w" where
  "answer_notice env d w =
     (case job_pass_running env d w of (busy, w) \<Rightarrow>
      if busy then (d, w)
      else (case g_take_notice env w of (notice, w) \<Rightarrow>
        if notice then spawn_job_pass env d w else (d, w)))"

definition daemon_turn :: "('m, 'w) daemon_env \<Rightarrow> 'm daemon \<Rightarrow> 'w \<Rightarrow> ('m daemon \<times> 'w) option" where
  "daemon_turn env d w =
     (case g_now env w of (now, w) \<Rightarrow>
      Option.bind (run_jobs env (due (dm_scheduler d) now) d w) (\<lambda>(d, w).
      case note_moved env d w of (d, w) \<Rightarrow>
      Option.bind (settle env d w) (\<lambda>(d, w).
      case start_relocation env d w of (d, w) \<Rightarrow>
      case answer_notice env d w of (d, w) \<Rightarrow>
      case g_now env w of (now, w) \<Rightarrow>
      Some (d, g_sleep env (min (wait (dm_scheduler d) now) (millis 250)) w))))"

partial_function (option) daemon_loop :: "('m, 'w) daemon_env \<Rightarrow> 'm daemon \<Rightarrow> 'w \<Rightarrow> ('m daemon \<times> 'w) option" where
  "daemon_loop env d w =
     (case g_stopped env w of (stop, w) \<Rightarrow>
      if stop then Some (d, w) else Option.bind (daemon_turn env d w) (\<lambda>(d, w). daemon_loop env d w))"

text \<open>A request still in flight at shutdown may have heard that the organization moved.\<close>

definition discard_home_if_moved :: "('m, 'w) daemon_env \<Rightarrow> http_client \<Rightarrow> disk \<Rightarrow> 'w \<Rightarrow> disk \<times> 'w" where
  "discard_home_if_moved env client disk w =
     (case hears_moved env client w of (mv, w) \<Rightarrow>
      (if mv then snd (home_discard disk) else disk, w))"

definition daemon_stop :: "('m, 'w) daemon_env \<Rightarrow> 'm daemon \<Rightarrow> 'w \<Rightarrow> disk \<times> 'w" where
  \<comment> \<open>\<open>g_join\<close> waits for the resolution, the delivery thread and the job pass\<close>
  "daemon_stop env d w =
     discard_home_if_moved env (dm_client d) (dm_disk d)
       (g_join env (if dm_listener d = None then w else g_stop_listener env w))"

section \<open>Start\<close>

definition started_with :: "'m config \<Rightarrow> 'm started" where
  "started_with config =
     \<lparr>st_gnmi = gnmi config, st_libvirt = libvirt config, st_exporters = exporters config,
      st_pdus = power config, st_bmcs = bmc config\<rparr>"

definition start_passes ::
  "('m, 'w) daemon_env \<Rightarrow> 'm config \<Rightarrow> home \<Rightarrow> http_client \<Rightarrow> disk \<Rightarrow> scheduler \<Rightarrow> 'w \<Rightarrow> 'm daemon \<times> 'w" where
  \<comment> \<open>the start-up check-in, the listener and the first pass; the modules and the scheduler follow\<close>
  "start_passes env config home client disk s w =
     (case g_checkin env client (advertised_capabilities config client) (osquery_config config) w of (ack, w) \<Rightarrow>
      case start_listener env client config w of (l, w) \<Rightarrow>
      let d = \<lparr>dm_config = config, dm_home = home, dm_client = client, dm_relocation = None,
               dm_resolution = None, dm_generation = 0, dm_pass = None, dm_listener = l,
               dm_delivery = None, dm_started = started_with config, dm_scheduler = s, dm_disk = disk\<rparr>
      in if leases_now ack then spawn_job_pass env d w else (d, w))"

text \<open>
  \<open>Inl\<close> is a client that cannot be built or a stop before the loop, \<open>Inr\<close> the daemon as it enters
  the loop.
\<close>

datatype early = NoClient transport_error | StoppedEarly disk

definition daemon_start ::
  "('m, 'w) daemon_env \<Rightarrow> 'm config \<Rightarrow> home \<Rightarrow> disk \<Rightarrow> 'w \<Rightarrow> ((early + 'm daemon) \<times> 'w) option" where
  "daemon_start env config home disk w =
     (case built_client env config home w of
        (Inl e, w) \<Rightarrow> Some (Inl (NoClient e), w)
      | (Inr client, w) \<Rightarrow>
          (case g_now env w of (epoch, w) \<Rightarrow>
           let undecided = \<lparr>checkin = 0, inventory = 0, reload = 0, flush_at = 0\<rparr> in
           case start_passes env config home client disk undecided w of (d, w) \<Rightarrow>
           case g_stopped env w of (stop, w) \<Rightarrow>
           if stop then (case daemon_stop env d w of (disk, w) \<Rightarrow> Some (Inl (StoppedEarly disk), w))
           else Option.bind
             (scheduler_new epoch (checkin_interval config) (inventory_interval config)
                (config_refresh_interval config) flush_interval)
             (\<lambda>s. case spawn_inventory env (d\<lparr>dm_scheduler := s\<rparr>) w of (d, w) \<Rightarrow>
                Some (Inr d, g_start_modules env config w))))"

text \<open>
  Resolving the home before anything is sent; \<open>res\<close> is \<^const>\<open>home_resolve\<close> for the configuration.
  \<open>Inr None\<close> means the agent was stopped first, and the loop itself may never end.
\<close>

partial_function (option) retry_wait ::
  "('m, 'w) daemon_env \<Rightarrow> instant \<Rightarrow> 'w \<Rightarrow> (bool \<times> 'w) option" where
  "retry_wait env until w =
     (case g_now env w of (now, w) \<Rightarrow>
      if until < now then Some (False, w)
      else (case g_stopped env w of (stop, w) \<Rightarrow>
        if stop then Some (True, w) else retry_wait env until (g_sleep env (min (until - now) (millis 250)) w)))"

partial_function (option) resolve_home ::
  "('m, 'w) daemon_env \<Rightarrow> (disk \<Rightarrow> 'w \<Rightarrow> (home_error + home) option \<times> disk \<times> 'w) \<Rightarrow> bool \<Rightarrow> duration
   \<Rightarrow> disk \<Rightarrow> 'w \<Rightarrow> ((home_error + home option) \<times> disk \<times> 'w) option" where
  "resolve_home env res keep_trying delay disk w =
     (case res disk w of (r, disk, w) \<Rightarrow>
      Option.bind r (\<lambda>r.
      if \<not> isl r then Some (Inr (Some (projr r)), disk, w)
      else (case g_stopped env w of (stop, w) \<Rightarrow>
        if stop then Some (Inr None, disk, w)
        else if keep_trying \<and> home_transient (projl r)
        then (case g_now env w of (now, w) \<Rightarrow>
              Option.bind (instant_add now delay) (\<lambda>until.
              Option.bind (retry_wait env until w) (\<lambda>(stopped, w).
                if stopped then Some (Inr None, disk, w)
                else resolve_home env res keep_trying (min (delay * 2) home_retry_max) disk w)))
        else Some (Inl (projl r), disk, w))))"

section \<open>Reachable states\<close>

text \<open>The states in which the loop asks whether to go on.\<close>

inductive daemon_runs :: "('m, 'w) daemon_env \<Rightarrow> 'm daemon \<Rightarrow> 'w \<Rightarrow> 'm daemon \<Rightarrow> 'w \<Rightarrow> bool"
  for env d0 w0 where
  entered: "daemon_runs env d0 w0 d0 w0"
| turned: "\<lbrakk>daemon_runs env d0 w0 d w; g_stopped env w = (False, w1); daemon_turn env d w1 = Some (d', w')\<rbrakk>
    \<Longrightarrow> daemon_runs env d0 w0 d' w'"

end
