(* ===== verification/Daemon_Correct.thy ===== *)
theory Daemon_Correct
  imports Daemon
begin

text \<open>
  What holds in every state of the daemon loop: the client, the job pass, the notice socket and the
  collector modules agree with the configuration and home in effect, and the home kept on disk is
  the one in effect, or none while a move is pending. Both are invariants of the loop's operations,
  carried to every reachable state by one locale.
\<close>

section \<open>Invariants of the loop\<close>

locale loop_invariant =
  fixes env :: "('m, 'w) daemon_env" and I :: "'m daemon \<Rightarrow> bool"
  assumes I_scheduler: "I d \<Longrightarrow> I (d\<lparr>dm_scheduler := s\<rparr>)"
    and I_delivery: "I d \<Longrightarrow> I (d\<lparr>dm_delivery := t\<rparr>)"
    and I_pass: "I d \<Longrightarrow> I (d\<lparr>dm_pass := Some (new_pass d)\<rparr>)"
    and I_resolution: "I d \<Longrightarrow> I (d\<lparr>dm_resolution := p\<rparr>)"
    and I_known: "\<lbrakk>I d; known_home env c d = (r, d')\<rbrakk> \<Longrightarrow> I d'"
    and I_reload: "\<lbrakk>I d; known_home env c d = (Inr (Some k), d'); client_for env c k (dm_client d') w = (Inr nc, w');
        adopt_reload env c k nc d' w' = Some (d2, w2)\<rbrakk> \<Longrightarrow> I d2"
    and I_moved: "\<lbrakk>I d; dm_relocation d = None\<rbrakk> \<Longrightarrow> I ((discard_moved_home d)\<lparr>dm_relocation := Some m\<rparr>)"
    and I_back_off: "\<lbrakk>I d; dm_relocation d = Some m\<rbrakk> \<Longrightarrow> I (d\<lparr>dm_relocation := Some m'\<rparr>)"
    and I_settle_reload: "\<lbrakk>I d; settle_reload env c h d w = Some (d2, w2)\<rbrakk> \<Longrightarrow> I d2"
    and I_settle_relocation: "\<lbrakk>I d; settle_relocation env h d w = Some (d2, w2)\<rbrakk> \<Longrightarrow> I d2"
begin

lemma keeps_rescheduled: "\<lbrakk>I d; rescheduled env j i d w = Some (d', w')\<rbrakk> \<Longrightarrow> I d'"
  by (auto simp: rescheduled_def I_scheduler split: prod.splits)

lemma keeps_spawn: "\<lbrakk>I d; spawn_job_pass env d w = (d', w')\<rbrakk> \<Longrightarrow> I d'"
  by (auto simp: spawn_job_pass_def I_pass split: prod.splits if_splits)

lemma keeps_checkin: "\<lbrakk>I d; run_checkin env d w = Some (d', w')\<rbrakk> \<Longrightarrow> I d'"
  by (auto simp: run_checkin_def split: prod.splits if_splits intro: keeps_rescheduled keeps_spawn)

lemma keeps_inventory: "\<lbrakk>I d; run_inventory env d w = Some (d', w')\<rbrakk> \<Longrightarrow> I d'"
  by (auto simp: run_inventory_def spawn_inventory_def split: prod.splits option.splits delivery_task.splits
      intro: keeps_rescheduled I_delivery)

lemma keeps_flush: "\<lbrakk>I d; run_flush env d w = Some (d', w')\<rbrakk> \<Longrightarrow> I d'"
  by (auto simp: run_flush_def split: prod.splits if_splits intro: keeps_rescheduled I_delivery)

lemma keeps_try_reload: "\<lbrakk>I d; try_reload env d w = Some (d', w')\<rbrakk> \<Longrightarrow> I d'"
  by (auto simp: try_reload_def split: prod.splits sum.splits option.splits
      intro: I_known I_reload I_resolution)

lemma keeps_reload: "\<lbrakk>I d; run_reload env d w = Some (d', w')\<rbrakk> \<Longrightarrow> I d'"
  by (auto simp: run_reload_def bind_eq_Some_conv split: if_splits intro: keeps_rescheduled keeps_try_reload)

lemma keeps_job: "\<lbrakk>I d; run_job env j d w = Some (d', w')\<rbrakk> \<Longrightarrow> I d'"
  by (cases j) (auto simp: run_job_def intro: keeps_checkin keeps_inventory keeps_flush keeps_reload)

lemma keeps_jobs: "\<lbrakk>I d; run_jobs env js d w = Some (d', w')\<rbrakk> \<Longrightarrow> I d'"
proof (induction js arbitrary: d w)
  case (Cons j js)
  then show ?case
    by (auto simp: bind_eq_Some_conv split: prod.splits if_splits intro: keeps_job)
qed simp

lemma keeps_note_moved: "\<lbrakk>I d; note_moved env d w = (d', w')\<rbrakk> \<Longrightarrow> I d'"
  by (auto simp: note_moved_def I_moved split: prod.splits if_splits)

lemma keeps_put_off: "\<lbrakk>I d; put_off env d w = Some (d', w')\<rbrakk> \<Longrightarrow> I d'"
  by (auto simp: put_off_def I_back_off split: prod.splits option.splits)

lemma keeps_settle: "\<lbrakk>I d; settle env d w = Some (d', w')\<rbrakk> \<Longrightarrow> I d'"
  by (auto simp: settle_def Let_def split: prod.splits option.splits sum.splits purpose.splits
      intro: I_resolution keeps_put_off I_settle_reload I_settle_relocation)

lemma keeps_start_relocation: "\<lbrakk>I d; start_relocation env d w = (d', w')\<rbrakk> \<Longrightarrow> I d'"
  by (auto simp: start_relocation_def I_resolution split: prod.splits option.splits if_splits)

lemma keeps_answer_notice: "\<lbrakk>I d; answer_notice env d w = (d', w')\<rbrakk> \<Longrightarrow> I d'"
  by (auto simp: answer_notice_def split: prod.splits if_splits intro: keeps_spawn)

lemma keeps_turn:
  assumes "I d" "daemon_turn env d w = Some (d', w')"
  shows "I d'"
proof -
  obtain now w0 where n: "g_now env w = (now, w0)" by fastforce
  obtain d1 w1 where j: "run_jobs env (due (dm_scheduler d) now) d w0 = Some (d1, w1)"
    using assms(2) n by (auto simp: daemon_turn_def bind_eq_Some_conv)
  obtain d2 w2 where m: "note_moved env d1 w1 = (d2, w2)" by fastforce
  obtain d3 w3 where s: "settle env d2 w2 = Some (d3, w3)"
    using assms(2) n j m by (auto simp: daemon_turn_def bind_eq_Some_conv)
  obtain d4 w4 where r: "start_relocation env d3 w3 = (d4, w4)" by fastforce
  obtain w5 where a: "answer_notice env d4 w4 = (d', w5)"
    using assms(2) n j m s r by (auto simp: daemon_turn_def split: prod.splits)
  show ?thesis
    by (rule keeps_answer_notice[OF keeps_start_relocation[OF keeps_settle[OF keeps_note_moved[OF
          keeps_jobs[OF assms(1) j] m] s] r] a])
qed

lemma reachable: "\<lbrakk>daemon_runs env d0 w0 d w; I d0\<rbrakk> \<Longrightarrow> I d"
  by (induction rule: daemon_runs.induct) (auto intro: keeps_turn)

end

section \<open>What adopting a configuration changes\<close>

definition wanted_listener :: "'m config \<Rightarrow> http_client \<Rightarrow> http_client option" where
  \<comment> \<open>the socket is open exactly when the policy enables a capability\<close>
  "wanted_listener config client =
     (if enabled_keys (jc_entries (catalog_for config client)) (jobs config) = [] then None else Some client)"

lemma start_listener_wanted: "fst (start_listener env client config w) = wanted_listener config client"
  by (simp add: start_listener_def wanted_listener_def)

lemma restart_listener_parts:
  assumes "restart_listener env d w = (d', w')"
  shows "d' = d\<lparr>dm_listener := wanted_listener (dm_config d) (dm_client d)\<rparr>"
  using assms start_listener_wanted[of env "dm_client d" "dm_config d" "if dm_listener d = None then w else g_stop_listener env w"]
  by (auto simp: restart_listener_def split: prod.splits)

lemma reload_modules_started: "fst (reload_modules env config st w) = started_with config"
  by (auto simp: reload_modules_def restarted_def started_with_def Let_def split: prod.splits if_splits)

lemma adopt_reload_parts:
  assumes "adopt_reload env c h nc d w = Some (d', w')"
  shows "\<exists>s. d' = (if reload_changes_jobs (dm_config d) (dm_client d) c nc
      then d\<lparr>dm_config := c, dm_home := h, dm_client := nc, dm_generation := dm_generation d + 1,
             dm_listener := wanted_listener c nc, dm_started := started_with c, dm_scheduler := s\<rparr>
      else d\<lparr>dm_config := c, dm_home := h, dm_started := started_with c, dm_scheduler := s\<rparr>)"
proof -
  have m: "reload_modules env c st w = (st', w') \<Longrightarrow> st' = started_with c" for st w st' w'
    using reload_modules_started[of env c st w] by simp
  show ?thesis using assms
    by (auto simp: adopt_reload_def Let_def split: prod.splits if_splits dest!: m restart_listener_parts)
qed

lemma from_settings_settings: "from_settings lib st cells = (Inr c, cells') \<Longrightarrow> hc_settings c = st"
  by (auto simp: from_settings_def Let_def split: sum.splits if_splits)

lemma built_client_built:
  assumes "built_client env c h w = (Inr nc, w')"
  shows "settings_new (g_lib env) c (hm_as_str (g_codec env) (h_home h)) = Inr (hc_settings nc)"
    and "hc_installation_key nc = Some (g_key env)"
  using assms
  by (auto simp: built_client_def for_home_def with_installation_key_def dest: from_settings_settings
      split: prod.splits sum.splits)

lemma client_for_built:
  assumes "client_for env c h cur w = (Inr nc, w')"
  shows "settings_new (g_lib env) c (hm_as_str (g_codec env) (h_home h)) = Inr (hc_settings nc)"
    and "hc_installation_key nc = Some (g_key env)"
proof -
  obtain b w2 where b: "built_client env c h w = (Inr b, w2)" "nc = sharing_moved_signal b cur"
    using assms by (auto simp: client_for_def map_sum_def split: prod.splits sum.splits)
  show "settings_new (g_lib env) c (hm_as_str (g_codec env) (h_home h)) = Inr (hc_settings nc)"
    "hc_installation_key nc = Some (g_key env)"
    using built_client_built[OF b(1)] b(2) by (simp_all add: sharing_moved_signal_def)
qed

section \<open>The configuration in effect\<close>

definition in_effect :: "('m, 'w) daemon_env \<Rightarrow> 'm daemon \<Rightarrow> bool" where
  "in_effect env d =
     (settings_new (g_lib env) (dm_config d) (hm_as_str (g_codec env) (h_home (dm_home d)))
        = Inr (hc_settings (dm_client d))
      \<and> hc_installation_key (dm_client d) = Some (g_key env)
      \<and> dm_listener d = wanted_listener (dm_config d) (dm_client d)
      \<and> dm_started d = started_with (dm_config d)
      \<and> (case dm_pass d of None \<Rightarrow> True
         | Some p \<Rightarrow> w_expected_generation (ps_worker p) < dm_generation d \<or> p = new_pass d))"

lemma in_effect_D:
  assumes "in_effect env d"
  shows "settings_new (g_lib env) (dm_config d) (hm_as_str (g_codec env) (h_home (dm_home d)))
        = Inr (hc_settings (dm_client d))"
    "hc_installation_key (dm_client d) = Some (g_key env)"
    "dm_listener d = wanted_listener (dm_config d) (dm_client d)"
    "dm_started d = started_with (dm_config d)"
    "dm_pass d = Some p \<Longrightarrow> w_expected_generation (ps_worker p) \<le> dm_generation d"
    "dm_pass d = Some p \<Longrightarrow> w_expected_generation (ps_worker p) < dm_generation d \<or> p = new_pass d"
  using assms by (auto simp: in_effect_def new_pass_def worker_new_def Let_def)

lemma in_effect_adopt:
  assumes "in_effect env d" "adopt_reload env c h nc d w = Some (d', w')"
    and b: "settings_new (g_lib env) c (hm_as_str (g_codec env) (h_home h)) = Inr (hc_settings nc)"
      "hc_installation_key nc = Some (g_key env)"
  shows "in_effect env d'"
proof (cases "reload_changes_jobs (dm_config d) (dm_client d) c nc")
  case True
  then obtain s where d': "d' = d\<lparr>dm_config := c, dm_home := h, dm_client := nc, dm_generation := dm_generation d + 1,
      dm_listener := wanted_listener c nc, dm_started := started_with c, dm_scheduler := s\<rparr>"
    using adopt_reload_parts[OF assms(2)] by auto
  show ?thesis
    using in_effect_D(5)[OF assms(1)] b by (simp add: d' in_effect_def less_Suc_eq_le split: option.splits)
next
  case False
  then obtain s where d': "d' = d\<lparr>dm_config := c, dm_home := h, dm_started := started_with c, dm_scheduler := s\<rparr>"
    using adopt_reload_parts[OF assms(2)] by auto
  have same: "hc_settings nc = hc_settings (dm_client d)" "labels c = labels (dm_config d)"
    "jobs c = jobs (dm_config d)" "osquery_config c = osquery_config (dm_config d)"
    using False by (simp_all add: reload_changes_jobs_def sends_like_def)
  have cat: "catalog_for c (dm_client d) = catalog_for (dm_config d) (dm_client d)"
    using same by (simp add: catalog_for_def)
  have new: "new_pass d' = new_pass d" using same cat by (simp add: d' new_pass_def)
  have l: "wanted_listener c (dm_client d) = wanted_listener (dm_config d) (dm_client d)"
    using same cat by (simp add: wanted_listener_def)
  show ?thesis
    using in_effect_D[OF assms(1)] b same(1) new l by (simp add: d' in_effect_def split: option.splits)
qed

lemma in_effect_cong:
  assumes "in_effect env d" "dm_config d' = dm_config d" "dm_home d' = dm_home d" "dm_client d' = dm_client d"
    "dm_generation d' = dm_generation d" "dm_pass d' = dm_pass d" "dm_listener d' = dm_listener d"
    "dm_started d' = dm_started d"
  shows "in_effect env d'"
  using assms by (simp add: in_effect_def new_pass_def split: option.splits)

lemma in_effect_pass: "in_effect env d \<Longrightarrow> in_effect env (d\<lparr>dm_pass := Some (new_pass d)\<rparr>)"
  by (simp add: in_effect_def new_pass_def)

lemma same_disk: "\<exists>disk. d = d\<lparr>dm_disk := disk\<rparr>"
  by (rule exI[of _ "dm_disk d"]) simp

lemma same_relocation: "\<exists>m. d = d\<lparr>dm_relocation := m\<rparr>"
  by (rule exI[of _ "dm_relocation d"]) simp

lemma known_home_parts: "known_home env c d = (r, d') \<Longrightarrow> \<exists>disk. d' = d\<lparr>dm_disk := disk\<rparr>"
  by (auto simp: known_home_def same_disk split: prod.splits if_splits)

lemma persist_home_parts: "persist_home env h d w = (r, d', w') \<Longrightarrow> \<exists>disk. d' = d\<lparr>dm_disk := disk\<rparr>"
  by (auto simp: persist_home_def split: prod.splits)

lemma in_effect_reload:
  assumes "in_effect env d" "known_home env c d = (Inr (Some k), d')"
    and "client_for env c k (dm_client d') w = (Inr nc, w')" "adopt_reload env c k nc d' w' = Some (d2, w2)"
  shows "in_effect env d2"
proof -
  have "in_effect env d'" using known_home_parts[OF assms(2)] in_effect_cong[OF assms(1)] by auto
  thus ?thesis using assms(4) client_for_built[OF assms(3)] by (rule in_effect_adopt)
qed

lemma put_off_parts: "put_off env d w = Some (d', w') \<Longrightarrow> \<exists>m. d' = d\<lparr>dm_relocation := m\<rparr>"
  by (auto simp: put_off_def same_relocation split: option.splits prod.splits)

lemma in_effect_settle_reload:
  assumes "in_effect env d" "settle_reload env c h d w = Some (d2, w2)"
  shows "in_effect env d2"
proof -
  have disk: "in_effect env (d\<lparr>dm_disk := k\<rparr>)" "in_effect env (d\<lparr>dm_disk := k, dm_relocation := m\<rparr>)"
    "in_effect env (d\<lparr>dm_relocation := m\<rparr>)" for k m
    by (rule in_effect_cong[OF assms(1)]; simp)+
  obtain r w1 where cl: "client_for env c h (dm_client d) w = (r, w1)" by fastforce
  show ?thesis
  proof (cases r)
    case (Inl e) thus ?thesis using assms cl by (simp add: settle_reload_def)
  next
    case (Inr nc)
    note built = client_for_built[OF cl[unfolded Inr]]
    have ad: "adopt_reload env c h nc d' w' = Some (d2, w2) \<Longrightarrow> in_effect env d' \<Longrightarrow> ?thesis" for d' w'
      using in_effect_adopt[OF _ _ built] by blast
    show ?thesis
      using assms(2) assms(1) disk
      by (auto simp: settle_reload_def cl Inr split: if_splits prod.splits sum.splits
          dest!: persist_home_parts intro: ad)
  qed
qed

lemma in_effect_settle_relocation:
  assumes "in_effect env d" "settle_relocation env h d w = Some (d2, w2)"
  shows "in_effect env d2"
proof -
  have off: "in_effect env d' \<Longrightarrow> put_off env d' w' = Some (d2, w2) \<Longrightarrow> ?thesis" for d' w'
    using put_off_parts[of env d' w' d2 w2] in_effect_cong[of env d' d2] by auto
  have disk: "in_effect env (d\<lparr>dm_disk := k\<rparr>)" for k by (rule in_effect_cong[OF assms(1)]; simp)
  have moved: "in_effect env (d\<lparr>dm_disk := k, dm_home := h, dm_client := nc, dm_relocation := None,
      dm_generation := Suc (dm_generation d), dm_listener := wanted_listener (dm_config d) nc\<rparr>)"
    if "client_for env (dm_config d) h (dm_client d) w = (Inr nc, w')" for k nc w'
    using client_for_built[OF that] in_effect_D(4,5)[OF assms(1)]
    by (simp add: in_effect_def less_Suc_eq_le split: option.splits)
  show ?thesis
    using assms off disk moved
    by (auto simp: settle_relocation_def split: if_splits prod.splits sum.splits
        dest!: persist_home_parts restart_listener_parts)
qed

interpretation cfg: loop_invariant env "in_effect env" for env :: "('m, 'w) daemon_env"
proof
  fix d d' d2 :: "'m daemon" and s t p c r k nc h m m' and w w' w2 :: 'w
  show "in_effect env d \<Longrightarrow> in_effect env (d\<lparr>dm_scheduler := s\<rparr>)"
    "in_effect env d \<Longrightarrow> in_effect env (d\<lparr>dm_delivery := t\<rparr>)"
    "in_effect env d \<Longrightarrow> in_effect env (d\<lparr>dm_resolution := p\<rparr>)"
    "in_effect env d \<Longrightarrow> in_effect env (d\<lparr>dm_relocation := Some m'\<rparr>)"
    "in_effect env d \<Longrightarrow> in_effect env ((discard_moved_home d)\<lparr>dm_relocation := Some m\<rparr>)"
    by (erule in_effect_cong; simp add: discard_moved_home_def)+
  show "\<lbrakk>in_effect env d; known_home env c d = (r, d')\<rbrakk> \<Longrightarrow> in_effect env d'"
    by (auto dest!: known_home_parts elim: in_effect_cong)
qed (fact in_effect_pass in_effect_reload in_effect_settle_reload in_effect_settle_relocation)+

lemma in_effect_start:
  assumes "daemon_start env config home disk w = Some (Inr d0, w0)"
  shows "in_effect env d0"
proof -
  obtain client w1 where c: "built_client env config home w = (Inr client, w1)"
    using assms by (auto simp: daemon_start_def split: prod.splits sum.splits)
  have p: "in_effect env d" if "start_passes env config home client disk s w = (d, w')" for s w d w'
  proof -
    have l: "start_listener env client config w = (l, w') \<Longrightarrow> l = wanted_listener config client" for l w w'
      using start_listener_wanted[of env client config w] by simp
    show ?thesis
      using that built_client_built[OF c]
      by (auto simp: start_passes_def Let_def spawn_job_pass_def in_effect_def new_pass_def
          split: prod.splits if_splits dest!: l)
  qed
  show ?thesis
    using assms c
    by (auto simp: daemon_start_def Let_def bind_eq_Some_conv spawn_inventory_def
        split: prod.splits if_splits dest!: p elim: in_effect_cong)
qed

section \<open>The home on disk\<close>

definition codec_reads_back :: "home_codec \<Rightarrow> bool" where
  "codec_reads_back hc = (\<forall>h body. hm_to_vec hc h = Some body \<longrightarrow> hm_from_slice hc body = Some h)"

definition stored_home :: "home_codec \<Rightarrow> disk \<Rightarrow> home_error + home option" where
  "stored_home hc d = fst (home_load hc d)"

lemma home_load_calm: "d_events d = [] \<Longrightarrow> home_load hc d = (stored_home hc d, d)"
  by (auto simp: stored_home_def home_load_def fs_defs split: option.splits node.splits)

lemma stored_home_cong:
  "\<lbrakk>d_events d = []; d_events d' = []; map_of (d_files d') home_file = map_of (d_files d) home_file\<rbrakk>
   \<Longrightarrow> stored_home hc d' = stored_home hc d"
  by (auto simp: stored_home_def home_load_def fs_defs split: option.splits node.splits)

lemma home_persisted_calm:
  assumes "d_events d = []" "home_persisted hc c d = (r, d')"
  shows "d' = d" "r = Inr (Some k) \<Longrightarrow> stored_home hc d = Inr (Some k)"
  using assms by (auto simp: home_persisted_def home_load_calm split: sum.splits option.splits if_splits)

lemma home_discard_calm:
  assumes "d_events d = []" "stored_home hc d = Inr x"
  shows "d_events (snd (home_discard d)) = []" "stored_home hc (snd (home_discard d)) = Inr None"
  using assms
  by (auto simp: stored_home_def home_load_def home_discard_def fs_defs split: option.splits node.splits)

lemma home_write_calm:
  assumes "d_events d = []" "t \<noteq> home_file" "home_write_steps hc t h d = (r, d')"
  shows "d_events d' = []
    \<and> (case r of Inl _ \<Rightarrow> map_of (d_files d') home_file = map_of (d_files d) home_file
       | Inr _ \<Rightarrow> \<exists>body m. hm_to_vec hc h = Some body \<and> map_of (d_files d') home_file = Some (File body m))"
  using assms
  by (auto simp: home_write_steps_def fs_defs overwrite_def split: option.splits if_splits)

lemma home_persist_calm:
  assumes "codec_reads_back hc" "d_events d = []" "home_persist hc i h d = (r, d')"
  shows "d_events d' = []" "stored_home hc d' = (case r of Inl _ \<Rightarrow> stored_home hc d | Inr _ \<Rightarrow> Inr (Some h))"
proof -
  let ?t = "''.home-'' @ i"
  obtain q d1 where ws: "home_write_steps hc ?t h d = (q, d1)" by fastforce
  have t: "?t \<noteq> home_file" by (simp add: home_file_def)
  note wc = home_write_calm[OF assms(2) t ws]
  have p: "(r, d') = (case q of Inr _ \<Rightarrow> (Inr (), d1)
      | Inl _ \<Rightarrow> (Inl (home_state_error (Format ''cannot persist home: {error}'' [])), snd (fs_remove_file ?t d1)))"
    using assms(2,3) ws by (auto simp: home_persist_def fs_defs split: sum.splits)
  have rm: "d_events (snd (fs_remove_file ?t d1)) = []"
    "map_of (d_files (snd (fs_remove_file ?t d1))) home_file = map_of (d_files d1) home_file"
    using wc t by (auto simp: fs_defs split: option.splits node.splits)
  show e: "d_events d' = []" using p wc rm(1) by (cases q) auto
  show "stored_home hc d' = (case r of Inl _ \<Rightarrow> stored_home hc d | Inr _ \<Rightarrow> Inr (Some h))"
  proof (cases q)
    case (Inl k)
    thus ?thesis using p wc rm assms(2) stored_home_cong[of d d' hc] by auto
  next
    case (Inr u)
    then obtain body m where "d' = d1" "r = Inr ()" "hm_to_vec hc h = Some body"
      "map_of (d_files d') home_file = Some (File body m)" "d_events d' = []"
      using p wc by auto
    thus ?thesis using assms(1)
      by (simp add: stored_home_def home_load_def fs_defs codec_reads_back_def)
  qed
qed

definition home_kept :: "('m, 'w) daemon_env \<Rightarrow> 'm daemon \<Rightarrow> bool" where
  "home_kept env d =
     (codec_reads_back (g_codec env) \<and> d_events (dm_disk d) = []
      \<and> stored_home (g_codec env) (dm_disk d) = Inr (if dm_relocation d = None then Some (dm_home d) else None))"

lemma home_kept_cong:
  assumes "home_kept env d" "dm_disk d' = dm_disk d" "dm_home d' = dm_home d"
    "(dm_relocation d' = None) = (dm_relocation d = None)"
  shows "home_kept env d'"
  using assms by (simp add: home_kept_def)

lemma adopt_reload_keeps:
  assumes "adopt_reload env c h nc d w = Some (d', w')"
  shows "dm_disk d' = dm_disk d" "dm_home d' = h" "dm_relocation d' = dm_relocation d"
  using adopt_reload_parts[OF assms] by (auto split: if_splits)

lemma known_home_calm:
  assumes "home_kept env d" "known_home env c d = (r, d')"
  shows "d' = d" "r = Inr (Some k) \<Longrightarrow> k = dm_home d"
  using assms home_persisted_calm[of "dm_disk d" "g_codec env" c]
  by (auto simp: home_kept_def known_home_def split: prod.splits if_splits)

lemma home_kept_reload:
  assumes "home_kept env d" "known_home env c d = (Inr (Some k), d')" "adopt_reload env c k nc d' w' = Some (d2, w2)"
  shows "home_kept env d2"
  using home_kept_cong[OF assms(1)] known_home_calm[OF assms(1,2)] adopt_reload_keeps[OF assms(3)] by simp

lemma persist_home_calm:
  assumes "home_kept env d" "persist_home env h d w = (r, d', w')"
  shows "\<exists>disk. d' = d\<lparr>dm_disk := disk\<rparr> \<and> d_events disk = []
    \<and> stored_home (g_codec env) disk = (case r of Inl _ \<Rightarrow> stored_home (g_codec env) (dm_disk d) | Inr _ \<Rightarrow> Inr (Some h))"
  using assms home_persist_calm[of "g_codec env" "dm_disk d"]
  by (auto simp: persist_home_def home_kept_def split: prod.splits)

lemma put_off_keeps:
  "\<lbrakk>home_kept env d; put_off env d w = Some (d', w')\<rbrakk> \<Longrightarrow> home_kept env d'"
  by (auto simp: put_off_def home_kept_def split: option.splits prod.splits)

lemma home_kept_settle_reload:
  assumes "home_kept env d" "settle_reload env c h d w = Some (d2, w2)"
  shows "home_kept env d2"
proof -
  obtain r w1 where cl: "client_for env c h (dm_client d) w = (r, w1)" by fastforce
  show ?thesis
  proof (cases r)
    case (Inl e) thus ?thesis using assms cl by (simp add: settle_reload_def)
  next
    case (Inr nc)
    note k = assms(1)[unfolded home_kept_def]
    show ?thesis
    proof (cases "dm_relocation d \<noteq> None \<and> h_home h = h_home (dm_home d)")
      case True
      hence a: "adopt_reload env c h nc d w1 = Some (d2, w2)" using assms(2) cl Inr by (simp add: settle_reload_def)
      show ?thesis using adopt_reload_keeps[OF a] k True by (simp add: home_kept_def)
    next
      case False
      obtain q d1 w3 where ph: "persist_home env h d w1 = (q, d1, w3)" using prod_cases3 by blast
      obtain disk where d1: "d1 = d\<lparr>dm_disk := disk\<rparr>" "d_events disk = []" "stored_home (g_codec env) disk =
          (case q of Inl _ \<Rightarrow> stored_home (g_codec env) (dm_disk d) | Inr _ \<Rightarrow> Inr (Some h))"
        using persist_home_calm[OF assms(1) ph] by blast
      note st = assms(2)[unfolded settle_reload_def Let_def cl Inr if_not_P[OF False]]
      show ?thesis
      proof (cases q)
        case (Inl e)
        have "d2 = d1" using st ph Inl by simp
        thus ?thesis using k d1 Inl by (simp add: home_kept_def)
      next
        case r: (Inr u)
        have a: "adopt_reload env c h nc
            (if h_home h \<noteq> h_home (dm_home d) then d1\<lparr>dm_relocation := None\<rparr> else d1) w3 = Some (d2, w2)"
          using st ph r d1 by (simp split: if_splits)
        show ?thesis using adopt_reload_keeps[OF a] k False d1 r by (auto simp: home_kept_def split: if_splits)
      qed
    qed
  qed
qed

lemma home_kept_settle_relocation:
  assumes "home_kept env d" "settle_relocation env h d w = Some (d2, w2)"
  shows "home_kept env d2"
proof -
  have kept: "home_kept env (d\<lparr>dm_disk := disk\<rparr>)"
    if "d_events disk = []" "stored_home (g_codec env) disk = stored_home (g_codec env) (dm_disk d)" for disk
    using assms(1) that by (simp add: home_kept_def)
  have new: "home_kept env (d\<lparr>dm_disk := disk, dm_home := h, dm_client := nc, dm_relocation := None,
      dm_generation := g, dm_listener := l\<rparr>)"
    if "d_events disk = []" "stored_home (g_codec env) disk = Inr (Some h)" for disk nc g l
    using assms(1) that by (simp add: home_kept_def)
  have off: "home_kept env d' \<Longrightarrow> put_off env d' w' = Some (d2, w2) \<Longrightarrow> ?thesis" for d' w'
    by (rule put_off_keeps)
  show ?thesis
    using assms new
    by (auto simp: settle_relocation_def split: if_splits prod.splits sum.splits
        dest!: persist_home_calm[OF assms(1)] restart_listener_parts intro: off off[OF kept])
qed

lemma home_kept_moved: "home_kept env d \<Longrightarrow> home_kept env ((discard_moved_home d)\<lparr>dm_relocation := Some m\<rparr>)"
  using home_discard_calm[of "dm_disk d" "g_codec env"] by (auto simp: home_kept_def discard_moved_home_def)

interpretation kept: loop_invariant env "home_kept env" for env :: "('m, 'w) daemon_env"
proof
  fix d d' d2 :: "'m daemon" and s t p c r k nc h m m' and w w' w2 :: 'w
  show "home_kept env d \<Longrightarrow> home_kept env (d\<lparr>dm_scheduler := s\<rparr>)"
    "home_kept env d \<Longrightarrow> home_kept env (d\<lparr>dm_delivery := t\<rparr>)"
    "home_kept env d \<Longrightarrow> home_kept env (d\<lparr>dm_resolution := p\<rparr>)"
    "home_kept env d \<Longrightarrow> home_kept env (d\<lparr>dm_pass := Some (new_pass d)\<rparr>)"
    by (erule home_kept_cong; simp)+
  show "\<lbrakk>home_kept env d; dm_relocation d = Some m\<rbrakk> \<Longrightarrow> home_kept env (d\<lparr>dm_relocation := Some m'\<rparr>)"
    by (erule home_kept_cong; simp)
  show "\<lbrakk>home_kept env d; known_home env c d = (r, d')\<rbrakk> \<Longrightarrow> home_kept env d'"
    using known_home_calm(1) by blast
qed (blast intro: home_kept_moved home_kept_reload home_kept_settle_reload home_kept_settle_relocation)+

section \<open>From start-up to the loop\<close>

definition home_resolver ::
  "('m, 'w) daemon_env \<Rightarrow> ('m config \<Rightarrow> string \<Rightarrow> 'w \<Rightarrow> (transport_error + url) option \<times> 'w)
   \<Rightarrow> ('w \<Rightarrow> system_time \<times> 'w) \<Rightarrow> 'm config \<Rightarrow> disk \<Rightarrow> 'w \<Rightarrow> (home_error + home) option \<times> disk \<times> 'w" where
  \<comment> \<open>\<open>home::resolve\<close> for the configuration, as \<open>resolve_home\<close> calls it\<close>
  "home_resolver env ask utc config disk w =
     (case g_uuid env w of (i, w) \<Rightarrow> home_resolve (g_codec env) i ask utc config disk w)"

lemma home_resolver_calm:
  assumes "codec_reads_back (g_codec env)" "d_events disk = []"
    and "home_resolver env ask utc config disk w = (r, disk', w')"
  shows "d_events disk' = []" "r = Some (Inr h) \<Longrightarrow> stored_home (g_codec env) disk' = Inr (Some h)"
proof -
  obtain i w0 where i: "g_uuid env w = (i, w0)" by fastforce
  obtain p where p: "home_persisted (g_codec env) config disk = (p, disk)"
    using home_persisted_calm(1)[OF assms(2)] by (metis surj_pair)
  have pe: "d_events (snd (home_persist (g_codec env) i h disk)) = []"
    "fst (home_persist (g_codec env) i h disk) = Inr u
     \<Longrightarrow> stored_home (g_codec env) (snd (home_persist (g_codec env) i h disk)) = Inr (Some h)" for h u
    using home_persist_calm[OF assms(1,2) prod.collapse[symmetric]] by auto
  have c: "home_resolve (g_codec env) i ask utc config disk w0 = (r, disk', w')"
    using assms(3) i by (simp add: home_resolver_def)
  show "d_events disk' = []"
    using c p assms(2) pe(1)
    by (auto simp: home_resolve_def split: sum.splits option.splits prod.splits) (metis snd_conv)+
  show "r = Some (Inr h) \<Longrightarrow> stored_home (g_codec env) disk' = Inr (Some h)"
    using c p home_persisted_calm(2)[OF assms(2) p] pe(2)
    by (auto simp: home_resolve_def split: sum.splits option.splits prod.splits) (metis fst_conv snd_conv)+
qed

definition calm_resolver :: "home_codec \<Rightarrow> (disk \<Rightarrow> 'w \<Rightarrow> (home_error + home) option \<times> disk \<times> 'w) \<Rightarrow> bool" where
  "calm_resolver hc res =
     (\<forall>disk w r disk' w'. res disk w = (r, disk', w') \<longrightarrow> d_events disk = [] \<longrightarrow>
        d_events disk' = [] \<and> (\<forall>h. r = Some (Inr h) \<longrightarrow> stored_home hc disk' = Inr (Some h)))"

lemma resolve_home_calm:
  assumes "resolve_home env res keep_trying delay disk w = Some (Inr (Some h), disk', w')"
    and "calm_resolver hc res" "d_events disk = []"
  shows "d_events disk' = [] \<and> stored_home hc disk' = Inr (Some h)"
proof -
  have "case y of (r, disk', _) \<Rightarrow> calm_resolver hc res \<longrightarrow> d_events disk = [] \<longrightarrow>
      (\<forall>h. r = Inr (Some h) \<longrightarrow> d_events disk' = [] \<and> stored_home hc disk' = Inr (Some h))"
    if "resolve_home env res keep_trying delay disk w = Some y" for y
  proof (rule resolve_home.raw_induct[OF _ that])
    fix f env res kt dl disk w y
    assume IH: "\<And>env res kt dl disk w y. f env res kt dl disk w = Some y \<Longrightarrow> case y of (r, disk', _) \<Rightarrow>
        calm_resolver hc res \<longrightarrow> d_events disk = [] \<longrightarrow>
        (\<forall>h. r = Inr (Some h) \<longrightarrow> d_events disk' = [] \<and> stored_home hc disk' = Inr (Some h))"
      and eq: "(case res disk w of (r, disk, w) \<Rightarrow> Option.bind r (\<lambda>r.
          if \<not> isl r then Some (Inr (Some (projr r)), disk, w)
          else (case g_stopped env w of (stop, w) \<Rightarrow>
            if stop then Some (Inr None, disk, w)
            else if kt \<and> home_transient (projl r)
            then (case g_now env w of (now, w) \<Rightarrow>
                  Option.bind (instant_add now dl) (\<lambda>until.
                  Option.bind (retry_wait env until w) (\<lambda>(stopped, w).
                    if stopped then Some (Inr None, disk, w)
                    else f env res kt (min (dl * 2) home_retry_max) disk w)))
            else Some (Inl (projl r), disk, w)))) = Some y"
    obtain q disk1 w1 where q: "res disk w = (q, disk1, w1)" using prod_cases3 by blast
    have c1: "calm_resolver hc res \<Longrightarrow> d_events disk = [] \<Longrightarrow>
        d_events disk1 = [] \<and> (\<forall>h. q = Some (Inr h) \<longrightarrow> stored_home hc disk1 = Inr (Some h))"
      using q unfolding calm_resolver_def by blast
    show "case y of (r, disk', _) \<Rightarrow> calm_resolver hc res \<longrightarrow> d_events disk = [] \<longrightarrow>
        (\<forall>h. r = Inr (Some h) \<longrightarrow> d_events disk' = [] \<and> stored_home hc disk' = Inr (Some h))"
    proof (cases "\<exists>dl w. f env res kt dl disk1 w = Some y")
      case True
      then obtain dl w where "f env res kt dl disk1 w = Some y" by blast
      from IH[OF this] show ?thesis using c1 by (cases y) simp
    next
      case again: False
      consider (found) h where "q = Some (Inr h)" | (failed) e where "q = Some (Inl e)" | (never) "q = None"
        by (metis option.exhaust sum.exhaust)
      thus ?thesis
      proof cases
        case found thus ?thesis using eq q c1 by (cases y) simp
      next
        case failed
        have "fst y \<noteq> Inr (Some h)" for h
          using eq again by (auto simp: q failed bind_eq_Some_conv split: prod.splits if_splits)
        thus ?thesis by (cases y) simp
      qed (use eq q in simp)
    qed
  qed
  from this[OF assms(1)] show ?thesis using assms(2,3) by simp
qed

lemma start_parts:
  assumes "daemon_start env config home disk w = Some (Inr d0, w0)"
  shows "dm_disk d0 = disk" "dm_home d0 = home" "dm_relocation d0 = None"
  using assms
  by (auto simp: daemon_start_def start_passes_def spawn_job_pass_def spawn_inventory_def Let_def bind_eq_Some_conv
      split: prod.splits sum.splits if_splits)

section \<open>A move in a small world\<close>

text \<open>
  Two deployments, a disk that is empty at first, and a home that says the organization moved: the
  first turn of the loop discards the home and asks again, the second adopts the new home.
\<close>

definition at_host :: "string \<Rightarrow> url" where
  "at_host h = \<lparr>u_scheme = ''https'', u_host = Some h, u_username = [], u_password = None, u_path = ''/'',
     u_query = None, u_fragment = None\<rparr>"

definition two_homes :: "string \<Rightarrow> url option" where
  "two_homes s = (if s = ''https://a'' then Some (at_host ''a'') else if s = ''https://b'' then Some (at_host ''b'') else None)"

definition home_at :: "string \<Rightarrow> home" where
  "home_at h = \<lparr>h_renga_url = ''https://a'', h_deployment = ''eu'', h_home = at_host h, h_resolved_at = 0\<rparr>"

definition tiny_codec :: home_codec where
  "tiny_codec = \<lparr>hm_parse = two_homes, hm_as_str = (\<lambda>u. ''https://'' @ the (u_host u)),
     hm_from_slice = (\<lambda>s. if s = ''a'' then Some (home_at ''a'') else if s = ''b'' then Some (home_at ''b'') else None),
     hm_to_vec = (\<lambda>h. if h = home_at ''a'' then Some ''a'' else if h = home_at ''b'' then Some ''b'' else None)\<rparr>"

definition tiny_config :: "unit config" where
  "tiny_config = \<lparr>renga_url = ''https://a'', allow_insecure_http = False,
     intake_api_key = ''renga_intake_eu_'' @ replicate 43 CHR ''x'', installation_id = ''i'', request_timeout = 1,
     max_retry_attempts = 1, config_path = ''c'', inventory_interval = 1, checkin_interval = 1,
     config_refresh_interval = 1, labels = [], jobs = \<lparr>policy_enabled = None\<rparr>, snmp = [], gnmi = [], libvirt = None,
     power = [], bmc = [], exporters = [], osquery_config = ()\<rparr>"

definition tiny_env :: "(unit, unit) daemon_env" where
  "tiny_env = \<lparr>g_now = (\<lambda>w. (0, w)), g_stopped = (\<lambda>w. (False, w)), g_sleep = (\<lambda>_ w. w),
     g_lib = \<lparr>l_parse = two_homes, l_join = (\<lambda>u p. Some (u\<lparr>u_path := p\<rparr>)), l_header_value = (\<lambda>_. True),
       l_tls = Inr (), l_build = Inr (), l_json = Map.empty, l_rfc2822 = Map.empty\<rparr>,
     g_codec = tiny_codec, g_key = ''k'', g_uuid = (\<lambda>w. (''0'', w)),
     g_cells = (\<lambda>_. \<lparr>c_next = 0, c_moved = (\<lambda>_. True), c_deadlines = (\<lambda>_. Map.empty)\<rparr>), g_put_cells = (\<lambda>_ w. w),
     g_load = (\<lambda>w. (Inr tiny_config, w)), g_checkin = (\<lambda>_ _ _ w. (Inr (Some True), w)), g_fetch = (\<lambda>_ w. w),
     g_resolution_result = (\<lambda>w. (Some (Inr (home_at ''b'')), w)), g_pass_finished = (\<lambda>w. (True, w)),
     g_spawn_pass = (\<lambda>_ w. w), g_delivery_finished = (\<lambda>w. (True, w)), g_spawn_inventory = (\<lambda>_ _ w. w),
     g_spawn_flush = (\<lambda>_ w. w), g_stop_listener = (\<lambda>w. w), g_spawn_listener = (\<lambda>_ w. w),
     g_take_notice = (\<lambda>w. (True, w)), g_start_modules = (\<lambda>_ w. w), g_reload_snmp = (\<lambda>_ w. w),
     g_restart = (\<lambda>_ _ w. w), g_join = (\<lambda>w. w)\<rparr>"

definition tiny_client :: "string \<Rightarrow> http_client" where
  "tiny_client h =
     (let at = (\<lambda>p. (at_host h)\<lparr>u_path := p\<rparr>) in
      \<lparr>hc_settings = \<lparr>cs_home = at_host h, cs_intake_api_key = intake_api_key tiny_config, cs_installation_id = ''i'',
         cs_request_timeout = 1, cs_max_retry_attempts = 1\<rparr>,
       hc_checkin_url = at checkin_path, hc_observation_url = at observation_path,
       hc_telemetry_url = at telemetry_path, hc_lease_url = at job_lease_path,
       hc_authorization = ''Bearer '' @ intake_api_key tiny_config, hc_installation_id = ''i'',
       hc_installation_key = Some ''k'', hc_moved = 0, hc_retry_not_before = 0\<rparr>)"

lemma two_homes_code [simp]:
  "two_homes ''https://a'' = Some (at_host ''a'')" "two_homes ''https://b'' = Some (at_host ''b'')"
  by (simp_all add: two_homes_def)

lemma tiny_built:
  assumes "h \<in> {''a'', ''b''}"
  shows "built_client tiny_env tiny_config (home_at h) w = (Inr (tiny_client h), w)"
proof -
  have "split_scheme (''https://'' @ h) = Some h"
    using assms by (auto simp: split_scheme_def starts_with_def upt_rec)
  moreover have "two_homes (''https://'' @ h) = Some (at_host h)" using assms by (auto simp: two_homes_def)
  moreover have "\<not> starts_with ''/'' h" "h \<noteq> []" using assms by (auto simp: starts_with_def)
  ultimately show ?thesis
    by (simp add: built_client_def for_home_def settings_new_def origin_url_def from_settings_def endpoint_url_def
        tiny_env_def tiny_codec_def home_at_def at_host_def tiny_config_def tiny_client_def with_installation_key_def Let_def)
qed

lemma tiny_env_calls [simp]:
  "g_now tiny_env w = (0, w)" "g_stopped tiny_env w = (False, w)" "g_uuid tiny_env w = (''0'', w)"
  "g_codec tiny_env = tiny_codec" "g_checkin tiny_env c l q w = (Inr (Some True), w)"
  "g_resolution_result tiny_env w = (Some (Inr (home_at ''b'')), w)"
  "g_pass_finished tiny_env w = (True, w)" "g_take_notice tiny_env w = (True, w)"
  "g_cells tiny_env w = \<lparr>c_next = 0, c_moved = (\<lambda>_. True), c_deadlines = (\<lambda>_. Map.empty)\<rparr>"
  by (simp_all add: tiny_env_def)

lemma tiny_config_parts [simp]:
  "jobs tiny_config = \<lparr>policy_enabled = None\<rparr>" "checkin_interval tiny_config = 1"
  "inventory_interval tiny_config = 1" "config_refresh_interval tiny_config = 1" "renga_url tiny_config = ''https://a''"
  by (simp_all add: tiny_config_def)

definition tiny_disk :: "directory \<Rightarrow> disk" where
  "tiny_disk fs = \<lparr>d_files = fs, d_events = [], d_clock = 0\<rparr>"

definition tiny_listener :: "string \<Rightarrow> http_client option" where
  "tiny_listener h = wanted_listener tiny_config (tiny_client h)"

definition before_move :: "unit daemon" where
  "before_move =
     (let d = \<lparr>dm_config = tiny_config, dm_home = home_at ''a'', dm_client = tiny_client ''a'', dm_relocation = None,
               dm_resolution = None, dm_generation = 0, dm_pass = None, dm_listener = tiny_listener ''a'',
               dm_delivery = Some InventoryTask, dm_started = started_with tiny_config,
               dm_scheduler = \<lparr>checkin = 1, inventory = 1, reload = 1, flush_at = flush_interval\<rparr>,
               dm_disk = tiny_disk [(home_file, File ''a'' 0)]\<rparr>
      in d\<lparr>dm_pass := Some (new_pass d)\<rparr>)"

definition during_move :: "unit daemon" where
  "during_move = before_move\<lparr>dm_relocation := Some (relocation_new 0 relocation_retry_initial),
     dm_resolution := Some ForRelocation, dm_disk := tiny_disk []\<rparr>"

definition after_move :: "unit daemon" where
  "after_move =
     (let d = during_move\<lparr>dm_home := home_at ''b'', dm_client := tiny_client ''b'', dm_relocation := None,
                dm_resolution := None, dm_generation := 1, dm_listener := tiny_listener ''b'',
                dm_disk := tiny_disk [(home_file, File ''b'' 0)]\<rparr>
      in d\<lparr>dm_pass := Some (new_pass d)\<rparr>)"

lemma tiny_start_listener:
  "start_listener tiny_env (tiny_client h) tiny_config w = (tiny_listener h, w)"
  by (simp add: start_listener_def tiny_listener_def wanted_listener_def tiny_env_def)

lemma flush_interval_positive: "0 < flush_interval" "flush_interval < instant_limit"
  by (simp_all add: flush_interval_def secs_def instant_limit_def)

lemma tiny_start:
  "daemon_start tiny_env tiny_config (home_at ''a'') (tiny_disk [(home_file, File ''a'' 0)]) w = Some (Inr before_move, w)"
  using flush_interval_positive
  by (simp add: daemon_start_def tiny_built start_passes_def tiny_start_listener before_move_def Let_def
      spawn_job_pass_def job_pass_running_def spawn_inventory_def leases_now_def scheduler_new_def instant_add_def
      new_pass_def instant_limit_def)

lemma tiny_quiet: "due (dm_scheduler before_move) 0 = []"
  using flush_interval_positive by (simp add: before_move_def due_def Let_def)

lemma tiny_answers: "dm_pass d \<noteq> None \<Longrightarrow> answer_notice tiny_env d w = (d\<lparr>dm_pass := Some (new_pass d)\<rparr>, w)"
  by (simp add: answer_notice_def job_pass_running_def spawn_job_pass_def)

lemma before_move_parts [simp]:
  "dm_resolution before_move = None" "dm_relocation before_move = None" "dm_config before_move = tiny_config"
  "dm_client before_move = tiny_client ''a''" "dm_pass before_move = Some (new_pass before_move)"
  "dm_generation before_move = 0" "dm_home before_move = home_at ''a''"
  "dm_disk before_move = tiny_disk [(home_file, File ''a'' 0)]" "dm_listener before_move = tiny_listener ''a''"
  by (simp_all add: before_move_def new_pass_def Let_def)

lemma tiny_first_turn: "daemon_turn tiny_env before_move w = Some (during_move, w)"
proof -
  let ?m = "before_move\<lparr>dm_disk := tiny_disk [], dm_relocation := Some (relocation_new 0 relocation_retry_initial)\<rparr>"
  have "note_moved tiny_env before_move w = (?m, w)"
    by (simp add: note_moved_def hears_moved_def take_moved_def discard_moved_home_def home_discard_def fs_defs
        tiny_disk_def unlink_def)
  moreover have "settle tiny_env ?m w = Some (?m, w)" by (simp add: settle_def)
  moreover have "start_relocation tiny_env ?m w = (during_move, w)"
    by (simp add: start_relocation_def during_move_def relocation_due_def relocation_new_def)
  moreover have "new_pass during_move = new_pass before_move" "dm_pass during_move = Some (new_pass before_move)"
    by (simp_all add: during_move_def new_pass_def)
  moreover from this have "during_move\<lparr>dm_pass := Some (new_pass during_move)\<rparr> = during_move" by simp
  ultimately show ?thesis by (simp add: daemon_turn_def tiny_quiet tiny_answers)
qed

lemma tiny_second_turn: "daemon_turn tiny_env during_move w = Some (after_move, w)"
proof -
  let ?m = "during_move\<lparr>dm_resolution := None\<rparr>"
  let ?n = "?m\<lparr>dm_disk := tiny_disk [(home_file, File ''b'' 0)], dm_home := home_at ''b'', dm_client := tiny_client ''b'',
      dm_relocation := None, dm_generation := 1, dm_listener := tiny_listener ''b''\<rparr>"
  have q: "due (dm_scheduler during_move) 0 = []" using tiny_quiet by (simp add: during_move_def)
  have n: "note_moved tiny_env during_move w = (during_move, w)"
    by (simp add: note_moved_def hears_moved_def take_moved_def during_move_def)
  have hosts: "h_home (home_at ''b'') \<noteq> h_home (home_at ''a'')" by (simp add: home_at_def at_host_def)
  have c: "client_for tiny_env tiny_config (home_at ''b'') (tiny_client ''a'') w = (Inr (tiny_client ''b''), w)"
    by (simp add: client_for_def tiny_built sharing_moved_signal_def tiny_client_def at_host_def Let_def)
  have p: "persist_home tiny_env (home_at ''b'') ?m w = (Inr (), ?m\<lparr>dm_disk := tiny_disk [(home_file, File ''b'' 0)]\<rparr>, w)"
    by (simp add: persist_home_def home_persist_def home_write_steps_def fs_defs during_move_def tiny_disk_def
        tiny_codec_def home_at_def at_host_def put_def unlink_def overwrite_def home_file_def)
  have l: "restart_listener tiny_env d w = (d\<lparr>dm_listener := tiny_listener ''b''\<rparr>, w)"
    if "dm_client d = tiny_client ''b''" "dm_config d = tiny_config" for d
    using that by (simp add: restart_listener_def tiny_start_listener)
  have "settle tiny_env during_move w = Some (?n, w)"
    using hosts c p l by (simp add: settle_def settle_relocation_def during_move_def)
  moreover have "start_relocation tiny_env ?n w = (?n, w)" by (simp add: start_relocation_def)
  moreover have "?n\<lparr>dm_pass := Some (new_pass ?n)\<rparr> = after_move"
    by (simp add: after_move_def Let_def new_pass_def during_move_def)
  moreover have "dm_pass ?n \<noteq> None" by (simp add: during_move_def)
  ultimately show ?thesis using q n by (simp add: daemon_turn_def tiny_answers)
qed

lemma tiny_runs: "daemon_runs tiny_env before_move w after_move w"
  by (rule daemon_runs.turned[OF daemon_runs.turned[OF daemon_runs.entered tiny_env_calls(2) tiny_first_turn]
        tiny_env_calls(2) tiny_second_turn])

section \<open>Properties\<close>



text \<open>
  C6. While nothing else touches the state directory and its system calls work, the home kept on
  disk is the home in effect, and none while a move is pending: a home that said the organization
  moved is neither left on disk nor written again, so a restart asks \<open>renga_url\<close>. The reader and
  writer of the JSON file agree.
\<close>

theorem moved_home_is_not_persisted:
  assumes "\<forall>h body. hm_to_vec (g_codec env) h = Some body \<longrightarrow> hm_from_slice (g_codec env) body = Some h"
    and "d_events disk = []"
    and "resolve_home env (home_resolver env ask utc config) keep_trying delay disk w
      = Some (Inr (Some home), disk1, w1)"
    and "daemon_start env config home disk1 w1 = Some (Inr d0, w2)" "daemon_runs env d0 w2 d w3"
  shows "fst (home_load (g_codec env) (dm_disk d))
    = Inr (if dm_relocation d = None then Some (dm_home d) else None)"
proof -
  have c: "codec_reads_back (g_codec env)" using assms(1) by (simp add: codec_reads_back_def)
  have "calm_resolver (g_codec env) (home_resolver env ask utc config)"
    using home_resolver_calm[OF c] unfolding calm_resolver_def by blast
  from resolve_home_calm[OF assms(3) this assms(2)] have "home_kept env d0"
    using start_parts[OF assms(4)] c by (simp add: home_kept_def)
  with kept.reachable[OF assms(5)] show ?thesis by (simp add: home_kept_def stored_home_def)
qed

lemma tiny_deployment: "deployment_of tiny_config = ''eu''"
proof -
  have "deployment_id (intake_key_prefix @ ''eu'' @ ''_'' @ replicate 43 CHR ''x'') = Some ''eu''"
    by (rule deployment_id_of_key)
      (simp_all add: valid_deployment_id_def is_ascii_lowercase_def byte_of_def secret_length_def)
  thus ?thesis by (simp add: deployment_of_def tiny_config_def intake_key_prefix_def)
qed

lemma tiny_resolve:
  "resolve_home tiny_env (home_resolver tiny_env (\<lambda>_ _ w. (Some (Inr (at_host ''a'')), w)) (\<lambda>w. (0, w)) tiny_config)
     True home_retry_initial (tiny_disk []) w = Some (Inr (Some (home_at ''a'')), tiny_disk [(home_file, File ''a'' 0)], w)"
proof -
  have "home_resolver tiny_env (\<lambda>_ _ w. (Some (Inr (at_host ''a'')), w)) (\<lambda>w. (0, w)) tiny_config (tiny_disk []) w
      = (Some (Inr (home_at ''a'')), tiny_disk [(home_file, File ''a'' 0)], w)"
    by (simp add: home_resolver_def home_resolve_def home_persisted_def home_load_def home_fetch_def tiny_deployment
        home_persist_def home_write_steps_def fs_defs tiny_disk_def tiny_codec_def home_at_def put_def unlink_def
        overwrite_def home_file_def)
  thus ?thesis by (subst resolve_home.simps) simp
qed

theorem moved_home_is_not_persisted_witness:
  "fst (home_load tiny_codec (dm_disk during_move)) = Inr None
   \<and> fst (home_load tiny_codec (dm_disk after_move)) = Inr (Some (home_at ''b''))"
proof -
  have c: "\<forall>h body. hm_to_vec (g_codec tiny_env) h = Some body \<longrightarrow> hm_from_slice (g_codec tiny_env) body = Some h"
    by (auto simp: tiny_codec_def split: if_splits)
  have e: "d_events (tiny_disk []) = []" by (simp add: tiny_disk_def)
  note kept = moved_home_is_not_persisted[OF c e tiny_resolve[of "()"] tiny_start]
  show ?thesis
    using kept[OF tiny_runs] kept[OF daemon_runs.turned[OF daemon_runs.entered tiny_env_calls(2) tiny_first_turn]]
    by (simp add: during_move_def after_move_def Let_def)
qed

end
