(* ===== verification/Loops.thy ===== *)
theory Loops
  imports Main
begin

text \<open>
  The one loop the components share: a step is repeated on its state and the world until it gives
  a result. A step may itself not return, and so may the loop, which is \<open>None\<close>. The rules are the
  usual two: an invariant gives what holds when the loop returns, and a variant that it returns.
\<close>

section \<open>Loops that may not end\<close>

lemma bind_case: "Option.bind x f = (case x of None \<Rightarrow> None | Some y \<Rightarrow> f y)"
  by (cases x) simp_all

partial_function (option) until_done ::
  "('s \<Rightarrow> 'w \<Rightarrow> ('r option \<times> 's \<times> 'w) option) \<Rightarrow> 's \<Rightarrow> 'w \<Rightarrow> ('r \<times> 's \<times> 'w) option" where
  "until_done step s w =
     Option.bind (step s w) (\<lambda>(r, s, w). if r = None then until_done step s w else Some (the r, s, w))"

lemma until_done_induct:
  assumes "until_done step s w = Some (r, s', w')"
    and "\<And>s w s1 w1. P s w \<Longrightarrow> step s w = Some (None, s1, w1) \<Longrightarrow> P s1 w1"
    and "P s w"
  shows "\<exists>s0 w0. P s0 w0 \<and> step s0 w0 = Some (Some r, s', w')"
proof -
  have "P s w \<longrightarrow> (\<forall>s w s1 w1. P s w \<longrightarrow> step s w = Some (None, s1, w1) \<longrightarrow> P s1 w1) \<longrightarrow>
      (\<exists>s0 w0. P s0 w0 \<and> step s0 w0 = Some (Some (fst y), snd y))"
    if "until_done step s w = Some y" for y
  proof (rule until_done.raw_induct[OF _ that])
    fix f step s w y
    assume IH: "\<And>step s w y. f step s w = Some y \<Longrightarrow>
        P s w \<longrightarrow> (\<forall>s w s1 w1. P s w \<longrightarrow> step s w = Some (None, s1, w1) \<longrightarrow> P s1 w1) \<longrightarrow>
        (\<exists>s0 w0. P s0 w0 \<and> step s0 w0 = Some (Some (fst y), snd y))"
      and eq: "Option.bind (step s w) (\<lambda>(r, s, w). if r = None then f step s w else Some (the r, s, w)) = Some y"
    obtain q s1 w1 where st: "step s w = Some (q, s1, w1)" using eq by (auto simp: bind_eq_Some_conv)
    show "P s w \<longrightarrow> (\<forall>s w s1 w1. P s w \<longrightarrow> step s w = Some (None, s1, w1) \<longrightarrow> P s1 w1) \<longrightarrow>
        (\<exists>s0 w0. P s0 w0 \<and> step s0 w0 = Some (Some (fst y), snd y))"
    proof (cases q)
      case None
      then have "f step s1 w1 = Some y" using eq st by simp
      from IH[OF this] show ?thesis using st None by blast
    next
      case (Some x)
      then have "y = (x, s1, w1)" using eq st by simp
      then show ?thesis using st Some by auto
    qed
  qed
  from this[OF assms(1)] show ?thesis using assms(2,3) by auto
qed

lemma until_done_ends:
  fixes m :: "'s \<Rightarrow> 'w \<Rightarrow> nat"
  assumes "P s w"
    and "\<And>s w. P s w \<Longrightarrow> \<exists>r s1 w1. step s w = Some (r, s1, w1) \<and> (r = None \<longrightarrow> P s1 w1 \<and> m s1 w1 < m s w)"
  shows "\<exists>y. until_done step s w = Some y"
  using assms(1)
proof (induction "m s w" arbitrary: s w rule: less_induct)
  case less
  from assms(2)[OF less.prems] obtain r s1 w1 where
    st: "step s w = Some (r, s1, w1)" "r = None \<longrightarrow> P s1 w1 \<and> m s1 w1 < m s w" by blast
  show ?case
  proof (cases r)
    case None
    with st less.hyps[of s1 w1] obtain y where "until_done step s1 w1 = Some y" by blast
    thus ?thesis using st(1) None by (subst until_done.simps) (cases y, simp)
  next
    case (Some x) thus ?thesis using st(1) by (subst until_done.simps) simp
  qed
qed

lemma until_done_more: "step s w = Some (None, s1, w1) \<Longrightarrow> until_done step s w = until_done step s1 w1"
  by (subst until_done.simps) simp

lemma until_done_last: "step s w = Some (Some r, s1, w1) \<Longrightarrow> until_done step s w = Some (r, s1, w1)"
  by (subst until_done.simps) simp

end
