(* ===== verification/Notices.thy ===== *)
theory Notices
  imports Transport Loops
begin

text \<open>
  The job notice socket of \<open>notices.rs\<close>: reconnecting with backoff, name resolution, staggered TCP
  connections, the opening handshake, joining the installation's channel, and listening. The
  socket, the resolver thread, TLS and the WebSocket library are operations on a world \<open>'w\<close>.
  Deadlines lie at most a request timeout ahead of the clock, far below what an \<open>Instant\<close> can hold,
  so they are sums. Every loop is \<^emph>\<open>until_done\<close>, which is \<open>None\<close> when it never ends.
\<close>

section \<open>Constants, errors and frames\<close>

definition socket_path :: string where "socket_path = ''/api/v1/agent/socket/websocket''"
definition heartbeat :: duration where "heartbeat = secs 30"
definition silence_limit :: duration where "silence_limit = secs 75"
definition notice_poll :: duration where "notice_poll = millis 250"
definition connect_stagger :: duration where "connect_stagger = millis 250"
definition connect_poll :: duration where "connect_poll = millis 10"
definition first_retry :: duration where "first_retry = secs 1"
definition max_retry :: duration where "max_retry = secs 300"
definition join_ref :: string where "join_ref = ''1''"

record timing =
  tm_heartbeat :: duration
  tm_silence_limit :: duration
  tm_poll :: duration

definition default_timing :: timing where
  "default_timing = \<lparr>tm_heartbeat = heartbeat, tm_silence_limit = silence_limit, tm_poll = notice_poll\<rparr>"

record endpoint_facts =
  ne_base_url :: url
  ne_intake_api_key :: string
  ne_installation_id :: string
  ne_timeout :: duration

definition notice_endpoint :: "http_client \<Rightarrow> endpoint_facts" where
  "notice_endpoint c =
     \<lparr>ne_base_url = cs_home (hc_settings c), ne_intake_api_key = cs_intake_api_key (hc_settings c),
      ne_installation_id = cs_installation_id (hc_settings c), ne_timeout = cs_request_timeout (hc_settings c)\<rparr>"

record listen_error =
  le_message :: error_text
  le_joined :: bool

definition listen_error_new :: "error_text \<Rightarrow> listen_error" where
  "listen_error_new msg = \<lparr>le_message = msg, le_joined = False\<rparr>"

definition after_join :: "listen_error \<Rightarrow> listen_error" where
  "after_join e = e\<lparr>le_joined := True\<rparr>"

text \<open>The errors of the WebSocket library: a refused upgrade, an I/O error with its kind, others.\<close>

datatype socket_io = WouldBlock | TimedOut | OtherSocketIo
datatype ws_error = WsHttp string | WsIo socket_io string | WsOther string
datatype ws_message = TextMessage string | OtherMessage

fun listen_error_of :: "ws_error \<Rightarrow> listen_error" where
  "listen_error_of (WsHttp status) = listen_error_new (Format ''socket refused with HTTP {}'' [status])"
| "listen_error_of (WsIo _ text) = listen_error_new (Text text)"
| "listen_error_of (WsOther text) = listen_error_new (Text text)"

fun timed_out :: "ws_error \<Rightarrow> bool" where
  "timed_out (WsIo k _) = (k = WouldBlock \<or> k = TimedOut)"
| "timed_out _ = False"

record frame =
  fr_reference :: "string option"
  fr_topic :: string
  fr_event :: string
  fr_payload :: json

definition or_null :: "json option \<Rightarrow> json" where
  \<comment> \<open>indexing a \<open>Value\<close> by a missing key is \<open>Null\<close>\<close>
  "or_null v = (case v of None \<Rightarrow> JNull | Some v \<Rightarrow> v)"

definition frame_parse :: "(string \<Rightarrow> json option) \<Rightarrow> string \<Rightarrow> frame" where
  "frame_parse parse txt =
     (let value = or_null (parse txt);
          field = (\<lambda>i. Option.bind (json_at i value) json_as_str)
      in \<lparr>fr_reference = field 1, fr_topic = (case field 2 of None \<Rightarrow> [] | Some s \<Rightarrow> s),
          fr_event = (case field 3 of None \<Rightarrow> [] | Some s \<Rightarrow> s), fr_payload = or_null (json_at 4 value)\<rparr>)"

definition frame_json :: "string \<Rightarrow> string \<Rightarrow> string \<Rightarrow> json" where
  "frame_json reference topic event =
     JArray [if event = ''phx_join'' then JString join_ref else JNull, JString reference, JString topic,
             JString event, JObject []]"

section \<open>The world\<close>

datatype notice_host = Ipv4 string | Ipv6 string | Domain string
datatype lookup_request = Sent | ResolverBusy | ResolverStopped
datatype 'a lookup_answer = Answered "string + 'a list" | NotYet | ResolverGone
datatype handshake = Opened | Interrupted | Refused ws_error

text \<open>
  \<open>t_host\<close> and \<open>t_port\<close> are what the URL library reports. \<open>t_handshake\<close> starts TLS and the upgrade
  request, with the endpoint's credentials, on a connected socket; \<open>t_resume\<close> continues an
  interrupted one. \<open>t_random\<close> draws the bits of a UUID.
\<close>

record ('a, 's, 'w) notice_env =
  t_now :: "'w \<Rightarrow> instant \<times> 'w"
  t_cancelled :: "'w \<Rightarrow> bool \<times> 'w"
  t_sleep :: "duration \<Rightarrow> 'w \<Rightarrow> 'w"
  t_random :: "'w \<Rightarrow> nat \<times> 'w"
  t_json :: "string \<Rightarrow> json option"
  t_to_string :: "json \<Rightarrow> string"
  t_host :: "url \<Rightarrow> notice_host option"
  t_port :: "url \<Rightarrow> nat option"
  t_address :: "notice_host \<Rightarrow> nat \<Rightarrow> 'a"
  t_lookup :: "string \<Rightarrow> nat \<Rightarrow> 'w \<Rightarrow> lookup_request \<times> 'w"
  t_recv_timeout :: "duration \<Rightarrow> 'w \<Rightarrow> 'a lookup_answer \<times> 'w"
  t_start_connection :: "'a \<Rightarrow> 'w \<Rightarrow> (string + 's) \<times> 'w"
  t_connection_ready :: "'s \<Rightarrow> 'w \<Rightarrow> (string + bool) \<times> 'w"
  t_set_blocking :: "'s \<Rightarrow> 'w \<Rightarrow> (string + unit) \<times> 'w"
  t_handshake :: "endpoint_facts \<Rightarrow> 's \<Rightarrow> 'w \<Rightarrow> (error_text + handshake) \<times> 'w"
  t_resume :: "'w \<Rightarrow> handshake \<times> 'w"
  t_set_deadline :: "instant \<Rightarrow> 'w \<Rightarrow> 'w"
  t_send :: "string \<Rightarrow> 'w \<Rightarrow> (ws_error + unit) \<times> 'w"
  t_read :: "'w \<Rightarrow> (ws_error + ws_message) \<times> 'w"
  t_flush :: "'w \<Rightarrow> (ws_error + unit) \<times> 'w"
  t_close :: "'w \<Rightarrow> 'w"
  t_raise :: "'w \<Rightarrow> 'w"

section \<open>Connecting\<close>

definition remaining :: "('a, 's, 'w) notice_env \<Rightarrow> instant \<Rightarrow> 'w \<Rightarrow> (listen_error + unit) \<times> 'w" where
  "remaining env at w =
     (case t_cancelled env w of (stop, w) \<Rightarrow>
      if stop then (Inl (listen_error_new (Text ''socket connection cancelled'')), w)
      else (case t_now env w of (now, w) \<Rightarrow>
        (if at \<le> now then Inl (listen_error_new (Text ''socket connection timed out'')) else Inr (), w)))"

definition wait_slice :: "('a, 's, 'w) notice_env \<Rightarrow> instant \<Rightarrow> 'w \<Rightarrow> duration \<times> 'w" where
  "wait_slice env at w = (case t_now env w of (now, w) \<Rightarrow> (min (at - now) notice_poll, w))"

definition resolve_step ::
  "('a, 's, 'w) notice_env \<Rightarrow> instant \<Rightarrow> unit \<Rightarrow> 'w \<Rightarrow> ((listen_error + 'a list) option \<times> unit \<times> 'w) option" where
  "resolve_step env at u w =
     (case remaining env at w of
        (Inl e, w) \<Rightarrow> Some (Some (Inl e), u, w)
      | (Inr _, w) \<Rightarrow>
          (case wait_slice env at w of (d, w) \<Rightarrow>
           case t_recv_timeout env d w of
             (Answered (Inr []), w) \<Rightarrow> Some (Some (Inl (listen_error_new (Text ''server host did not resolve''))), u, w)
           | (Answered (Inr (a # as)), w) \<Rightarrow> Some (Some (Inr (a # as)), u, w)
           | (Answered (Inl e), w) \<Rightarrow> Some (Some (Inl (listen_error_new (Text e))), u, w)
           | (NotYet, w) \<Rightarrow> Some (None, u, w)
           | (ResolverGone, w) \<Rightarrow> Some (Some (Inl (listen_error_new (Text ''server name resolver stopped''))), u, w)))"

definition resolve ::
  "('a, 's, 'w) notice_env \<Rightarrow> notice_host \<Rightarrow> nat \<Rightarrow> instant \<Rightarrow> 'w \<Rightarrow> ((listen_error + 'a list) \<times> 'w) option" where
  "resolve env host port at w =
     (case host of
        Domain name \<Rightarrow>
          (case t_lookup env name port w of
             (ResolverBusy, w) \<Rightarrow> Some (Inl (listen_error_new (Text ''server name resolver is still busy'')), w)
           | (ResolverStopped, w) \<Rightarrow> Some (Inl (listen_error_new (Text ''server name resolver stopped'')), w)
           | (Sent, w) \<Rightarrow> map_option (\<lambda>(r, _, w). (r, w)) (until_done (resolve_step env at) () w))
      | _ \<Rightarrow> Some (Inr [t_address env host port], w))"

definition swap_remove_at :: "nat \<Rightarrow> 'x list \<Rightarrow> 'x list" where
  "swap_remove_at i xs = butlast (xs[i := last xs])"

lemma length_swap_remove [simp]: "length (swap_remove_at i xs) = length xs - 1"
  by (simp add: swap_remove_at_def)

record ('a, 's) connecting =
  cn_last :: "string option"
  cn_next_address :: nat
  cn_next_start :: instant
  cn_pending :: "'s list"

definition connecting_new :: "instant \<Rightarrow> ('a, 's) connecting" where
  "connecting_new now = \<lparr>cn_last = None, cn_next_address = 0, cn_next_start = now, cn_pending = []\<rparr>"

definition start_next ::
  "('a, 's, 'w) notice_env \<Rightarrow> 'a list \<Rightarrow> ('a, 's) connecting \<Rightarrow> 'w \<Rightarrow> ('a, 's) connecting \<times> 'w" where
  "start_next env addresses c w =
     (case t_now env w of (now, w) \<Rightarrow>
      if cn_next_address c < length addresses \<and> cn_next_start c \<le> now
      then (case t_start_connection env (addresses ! cn_next_address c) w of (r, w) \<Rightarrow>
            let c = (case r of Inr sock \<Rightarrow> c\<lparr>cn_pending := cn_pending c @ [sock]\<rparr> | Inl e \<Rightarrow> c\<lparr>cn_last := Some e\<rparr>)
            in (c\<lparr>cn_next_address := cn_next_address c + 1,
                  cn_next_start := (if cn_pending c = [] then now else now + connect_stagger)\<rparr>, w))
      else (c, w))"

text \<open>The first connection that is ready; a failed one is swapped out of the list.\<close>

function poll_pending ::
  "('a, 's, 'w) notice_env \<Rightarrow> nat \<Rightarrow> ('a, 's) connecting \<Rightarrow> 'w \<Rightarrow> 's option \<times> ('a, 's) connecting \<times> 'w" where
  "poll_pending env i c w =
     (if length (cn_pending c) \<le> i then (None, c, w)
      else (case t_connection_ready env (cn_pending c ! i) w of
          (Inr ready, w) \<Rightarrow>
            if ready then (Some (cn_pending c ! i), c\<lparr>cn_pending := swap_remove_at i (cn_pending c)\<rparr>, w)
            else poll_pending env (Suc i) c w
        | (Inl e, w) \<Rightarrow>
            (let c = c\<lparr>cn_pending := swap_remove_at i (cn_pending c), cn_last := Some e\<rparr> in
             case (if cn_pending c = [] then (case t_now env w of (now, w) \<Rightarrow> (c\<lparr>cn_next_start := now\<rparr>, w)) else (c, w)) of
               (c, w) \<Rightarrow> poll_pending env i c w)))"
  by pat_completeness auto
termination
  by (relation "measure (\<lambda>(_, i, c, _). length (cn_pending c) - i)")
    (auto split: if_splits prod.splits)

declare poll_pending.simps [simp del]

definition connect_step ::
  "('a, 's, 'w) notice_env \<Rightarrow> 'a list \<Rightarrow> instant \<Rightarrow> ('a, 's) connecting \<Rightarrow> 'w
   \<Rightarrow> ((listen_error + 's) option \<times> ('a, 's) connecting \<times> 'w) option" where
  "connect_step env addresses at c w =
     (case remaining env at w of
        (Inl e, w) \<Rightarrow> Some (Some (Inl e), c, w)
      | (Inr _, w) \<Rightarrow>
          (case start_next env addresses c w of (c, w) \<Rightarrow>
           case poll_pending env 0 c w of
             (Some sock, c, w) \<Rightarrow>
               (case t_set_blocking env sock w of
                  (Inl e, w) \<Rightarrow> Some (Some (Inl (listen_error_new (Text e))), c, w)
                | (Inr _, w) \<Rightarrow> Some (Some (Inr sock), c, w))
           | (None, c, w) \<Rightarrow>
               if cn_pending c = [] \<and> cn_next_address c = length addresses
               then Some (Some (Inl (listen_error_new (Text
                      (case cn_last c of Some e \<Rightarrow> e | None \<Rightarrow> ''server host did not resolve'')))), c, w)
               else (case wait_slice env at w of (d, w) \<Rightarrow>
                     case (if cn_next_address c < length addresses
                           then (case t_now env w of (now, w) \<Rightarrow> (min (min d connect_poll) (cn_next_start c - now), w))
                           else (min d connect_poll, w)) of (d, w) \<Rightarrow>
                     Some (None, c, t_sleep env d w))))"

definition connect_tcp ::
  "('a, 's, 'w) notice_env \<Rightarrow> 'a list \<Rightarrow> instant \<Rightarrow> 'w \<Rightarrow> ((listen_error + 's) \<times> 'w) option" where
  "connect_tcp env addresses at w =
     (if addresses = [] then Some (Inl (listen_error_new (Text ''server host did not resolve'')), w)
      else (case t_now env w of (now, w) \<Rightarrow>
        map_option (\<lambda>(r, _, w). (r, w)) (until_done (connect_step env addresses at) (connecting_new now) w)))"

definition handshake_step ::
  "('a, 's, 'w) notice_env \<Rightarrow> instant \<Rightarrow> unit \<Rightarrow> 'w \<Rightarrow> ((listen_error + unit) option \<times> unit \<times> 'w) option" where
  "handshake_step env at u w =
     (case remaining env at w of
        (Inl e, w) \<Rightarrow> Some (Some (Inl e), u, w)
      | (Inr _, w) \<Rightarrow>
          (case t_resume env w of
             (Opened, w) \<Rightarrow> Some (Some (Inr ()), u, w)
           | (Refused e, w) \<Rightarrow> Some (Some (Inl (listen_error_of e)), u, w)
           | (Interrupted, w) \<Rightarrow> Some (None, u, w)))"

definition finish_handshake ::
  "('a, 's, 'w) notice_env \<Rightarrow> handshake \<Rightarrow> instant \<Rightarrow> 'w \<Rightarrow> ((listen_error + unit) \<times> 'w) option" where
  "finish_handshake env first at w =
     (case first of
        Opened \<Rightarrow> Some (Inr (), w)
      | Refused e \<Rightarrow> Some (Inl (listen_error_of e), w)
      | Interrupted \<Rightarrow> map_option (\<lambda>(r, _, w). (r, w)) (until_done (handshake_step env at) () w))"

definition connect ::
  "('a, 's, 'w) notice_env \<Rightarrow> endpoint_facts \<Rightarrow> 'w \<Rightarrow> ((listen_error + unit) \<times> 'w) option" where
  "connect env endpoint w =
     (case t_host env (ne_base_url endpoint) of
        None \<Rightarrow> Some (Inl (listen_error_new (Text ''server URL has no host'')), w)
      | Some host \<Rightarrow>
     (case t_port env (ne_base_url endpoint) of
        None \<Rightarrow> Some (Inl (listen_error_new (Text ''server URL has no port'')), w)
      | Some port \<Rightarrow>
     (case t_now env w of (now, w) \<Rightarrow>
      let at = now + ne_timeout endpoint in
      Option.bind (resolve env host port at w) (\<lambda>(r, w). case r of
        Inl e \<Rightarrow> Some (Inl e, w)
      | Inr addresses \<Rightarrow>
      Option.bind (connect_tcp env addresses at w) (\<lambda>(r, w). case r of
        Inl e \<Rightarrow> Some (Inl e, w)
      | Inr sock \<Rightarrow>
          (case t_handshake env endpoint sock (t_set_deadline env at w) of
             (Inl e, w) \<Rightarrow> Some (Inl (listen_error_new e), w)
           | (Inr first, w) \<Rightarrow> finish_handshake env first at w))))))"

section \<open>Listening\<close>

definition send_frame ::
  "('a, 's, 'w) notice_env \<Rightarrow> string \<Rightarrow> string \<Rightarrow> string \<Rightarrow> 'w \<Rightarrow> (listen_error + unit) \<times> 'w" where
  "send_frame env reference topic event w =
     (case t_now env w of (now, w) \<Rightarrow>
      case t_send env (t_to_string env (frame_json reference topic event)) (t_set_deadline env (now + notice_poll) w) of
        (r, w) \<Rightarrow> (map_sum listen_error_of id r, w))"

definition join_step ::
  "('a, 's, 'w) notice_env \<Rightarrow> string \<Rightarrow> instant \<Rightarrow> unit \<Rightarrow> 'w \<Rightarrow> ((listen_error + json) option \<times> unit \<times> 'w) option" where
  "join_step env topic at u w =
     (case t_now env w of (now, w) \<Rightarrow>
      if at \<le> now then Some (Some (Inl (listen_error_new (Text ''no reply to the channel join''))), u, w)
      else (case t_cancelled env w of (stop, w) \<Rightarrow>
        if stop then Some (Some (Inl (listen_error_new (Text ''no reply to the channel join''))), u, w)
        else (case t_now env w of (now, w) \<Rightarrow>
          case t_read env (t_set_deadline env (min at (now + notice_poll)) w) of
            (Inr (TextMessage txt), w) \<Rightarrow>
              let frame = frame_parse (t_json env) txt in
              if fr_topic frame = topic \<and> fr_event frame = ''phx_reply'' \<and> fr_reference frame = Some join_ref
              then Some (Some (Inr (fr_payload frame)), u, w) else Some (None, u, w)
          | (Inr OtherMessage, w) \<Rightarrow> Some (None, u, w)
          | (Inl e, w) \<Rightarrow> Some (if timed_out e then None else Some (Inl (listen_error_of e)), u, w))))"

definition await_join ::
  "('a, 's, 'w) notice_env \<Rightarrow> string \<Rightarrow> duration \<Rightarrow> 'w \<Rightarrow> ((listen_error + json) \<times> 'w) option" where
  "await_join env topic timeout w =
     (case t_now env w of (now, w) \<Rightarrow>
      map_option (\<lambda>(r, _, w). (r, w)) (until_done (join_step env topic (now + timeout)) () w))"

record listening =
  ln_next_ref :: nat
  ln_next_heartbeat :: instant
  ln_last_heard :: instant

definition beat_socket ::
  "('a, 's, 'w) notice_env \<Rightarrow> timing \<Rightarrow> instant \<Rightarrow> listening \<Rightarrow> 'w \<Rightarrow> (listen_error + listening) \<times> 'w" where
  "beat_socket env timing now s w =
     (if ln_next_heartbeat s \<le> now
      then (case send_frame env (dec (ln_next_ref s)) ''phoenix'' ''heartbeat'' w of
              (Inl e, w) \<Rightarrow> (Inl (after_join e), w)
            | (Inr _, w) \<Rightarrow> (Inr (s\<lparr>ln_next_ref := ln_next_ref s + 1, ln_next_heartbeat := now + tm_heartbeat timing\<rparr>), w))
      else (Inr s, w))"

definition heard ::
  "('a, 's, 'w) notice_env \<Rightarrow> string \<Rightarrow> ws_message \<Rightarrow> 'w \<Rightarrow> (listen_error + unit) option \<times> 'w" where
  "heard env topic m w =
     (case m of
        OtherMessage \<Rightarrow> (None, w)
      | TextMessage txt \<Rightarrow>
          let frame = frame_parse (t_json env) txt in
          if fr_topic frame \<noteq> topic then (None, w)
          else if fr_event frame = ''jobs_waiting'' then (None, t_raise env w)
          else if fr_event frame = ''phx_error'' \<or> fr_event frame = ''phx_close''
          then (Some (Inl (after_join (listen_error_new (Text ''channel closed by Renga'')))), w)
          else (None, w))"

definition read_step ::
  "('a, 's, 'w) notice_env \<Rightarrow> string \<Rightarrow> timing \<Rightarrow> listening \<Rightarrow> 'w
   \<Rightarrow> ((listen_error + unit) option \<times> listening \<times> 'w) option" where
  "read_step env topic timing s w =
     (case t_now env w of (now, w) \<Rightarrow>
      case t_read env (t_set_deadline env (now + tm_poll timing) w) of
        (Inr m, w) \<Rightarrow>
          (case t_now env w of (now, w) \<Rightarrow> case heard env topic m w of (r, w) \<Rightarrow> Some (r, s\<lparr>ln_last_heard := now\<rparr>, w))
      | (Inl e, w) \<Rightarrow>
          if timed_out e
          then (case t_flush env w of
                  (Inl e, w) \<Rightarrow> Some (if timed_out e then None else Some (Inl (after_join (listen_error_of e))), s, w)
                | (Inr _, w) \<Rightarrow> Some (None, s, w))
          else Some (Some (Inl (after_join (listen_error_of e))), s, w))"

definition listen_step ::
  "('a, 's, 'w) notice_env \<Rightarrow> string \<Rightarrow> timing \<Rightarrow> listening \<Rightarrow> 'w
   \<Rightarrow> ((listen_error + unit) option \<times> listening \<times> 'w) option" where
  "listen_step env topic timing s w =
     (case t_cancelled env w of (stop, w) \<Rightarrow>
      if stop
      then (case t_now env w of (now, w) \<Rightarrow>
            Some (Some (Inr ()), s, snd (t_flush env (t_close env (t_set_deadline env (now + tm_poll timing) w)))))
      else (case t_now env w of (now, w) \<Rightarrow>
        if tm_silence_limit timing < now - ln_last_heard s
        then Some (Some (Inl (after_join (listen_error_new (Text ''socket went silent'')))), s, w)
        else (case beat_socket env timing now s w of
                (Inl e, w) \<Rightarrow> Some (Some (Inl e), s, w)
              | (Inr s, w) \<Rightarrow> read_step env topic timing s w)))"

definition join_answer ::
  "('a, 's, 'w) notice_env \<Rightarrow> json \<Rightarrow> 'w \<Rightarrow> (listen_error + unit) \<times> 'w" where
  \<comment> \<open>what the reply to the join says\<close>
  "join_answer env reply w =
     (let response = or_null (json_get ''response'' reply) in
      if or_null (json_get ''status'' reply) \<noteq> JString ''ok''
      then (Inl (listen_error_new (Format ''channel join refused: {reason}''
              [case json_as_str (or_null (json_get ''reason'' response)) of None \<Rightarrow> ''unknown'' | Some r \<Rightarrow> r])), w)
      else (Inr (), if or_null (json_get ''jobs_waiting'' response) = JBool True then t_raise env w else w))"

definition notice_topic :: "endpoint_facts \<Rightarrow> string" where
  "notice_topic endpoint = ''installation:'' @ ne_installation_id endpoint"

definition listen_with_timing ::
  "('a, 's, 'w) notice_env \<Rightarrow> endpoint_facts \<Rightarrow> timing \<Rightarrow> 'w \<Rightarrow> ((listen_error + unit) \<times> 'w) option" where
  "listen_with_timing env endpoint timing w =
     (let topic = notice_topic endpoint in
      Option.bind (connect env endpoint w) (\<lambda>(r, w). case r of
        Inl e \<Rightarrow> Some (Inl e, w)
      | Inr _ \<Rightarrow>
          (case t_now env w of (now, w) \<Rightarrow>
           case send_frame env join_ref topic ''phx_join'' (t_set_deadline env (now + ne_timeout endpoint) w) of
             (Inl e, w) \<Rightarrow> Some (Inl e, w)
           | (Inr _, w) \<Rightarrow>
      Option.bind (await_join env topic (ne_timeout endpoint) w) (\<lambda>(r, w). case r of
        Inl e \<Rightarrow> Some (Inl e, w)
      | Inr reply \<Rightarrow>
          (case join_answer env reply w of
             (Inl e, w) \<Rightarrow> Some (Inl e, w)
           | (Inr _, w) \<Rightarrow>
               (case t_now env w of (a, w) \<Rightarrow> case t_now env w of (b, w) \<Rightarrow>
                map_option (\<lambda>(r, _, w). (r, w))
                  (until_done (listen_step env topic timing)
                    \<lparr>ln_next_ref = 2, ln_next_heartbeat = a + tm_heartbeat timing, ln_last_heard = b\<rparr> w)))))))"

definition listen :: "('a, 's, 'w) notice_env \<Rightarrow> endpoint_facts \<Rightarrow> 'w \<Rightarrow> ((listen_error + unit) \<times> 'w) option" where
  "listen env endpoint w = listen_with_timing env endpoint default_timing w"

section \<open>Reconnecting\<close>

definition jittered :: "duration \<Rightarrow> nat \<Rightarrow> duration" where
  \<comment> \<open>the second argument is the random number\<close>
  "jittered interval r = (let half = interval div 2 in half + millis (r mod max (half div 1000000) 1))"

definition sleep_step ::
  "('a, 's, 'w) notice_env \<Rightarrow> instant \<Rightarrow> unit \<Rightarrow> 'w \<Rightarrow> (unit option \<times> unit \<times> 'w) option" where
  "sleep_step env at u w =
     (case t_cancelled env w of (stop, w) \<Rightarrow>
      if stop then Some (Some (), u, w)
      else (case t_now env w of (now, w) \<Rightarrow>
        if at \<le> now then Some (Some (), u, w)
        else Some (None, u, t_sleep env (min (at - now) (millis 50)) w)))"

definition sleep_unless :: "('a, 's, 'w) notice_env \<Rightarrow> duration \<Rightarrow> 'w \<Rightarrow> 'w option" where
  "sleep_unless env d w =
     (case t_now env w of (now, w) \<Rightarrow> map_option (\<lambda>(_, _, w). w) (until_done (sleep_step env (now + d)) () w))"

record outage =
  og_retry :: duration
  og_quiet :: bool

definition run_step ::
  "('a, 's, 'w) notice_env \<Rightarrow> endpoint_facts \<Rightarrow> duration \<Rightarrow> outage \<Rightarrow> 'w \<Rightarrow> (unit option \<times> outage \<times> 'w) option" where
  "run_step env endpoint first o' w =
     (case t_cancelled env w of (stop, w) \<Rightarrow>
      if stop then Some (Some (), o', w)
      else Option.bind (listen env endpoint w) (\<lambda>(r, w). case r of
        Inr _ \<Rightarrow> Some (Some (), o', w)
      | Inl e \<Rightarrow>
          (case t_cancelled env w of (stop, w) \<Rightarrow>
           if stop then Some (Some (), o', w)
           else let retry = (if le_joined e then first else og_retry o') in
             (case t_random env w of (x, w) \<Rightarrow>
              map_option (\<lambda>w. (None, \<lparr>og_retry = min (retry * 2) max_retry, og_quiet = True\<rparr>, w))
                (sleep_unless env (jittered retry x) w)))))"

definition notices_run :: "('a, 's, 'w) notice_env \<Rightarrow> endpoint_facts \<Rightarrow> duration \<Rightarrow> 'w \<Rightarrow> 'w option" where
  "notices_run env endpoint first w =
     map_option (\<lambda>(_, _, w). w) (until_done (run_step env endpoint first) \<lparr>og_retry = first, og_quiet = False\<rparr> w)"

end
