(* ===== verification/Notices_Correct.thy ===== *)
theory Notices_Correct
  imports Notices
begin

text \<open>
  What the notice socket promises: notices are raised exactly when Renga says that jobs wait, on
  the installation's topic and after the join; a socket that stays silent is given up; reconnects
  are spread and their interval is bounded.
\<close>

section \<open>Reconnecting\<close>

lemma jittered_bounds:
  assumes "millis 2 \<le> interval"
  shows "interval div 2 \<le> jittered interval r" "jittered interval r < interval"
proof -
  define half where "half = interval div 2"
  define q where "q = half div 1000000"
  have q: "max q 1 = q" "0 < q" using assms by (auto simp: millis_def half_def q_def max_def div_greater_zero_iff)
  have "r mod q < q" using q by simp
  hence "r mod q * 1000000 < q * 1000000" by simp
  also have "\<dots> \<le> half" by (simp add: q_def)
  finally have "jittered interval r < half + half" "half \<le> jittered interval r"
    using q by (simp_all add: jittered_def Let_def millis_def flip: half_def q_def)
  thus "interval div 2 \<le> jittered interval r" "jittered interval r < interval"
    by (simp_all add: half_def)
qed

lemma run_step_retry:
  assumes "run_step env endpoint first o' w = Some (r, o2, w2)" "first \<le> max_retry" "og_retry o' \<le> max_retry"
  shows "og_retry o2 \<le> max_retry"
  using assms
  by (auto simp: run_step_def Let_def bind_case split: prod.split_asm if_split_asm sum.split_asm option.split_asm)

section \<open>What a connection heard and raised\<close>

datatype notice_event = Heard string | Raised

definition lifted :: "('w \<Rightarrow> 'x \<times> 'w) \<Rightarrow> 'w \<times> notice_event list \<Rightarrow> 'x \<times> 'w \<times> notice_event list" where
  "lifted f s = (case f (fst s) of (x, w) \<Rightarrow> (x, w, snd s))"

definition logged_read ::
  "('a, 's, 'w) notice_env \<Rightarrow> 'w \<times> notice_event list \<Rightarrow> (ws_error + ws_message) \<times> 'w \<times> notice_event list" where
  \<comment> \<open>the log has the newest event first\<close>
  "logged_read env s =
     (case t_read env (fst s) of
        (Inr (TextMessage txt), w) \<Rightarrow> (Inr (TextMessage txt), w, Heard txt # snd s)
      | (r, w) \<Rightarrow> (r, w, snd s))"

definition logged_env :: "('a, 's, 'w) notice_env \<Rightarrow> ('a, 's, 'w \<times> notice_event list) notice_env" where
  "logged_env env =
     \<lparr>t_now = lifted (t_now env), t_cancelled = lifted (t_cancelled env),
      t_sleep = (\<lambda>d. map_prod (t_sleep env d) id), t_random = lifted (t_random env),
      t_json = t_json env, t_to_string = t_to_string env, t_host = t_host env, t_port = t_port env,
      t_address = t_address env, t_lookup = (\<lambda>h p. lifted (t_lookup env h p)),
      t_recv_timeout = (\<lambda>d. lifted (t_recv_timeout env d)),
      t_start_connection = (\<lambda>a. lifted (t_start_connection env a)),
      t_connection_ready = (\<lambda>s. lifted (t_connection_ready env s)),
      t_set_blocking = (\<lambda>s. lifted (t_set_blocking env s)),
      t_handshake = (\<lambda>e s. lifted (t_handshake env e s)), t_resume = lifted (t_resume env),
      t_set_deadline = (\<lambda>i. map_prod (t_set_deadline env i) id), t_send = (\<lambda>x. lifted (t_send env x)),
      t_read = logged_read env, t_flush = lifted (t_flush env), t_close = map_prod (t_close env) id,
      t_raise = (\<lambda>s. (t_raise env (fst s), Raised # snd s))\<rparr>"

text \<open>
  The protocol as an automaton: before the join is answered nothing counts but the reply, which
  may say that jobs wait; afterwards every such message on the topic must be followed by raising
  the notice before anything else is heard, and nothing else raises it.
\<close>

datatype phase = Joining | Turned_Away | Listening | Owing | Closed

definition is_join_reply :: "(string \<Rightarrow> json option) \<Rightarrow> string \<Rightarrow> string \<Rightarrow> bool" where
  "is_join_reply parse topic txt =
     (let f = frame_parse parse txt in
      fr_topic f = topic \<and> fr_event f = ''phx_reply'' \<and> fr_reference f = Some join_ref)"

fun protocol :: "(string \<Rightarrow> json option) \<Rightarrow> string \<Rightarrow> phase \<Rightarrow> notice_event \<Rightarrow> phase option" where
  "protocol parse topic Joining (Heard txt) =
     (if \<not> is_join_reply parse topic txt then Some Joining
      else let reply = fr_payload (frame_parse parse txt) in
        if or_null (json_get ''status'' reply) \<noteq> JString ''ok'' then Some Turned_Away
        else if or_null (json_get ''jobs_waiting'' (or_null (json_get ''response'' reply))) = JBool True
        then Some Owing else Some Listening)"
| "protocol parse topic Listening (Heard txt) =
     (let f = frame_parse parse txt in
      if fr_topic f \<noteq> topic then Some Listening
      else if fr_event f = ''jobs_waiting'' then Some Owing
      else if fr_event f = ''phx_error'' \<or> fr_event f = ''phx_close'' then Some Closed
      else Some Listening)"
| "protocol parse topic Owing Raised = Some Listening"
| "protocol parse topic _ _ = None"

fun phase_after :: "(string \<Rightarrow> json option) \<Rightarrow> string \<Rightarrow> notice_event list \<Rightarrow> phase option" where
  "phase_after parse topic [] = Some Joining"
| "phase_after parse topic (e # es) = Option.bind (phase_after parse topic es) (\<lambda>p. protocol parse topic p e)"

subsection \<open>Connecting leaves the log alone\<close>

lemma socket_log_simps [simp]:
  "t_json (logged_env env) = t_json env" "t_host (logged_env env) = t_host env" "t_port (logged_env env) = t_port env"
  "t_raise (logged_env env) s = (t_raise env (fst s), Raised # snd s)" "t_read (logged_env env) = logged_read env"
  by (simp_all add: logged_env_def)

text \<open>An operation keeps the log when what it returns has the log it was given.\<close>

lemma keeps_log:
  "t_now (logged_env env) s = (x, s') \<Longrightarrow> snd s' = snd s"
  "t_cancelled (logged_env env) s = (c, s') \<Longrightarrow> snd s' = snd s"
  "t_random (logged_env env) s = (x, s') \<Longrightarrow> snd s' = snd s"
  "t_lookup (logged_env env) h p s = (l, s') \<Longrightarrow> snd s' = snd s"
  "t_recv_timeout (logged_env env) d s = (a, s') \<Longrightarrow> snd s' = snd s"
  "t_start_connection (logged_env env) ad s = (sc, s') \<Longrightarrow> snd s' = snd s"
  "t_connection_ready (logged_env env) k s = (b, s') \<Longrightarrow> snd s' = snd s"
  "t_set_blocking (logged_env env) k s = (u, s') \<Longrightarrow> snd s' = snd s"
  "t_handshake (logged_env env) e k s = (hs, s') \<Longrightarrow> snd s' = snd s"
  "t_resume (logged_env env) s = (h', s') \<Longrightarrow> snd s' = snd s"
  "t_send (logged_env env) m s = (y, s') \<Longrightarrow> snd s' = snd s"
  "t_flush (logged_env env) s = (y, s') \<Longrightarrow> snd s' = snd s"
  by (auto simp: logged_env_def lifted_def split: prod.splits)

lemma keeps_log_simps [simp]:
  "snd (t_set_deadline (logged_env env) i s) = snd s" "snd (t_sleep (logged_env env) d s) = snd s"
  "snd (t_close (logged_env env) s) = snd s" "snd (snd (t_flush (logged_env env) s)) = snd s"
  by (auto simp: logged_env_def lifted_def split: prod.splits)

lemma remaining_keeps: "remaining (logged_env env) at s = (r, s') \<Longrightarrow> snd s' = snd s"
  by (auto simp: remaining_def split: prod.splits if_splits dest!: keeps_log)

lemma wait_slice_keeps: "wait_slice (logged_env env) at s = (r, s') \<Longrightarrow> snd s' = snd s"
  by (auto simp: wait_slice_def split: prod.splits dest!: keeps_log)

lemma poll_pending_keeps: "poll_pending (logged_env env) i c s = (r, c', s') \<Longrightarrow> snd s' = snd s"
proof (induction "length (cn_pending c) - i" arbitrary: i c s rule: less_induct)
  case less
  show ?case
  proof (cases "length (cn_pending c) \<le> i")
    case True thus ?thesis using less.prems by (simp add: poll_pending.simps)
  next
    case False
    obtain q s1 where q: "t_connection_ready (logged_env env) (cn_pending c ! i) s = (q, s1)" by (meson surj_pair)
    have k: "snd s1 = snd s" by (rule keeps_log(7)[OF q])
    show ?thesis
    proof (cases q)
      case (Inr ready)
      thus ?thesis using less.prems less.hyps[of c "Suc i" s1] False q k
        by (auto simp: poll_pending.simps[of _ i] split: if_splits)
    next
      case (Inl e)
      let ?c = "c\<lparr>cn_pending := swap_remove_at i (cn_pending c), cn_last := Some e\<rparr>"
      obtain now s2 where n: "t_now (logged_env env) s1 = (now, s2)" by (meson surj_pair)
      have d: "length (cn_pending c) - 1 - i < length (cn_pending c) - i" using False by simp
      show ?thesis
        using less.prems less.hyps[of "?c\<lparr>cn_next_start := now\<rparr>" i s2] less.hyps[of ?c i s1] d False q k n keeps_log(1)[OF n] Inl
        by (auto simp: poll_pending.simps[of _ i c] Let_def split: if_splits)
    qed
  qed
qed

lemmas keeps = keeps_log remaining_keeps wait_slice_keeps poll_pending_keeps

lemma start_next_keeps: "start_next (logged_env env) as c s = (c', s') \<Longrightarrow> snd s' = snd s"
  by (auto simp: start_next_def Let_def split: prod.split_asm if_split_asm sum.split_asm dest!: keeps)

lemma resolve_step_keeps: "resolve_step (logged_env env) at u s = Some (r, u', s') \<Longrightarrow> snd s' = snd s"
  by (auto simp: resolve_step_def split: prod.split_asm sum.split_asm lookup_answer.split_asm list.split_asm dest!: keeps)

lemma connect_step_keeps: "connect_step (logged_env env) as at c s = Some (r, c', s') \<Longrightarrow> snd s' = snd s"
  by (auto simp: connect_step_def split: prod.split_asm sum.split_asm option.split_asm if_split_asm
      dest!: keeps start_next_keeps)

lemma handshake_step_keeps: "handshake_step (logged_env env) at u s = Some (r, u', s') \<Longrightarrow> snd s' = snd s"
  by (auto simp: handshake_step_def split: prod.split_asm sum.split_asm handshake.split_asm dest!: keeps)

text \<open>A loop whose step keeps the log keeps it.\<close>

lemma until_done_keeps:
  assumes "until_done step x s = Some (r, x', s')"
    and "\<And>x s r x' s'. step x s = Some (r, x', s') \<Longrightarrow> snd s' = snd s"
  shows "snd s' = snd s"
proof -
  obtain x0 s0 where "snd s0 = snd s" "step x0 s0 = Some (Some r, x', s')"
    using until_done_induct[OF assms(1), of "\<lambda>_ t. snd t = snd s"] assms(2) by auto
  thus ?thesis using assms(2) by simp
qed

lemma resolve_keeps: "resolve (logged_env env) host port at s = Some (r, s') \<Longrightarrow> snd s' = snd s"
  by (auto simp: resolve_def split: notice_host.split_asm prod.split_asm lookup_request.split_asm
      dest!: keeps until_done_keeps[OF _ resolve_step_keeps])

lemma connect_tcp_keeps: "connect_tcp (logged_env env) as at s = Some (r, s') \<Longrightarrow> snd s' = snd s"
  by (auto simp: connect_tcp_def split: if_split_asm prod.split_asm
      dest!: keeps until_done_keeps[OF _ connect_step_keeps])

lemma finish_handshake_keeps: "finish_handshake (logged_env env) h at s = Some (r, s') \<Longrightarrow> snd s' = snd s"
  by (auto simp: finish_handshake_def split: handshake.split_asm dest!: until_done_keeps[OF _ handshake_step_keeps])

lemma connect_keeps: "connect (logged_env env) endpoint s = Some (r, s') \<Longrightarrow> snd s' = snd s"
  by (auto simp: connect_def Let_def bind_case
      split: option.split_asm prod.split_asm sum.split_asm
      dest!: keeps resolve_keeps connect_tcp_keeps finish_handshake_keeps)

lemma send_frame_keeps: "send_frame (logged_env env) ref topic event s = (r, s') \<Longrightarrow> snd s' = snd s"
  by (auto simp: send_frame_def split: prod.split_asm dest!: keeps)

subsection \<open>Joining and listening follow the protocol\<close>

abbreviation phase_of :: "('a, 's, 'w) notice_env \<Rightarrow> string \<Rightarrow> 'w \<times> notice_event list \<Rightarrow> phase option" where
  "phase_of env topic s \<equiv> phase_after (t_json env) topic (snd s)"

lemma logged_read_phase:
  assumes "logged_read env s = (r, s')"
  shows "phase_of env topic s' = (case r of
      Inr (TextMessage txt) \<Rightarrow> Option.bind (phase_of env topic s) (\<lambda>p. protocol (t_json env) topic p (Heard txt))
    | _ \<Rightarrow> phase_of env topic s)"
  using assms by (auto simp: logged_read_def split: prod.split_asm sum.split_asm ws_message.split_asm)

lemma not_joined [simp]:
  "\<not> le_joined (listen_error_new m)" "\<not> le_joined (listen_error_of e)" "le_joined (after_join l)"
  by (cases e; simp add: listen_error_new_def after_join_def)+

lemma join_step_phase:
  assumes "join_step (logged_env env) topic at u s = Some (r, u', s')" "phase_of env topic s = Some Joining"
  shows "case r of
      Some (Inr reply) \<Rightarrow> \<exists>txt. is_join_reply (t_json env) topic txt \<and> reply = fr_payload (frame_parse (t_json env) txt)
        \<and> phase_of env topic s' = protocol (t_json env) topic Joining (Heard txt)
    | Some (Inl e) \<Rightarrow> phase_of env topic s' = Some Joining \<and> \<not> le_joined e
    | None \<Rightarrow> phase_of env topic s' = Some Joining"
proof -
  obtain now s1 stop s2 now' s3 where
    n: "t_now (logged_env env) s = (now, s1)" "t_cancelled (logged_env env) s1 = (stop, s2)" "t_now (logged_env env) s2 = (now', s3)"
    by (meson surj_pair)
  let ?s4 = "t_set_deadline (logged_env env) (min at (now' + notice_poll)) s3"
  obtain q s5 where rd: "logged_read env ?s4 = (q, s5)" by (meson surj_pair)
  have k: "snd s1 = snd s" "snd s2 = snd s" "snd ?s4 = snd s"
    using keeps(1)[OF n(1)] keeps(2)[OF n(2)] keeps(1)[OF n(3)] by simp_all
  note ph = logged_read_phase[OF rd, of topic, unfolded k assms(2)]
  show ?thesis
  proof (cases "at \<le> now \<or> stop")
    case True
    thus ?thesis using assms n k by (auto simp: join_step_def split: if_split_asm)
  next
    case False
    thus ?thesis using assms n rd ph
      by (auto simp: join_step_def is_join_reply_def Let_def split: sum.split_asm ws_message.split_asm if_split_asm)
  qed
qed

lemma await_join_phase:
  assumes "await_join (logged_env env) topic timeout s = Some (r, s')" "phase_of env topic s = Some Joining"
  shows "case r of
      Inr reply \<Rightarrow> \<exists>txt. is_join_reply (t_json env) topic txt \<and> reply = fr_payload (frame_parse (t_json env) txt)
        \<and> phase_of env topic s' = protocol (t_json env) topic Joining (Heard txt)
    | Inl e \<Rightarrow> phase_of env topic s' = Some Joining \<and> \<not> le_joined e"
proof -
  obtain now s1 u' where n: "t_now (logged_env env) s = (now, s1)"
    and l: "until_done (join_step (logged_env env) topic (now + timeout)) () s1 = Some (r, u', s')"
    using assms(1) by (auto simp: await_join_def split: prod.split_asm)
  have "phase_of env topic s1 = Some Joining" using keeps(1)[OF n] assms(2) by simp
  from until_done_induct[OF l, of "\<lambda>_ s. phase_of env topic s = Some Joining", OF _ this]
  obtain u0 s0 where "phase_of env topic s0 = Some Joining"
    "join_step (logged_env env) topic (now + timeout) u0 s0 = Some (Some r, u', s')"
    using join_step_phase[where r = None] by fastforce
  from join_step_phase[OF this(2,1)] show ?thesis by (simp split: sum.splits)
qed

lemma join_answer_phase:
  assumes "join_answer (logged_env env) reply s = (r, s')" "is_join_reply (t_json env) topic txt"
    "reply = fr_payload (frame_parse (t_json env) txt)"
    "phase_of env topic s = protocol (t_json env) topic Joining (Heard txt)"
  shows "case r of Inl e \<Rightarrow> phase_of env topic s' = Some Turned_Away \<and> \<not> le_joined e
    | Inr _ \<Rightarrow> phase_of env topic s' = Some Listening"
  using assms by (auto simp: join_answer_def Let_def split: if_splits)

lemma heard_phase:
  assumes "heard (logged_env env) topic m s = (r, s')"
    "phase_of env topic s = (case m of TextMessage txt \<Rightarrow> protocol (t_json env) topic Listening (Heard txt) | _ \<Rightarrow> Some Listening)"
  shows "case r of None \<Rightarrow> phase_of env topic s' = Some Listening
    | Some (Inl e) \<Rightarrow> phase_of env topic s' = Some Closed \<and> le_joined e | Some (Inr _) \<Rightarrow> False"
  using assms by (auto simp: heard_def Let_def split: ws_message.split_asm if_splits)

lemma read_step_phase:
  assumes "read_step (logged_env env) topic timing x s = Some (r, x', s')" "phase_of env topic s = Some Listening"
  shows "case r of None \<Rightarrow> phase_of env topic s' = Some Listening
    | Some (Inl e) \<Rightarrow> phase_of env topic s' \<in> {Some Listening, Some Closed} \<and> le_joined e | Some (Inr _) \<Rightarrow> False"
proof -
  obtain now s1 where n: "t_now (logged_env env) s = (now, s1)" by (meson surj_pair)
  let ?s2 = "t_set_deadline (logged_env env) (now + tm_poll timing) s1"
  obtain q s3 where rd: "logged_read env ?s2 = (q, s3)" by (meson surj_pair)
  have k: "snd ?s2 = snd s" using keeps(1)[OF n] by simp
  note ph = logged_read_phase[OF rd, of topic, unfolded k assms(2)]
  show ?thesis
  proof (cases q)
    case (Inl e)
    thus ?thesis using assms(1) n rd ph
      by (auto simp: read_step_def split: if_split_asm prod.split_asm sum.split_asm dest!: keeps)
  next
    case (Inr m)
    obtain now' s4 where n': "t_now (logged_env env) s3 = (now', s4)" by (meson surj_pair)
    obtain h s5 where h: "heard (logged_env env) topic m s4 = (h, s5)" by (meson surj_pair)
    have "phase_of env topic s4 = (case m of TextMessage txt \<Rightarrow> protocol (t_json env) topic Listening (Heard txt) | _ \<Rightarrow> Some Listening)"
      using ph Inr keeps(1)[OF n'] by (simp split: ws_message.splits)
    from heard_phase[OF h this] show ?thesis
      using assms(1) n rd n' h Inr by (auto simp: read_step_def split: option.splits sum.splits)
  qed
qed

lemma listen_step_phase:
  assumes "listen_step (logged_env env) topic timing x s = Some (r, x', s')" "phase_of env topic s = Some Listening"
  shows "case r of None \<Rightarrow> phase_of env topic s' = Some Listening
    | Some (Inl e) \<Rightarrow> phase_of env topic s' \<in> {Some Listening, Some Closed} \<and> le_joined e
    | Some (Inr _) \<Rightarrow> phase_of env topic s' = Some Listening"
proof -
  obtain stop s1 now s2 where n: "t_cancelled (logged_env env) s = (stop, s1)" "t_now (logged_env env) s1 = (now, s2)"
    by (meson surj_pair)
  have k: "snd s1 = snd s" "snd s2 = snd s" using keeps(2)[OF n(1)] keeps(1)[OF n(2)] by simp_all
  obtain b s3 where b: "beat_socket (logged_env env) timing now x s2 = (b, s3)" by (meson surj_pair)
  have kb: "snd s3 = snd s" "b = Inl e \<Longrightarrow> le_joined e" for e
    using b k by (auto simp: beat_socket_def split: if_split_asm prod.split_asm sum.split_asm dest!: send_frame_keeps)
  show ?thesis
  proof (cases "stop \<or> tm_silence_limit timing < now - ln_last_heard x \<or> isl b")
    case True
    thus ?thesis using assms n k b kb by (cases b) (auto simp: listen_step_def split: if_split_asm)
  next
    case False
    then obtain y where y: "b = Inr y" by (cases b) auto
    have "read_step (logged_env env) topic timing y s3 = Some (r, x', s')"
      using assms(1) n b y False by (simp add: listen_step_def)
    from read_step_phase[OF this] show ?thesis using assms(2) kb by (auto split: option.splits sum.splits)
  qed
qed

subsection \<open>A failure to connect is not one after the join\<close>

lemma loop_result:
  assumes "until_done step x s = Some (r, x', s')"
  shows "\<exists>x0 s0. step x0 s0 = Some (Some r, x', s')"
  using until_done_induct[OF assms, of "\<lambda>_ _. True"] by blast

lemma step_not_joined:
  "remaining env at w = (Inl e, w') \<Longrightarrow> \<not> le_joined e"
  "resolve_step env at u w = Some (Some (Inl e), u', w') \<Longrightarrow> \<not> le_joined e"
  "connect_step env as at c w = Some (Some (Inl e), c', w') \<Longrightarrow> \<not> le_joined e"
  "handshake_step env at u w = Some (Some (Inl e), u', w') \<Longrightarrow> \<not> le_joined e"
  "send_frame env ref topic event w = (Inl e, w') \<Longrightarrow> \<not> le_joined e"
proof -
  show r: "remaining env at w = (Inl e, w') \<Longrightarrow> \<not> le_joined e" for w w' at
    by (auto simp: remaining_def split: prod.split_asm if_split_asm)
  show "resolve_step env at u w = Some (Some (Inl e), u', w') \<Longrightarrow> \<not> le_joined e"
    by (auto simp: resolve_step_def split: prod.split_asm sum.split_asm lookup_answer.split_asm list.split_asm dest: r)
  show "connect_step env as at c w = Some (Some (Inl e), c', w') \<Longrightarrow> \<not> le_joined e"
    by (auto simp: connect_step_def split: prod.split_asm sum.split_asm option.split_asm if_split_asm dest: r)
  show "handshake_step env at u w = Some (Some (Inl e), u', w') \<Longrightarrow> \<not> le_joined e"
    by (auto simp: handshake_step_def split: prod.split_asm sum.split_asm handshake.split_asm dest: r)
  show "send_frame env ref topic event w = (Inl e, w') \<Longrightarrow> \<not> le_joined e"
    by (auto simp: send_frame_def map_sum_def split: prod.split_asm sum.split_asm)
qed

lemma connect_not_joined:
  assumes "connect env endpoint w = Some (Inl e, w')"
  shows "\<not> le_joined e"
proof -
  have "resolve env h p at w = Some (Inl e, w') \<Longrightarrow> \<not> le_joined e" for h p at w w'
    by (auto simp: resolve_def split: notice_host.split_asm prod.split_asm lookup_request.split_asm
        dest!: loop_result dest: step_not_joined)
  moreover have "connect_tcp env as at w = Some (Inl e, w') \<Longrightarrow> \<not> le_joined e" for as at w w'
    by (auto simp: connect_tcp_def split: if_split_asm prod.split_asm dest!: loop_result dest: step_not_joined)
  moreover have "finish_handshake env h at w = Some (Inl e, w') \<Longrightarrow> \<not> le_joined e" for h at w w'
    by (auto simp: finish_handshake_def split: handshake.split_asm dest!: loop_result dest: step_not_joined)
  ultimately show ?thesis
    using assms by (auto simp: connect_def Let_def bind_case split: option.split_asm prod.split_asm sum.split_asm)
qed

subsection \<open>From the join to the end\<close>

definition ends_well :: "('a, 's, 'w) notice_env \<Rightarrow> string \<Rightarrow> listen_error + unit \<Rightarrow> 'w \<times> notice_event list \<Rightarrow> bool" where
  "ends_well env topic r s =
     (\<exists>p. phase_of env topic s = Some p \<and> p \<noteq> Owing
       \<and> (case r of Inr _ \<Rightarrow> p = Listening | Inl e \<Rightarrow> le_joined e = (p = Listening \<or> p = Closed)))"

lemma listening_ends_well:
  assumes "until_done (listen_step (logged_env env) topic timing) x s = Some (r, x', s')"
    and "phase_of env topic s = Some Listening"
  shows "ends_well env topic r s'"
proof -
  from until_done_induct[OF assms(1), of "\<lambda>_ s. phase_of env topic s = Some Listening", OF _ assms(2)]
  obtain x0 s0 where "phase_of env topic s0 = Some Listening"
    "listen_step (logged_env env) topic timing x0 s0 = Some (Some r, x', s')"
    using listen_step_phase[where r = None] by fastforce
  from listen_step_phase[OF this(2,1)] show ?thesis by (auto simp: ends_well_def split: sum.splits)
qed

lemma joining_ends_well:
  assumes "Option.bind (await_join (logged_env env) topic timeout s) (\<lambda>(r, w). case r of
        Inl e \<Rightarrow> Some (Inl e, w)
      | Inr reply \<Rightarrow>
          (case join_answer (logged_env env) reply w of
             (Inl e, w) \<Rightarrow> Some (Inl e, w)
           | (Inr _, w) \<Rightarrow>
               (case t_now (logged_env env) w of (a, w) \<Rightarrow> case t_now (logged_env env) w of (b, w) \<Rightarrow>
                map_option (\<lambda>(r, _, w). (r, w))
                  (until_done (listen_step (logged_env env) topic timing)
                    \<lparr>ln_next_ref = 2, ln_next_heartbeat = a + tm_heartbeat timing, ln_last_heard = b\<rparr> w)))) = Some (r, s')"
    and "phase_of env topic s = Some Joining"
  shows "ends_well env topic r s'"
proof -
  obtain j s1 where j: "await_join (logged_env env) topic timeout s = Some (j, s1)"
    using assms(1) by (auto simp: bind_case split: option.split_asm)
  note jp = await_join_phase[OF j assms(2)]
  show ?thesis
  proof (cases j)
    case (Inl e) thus ?thesis using assms(1) j jp by (auto simp: ends_well_def)
  next
    case (Inr reply)
    obtain a s2 where a: "join_answer (logged_env env) reply s1 = (a, s2)" by (meson surj_pair)
    have ap: "case a of Inl e \<Rightarrow> phase_of env topic s2 = Some Turned_Away \<and> \<not> le_joined e
        | Inr _ \<Rightarrow> phase_of env topic s2 = Some Listening"
      using jp Inr join_answer_phase[OF a] by auto
    show ?thesis
    proof (cases a)
      case (Inl e) thus ?thesis using assms(1) j Inr a ap by (auto simp: ends_well_def)
    next
      case r: (Inr z)
      obtain h s3 i s4 where t: "t_now (logged_env env) s2 = (h, s3)" "t_now (logged_env env) s3 = (i, s4)" by (meson surj_pair)
      have "phase_of env topic s4 = Some Listening" using ap r keeps(1)[OF t(1)] keeps(1)[OF t(2)] by simp
      thus ?thesis using assms(1) j Inr a r t by (auto intro: listening_ends_well)
    qed
  qed
qed

section \<open>A scripted socket\<close>

text \<open>The world is the list of messages the server still sends; afterwards the connection is lost.\<close>

definition script_frames :: "string \<Rightarrow> json option" where
  "script_frames = [
     ''reply'' \<mapsto> JArray [JString ''1'', JString ''1'', JString ''installation:i'', JString ''phx_reply'',
       JObject [(''status'', JString ''ok''), (''response'', JObject [])]],
     ''waiting'' \<mapsto> JArray [JNull, JNull, JString ''installation:i'', JString ''jobs_waiting'', JObject []],
     ''close'' \<mapsto> JArray [JNull, JNull, JString ''installation:i'', JString ''phx_close'', JObject []]]"

definition script_env :: "(unit, unit, string list) notice_env" where
  "script_env =
     \<lparr>t_now = (\<lambda>w. (0, w)), t_cancelled = (\<lambda>w. (False, w)), t_sleep = (\<lambda>_ w. w), t_random = (\<lambda>w. (0, w)),
      t_json = script_frames, t_to_string = (\<lambda>_. []), t_host = (\<lambda>_. Some (Ipv4 ''h'')), t_port = (\<lambda>_. Some 443),
      t_address = (\<lambda>_ _. ()), t_lookup = (\<lambda>_ _ w. (Sent, w)), t_recv_timeout = (\<lambda>_ w. (NotYet, w)),
      t_start_connection = (\<lambda>_ w. (Inr (), w)), t_connection_ready = (\<lambda>_ w. (Inr True, w)),
      t_set_blocking = (\<lambda>_ w. (Inr (), w)), t_handshake = (\<lambda>_ _ w. (Inr Opened, w)), t_resume = (\<lambda>w. (Opened, w)),
      t_set_deadline = (\<lambda>_ w. w), t_send = (\<lambda>_ w. (Inr (), w)),
      t_read = (\<lambda>w. case w of [] \<Rightarrow> (Inl (WsOther ''lost''), []) | m # ms \<Rightarrow> (Inr (TextMessage m), ms)),
      t_flush = (\<lambda>w. (Inr (), w)), t_close = (\<lambda>w. w), t_raise = (\<lambda>w. w)\<rparr>"

definition script_endpoint :: endpoint_facts where
  "script_endpoint = \<lparr>ne_base_url = \<lparr>u_scheme = ''https'', u_host = None, u_username = [], u_password = None,
     u_path = ''/'', u_query = None, u_fragment = None\<rparr>, ne_intake_api_key = [], ne_installation_id = ''i'', ne_timeout = 1\<rparr>"

lemma script_calls [simp]:
  "t_now (logged_env script_env) s = (0, s)" "t_cancelled (logged_env script_env) s = (False, s)"
  "t_set_deadline (logged_env script_env) d s = s" "t_send (logged_env script_env) m s = (Inr (), s)"
  "t_host script_env u = Some (Ipv4 ''h'')" "t_port script_env u = Some 443" "t_json script_env = script_frames"
  "logged_read script_env (m # ms, es) = (Inr (TextMessage m), ms, Heard m # es)"
  "t_raise script_env w = w" "t_start_connection (logged_env script_env) a s = (Inr (), s)"
  "t_connection_ready (logged_env script_env) k s = (Inr True, s)" "t_set_blocking (logged_env script_env) k s = (Inr (), s)"
  "t_handshake (logged_env script_env) e k s = (Inr Opened, s)"
  by (auto simp: logged_env_def script_env_def lifted_def logged_read_def map_prod_def split: prod.splits)

lemma script_connects: "connect (logged_env script_env) script_endpoint s = Some (Inr (), s)"
proof -
  have "connect_step (logged_env script_env) [x] 1 (connecting_new 0) s =
      Some (Some (Inr ()), (connecting_new 0)\<lparr>cn_next_address := 1, cn_next_start := connect_stagger\<rparr>, s)" for x
    by (simp add: connect_step_def remaining_def start_next_def connecting_new_def poll_pending.simps swap_remove_at_def)
  thus ?thesis
    by (simp add: connect_def script_endpoint_def resolve_def connect_tcp_def until_done_last finish_handshake_def)
qed

lemma script_listens:
  "listen (logged_env script_env) script_endpoint ([''reply'', ''waiting'', ''close''], [])
   = Some (Inl (after_join (listen_error_new (Text ''channel closed by Renga''))),
       [], [Heard ''close'', Raised, Heard ''waiting'', Heard ''reply''])"
proof -
  note frames = script_frames_def frame_parse_def or_null_def Let_def
  have t: "notice_topic script_endpoint = ''installation:i''" by (simp add: notice_topic_def script_endpoint_def)
  have j: "await_join (logged_env script_env) ''installation:i'' 1 (''reply'' # ms, es) =
      Some (Inr (JObject [(''status'', JString ''ok''), (''response'', JObject [])]), ms, Heard ''reply'' # es)" for ms es
    by (simp add: await_join_def until_done_last join_step_def frames join_ref_def)
  let ?l = "\<lparr>ln_next_ref = 2, ln_next_heartbeat = heartbeat, ln_last_heard = 0\<rparr>"
  have nb: "\<not> heartbeat \<le> 0" by (simp add: heartbeat_def secs_def)
  have w: "listen_step (logged_env script_env) ''installation:i'' default_timing ?l (''waiting'' # ms, es) =
      Some (None, ?l, ms, Raised # Heard ''waiting'' # es)" for ms es
    using nb by (simp add: listen_step_def default_timing_def beat_socket_def read_step_def heard_def frames)
  have c: "listen_step (logged_env script_env) ''installation:i'' default_timing ?l (''close'' # ms, es) =
      Some (Some (Inl (after_join (listen_error_new (Text ''channel closed by Renga'')))), ?l, ms, Heard ''close'' # es)" for ms es
    using nb by (simp add: listen_step_def default_timing_def beat_socket_def read_step_def heard_def frames)
  have "until_done (listen_step (logged_env script_env) ''installation:i'' default_timing) ?l ([''waiting'', ''close''], es) =
      Some (Inl (after_join (listen_error_new (Text ''channel closed by Renga''))), ?l, [], Heard ''close'' # Raised # Heard ''waiting'' # es)"
    for es by (subst until_done_more, rule w, rule until_done_last, rule c)
  thus ?thesis
    using script_connects t j
    by (simp add: listen_def listen_with_timing_def send_frame_def script_endpoint_def join_answer_def or_null_def Let_def
        default_timing_def)
qed

section \<open>Properties\<close>

text \<open>
  C20. One connection of the notice socket follows the protocol: whatever the server sends and
  however the connection ends, the notice is raised at once for every message on the installation's
  topic that says jobs wait, and for a join reply that says so, and for nothing else. It ends
  without an error only while listening, and a failure says that the channel was joined exactly
  when it was, which is what resets the reconnect interval.
\<close>

theorem listen_follows_protocol:
  assumes "listen (logged_env env) endpoint (w, []) = Some (r, w', es)"
  shows "\<exists>p. phase_after (t_json env) (notice_topic endpoint) es = Some p \<and> p \<noteq> Owing
    \<and> (case r of Inr _ \<Rightarrow> p = Listening | Inl e \<Rightarrow> le_joined e = (p = Listening \<or> p = Closed))"
proof -
  let ?t = "notice_topic endpoint" and ?env = "logged_env env"
  note run = assms[unfolded listen_def listen_with_timing_def Let_def]
  obtain c s1 where c: "connect ?env endpoint (w, []) = Some (c, s1)"
    using run by (auto simp: bind_case split: option.split_asm)
  have s1: "phase_of env ?t s1 = Some Joining" using connect_keeps[OF c] by simp
  obtain now s2 where n: "t_now ?env s1 = (now, s2)" by (meson surj_pair)
  obtain q s3 where q: "send_frame ?env join_ref ?t ''phx_join'' (t_set_deadline ?env (now + ne_timeout endpoint) s2) = (q, s3)"
    by (meson surj_pair)
  have s3: "phase_of env ?t s3 = Some Joining" using send_frame_keeps[OF q] keeps(1)[OF n] s1 by simp
  have "ends_well env ?t r (w', es)"
  proof (cases c)
    case (Inl e)
    thus ?thesis using run c s1 connect_not_joined[OF c[unfolded Inl]] by (auto simp: ends_well_def)
  next
    case cu: (Inr u)
    show ?thesis
    proof (cases q)
      case (Inl e)
      thus ?thesis using run c cu n q s3 step_not_joined(5)[OF q[unfolded Inl]] by (auto simp: ends_well_def)
    next
      case (Inr v)
      thus ?thesis using run c cu n q s3 joining_ends_well by fastforce
    qed
  qed
  thus ?thesis by (simp add: ends_well_def)
qed

theorem listen_follows_protocol_witness:
  "phase_after script_frames (notice_topic script_endpoint) [Heard ''close'', Raised, Heard ''waiting'', Heard ''reply'']
   \<in> {Some Listening, Some Closed}"
  using listen_follows_protocol[OF script_listens] by (auto simp del: phase_after.simps)

text \<open>
  C21. A connection that went quiet is given up: if every read runs into its timeout and the clock
  moves on, listening returns, with the failure that the socket went silent after the join.
\<close>

theorem silent_socket_is_left:
  fixes clock :: "'w \<Rightarrow> nat"
  assumes "\<And>w. t_now env w = (clock w, w)" "\<And>w. t_cancelled env w = (False, w)"
    and "\<And>d w. clock (t_set_deadline env d w) = clock w"
    and "\<And>m w. fst (t_send env m w) = Inr () \<and> clock w \<le> clock (snd (t_send env m w))"
    and "\<And>w. fst (t_read env w) = Inl (WsIo TimedOut why) \<and> clock w < clock (snd (t_read env w))"
    and "\<And>w. fst (t_flush env w) = Inr () \<and> clock w \<le> clock (snd (t_flush env w))"
  shows "\<exists>s' w'. until_done (listen_step env topic timing) s w
    = Some (Inl (after_join (listen_error_new (Text ''socket went silent''))), s', w')"
proof -
  let ?step = "listen_step env topic timing"
  let ?silent = "Inl (after_join (listen_error_new (Text ''socket went silent''))) :: listen_error + unit"
  have step: "?step s w = Some (Some ?silent, s, w) \<or> (\<exists>s1 w1. ?step s w = Some (None, s1, w1)
      \<and> ln_last_heard s1 = ln_last_heard s \<and> clock w < clock w1 \<and> clock w - ln_last_heard s \<le> tm_silence_limit timing)" for s w
  proof (cases "tm_silence_limit timing < clock w - ln_last_heard s")
    case True thus ?thesis using assms(1,2) by (simp add: listen_step_def)
  next
    case False
    let ?m = "t_to_string env (frame_json (dec (ln_next_ref s)) ''phoenix'' ''heartbeat'')"
    obtain q w0 where q: "t_send env ?m (t_set_deadline env (clock w + notice_poll) w) = (q, w0)" by (meson surj_pair)
    have sf: "send_frame env (dec (ln_next_ref s)) ''phoenix'' ''heartbeat'' w = (Inr (), w0)" "clock w \<le> clock w0"
      using q assms(1,3) assms(4)[of ?m "t_set_deadline env (clock w + notice_poll) w"] by (simp_all add: send_frame_def)
    obtain s1 w1 where b: "beat_socket env timing (clock w) s w = (Inr s1, w1)" "ln_last_heard s1 = ln_last_heard s" "clock w \<le> clock w1"
      using sf by (cases "ln_next_heartbeat s \<le> clock w") (auto simp: beat_socket_def)
    obtain r2 w2 r3 w3 where r: "t_read env (t_set_deadline env (clock w1 + tm_poll timing) w1) = (r2, w2)"
      "t_flush env w2 = (r3, w3)" by (meson surj_pair)
    have "read_step env topic timing s1 w1 = Some (None, s1, w3)" "clock w1 < clock w3"
      using r assms(1,3) assms(5)[of "t_set_deadline env (clock w1 + tm_poll timing) w1"] assms(6)[of w2]
      by (simp_all add: read_step_def)
    thus ?thesis using False b assms(1,2) by (auto simp: listen_step_def)
  qed
  have "\<exists>y. until_done ?step s w = Some y"
  proof (rule until_done_ends[where P = "\<lambda>_ _. True" and m = "\<lambda>s w. Suc (ln_last_heard s + tm_silence_limit timing) - clock w"])
    fix s w
    show "\<exists>r s1 w1. ?step s w = Some (r, s1, w1) \<and> (r = None \<longrightarrow> True \<and>
        Suc (ln_last_heard s1 + tm_silence_limit timing) - clock w1 < Suc (ln_last_heard s + tm_silence_limit timing) - clock w)"
      using step[of s w] by fastforce
  qed simp
  then obtain r s' w' where u: "until_done ?step s w = Some (r, s', w')" by (metis prod_cases3)
  from loop_result[OF u] obtain s0 w0 where "?step s0 w0 = Some (Some r, s', w')" by blast
  with step[of s0 w0] have "r = ?silent" by simp
  with u show ?thesis by blast
qed

definition mute_env :: "(unit, unit, nat) notice_env" where
  \<comment> \<open>the world is the clock, and every read takes one tick\<close>
  "mute_env =
     \<lparr>t_now = (\<lambda>w. (w, w)), t_cancelled = (\<lambda>w. (False, w)), t_sleep = (\<lambda>d w. w + d), t_random = (\<lambda>w. (0, w)),
      t_json = Map.empty, t_to_string = (\<lambda>_. []), t_host = Map.empty, t_port = Map.empty,
      t_address = (\<lambda>_ _. ()), t_lookup = (\<lambda>_ _ w. (Sent, w)), t_recv_timeout = (\<lambda>_ w. (NotYet, w)),
      t_start_connection = (\<lambda>_ w. (Inr (), w)), t_connection_ready = (\<lambda>_ w. (Inr True, w)),
      t_set_blocking = (\<lambda>_ w. (Inr (), w)), t_handshake = (\<lambda>_ _ w. (Inr Opened, w)), t_resume = (\<lambda>w. (Opened, w)),
      t_set_deadline = (\<lambda>_ w. w), t_send = (\<lambda>_ w. (Inr (), w)), t_read = (\<lambda>w. (Inl (WsIo TimedOut ''read''), Suc w)),
      t_flush = (\<lambda>w. (Inr (), w)), t_close = (\<lambda>w. w), t_raise = (\<lambda>w. w)\<rparr>"

theorem silent_socket_is_left_witness:
  "\<exists>s' w'. until_done (listen_step mute_env ''t'' default_timing) \<lparr>ln_next_ref = 2, ln_next_heartbeat = 0, ln_last_heard = 0\<rparr> 0
    = Some (Inl (after_join (listen_error_new (Text ''socket went silent''))), s', w')"
  by (rule silent_socket_is_left[where clock = id and why = "''read''"]) (simp_all add: mute_env_def)

end
