(* ===== verification/Smbios.thy ===== *)
theory Smbios
  imports Report_Types
begin

text \<open>
  The parser of the firmware's SMBIOS tables (\<open>smbios/table.rs\<close>): the version from the entry
  point, the walk over the structure table, and the system and power supply records. Bytes are
  \<open>8 word\<close>; an offset out of range is \<open>None\<close>, as \<open>slice::get\<close> answers.
\<close>

unbundle bit_operations_syntax

section \<open>Versions\<close>

record smbios_version =
  ver_major :: "8 word"
  ver_minor :: "8 word"

definition version_le :: "smbios_version \<Rightarrow> smbios_version \<Rightarrow> bool" where
  \<comment> \<open>the derived order: fields from the first\<close>
  "version_le a b = (ver_major a < ver_major b \<or> ver_major a = ver_major b \<and> ver_minor a \<le> ver_minor b)"

definition get :: "nat \<Rightarrow> 'a list \<Rightarrow> 'a option" where
  "get i xs = (if i < length xs then Some (xs ! i) else None)"

definition get_range :: "nat \<Rightarrow> nat \<Rightarrow> 'a list \<Rightarrow> 'a list option" where
  "get_range a b xs = (if a \<le> b \<and> b \<le> length xs then Some (take (b - a) (drop a xs)) else None)"

definition ascii :: "string \<Rightarrow> 8 word list" where
  "ascii s = map (\<lambda>c. of_nat (byte_of c)) s"

definition version_at :: "nat \<Rightarrow> nat \<Rightarrow> 8 word list \<Rightarrow> smbios_version option" where
  "version_at a b entry =
     Option.bind (get a entry) (\<lambda>major. map_option (\<lambda>minor. \<lparr>ver_major = major, ver_minor = minor\<rparr>) (get b entry))"

definition corrected :: "smbios_version \<Rightarrow> smbios_version" where
  \<comment> \<open>the kernel's fixups for versions known to be encoded incorrectly\<close>
  "corrected v =
     (if ver_major v = 0x02 \<and> (ver_minor v = 0x1F \<or> ver_minor v = 0x21) then \<lparr>ver_major = 2, ver_minor = 3\<rparr>
      else if ver_major v = 0x02 \<and> ver_minor v = 0x33 then \<lparr>ver_major = 2, ver_minor = 6\<rparr>
      else v)"

definition parse_version :: "8 word list \<Rightarrow> smbios_version option" where
  "parse_version entry =
     (if take 5 entry = ascii ''_SM3_'' then version_at 0x07 0x08 entry
      else if take 4 entry = ascii ''_SM_'' then map_option corrected (version_at 0x06 0x07 entry)
      else if take 5 entry = ascii ''_DMI_''
      then map_option (\<lambda>bcd. \<lparr>ver_major = drop_bit 4 bcd, ver_minor = bcd AND 0x0F\<rparr>) (get 0x0E entry)
      else None)"

section \<open>Records\<close>

definition system_information_kind :: "8 word" where "system_information_kind = 1"
definition power_supply_kind :: "8 word" where "power_supply_kind = 39"
definition end_of_table :: "8 word" where "end_of_table = 127"
definition power_supply_min_length :: nat where "power_supply_min_length = 0x10"
definition max_string_bytes :: nat where "max_string_bytes = 255"

record smbios_record =
  rec_kind :: "8 word"
  rec_formatted :: "8 word list"
  rec_strings :: "8 word list list"

definition record_byte :: "smbios_record \<Rightarrow> nat \<Rightarrow> 8 word option" where
  "record_byte r i = get i (rec_formatted r)"

definition u16_from_le_bytes :: "8 word \<Rightarrow> 8 word \<Rightarrow> 16 word" where
  "u16_from_le_bytes a b = ucast a OR push_bit 8 (ucast b)"

definition record_word :: "smbios_record \<Rightarrow> nat \<Rightarrow> 16 word option" where
  "record_word r i =
     map_option (\<lambda>bs. u16_from_le_bytes (bs ! 0) (bs ! 1)) (get_range i (i + 2) (rec_formatted r))"

definition record_string :: "smbios_record \<Rightarrow> nat \<Rightarrow> string option" where
  "record_string r i =
     Option.bind (record_byte r i) (\<lambda>index.
     if unat index = 0 then None
     else Option.bind (get (unat index - 1) (rec_strings r)) (\<lambda>raw.
       if max_string_bytes < length raw then None
       else Option.bind (from_utf8 (map (\<lambda>b. char_of (unat b)) raw)) normalize_value))"

fun double_nul :: "8 word list \<Rightarrow> nat option" where
  \<comment> \<open>\<open>windows(2).position(|pair| pair == [0, 0])\<close>\<close>
  "double_nul (a # b # bs) = (if a = 0 \<and> b = 0 then Some 0 else map_option Suc (double_nul (b # bs)))"
| "double_nul _ = None"

fun split_nul :: "8 word list \<Rightarrow> 8 word list list" where
  "split_nul [] = [[]]"
| "split_nul (b # bs) =
     (if b = 0 then [] # split_nul bs
      else (case split_nul bs of [] \<Rightarrow> [[b]] | s # ss \<Rightarrow> (b # s) # ss))"

definition next_record :: "8 word list \<Rightarrow> (smbios_record \<times> nat) option" where
  \<comment> \<open>the record at the front and the number of bytes it takes\<close>
  "next_record rest =
     Option.bind (get 0 rest) (\<lambda>kind.
     Option.bind (get 1 rest) (\<lambda>len.
     let len = unat len in
     if len < 4 \<or> kind = end_of_table then None
     else Option.bind (get_range 0 len rest) (\<lambda>formatted.
       let unformatted = drop len rest in
       Option.bind (double_nul unformatted) (\<lambda>stop.
         Some (\<lparr>rec_kind = kind, rec_formatted = formatted,
                rec_strings = (if stop = 0 then [] else split_nul (take stop unformatted))\<rparr>, len + stop + 2)))))"

lemma double_nul_bound: "double_nul bs = Some n \<Longrightarrow> n + 2 \<le> length bs"
  by (induction bs arbitrary: n rule: double_nul.induct) (auto split: if_splits)

lemma next_record_bounds:
  assumes "next_record rest = Some (r, n)"
  shows "6 \<le> n" "n \<le> length rest" "4 \<le> length (rec_formatted r)" "rec_kind r \<noteq> end_of_table"
  using assms
  by (auto simp: next_record_def Let_def bind_eq_Some_conv get_range_def split: if_splits dest!: double_nul_bound)

function records :: "8 word list \<Rightarrow> nat \<Rightarrow> smbios_record list" where
  "records table offset =
     (if length table < offset then []
      else (case next_record (drop offset table) of
              None \<Rightarrow> []
            | Some (r, n) \<Rightarrow> r # records table (offset + n)))"
  by pat_completeness auto
termination
proof (relation "measure (\<lambda>(table, offset). length table - offset)")
  fix table :: "8 word list" and offset p r n
  assume "next_record (drop offset table) = Some p" "(r, n) = p" "\<not> length table < offset"
  thus "((table, offset + n), table, offset) \<in> measure (\<lambda>(table, offset). length table - offset)"
    using next_record_bounds(1,2)[of "drop offset table" r n] by auto
qed simp

declare records.simps [simp del]

section \<open>What the records say\<close>

record system_facts =
  si_uuid :: "string option"
  si_serial_number :: "string option"

record supply_facts =
  sup_group :: "8 word option"
  sup_location :: "string option"
  sup_name :: "string option"
  sup_manufacturer :: "string option"
  sup_serial_number :: "string option"
  sup_asset_tag :: "string option"
  sup_model :: "string option"
  sup_revision :: "string option"
  sup_max_power_watts :: "16 word option"
  sup_hot_replaceable :: "bool option"
  sup_present :: "bool option"
  sup_unplugged :: "bool option"
  sup_status :: "string option"

record smbios_tables =
  tb_system :: "system_facts option"
  tb_power_supplies :: "supply_facts list"

definition reorder :: "8 word list \<Rightarrow> 8 word list" where
  \<comment> \<open>the first three fields are little-endian\<close>
  "reorder bs = rev (take 4 bs) @ rev (take 2 (drop 4 bs)) @ rev (take 2 (drop 6 bs)) @ drop 8 bs"

definition hyphenated :: "8 word list \<Rightarrow> string" where
  "hyphenated bs =
     (let h = (\<lambda>a b. concat (map (\<lambda>w. hex_byte (unat w)) (take (b - a) (drop a bs))))
      in h 0 4 @ ''-'' @ h 4 6 @ ''-'' @ h 6 8 @ ''-'' @ h 8 10 @ ''-'' @ h 10 16)"

definition smbios_uuid :: "8 word list \<Rightarrow> smbios_version \<Rightarrow> string option" where
  "smbios_uuid bs v =
     (if list_all (\<lambda>b. b = 0) bs \<or> list_all (\<lambda>b. b = 0xFF) bs then None
      else if length bs \<noteq> 16 then None
      else Some (hyphenated (if version_le \<lparr>ver_major = 2, ver_minor = 6\<rparr> v then reorder bs else bs)))"

definition system_information :: "smbios_record \<Rightarrow> smbios_version option \<Rightarrow> system_facts" where
  "system_information r v =
     \<lparr>si_uuid = Option.bind v (\<lambda>v. Option.bind (get_range 0x08 0x18 (rec_formatted r)) (\<lambda>bs. smbios_uuid bs v)),
      si_serial_number = record_string r 0x07\<rparr>"

definition supply_status :: "16 word \<Rightarrow> string option" where
  "supply_status characteristics =
     (let s = drop_bit 7 characteristics AND 0x07 in
      if s = 3 then Some ''ok'' else if s = 4 then Some ''non_critical'' else if s = 5 then Some ''critical'' else None)"

definition filter_option :: "('a \<Rightarrow> bool) \<Rightarrow> 'a option \<Rightarrow> 'a option" where
  "filter_option P x = (case x of None \<Rightarrow> None | Some v \<Rightarrow> if P v then Some v else None)"

definition described :: "supply_facts \<Rightarrow> bool" where
  "described s = (sup_location s \<noteq> None \<or> sup_name s \<noteq> None \<or> sup_manufacturer s \<noteq> None
     \<or> sup_serial_number s \<noteq> None \<or> sup_model s \<noteq> None \<or> sup_max_power_watts s \<noteq> None)"

definition power_supply :: "smbios_record \<Rightarrow> supply_facts option" where
  "power_supply r =
     (if length (rec_formatted r) < power_supply_min_length then None
      else Option.bind (record_word r 0x0E) (\<lambda>ch.
        let s = \<lparr>sup_group = filter_option (\<lambda>g. g \<noteq> 0) (record_byte r 0x04), sup_location = record_string r 0x05,
                 sup_name = record_string r 0x06, sup_manufacturer = record_string r 0x07,
                 sup_serial_number = record_string r 0x08, sup_asset_tag = record_string r 0x09,
                 sup_model = record_string r 0x0A, sup_revision = record_string r 0x0B,
                 sup_max_power_watts = filter_option (\<lambda>w. w \<noteq> 0x8000) (record_word r 0x0C),
                 sup_hot_replaceable = Some (ch AND 0x0001 \<noteq> 0), sup_present = Some (ch AND 0x0002 \<noteq> 0),
                 sup_unplugged = Some (ch AND 0x0004 \<noteq> 0), sup_status = supply_status ch\<rparr>
        in if described s then Some s else None))"

definition note_record :: "smbios_version option \<Rightarrow> smbios_record \<Rightarrow> smbios_tables \<Rightarrow> smbios_tables" where
  "note_record v r t =
     (if rec_kind r = system_information_kind \<and> tb_system t = None
      then t\<lparr>tb_system := Some (system_information r v)\<rparr>
      else if rec_kind r = power_supply_kind
      then (case power_supply r of None \<Rightarrow> t | Some s \<Rightarrow> t\<lparr>tb_power_supplies := tb_power_supplies t @ [s]\<rparr>)
      else t)"

definition smbios_parse :: "8 word list \<Rightarrow> 8 word list \<Rightarrow> smbios_tables" where
  "smbios_parse entry table =
     fold (note_record (parse_version entry)) (records table 0) \<lparr>tb_system = None, tb_power_supplies = []\<rparr>"

section \<open>The table as firmware writes it\<close>

text \<open>
  The layout of the specification: a header of kind, length and handle, the formatted area, and
  the strings, each ended by a NUL and the set by another one.
\<close>

record written =
  wr_kind :: "8 word"
  wr_handle :: "8 word \<times> 8 word"
  wr_body :: "8 word list"
  wr_strings :: "8 word list list"

definition string_set :: "8 word list list \<Rightarrow> 8 word list" where
  "string_set ss = (if ss = [] then [0, 0] else concat (map (\<lambda>s. s @ [0]) ss) @ [0])"

definition header_and_body :: "written \<Rightarrow> 8 word list" where
  "header_and_body r =
     [wr_kind r, of_nat (length (wr_body r) + 4), fst (wr_handle r), snd (wr_handle r)] @ wr_body r"

definition write_record :: "written \<Rightarrow> 8 word list" where
  "write_record r = header_and_body r @ string_set (wr_strings r)"

definition writable :: "written \<Rightarrow> bool" where
  "writable r = (length (wr_body r) + 4 \<le> 255 \<and> wr_kind r \<noteq> end_of_table
     \<and> list_all (\<lambda>s. s \<noteq> [] \<and> 0 \<notin> set s) (wr_strings r))"

definition as_read :: "written \<Rightarrow> smbios_record" where
  "as_read r = \<lparr>rec_kind = wr_kind r, rec_formatted = header_and_body r, rec_strings = wr_strings r\<rparr>"

lemma split_nul_no_nul: "0 \<notin> set s \<Longrightarrow> split_nul s = [s]"
  by (induction s) auto

lemma split_nul_append: "0 \<notin> set s \<Longrightarrow> split_nul (s @ 0 # bs) = s # split_nul bs"
  by (induction s) auto

lemma double_nul_skip: "s \<noteq> [] \<Longrightarrow> 0 \<notin> set s \<Longrightarrow> double_nul (s @ 0 # b # bs)
    = map_option (\<lambda>n. length s + n) (double_nul (0 # b # bs))"
proof (induction s)
  case (Cons a s)
  have "a \<noteq> 0" using Cons.prems by auto
  thus ?case using Cons by (cases s) (auto simp: option.map_comp comp_def)
qed simp

lemma string_set_read:
  assumes "list_all (\<lambda>s. s \<noteq> [] \<and> 0 \<notin> set s) ss" "ss \<noteq> []"
  shows "\<exists>n. double_nul (concat (map (\<lambda>s. s @ [0]) ss) @ 0 # rest) = Some n \<and> n + 2 = length (string_set ss)
    \<and> 0 < n \<and> split_nul (take n (concat (map (\<lambda>s. s @ [0]) ss))) = ss"
  using assms
proof (induction ss)
  case (Cons s ss)
  have s: "s \<noteq> []" "0 \<notin> set s" using Cons.prems by auto
  show ?case
  proof (cases "ss = []")
    case True
    thus ?thesis using double_nul_skip[OF s, of 0 rest] s by (simp add: string_set_def split_nul_no_nul)
  next
    case False
    let ?c = "concat (map (\<lambda>s. s @ [0]) ss)"
    obtain n where n: "double_nul (?c @ 0 # rest) = Some n" "n + 2 = length (string_set ss)" "0 < n"
      "split_nul (take n ?c) = ss" using Cons False by auto
    obtain b bs where b: "?c @ 0 # rest = b # bs" "b \<noteq> 0"
      using Cons.prems False by (cases ss; cases "hd ss") auto
    have "double_nul (s @ 0 # ?c @ 0 # rest) = Some (length s + Suc n)"
      using double_nul_skip[OF s, of b bs] n(1) b by simp
    moreover have "split_nul (take (length s + Suc n) (s @ 0 # ?c)) = s # ss"
      using n(4) s by (simp add: split_nul_append)
    moreover have "length s + Suc n + 2 = length (string_set (s # ss))" using n(2) False by (simp add: string_set_def)
    ultimately show ?thesis by (intro exI[of _ "length s + Suc n"]) simp
  qed
qed simp

lemma next_record_write:
  assumes "writable r"
  shows "next_record (write_record r @ rest) = Some (as_read r, length (write_record r))"
proof -
  let ?hb = "header_and_body r"
  have u: "unat (of_nat m :: 8 word) = m" if "m \<le> 255" for m using that by (simp add: unat_of_nat)
  have len: "unat (of_nat (length (wr_body r) + 4) :: 8 word) = length ?hb" "length ?hb = length (wr_body r) + 4"
    using assms u[of "length (wr_body r) + 4"] by (auto simp: header_and_body_def writable_def)
  have g: "get 0 (?hb @ x) = Some (wr_kind r)" "get 1 (?hb @ x) = Some (of_nat (length (wr_body r) + 4))" for x
    by (simp_all add: get_def header_and_body_def)
  have k: "wr_kind r \<noteq> end_of_table" using assms by (simp add: writable_def)
  have gr: "get_range 0 (length ?hb) (?hb @ x) = Some ?hb" for x by (simp add: get_range_def)
  show ?thesis
  proof (cases "wr_strings r = []")
    case True
    thus ?thesis using g len k gr by (simp add: next_record_def write_record_def string_set_def as_read_def Let_def)
  next
    case False
    then obtain n where n: "double_nul (concat (map (\<lambda>s. s @ [0]) (wr_strings r)) @ 0 # rest) = Some n"
      "n + 2 = length (string_set (wr_strings r))" "0 < n"
      "split_nul (take n (concat (map (\<lambda>s. s @ [0]) (wr_strings r)))) = wr_strings r"
      using string_set_read assms by (auto simp: writable_def)
    have "n \<le> length (concat (map (\<lambda>s. s @ [0]) (wr_strings r)))" using n(2) False by (simp add: string_set_def)
    thus ?thesis using n g len k gr False
      by (simp add: next_record_def write_record_def string_set_def as_read_def Let_def)
  qed
qed

lemma next_record_end: "next_record (end_of_table # bs) = None"
  by (auto simp: next_record_def get_def Let_def bind_eq_None_conv)

text \<open>The walk over a table from an offset is the walk over the rest of the table.\<close>

lemma records_shift: "records (pre @ table) (length pre + offset) = records table offset"
proof (induction table offset rule: records.induct)
  case (1 table offset)
  show ?case
  proof (cases "length table < offset \<or> next_record (drop offset table) = None")
    case True thus ?thesis by (auto simp: records.simps[of "pre @ table"] records.simps[of table])
  next
    case False
    then obtain r n where n: "next_record (drop offset table) = Some (r, n)" by auto
    have "records (pre @ table) (length pre + (offset + n)) = records table (offset + n)"
      using 1 False n by auto
    thus ?thesis using False n by (simp add: records.simps[of "pre @ table"] records.simps[of table] add.assoc)
  qed
qed

lemma records_write:
  "writable r \<Longrightarrow> records (write_record r @ rest) 0 = as_read r # records rest 0"
  using records_shift[of "write_record r" rest 0] by (simp add: records.simps[of "write_record r @ rest" 0] next_record_write)

section \<open>Properties\<close>

text \<open>
  C22. Reading a structure table gives back exactly the records the firmware wrote, in order, with
  their formatted areas and strings, up to the end-of-table record and whatever follows it.
\<close>

theorem records_read_what_was_written:
  assumes "list_all writable rs"
  shows "records (concat (map write_record rs) @ end_of_table # junk) 0 = map as_read rs"
  using assms
  by (induction rs) (simp_all add: records_write records.simps[of "end_of_table # junk" 0] next_record_end)

theorem records_read_what_was_written_witness:
  "records (write_record \<lparr>wr_kind = 1, wr_handle = (0, 1), wr_body = [1, 2], wr_strings = [[65], [66, 67]]\<rparr>
      @ end_of_table # [4, 0, 0, 0, 0]) 0
   = [\<lparr>rec_kind = 1, rec_formatted = [1, 6, 0, 1, 1, 2], rec_strings = [[65], [66, 67]]\<rparr>]"
  using records_read_what_was_written[of
      "[\<lparr>wr_kind = 1, wr_handle = (0, 1), wr_body = [1, 2], wr_strings = [[65], [66, 67]]\<rparr>]" "[4, 0, 0, 0, 0]"]
  by (simp add: writable_def end_of_table_def as_read_def header_and_body_def)

end
