(* ===== verification/Float64.thy ===== *)
theory Float64
  imports Complex_Main Decimal
begin

text \<open>
  The \<open>f64\<close> arithmetic the agent uses: rounding to the nearest binary64 number with ties to even,
  conversion from and to integers, comparison, and \<open>f64::from_str\<close>. A finite number is the
  rational it denotes; the sign of zero is not represented, and nothing the agent does depends
  on it.
\<close>

datatype f64 = NaN | Infinity bool | Finite rat
  \<comment> \<open>the infinity's flag is its sign: \<open>True\<close> for the negative one\<close>

section \<open>Rounding\<close>

fun ilog2 :: "nat \<Rightarrow> nat" where
  "ilog2 n = (if n < 2 then 0 else Suc (ilog2 (n div 2)))"

declare ilog2.simps [simp del]

definition magnitude :: "rat \<Rightarrow> int" where
  \<comment> \<open>the exponent of the leading binary digit of a positive number\<close>
  "magnitude q = (if 1 \<le> q then int (ilog2 (nat \<lfloor>q\<rfloor>)) else - int (Suc (ilog2 (nat (\<lceil>1 / q\<rceil> - 1)))))"

definition last_place :: "rat \<Rightarrow> int" where
  \<comment> \<open>the exponent of the last of 53 binary digits, no smaller than that of the subnormal numbers\<close>
  "last_place q = max (magnitude q - 52) (-1074)"

definition ties_to_even :: "rat \<Rightarrow> int" where
  "ties_to_even s =
     (let n = \<lfloor>s\<rfloor>; d = s - of_int n
      in if d < 1 / 2 then n else if 1 / 2 < d then n + 1 else if even n then n else n + 1)"

definition nearest :: "rat \<Rightarrow> rat" where
  "nearest q = of_int (ties_to_even (q / 2 powi last_place q)) * 2 powi last_place q"

definition f64_overflow :: rat where
  \<comment> \<open>no finite number reaches it\<close>
  "f64_overflow = 2 ^ 1024"

definition to_f64 :: "rat \<Rightarrow> f64" where
  "to_f64 q =
     (if q = 0 then Finite 0
      else if f64_overflow \<le> nearest \<bar>q\<bar> then Infinity (q < 0)
      else Finite (sgn q * nearest \<bar>q\<bar>))"

section \<open>Operations\<close>

definition f64_of_u64 :: "nat \<Rightarrow> f64" where
  "f64_of_u64 n = to_f64 (of_nat n)"

fun is_finite :: "f64 \<Rightarrow> bool" where
  "is_finite (Finite _) = True"
| "is_finite _ = False"

fun f64_le :: "f64 \<Rightarrow> f64 \<Rightarrow> bool" where
  "f64_le NaN _ = False"
| "f64_le _ NaN = False"
| "f64_le (Infinity neg) y = (neg \<or> y = Infinity False)"
| "f64_le (Finite a) (Infinity neg) = (\<not> neg)"
| "f64_le (Finite a) (Finite b) = (a \<le> b)"

definition f64_eq :: "f64 \<Rightarrow> f64 \<Rightarrow> bool" where
  "f64_eq x y = (x \<noteq> NaN \<and> x = y)"

fun f64_scale :: "(rat \<Rightarrow> rat) \<Rightarrow> f64 \<Rightarrow> f64" where
  \<comment> \<open>multiplication by, or division by, a positive constant that is itself a binary64 number\<close>
  "f64_scale f (Finite a) = to_f64 (f a)"
| "f64_scale f x = x"

fun f64_as_i64 :: "f64 \<Rightarrow> int" where
  \<comment> \<open>\<open>as i64\<close> truncates towards zero and saturates\<close>
  "f64_as_i64 NaN = 0"
| "f64_as_i64 (Infinity neg) = (if neg then -(2 ^ 63) else 2 ^ 63 - 1)"
| "f64_as_i64 (Finite a) = max (-(2 ^ 63)) (min (2 ^ 63 - 1) (if 0 \<le> a then \<lfloor>a\<rfloor> else \<lceil>a\<rceil>))"

section \<open>Reading a number\<close>

text \<open>
  The grammar of \<open>f64::from_str\<close>: an optional sign, then \<open>inf\<close>, \<open>infinity\<close> or \<open>nan\<close> in any case,
  or digits with an optional point, at least one digit on one of its sides, and an optional
  exponent. The value is the nearest number to the one written. An exponent stops growing once
  it passes \<open>0x10000\<close>.
\<close>

definition exponent_value :: "string \<Rightarrow> nat" where
  "exponent_value ds = foldl (\<lambda>e d. if e < 65536 then 10 * e + digit_value d else e) 0 ds"

definition take_sign :: "string \<Rightarrow> bool \<times> string" where
  "take_sign s =
     (case s of [] \<Rightarrow> (False, s)
      | c # cs \<Rightarrow> if c = CHR ''-'' then (True, cs) else if c = CHR ''+'' then (False, cs) else (False, s))"

definition parse_exponent :: "string \<Rightarrow> int option" where
  \<comment> \<open>what follows the digits: nothing, or an exponent\<close>
  "parse_exponent s =
     (case s of [] \<Rightarrow> Some 0
      | c # cs \<Rightarrow>
          if c \<noteq> CHR ''e'' \<and> c \<noteq> CHR ''E'' then None
          else (case take_sign cs of (neg, ds) \<Rightarrow>
            if ds = [] \<or> \<not> list_all is_ascii_digit ds then None
            else Some ((if neg then - 1 else 1) * int (exponent_value ds))))"

definition parse_number :: "string \<Rightarrow> rat option" where
  "parse_number s =
     (let whole = takeWhile is_ascii_digit s; rest = dropWhile is_ascii_digit s;
          pointed = (case rest of c # cs \<Rightarrow> c = CHR ''.'' | [] \<Rightarrow> False);
          fraction = (if pointed then takeWhile is_ascii_digit (tl rest) else []);
          rest = (if pointed then dropWhile is_ascii_digit (tl rest) else rest)
      in if whole = [] \<and> fraction = [] then None
         else map_option (\<lambda>e. of_nat (decimal_value (whole @ fraction)) * 10 powi (e - int (length fraction)))
                (parse_exponent rest))"

definition parse_f64 :: "string \<Rightarrow> f64 option" where
  "parse_f64 s =
     (case take_sign s of (neg, s) \<Rightarrow>
      let lower = map to_ascii_lowercase s in
      if lower = ''inf'' \<or> lower = ''infinity'' then Some (Infinity neg)
      else if lower = ''nan'' then Some NaN
      else map_option (\<lambda>q. to_f64 (if neg then - q else q)) (parse_number s))"

section \<open>How far rounding moves a number\<close>

lemma ilog2_bounds: "0 < n \<Longrightarrow> 2 ^ ilog2 n \<le> n \<and> n < 2 ^ Suc (ilog2 n)"
proof (induction n rule: ilog2.induct)
  case (1 n)
  show ?case
  proof (cases "n < 2")
    case True thus ?thesis using 1 by (simp add: ilog2.simps[of n])
  next
    case False
    hence "2 ^ ilog2 (n div 2) \<le> n div 2" "n div 2 < 2 ^ Suc (ilog2 (n div 2))" using 1 by simp_all
    hence "2 * 2 ^ ilog2 (n div 2) \<le> n" "n < 2 * 2 ^ Suc (ilog2 (n div 2))" by linarith+
    thus ?thesis using False by (simp add: ilog2.simps[of n])
  qed
qed

lemma magnitude_bounds:
  assumes "0 < q"
  shows "2 powi magnitude q \<le> q" "q < 2 powi (magnitude q + 1)"
proof -
  have "2 powi magnitude q \<le> q \<and> q < 2 powi (magnitude q + 1)"
  proof (cases "1 \<le> q")
    case True
    let ?n = "nat \<lfloor>q\<rfloor>"
    have n: "0 < ?n" "of_nat ?n \<le> q" "q < of_nat (Suc ?n)" using True by linarith+
    have b: "2 ^ ilog2 ?n \<le> ?n" "Suc ?n \<le> 2 ^ Suc (ilog2 ?n)" using ilog2_bounds[OF n(1)] by auto
    have "(2::rat) ^ ilog2 ?n \<le> of_nat ?n" "of_nat (Suc ?n) \<le> (2::rat) ^ Suc (ilog2 ?n)"
      using b by (metis of_nat_le_iff of_nat_power of_nat_numeral)+
    hence "(2::rat) ^ ilog2 ?n \<le> q" "q < 2 ^ Suc (ilog2 ?n)" using n(2,3) by linarith+
    thus ?thesis using True by (simp add: magnitude_def power_int_add)
  next
    case False
    let ?n = "nat (\<lceil>1 / q\<rceil> - 1)"
    have inv: "1 < 1 / q" using False assms by (simp add: field_simps)
    have "2 \<le> \<lceil>1 / q\<rceil>" using inv by linarith
    hence n: "0 < ?n" "of_nat ?n < 1 / q" "1 / q \<le> of_nat (Suc ?n)" by linarith+
    have b: "2 ^ ilog2 ?n \<le> ?n" "Suc ?n \<le> 2 ^ Suc (ilog2 ?n)" using ilog2_bounds[OF n(1)] by auto
    have "(2::rat) ^ ilog2 ?n \<le> of_nat ?n" "of_nat (Suc ?n) \<le> (2::rat) ^ Suc (ilog2 ?n)"
      using b by (metis of_nat_le_iff of_nat_power of_nat_numeral)+
    hence "(2::rat) ^ ilog2 ?n < 1 / q" "1 / q \<le> 2 ^ Suc (ilog2 ?n)" using n(2,3) by linarith+
    hence "q < 1 / 2 ^ ilog2 ?n" "1 / 2 ^ Suc (ilog2 ?n) \<le> q" using assms by (simp_all add: field_simps)
    moreover have m: "magnitude q = - int (Suc (ilog2 ?n))" "magnitude q + 1 = - int (ilog2 ?n)"
      using False by (simp_all add: magnitude_def)
    have "(2::rat) powi magnitude q = 1 / 2 ^ Suc (ilog2 ?n)"
      unfolding m(1) by (simp only: power_int_minus power_int_of_nat inverse_eq_divide)
    moreover have "(2::rat) powi (magnitude q + 1) = 1 / 2 ^ ilog2 ?n"
      unfolding m(2) by (simp only: power_int_minus power_int_of_nat inverse_eq_divide)
    ultimately show ?thesis by simp
  qed
  thus "2 powi magnitude q \<le> q" "q < 2 powi (magnitude q + 1)" by blast+
qed

lemma ties_to_even_error: "\<bar>of_int (ties_to_even s) - s\<bar> \<le> 1 / 2"
proof -
  have "of_int \<lfloor>s\<rfloor> \<le> s" "s < of_int \<lfloor>s\<rfloor> + 1" by linarith+
  thus ?thesis by (auto simp: ties_to_even_def Let_def abs_le_iff)
qed

lemma ties_to_even_int [simp]: "ties_to_even (of_int n) = n"
  by (simp add: ties_to_even_def)

lemma ties_to_even_ge: "of_int n \<le> s \<Longrightarrow> n \<le> ties_to_even s"
  using le_floor_iff[of n s] by (auto simp: ties_to_even_def Let_def)

lemma ties_to_even_le:
  assumes "s \<le> of_int n"
  shows "ties_to_even s \<le> n"
proof (cases "s = of_int n")
  case False
  hence "\<lfloor>s\<rfloor> + 1 \<le> n" using assms by linarith
  thus ?thesis by (auto simp: ties_to_even_def Let_def)
qed simp

lemma nearest_error: "\<bar>nearest q - q\<bar> \<le> 2 powi (last_place q - 1)"
proof -
  let ?u = "2 powi last_place q :: rat"
  have u: "0 < ?u" by simp
  have "nearest q - q = (of_int (ties_to_even (q / ?u)) - q / ?u) * ?u" using u by (simp add: nearest_def field_simps)
  hence "\<bar>nearest q - q\<bar> = \<bar>of_int (ties_to_even (q / ?u)) - q / ?u\<bar> * ?u" using u by (simp add: abs_mult)
  also have "\<dots> \<le> 1 / 2 * ?u" using ties_to_even_error[of "q / ?u"] u by (intro mult_right_mono) auto
  finally show ?thesis by (simp add: power_int_diff)
qed

text \<open>In the range of normal numbers the relative error is at most half a unit in the last place.\<close>

lemma nearest_relative:
  assumes "0 < q" "-1022 \<le> magnitude q"
  shows "\<bar>nearest q - q\<bar> \<le> q / 2 ^ 53"
proof -
  have "last_place q = magnitude q - 52" using assms by (simp add: last_place_def)
  hence "\<bar>nearest q - q\<bar> \<le> 2 powi (magnitude q - 53)" using nearest_error[of q] by simp
  also have "\<dots> = 2 powi magnitude q / 2 ^ 53" by (simp add: power_int_diff)
  also have "\<dots> \<le> q / 2 ^ 53" using magnitude_bounds(1)[OF assms(1)] by (simp add: divide_right_mono)
  finally show ?thesis .
qed

text \<open>Integers of at most 53 bits are binary64 numbers, so rounding never crosses one.\<close>

lemma small_last_place:
  assumes "0 < q" "q < 2 ^ 53"
  shows "last_place q \<le> 0"
proof -
  have "2 powi magnitude q < (2 powi 53 :: rat)" using magnitude_bounds(1)[OF assms(1)] assms(2) by simp
  hence "magnitude q < 53" by (meson linorder_not_le one_le_numeral power_int_increasing)
  thus ?thesis by (simp add: last_place_def)
qed

lemma whole_scaled:
  assumes "u \<le> 0"
  shows "\<exists>m. (of_int k :: rat) / 2 powi u = of_int m"
proof -
  have "(2::rat) powi u = inverse (2 ^ nat (- u))" using assms by (simp add: power_int_def power_one_over inverse_eq_divide)
  hence "(of_int k :: rat) / 2 powi u = of_int (k * 2 ^ nat (- u))" by (simp add: field_simps)
  thus ?thesis by blast
qed

lemma nearest_ge:
  assumes "0 < q" "q < 2 ^ 53" "of_int k \<le> q"
  shows "of_int k \<le> nearest q"
proof -
  let ?u = "2 powi last_place q :: rat"
  obtain m where m: "of_int k / ?u = of_int m" using whole_scaled[OF small_last_place[OF assms(1,2)]] by blast
  have "of_int m \<le> q / ?u" unfolding m[symmetric] using assms(3) by (intro divide_right_mono) auto
  hence "of_int m \<le> (of_int (ties_to_even (q / ?u)) :: rat)" using ties_to_even_ge of_int_le_iff by blast
  hence "of_int m * ?u \<le> nearest q" by (simp add: nearest_def mult_right_mono)
  thus ?thesis using m by (simp add: field_simps)
qed

lemma nearest_le:
  assumes "0 < q" "q < 2 ^ 53" "q \<le> of_int k"
  shows "nearest q \<le> of_int k"
proof -
  let ?u = "2 powi last_place q :: rat"
  obtain m where m: "of_int k / ?u = of_int m" using whole_scaled[OF small_last_place[OF assms(1,2)]] by blast
  have "q / ?u \<le> of_int m" unfolding m[symmetric] using assms(3) by (intro divide_right_mono) auto
  hence "(of_int (ties_to_even (q / ?u)) :: rat) \<le> of_int m" using ties_to_even_le of_int_le_iff by blast
  hence "nearest q \<le> of_int m * ?u" by (simp add: nearest_def mult_right_mono)
  thus ?thesis using m by (simp add: field_simps)
qed

lemma f64_overflow_large: "2 ^ 53 < f64_overflow"
  unfolding f64_overflow_def by (rule power_strict_increasing) simp_all

lemma to_f64_small:
  assumes "0 \<le> q" "q < 2 ^ 53"
  shows "to_f64 q = Finite (if q = 0 then 0 else nearest q)"
proof -
  have "nearest q < f64_overflow" if "q \<noteq> 0"
    using nearest_le[of q "2 ^ 53"] assms that f64_overflow_large by simp
  thus ?thesis using assms by (cases "q = 0") (simp_all add: to_f64_def sgn_if)
qed

lemma f64_of_u64_exact:
  assumes "n < 2 ^ 53"
  shows "f64_of_u64 n = Finite (of_nat n)"
proof (cases "n = 0")
  case False
  have "(of_nat n :: rat) < of_nat (2 ^ 53)" using assms by (simp only: of_nat_less_iff)
  hence n: "0 < (of_nat n :: rat)" "(of_nat n :: rat) < 2 ^ 53" using False by simp_all
  hence "nearest (of_nat n) = of_int (int n)" using nearest_ge[OF n, of "int n"] nearest_le[OF n, of "int n"] by simp
  thus ?thesis using to_f64_small[of "of_nat n"] n False by (simp add: f64_of_u64_def)
qed (simp add: f64_of_u64_def to_f64_def)

end
