(* ===== verification/Hwmon.thy ===== *)
theory Hwmon
  imports Float64 Text_Json "HOL-Library.Multiset"
begin

text \<open>
  Power sensors under \<open>/sys/class/hwmon\<close> (\<open>power/hwmon.rs\<close>). The kernel's file tree is a
  parameter that answers each read; a scan reads a path at most once in each way, so fixed
  answers lose nothing.
\<close>

section \<open>Readings\<close>

definition hwmon_mapping :: string where "hwmon_mapping = ''hwmon''"
definition hwmon_mapping_version :: nat where "hwmon_mapping_version = 1"
definition max_interval_ms :: nat where "max_interval_ms = 86400000"
definition max_sensor_chars :: nat where "max_sensor_chars = 255"

definition supply_names :: "string list" where
  "supply_names = [''cffps1'', ''cffps2'', ''dps920ab'', ''ibm_cffps1'', ''ibm_cffps2'', ''ipsps1'',
     ''pfe1100'', ''pfe3000'', ''yh5151e'', ''ym2151e'']"

datatype boundary = HostInput | SupplyInput | SupplyOutput

fun boundary_as_str :: "boundary \<Rightarrow> string" where
  "boundary_as_str HostInput = ''host_input''"
| "boundary_as_str SupplyInput = ''supply_input''"
| "boundary_as_str SupplyOutput = ''supply_output''"

record sensor_error =
  se_message :: error_text
  se_denied :: bool

record hwmon_reading =
  hr_sensor :: string
  hr_boundary :: boundary
  hr_watts :: "sensor_error + f64"
  hr_window :: duration

datatype availability = Available | NotPermitted | NotPresent

fun availability_as_str :: "availability \<Rightarrow> string" where
  "availability_as_str Available = ''available''"
| "availability_as_str NotPermitted = ''not_permitted''"
| "availability_as_str NotPresent = ''not_present''"

record scan_result =
  sc_readings :: "hwmon_reading list"
  sc_availability :: availability

section \<open>The file tree\<close>

record sysfs =
  sys_read_dir :: "string \<Rightarrow> io_kind + string list"
  sys_read_to_string :: "string \<Rightarrow> io_kind + string"
  sys_canonicalize :: "string \<Rightarrow> io_kind + string"
  sys_exists :: "string \<Rightarrow> bool"

fun map_ok :: "('a \<Rightarrow> 'b) \<Rightarrow> 'e + 'a \<Rightarrow> 'e + 'b" where
  \<comment> \<open>\<open>Result::map\<close>\<close>
  "map_ok f (Inl e) = Inl e"
| "map_ok f (Inr v) = Inr (f v)"

definition path_join :: "string \<Rightarrow> string \<Rightarrow> string" where
  "path_join dir name = dir @ ''/'' @ name"

definition read_trimmed :: "sysfs \<Rightarrow> string \<Rightarrow> io_kind + string" where
  "read_trimmed fs path = map_ok trim (sys_read_to_string fs path)"

definition optional :: "io_kind + 'a \<Rightarrow> io_kind + 'a option" where
  "optional r =
     (case r of Inr v \<Rightarrow> Inr (Some v) | Inl e \<Rightarrow> if e = PermissionDenied then Inl e else Inr None)"

fun find_ok :: "('a \<Rightarrow> io_kind + 'b option) \<Rightarrow> 'a list \<Rightarrow> io_kind + 'b option" where
  \<comment> \<open>the loops that return the first answer and stop at the first permission error\<close>
  "find_ok f [] = Inr None"
| "find_ok f (x # xs) = (case f x of Inl e \<Rightarrow> Inl e | Inr (Some y) \<Rightarrow> Inr (Some y) | Inr None \<Rightarrow> find_ok f xs)"

section \<open>Chips\<close>

definition attributes :: "sysfs \<Rightarrow> string \<Rightarrow> io_kind + (string \<times> string) option" where
  "attributes fs chip =
     find_ok (\<lambda>dir. map_ok (map_option (\<lambda>name. (dir, name))) (optional (read_trimmed fs (path_join dir ''name''))))
       [chip, path_join chip ''device'']"

fun split_once_str :: "string \<Rightarrow> string \<Rightarrow> (string \<times> string) option" where
  "split_once_str p [] = (if p = [] then Some ([], []) else None)"
| "split_once_str p (c # cs) =
     (case strip_prefix p (c # cs) of
        Some r \<Rightarrow> Some ([], r)
      | None \<Rightarrow> map_option (\<lambda>(a, b). (c # a, b)) (split_once_str p cs))"

definition devicetree_node :: "string \<Rightarrow> string option" where
  "devicetree_node node =
     (case split_once_str ''/devicetree/base/'' (from_utf8_lossy node) of
        Some (_, path) \<Rightarrow> if path \<noteq> [] then Some (''dt:'' @ path) else None
      | None \<Rightarrow> None)"

definition acpi_path :: "sysfs \<Rightarrow> string \<Rightarrow> io_kind + string option" where
  "acpi_path fs file =
     map_ok (\<lambda>p. Option.bind p (\<lambda>path. if path \<noteq> [] then Some (''acpi:'' @ path) else None))
       (optional (read_trimmed fs file))"

definition firmware_node :: "sysfs \<Rightarrow> string \<Rightarrow> io_kind + string option" where
  "firmware_node fs chip =
     (let device = path_join chip ''device'' in
      case optional (sys_canonicalize fs (path_join device ''of_node'')) of
        Inl e \<Rightarrow> Inl e
      | Inr node \<Rightarrow>
          (case Option.bind node devicetree_node of
             Some n \<Rightarrow> Inr (Some n)
           | None \<Rightarrow> find_ok (acpi_path fs)
               [path_join (path_join device ''firmware_node'') ''path'', path_join device ''path'']))"

definition channel :: "string \<Rightarrow> nat option" where
  "channel file =
     Option.bind (strip_prefix ''power'' file) (\<lambda>rest.
     Option.bind (split_once (CHR ''_'') rest) (\<lambda>(number, kind).
     if kind = ''input'' \<or> kind = ''average'' then parse_uint u32_max number else None))"

definition boundary_of :: "string \<Rightarrow> string option \<Rightarrow> boundary option" where
  "boundary_of driver label =
     (if driver \<notin> set supply_names then None
      else Option.bind label (\<lambda>label.
        let label = map to_ascii_lowercase label in
        if starts_with ''pin'' label then Some SupplyInput
        else if starts_with ''pout'' label then Some SupplyOutput
        else None))"

section \<open>One sensor\<close>

definition cannot_read :: "string \<Rightarrow> io_kind \<Rightarrow> sensor_error" where
  "cannot_read file e = \<lparr>se_message = Format ''cannot read {}: {error}'' [file], se_denied = (e = PermissionDenied)\<rparr>"

definition interval_of :: "sysfs \<Rightarrow> string \<Rightarrow> sensor_error + duration" where
  "interval_of fs file =
     (case read_trimmed fs file of
        Inl e \<Rightarrow> Inl (cannot_read file e)
      | Inr text \<Rightarrow>
          (case parse_uint u64_max text of
             Some ms \<Rightarrow>
               if 1 \<le> ms \<and> ms \<le> max_interval_ms then Inr (millis ms)
               else Inl \<lparr>se_message = Format ''{} is not an averaging interval from 1 to {MAX_INTERVAL_MS} ms: {milliseconds:?}''
                           [file, dec max_interval_ms, text], se_denied = False\<rparr>
           | None \<Rightarrow> Inl \<lparr>se_message = Format ''{} is not an averaging interval from 1 to {MAX_INTERVAL_MS} ms: {milliseconds:?}''
                           [file, dec max_interval_ms, text], se_denied = False\<rparr>))"

definition microwatts_as_watts :: "nat \<Rightarrow> f64" where
  "microwatts_as_watts n = f64_scale (\<lambda>x. x / 1000000) (f64_of_u64 n)"

definition read_watts :: "sysfs \<Rightarrow> string \<Rightarrow> sensor_error + f64" where
  "read_watts fs file =
     (case read_trimmed fs file of
        Inl e \<Rightarrow> Inl (cannot_read file e)
      | Inr text \<Rightarrow>
          (case parse_uint u64_max text of
             Some n \<Rightarrow> Inr (microwatts_as_watts n)
           | None \<Rightarrow> Inl \<lparr>se_message = Format ''{} is not a power reading: {microwatts:?}'' [file, text], se_denied = False\<rparr>))"

definition reading_of :: "sysfs \<Rightarrow> string \<Rightarrow> string \<Rightarrow> string \<Rightarrow> boundary \<Rightarrow> hwmon_reading" where
  "reading_of fs dir prefix sensor b =
     (let average = path_join dir (prefix @ ''_average'') in
      if sys_exists fs average
      then (case interval_of fs (path_join dir (prefix @ ''_average_interval'')) of
              Inl e \<Rightarrow> \<lparr>hr_sensor = sensor, hr_boundary = b, hr_watts = Inl e, hr_window = 0\<rparr>
            | Inr window \<Rightarrow> \<lparr>hr_sensor = sensor, hr_boundary = b, hr_watts = read_watts fs average, hr_window = window\<rparr>)
      else \<lparr>hr_sensor = sensor, hr_boundary = b,
            hr_watts = read_watts fs (path_join dir (prefix @ ''_input'')), hr_window = 0\<rparr>)"

section \<open>A scan\<close>

fun channel_readings ::
  "sysfs \<Rightarrow> string \<Rightarrow> string \<Rightarrow> string \<Rightarrow> nat list \<Rightarrow> io_kind + hwmon_reading list" where
  "channel_readings fs dir name device [] = Inr []"
| "channel_readings fs dir name device (n # ns) =
     (let prefix = ''power'' @ dec n in
      case optional (read_trimmed fs (path_join dir (prefix @ ''_label''))) of
        Inl e \<Rightarrow> Inl e
      | Inr label \<Rightarrow>
          (let rest = channel_readings fs dir name device ns; sensor = name @ ''/'' @ device @ ''/'' @ prefix in
           case boundary_of name label of
             None \<Rightarrow> rest
           | Some b \<Rightarrow>
               if max_sensor_chars < char_count sensor then rest
               else map_ok ((#) (reading_of fs dir prefix sensor b)) rest))"

definition channels_of :: "string list \<Rightarrow> nat list" where
  "channels_of files = remdups_adj (sort (List.map_filter (\<lambda>file. channel (from_utf8_lossy file)) files))"

definition chip_readings :: "sysfs \<Rightarrow> string \<Rightarrow> io_kind + hwmon_reading list" where
  "chip_readings fs chip =
     (case attributes fs chip of
        Inl e \<Rightarrow> Inl e
      | Inr None \<Rightarrow> Inr []
      | Inr (Some (dir, name)) \<Rightarrow>
          if name \<notin> set supply_names then Inr []
          else (case firmware_node fs chip of
                  Inl e \<Rightarrow> Inl e
                | Inr None \<Rightarrow> Inr []
                | Inr (Some device) \<Rightarrow>
                    (case sys_read_dir fs dir of
                       Inl e \<Rightarrow> Inl e
                     | Inr files \<Rightarrow> channel_readings fs dir name device (channels_of files))))"

definition scan_chips :: "sysfs \<Rightarrow> string list \<Rightarrow> hwmon_reading list \<times> bool" where
  "scan_chips fs chips =
     foldl (\<lambda>(readings, denied) chip.
        case chip_readings fs chip of
          Inr rs \<Rightarrow> (readings @ rs, denied)
        | Inl e \<Rightarrow> (readings, denied \<or> e = PermissionDenied)) ([], False) chips"

definition unreadable :: "io_kind \<Rightarrow> availability" where
  "unreadable e = (if e = PermissionDenied then NotPermitted else NotPresent)"

definition availability_of :: "hwmon_reading list \<Rightarrow> bool \<Rightarrow> availability" where
  "availability_of readings denied =
     (if list_ex (\<lambda>r. \<not> isl (hr_watts r)) readings then Available
      else if denied \<or> list_ex (\<lambda>r. isl (hr_watts r) \<and> se_denied (projl (hr_watts r))) readings then NotPermitted
      else NotPresent)"

definition hwmon_scan :: "sysfs \<Rightarrow> string \<Rightarrow> scan_result" where
  "hwmon_scan fs base =
     (case sys_read_dir fs base of
        Inl e \<Rightarrow> \<lparr>sc_readings = [], sc_availability = unreadable e\<rparr>
      | Inr names \<Rightarrow>
          (case scan_chips fs (map (path_join base) (sort names)) of
             (readings, denied) \<Rightarrow> \<lparr>sc_readings = readings, sc_availability = availability_of readings denied\<rparr>))"

section \<open>What a reboot may change\<close>

text \<open>
  The kernel may number the chips differently on the next boot. \<open>same_chip\<close>: one chip's files
  answer alike, wherever the chip's directory is.
\<close>

definition same_chip :: "sysfs \<Rightarrow> string \<Rightarrow> sysfs \<Rightarrow> string \<Rightarrow> bool" where
  "same_chip fs c fs' c' = (\<forall>p. sys_read_dir fs (c @ p) = sys_read_dir fs' (c' @ p)
     \<and> sys_read_to_string fs (c @ p) = sys_read_to_string fs' (c' @ p)
     \<and> sys_canonicalize fs (c @ p) = sys_canonicalize fs' (c' @ p)
     \<and> sys_exists fs (c @ p) = sys_exists fs' (c' @ p))"

record series_view =
  sv_sensor :: string
  sv_boundary :: boundary
  sv_watts :: "bool + f64"
  sv_window :: duration

definition view :: "hwmon_reading \<Rightarrow> series_view" where
  \<comment> \<open>a reading without the text of its error, which names a file\<close>
  "view r = \<lparr>sv_sensor = hr_sensor r, sv_boundary = hr_boundary r, sv_watts = map_sum se_denied id (hr_watts r),
     sv_window = hr_window r\<rparr>"

lemma same_chipD:
  assumes "same_chip fs c fs' c'"
  shows "sys_read_dir fs' (c' @ p) = sys_read_dir fs (c @ p)" "sys_exists fs' (c' @ p) = sys_exists fs (c @ p)"
    "sys_canonicalize fs' (c' @ p) = sys_canonicalize fs (c @ p)" "read_trimmed fs' (c' @ p) = read_trimmed fs (c @ p)"
  using assms by (simp_all add: same_chip_def read_trimmed_def)

lemma same_sensor_files:
  assumes "same_chip fs c fs' c'"
  shows "map_sum se_denied id (read_watts fs' (c' @ p)) = map_sum se_denied id (read_watts fs (c @ p))"
    "map_sum se_denied id (interval_of fs' (c' @ p)) = map_sum se_denied id (interval_of fs (c @ p))"
  by (simp_all add: read_watts_def interval_of_def same_chipD[OF assms] cannot_read_def split: sum.split option.split)

lemma view_reading_of:
  assumes "same_chip fs c fs' c'"
  shows "view (reading_of fs' (c' @ d) prefix sensor b) = view (reading_of fs (c @ d) prefix sensor b)"
proof -
  have p: "path_join (e @ d) f = e @ path_join d f" for e f by (simp add: path_join_def)
  let ?i = "path_join d (prefix @ ''_average_interval'')"
  show ?thesis
    unfolding reading_of_def Let_def p same_chipD[OF assms]
    using same_sensor_files(1)[OF assms] same_sensor_files(2)[OF assms, of ?i]
    by (cases "interval_of fs' (c' @ ?i)"; cases "interval_of fs (c @ ?i)") (simp_all add: view_def)
qed

lemma view_channel_readings:
  assumes "same_chip fs c fs' c'"
  shows "map_ok (map view) (channel_readings fs' (c' @ d) name device ns)
    = map_ok (map view) (channel_readings fs (c @ d) name device ns)"
proof (induction ns)
  case (Cons n ns)
  have step: "map_ok (map view) (map_ok ((#) (reading_of fs' (c' @ d) p s b)) (channel_readings fs' (c' @ d) name device ns))
    = map_ok (map view) (map_ok ((#) (reading_of fs (c @ d) p s b)) (channel_readings fs (c @ d) name device ns))"
    for p s b
    using Cons.IH view_reading_of[OF assms, of d p s b]
    by (cases "channel_readings fs' (c' @ d) name device ns"; cases "channel_readings fs (c @ d) name device ns") auto
  let ?label = "read_trimmed fs (c @ d @ ''/'' @ (''power'' @ dec n) @ ''_label'')"
  have l: "read_trimmed fs (path_join (c @ d) ((''power'' @ dec n) @ ''_label'')) = ?label"
    "read_trimmed fs' (path_join (c' @ d) ((''power'' @ dec n) @ ''_label'')) = ?label"
    using same_chipD(4)[OF assms, of "d @ ''/'' @ (''power'' @ dec n) @ ''_label''"] by (simp_all add: path_join_def)
  show ?case
    unfolding channel_readings.simps Let_def l using Cons.IH step
    by (cases "optional ?label") (auto simp del: append.simps split: option.splits)
qed simp

lemma view_chip_readings:
  assumes "same_chip fs c fs' c'"
  shows "map_ok (map view) (chip_readings fs' c') = map_ok (map view) (chip_readings fs c)"
proof -
  note same = same_chipD[OF assms] same_chipD[OF assms, of "[]", simplified]
  have a: "attributes fs' c' = map_ok (map_option (\<lambda>(d, n). (c' @ drop (length c) d, n))) (attributes fs c)"
    "\<And>d n. attributes fs c = Inr (Some (d, n)) \<Longrightarrow> \<exists>s. d = c @ s"
    by (auto simp: attributes_def path_join_def same optional_def split: sum.splits if_splits)
  have p: "acpi_path fs' (c' @ p) = acpi_path fs (c @ p)" for p by (simp add: acpi_path_def same)
  have f: "firmware_node fs' c' = firmware_node fs c"
    by (auto simp: firmware_node_def Let_def path_join_def same p split: sum.splits option.splits)
  show ?thesis
  proof (cases "attributes fs c")
    case (Inr found)
    show ?thesis
    proof (cases found)
      case (Some dn)
      obtain d n where dn: "dn = (d, n)" by fastforce
      obtain s where s: "d = c @ s" using a(2) Inr Some dn by blast
      show ?thesis using Inr Some dn s a(1) f view_channel_readings[OF assms, of s n]
        by (auto simp: chip_readings_def same split: sum.splits option.splits)
    qed (use Inr a(1) in \<open>simp add: chip_readings_def\<close>)
  qed (use a(1) in \<open>simp add: chip_readings_def\<close>)
qed

definition ok_readings :: "sysfs \<Rightarrow> string \<Rightarrow> hwmon_reading list" where
  "ok_readings fs chip = (case chip_readings fs chip of Inl _ \<Rightarrow> [] | Inr rs \<Rightarrow> rs)"

definition chip_denied :: "sysfs \<Rightarrow> string \<Rightarrow> bool" where
  "chip_denied fs chip = (chip_readings fs chip = Inl PermissionDenied)"

lemma scan_chips_alt:
  "scan_chips fs chips = (concat (map (ok_readings fs) chips), list_ex (chip_denied fs) chips)"
proof (induction chips rule: rev_induct)
  case (snoc chip chips)
  thus ?case by (auto simp: scan_chips_def ok_readings_def chip_denied_def split: sum.splits)
qed (simp add: scan_chips_def)

lemma ok_readings_view:
  "same_chip fs c fs' c' \<Longrightarrow> map view (ok_readings fs' c') = map view (ok_readings fs c)
    \<and> chip_denied fs' c' = chip_denied fs c"
  using view_chip_readings[of fs c fs' c']
  by (cases "chip_readings fs c"; cases "chip_readings fs' c'") (auto simp: ok_readings_def chip_denied_def)

lemma availability_of_view:
  "availability_of rs denied =
     (if \<exists>v\<in>view ` set rs. \<not> isl (sv_watts v) then Available
      else if denied \<or> (\<exists>v\<in>view ` set rs. sv_watts v = Inl True) then NotPermitted
      else NotPresent)"
proof -
  have "isl (sv_watts (view r)) = isl (hr_watts r)"
    "(sv_watts (view r) = Inl True) = (isl (hr_watts r) \<and> se_denied (projl (hr_watts r)))" for r
    by (cases "hr_watts r"; simp add: view_def)+
  thus ?thesis by (simp add: availability_of_def list_ex_iff)
qed

lemma mset_views:
  "image_mset view (mset (concat (map (ok_readings fs) chips)))
    = sum_mset (image_mset (\<lambda>c. mset (map view (ok_readings fs c))) (mset chips))"
  by (induction chips) simp_all

section \<open>Accuracy\<close>

lemma nearest_of_large:
  assumes "1 / 2 ^ 64 \<le> q" "q \<le> 2 ^ 64"
  shows "to_f64 q = Finite (nearest q)" "\<bar>nearest q - q\<bar> \<le> q / 2 ^ 53"
proof -
  have q: "0 < q" using assms(1) by (rule less_le_trans[rotated]) simp
  have "(2::rat) powi (-64) < 2 powi (magnitude q + 1)"
    using magnitude_bounds(2)[OF q] assms(1) by (simp add: power_int_minus)
  hence "- 64 < magnitude q + 1" by (meson linorder_not_le one_le_numeral power_int_increasing)
  thus e: "\<bar>nearest q - q\<bar> \<le> q / 2 ^ 53" using nearest_relative[OF q] by simp
  have "q / 2 ^ 53 \<le> q" using q by simp
  hence "nearest q \<le> 2 * q" using e by linarith
  also have "\<dots> \<le> 2 ^ 65" using assms(2) by simp
  also have "\<dots> < f64_overflow" unfolding f64_overflow_def by (rule power_strict_increasing) simp_all
  finally show "to_f64 q = Finite (nearest q)" using q by (simp add: to_f64_def sgn_if)
qed

lemma microwatts_accuracy:
  assumes "n \<le> u64_max"
  shows "\<exists>w. microwatts_as_watts n = Finite w \<and> \<bar>w - of_nat n / 1000000\<bar> \<le> of_nat n / 1000000 / 2 ^ 51"
proof (cases "n = 0")
  case False
  let ?n = "of_nat n :: rat"
  have "?n \<le> of_nat u64_max" using assms by (simp only: of_nat_le_iff)
  hence n: "1 \<le> ?n" "?n < 2 ^ 64" using False by (simp_all add: u64_max_def)
  have a: "to_f64 ?n = Finite (nearest ?n)" "\<bar>nearest ?n - ?n\<bar> \<le> ?n / 2 ^ 53"
    by (rule nearest_of_large; use n in simp)+
  let ?a = "nearest ?n"
  have near: "\<bar>?a - ?n\<bar> \<le> ?n / 9007199254740992" using a(2) by simp
  have a': "1 / 2 \<le> ?a" "?a \<le> 2 * ?n" using near n by linarith+
  have b: "to_f64 (?a / 1000000) = Finite (nearest (?a / 1000000))"
    "\<bar>nearest (?a / 1000000) - ?a / 1000000\<bar> \<le> ?a / 1000000 / 2 ^ 53"
    by (rule nearest_of_large; use n a' in simp)+
  have "\<bar>nearest (?a / 1000000) - ?a / 1000000\<bar> \<le> ?a / 1000000 / 9007199254740992" using b(2) by simp
  hence "\<bar>nearest (?a / 1000000) - ?n / 1000000\<bar> \<le> ?n / 1000000 / 2251799813685248" using near a' n by linarith
  thus ?thesis using a(1) b(1) by (simp add: microwatts_as_watts_def f64_of_u64_def)
qed (simp add: microwatts_as_watts_def f64_of_u64_def to_f64_def)

section \<open>Properties\<close>


definition answered :: "(string \<times> (io_kind + 'a)) list \<Rightarrow> string \<Rightarrow> io_kind + 'a" where
  "answered files p = (case map_of files p of None \<Rightarrow> Inl NotFound | Some r \<Rightarrow> r)"

definition tiny_sysfs :: "string \<Rightarrow> sysfs" where
  \<comment> \<open>one power supply at the given index, on an I2C bus firmware describes\<close>
  "tiny_sysfs chip =
     \<lparr>sys_read_dir = (\<lambda>p. answered [(''/h'', Inr [chip]), (''/h/'' @ chip, Inr [''name'', ''power1_input'', ''power1_label''])] p),
      sys_read_to_string = (\<lambda>p. answered [(''/h/'' @ chip @ ''/name'', Inr ''pfe1100''),
          (''/h/'' @ chip @ ''/device/path'', Inr ''SB.PSU0''), (''/h/'' @ chip @ ''/power1_label'', Inr ''pin''),
          (''/h/'' @ chip @ ''/power1_input'', Inr ''250000'')] p),
      sys_canonicalize = (\<lambda>_. Inl NotFound), sys_exists = (\<lambda>_. False)\<rparr>"

lemma tiny_same_chip: "same_chip (tiny_sysfs ''hwmon0'') ''/h/hwmon0'' (tiny_sysfs ''hwmon3'') ''/h/hwmon3''"
  by (auto simp: same_chip_def tiny_sysfs_def answered_def)

lemma tiny_names: "sys_read_dir (tiny_sysfs ''hwmon0'') ''/h'' = Inr [''hwmon0'']"
    "sys_read_dir (tiny_sysfs ''hwmon3'') ''/h'' = Inr [''hwmon3'']"
  by (simp_all add: tiny_sysfs_def answered_def)

lemma hr_sensor_reading_of [simp]: "hr_sensor (reading_of fs dir prefix sensor b) = sensor"
  by (simp add: reading_of_def Let_def split: sum.splits)

lemma tiny_channel: "channel ''name'' = None" "channel ''power1_label'' = None" "channel ''power1_input'' = Some 1"
  by (simp_all add: channel_def parse_uint_def u32_max_def decimal_value_def digit_value_def byte_of_def is_ascii_digit_def)

lemma tiny_channels: "channels_of [''name'', ''power1_input'', ''power1_label''] = [1]"
  by (simp add: channels_of_def from_utf8_lossy_valid valid_utf8_ascii byte_of_def List.map_filter_def tiny_channel)

lemma tiny_texts:
  "trim ''pfe1100'' = ''pfe1100''" "trim ''SB.PSU0'' = ''SB.PSU0''" "trim ''pin'' = ''pin''"
  "dec (Suc 0) = ''1''"
  "boundary_of ''pfe1100'' (Some ''pin'') = Some SupplyInput"
  "max_sensor_chars < char_count ''pfe1100/acpi:SB.PSU0/power1'' = False"
  "''pfe1100'' \<in> set supply_names"
  by code_simp+

lemma tiny_chip: "map_ok (map hr_sensor) (chip_readings (tiny_sysfs ''hwmon0'') ''/h/hwmon0'')
    = Inr [''pfe1100/acpi:SB.PSU0/power1'']"
proof -
  let ?fs = "tiny_sysfs ''hwmon0''" and ?c = "''/h/hwmon0''"
  have "attributes ?fs ?c = Inr (Some (?c, ''pfe1100''))"
    by (simp add: attributes_def path_join_def read_trimmed_def optional_def tiny_sysfs_def answered_def tiny_texts)
  moreover have "firmware_node ?fs ?c = Inr (Some ''acpi:SB.PSU0'')"
    by (simp add: firmware_node_def acpi_path_def path_join_def read_trimmed_def optional_def tiny_sysfs_def
        answered_def tiny_texts)
  moreover have "sys_read_dir ?fs ?c = Inr [''name'', ''power1_input'', ''power1_label'']"
    by (simp add: tiny_sysfs_def answered_def)
  moreover have "optional (read_trimmed ?fs ''/h/hwmon0/power1_label'') = Inr (Some ''pin'')"
    by (simp add: read_trimmed_def optional_def tiny_sysfs_def answered_def tiny_texts)
  ultimately show ?thesis by (simp add: chip_readings_def tiny_texts tiny_channels path_join_def Let_def)
qed


end
