(* ===== verification/Telemetry.thy ===== *)
theory Telemetry
  imports Hwmon Report_Types Ordered_Map Loops
begin

text \<open>
  Telemetry batches (\<open>payload.rs\<close>), the status of the host's power sources, and the module that
  samples the host's own sensors (\<open>power/mod.rs\<close>). The sources are shared behind a lock; one
  module's run is modelled with the map to itself. Fresh identifiers, clocks, serde\_json's
  encoding and the sink that queues a batch are operations of an environment.
\<close>

section \<open>Batches\<close>

definition max_telemetry_bytes :: nat where "max_telemetry_bytes = 512000"

record telemetry_collector =
  tc_id :: string
  tc_kind :: string

record sample_component =
  cmp_kind :: string
  cmp_name :: string

record sample_window =
  win_start :: system_time
  win_end :: system_time

record sample_mapping =
  sm_name :: string
  sm_version :: nat

record telemetry_sample =
  tm_target :: "string option"
  tm_sensor :: string
  tm_boundary :: string
  tm_quantity :: string
  tm_unit :: "string option"
  tm_component :: "sample_component option"
  tm_leg :: "string option"
  tm_coverage :: "string option"
  tm_status :: string
  tm_origin :: string
  tm_value :: "f64 option"
  tm_state :: "string option"
  tm_window :: sample_window
  tm_event_at :: system_time
  tm_mapping :: sample_mapping
  tm_fresh_for_seconds :: nat

record telemetry_batch =
  bt_version :: nat
  bt_replay_id :: string
  bt_collector :: "telemetry_collector option"
  bt_samples :: "telemetry_sample list"

definition batch_host :: "string \<Rightarrow> telemetry_sample list \<Rightarrow> telemetry_batch" where
  \<comment> \<open>\<open>Uuid::new_v4()\<close> is the first argument\<close>
  "batch_host i samples = \<lparr>bt_version = 1, bt_replay_id = i, bt_collector = None, bt_samples = samples\<rparr>"

fun collector_kind_as_str :: "collector_kind \<Rightarrow> string" where
  "collector_kind_as_str BmcPower = ''bmc_power''"
| "collector_kind_as_str PowerPoller = ''power_poller''"
| "collector_kind_as_str SwitchPoller = ''switch_poller''"
| "collector_kind_as_str VmProvider = ''vm_provider''"

definition batch_collector :: "string \<Rightarrow> string \<Rightarrow> collector_kind \<Rightarrow> telemetry_sample list \<Rightarrow> telemetry_batch" where
  "batch_collector i collector_id kind samples =
     (batch_host i samples)\<lparr>bt_collector := Some \<lparr>tc_id = collector_id, tc_kind = collector_kind_as_str kind\<rparr>\<rparr>"

section \<open>Power sources\<close>

type_synonym power_sources = "(string, string) btree"

definition source_status_of :: "power_sources \<Rightarrow> string \<Rightarrow> string option" where
  "source_status_of sources source = map_of sources source"

definition hwmon_status :: "power_sources \<Rightarrow> string option" where
  "hwmon_status sources = source_status_of sources hwmon_mapping"

definition source_reports :: "power_sources \<Rightarrow> (string \<times> string) list option" where
  \<comment> \<open>a \<open>PowerSourceReport\<close> is its source and its status\<close>
  "source_reports sources = (if sources \<noteq> [] then Some sources else None)"

definition publish_source :: "string \<Rightarrow> string \<Rightarrow> power_sources \<Rightarrow> power_sources" where
  "publish_source source status sources = btree_insert source status sources"

definition retain_source :: "(string \<Rightarrow> bool) \<Rightarrow> power_sources \<Rightarrow> power_sources" where
  "retain_source keep sources = filter (\<lambda>(source, _). keep source) sources"

section \<open>The host's sensors\<close>

definition sample_interval :: duration where "sample_interval = secs 60"
definition host_fresh_for_seconds :: nat where "host_fresh_for_seconds = 300"
definition host_wait_slice :: duration where "host_wait_slice = millis 250"

record 'w telemetry_env =
  te_uuid :: "'w \<Rightarrow> string \<times> 'w"
  te_to_vec :: "telemetry_batch \<Rightarrow> bytes option"
  te_sink :: "string \<Rightarrow> bytes \<Rightarrow> 'w \<Rightarrow> 'w"
  te_checked_sub :: "system_time \<Rightarrow> duration \<Rightarrow> system_time option"
  te_stopped :: "'w \<Rightarrow> bool \<times> 'w"
  te_now :: "'w \<Rightarrow> instant \<times> 'w"
  te_utc_now :: "'w \<Rightarrow> system_time \<times> 'w"
  te_sleep :: "duration \<Rightarrow> 'w \<Rightarrow> 'w"
  te_sysfs :: "'w \<Rightarrow> sysfs \<times> 'w"
    \<comment> \<open>what the kernel shows during one scan\<close>

definition host_sample :: "'w telemetry_env \<Rightarrow> hwmon_reading \<Rightarrow> system_time \<Rightarrow> telemetry_sample" where
  "host_sample env r now =
     (let start = (case te_checked_sub env now (hr_window r) of None \<Rightarrow> now | Some t \<Rightarrow> t);
          (status, v) = (case hr_watts r of Inr watts \<Rightarrow> (''valid'', Some watts) | Inl _ \<Rightarrow> (''failed'', None))
      in \<lparr>tm_target = None, tm_sensor = hr_sensor r, tm_boundary = boundary_as_str (hr_boundary r),
          tm_quantity = ''real_power'', tm_unit = Some ''W'', tm_component = None, tm_leg = None, tm_coverage = None,
          tm_status = status, tm_origin = ''native'', tm_value = v, tm_state = None,
          tm_window = \<lparr>win_start = start, win_end = now\<rparr>, tm_event_at = now,
          tm_mapping = \<lparr>sm_name = hwmon_mapping, sm_version = hwmon_mapping_version\<rparr>,
          tm_fresh_for_seconds = host_fresh_for_seconds\<rparr>)"

definition host_batch :: "'w telemetry_env \<Rightarrow> hwmon_reading list \<Rightarrow> system_time \<Rightarrow> 'w \<Rightarrow> telemetry_batch \<times> 'w" where
  "host_batch env rs now w =
     (case te_uuid env w of (i, w) \<Rightarrow> (batch_host i (map (\<lambda>r. host_sample env r now) rs), w))"

definition queue_batch :: "'w telemetry_env \<Rightarrow> telemetry_batch \<Rightarrow> 'w \<Rightarrow> 'w" where
  \<comment> \<open>a batch that does not encode, or is too large, is logged and dropped\<close>
  "queue_batch env b w =
     (case te_to_vec env b of
        Some body \<Rightarrow> if length body \<le> max_telemetry_bytes then te_sink env (bt_replay_id b) body w else w
      | None \<Rightarrow> w)"

definition hwmon_root :: string where "hwmon_root = ''/sys/class/hwmon''"

definition sample_host :: "'w telemetry_env \<Rightarrow> system_time \<Rightarrow> power_sources \<Rightarrow> 'w \<Rightarrow> power_sources \<times> 'w" where
  "sample_host env now sources w =
     (case te_sysfs env w of (fs, w) \<Rightarrow>
      let found = hwmon_scan fs hwmon_root;
          sources = publish_source hwmon_mapping (availability_as_str (sc_availability found)) sources
      in if sc_readings found = [] then (sources, w)
         else (case host_batch env (sc_readings found) now w of (b, w) \<Rightarrow> (sources, queue_batch env b w)))"

definition wait_step :: "'w telemetry_env \<Rightarrow> instant \<Rightarrow> duration \<Rightarrow> unit \<Rightarrow> 'w \<Rightarrow> (unit option \<times> unit \<times> 'w) option" where
  \<comment> \<open>\<open>while !stop.cancelled() && started.elapsed() < interval\<close>\<close>
  "wait_step env started interval u w =
     (case te_stopped env w of (stop, w) \<Rightarrow>
      if stop then Some (Some (), (), w)
      else (case te_now env w of (now, w) \<Rightarrow>
        if now - started < interval then Some (None, (), te_sleep env host_wait_slice w) else Some (Some (), (), w)))"

definition power_step ::
  "'w telemetry_env \<Rightarrow> power_sources \<Rightarrow> 'w \<Rightarrow> (unit option \<times> power_sources \<times> 'w) option" where
  "power_step env sources w =
     (case te_stopped env w of (stop, w) \<Rightarrow>
      if stop then Some (Some (), sources, w)
      else (case te_now env w of (started, w) \<Rightarrow>
        case te_utc_now env w of (now, w) \<Rightarrow>
        case sample_host env now sources w of (sources, w) \<Rightarrow>
        map_option (\<lambda>(_, _, w). (None, sources, w)) (until_done (wait_step env started sample_interval) () w)))"

definition power_run :: "'w telemetry_env \<Rightarrow> power_sources \<Rightarrow> 'w \<Rightarrow> (power_sources \<times> 'w) option" where
  "power_run env sources w = map_option snd (until_done (power_step env) sources w)"

end
