(* ===== verification/Power_Collector.thy ===== *)
theory Power_Collector
  imports Telemetry Disk_Queue Switch_Report
begin

text \<open>
  What the PDU poller and the BMC collector share (\<open>power/collector.rs\<close>): turning one poll of the
  targets into telemetry batches and inventory reports, remembering what each target last served,
  and the loop around a poll.
\<close>

section \<open>Readings, devices and outcomes\<close>

definition inventory_interval :: duration where "inventory_interval = secs 900"
definition targets_per_report :: nat where "targets_per_report = 100"
definition samples_per_batch :: nat where "samples_per_batch = 1000"
definition max_fresh_for_seconds :: nat where "max_fresh_for_seconds = 86400"

datatype measurement = MValue f64 | MState string | MFailed

record power_reading =
  pr_sensor :: string
  pr_boundary :: string
  pr_quantity :: string
  pr_component :: "(string \<times> string) option"
  pr_leg :: "string option"
  pr_measurement :: measurement

definition reading_unit :: "power_reading \<Rightarrow> string option" where
  "reading_unit r =
     (if pr_quantity r = ''real_power'' then Some ''W''
      else if pr_quantity r = ''apparent_power'' then Some ''VA''
      else if pr_quantity r = ''current'' then Some ''A''
      else if pr_quantity r = ''power_factor'' then Some ''1''
      else None)"

definition reading_coverage :: "power_reading \<Rightarrow> string option" where
  "reading_coverage r = (if pr_boundary r = ''feed'' then Some ''complete'' else None)"

record device =
  dv_mapping :: string
  dv_mapping_version :: nat
  dv_resource :: collector_resource
  dv_readings :: "power_reading list"

datatype target_error = TargetUnreachable string | TargetNotPermitted string | TargetUnsupported string

fun target_error_message :: "target_error \<Rightarrow> string" where
  "target_error_message (TargetUnreachable m) = m"
| "target_error_message (TargetNotPermitted m) = m"
| "target_error_message (TargetUnsupported m) = m"

record poll_outcome =
  oc_address :: string
  oc_read_at :: system_time
  oc_result :: "target_error + device"

definition source_status :: "poll_outcome list \<Rightarrow> string" where
  "source_status os =
     (let any = (\<lambda>P. list_ex (\<lambda>o'. P (oc_result o')) os) in
      if any (\<lambda>r. \<not> isl r) then ''available''
      else if any (\<lambda>r. case r of Inl (TargetNotPermitted _) \<Rightarrow> True | _ \<Rightarrow> False) then ''not_permitted''
      else if any (\<lambda>r. case r of Inl (TargetUnsupported _) \<Rightarrow> True | _ \<Rightarrow> False) then ''not_present''
      else ''unreachable'')"

record collector =
  cl_id :: string
  cl_kind :: collector_kind

definition collector_source :: "collector_kind \<Rightarrow> string \<Rightarrow> string" where
  "collector_source kind collector_id = collector_kind_as_str kind @ ''/'' @ collector_id"

section \<open>Inventory reports\<close>

function chunks :: "nat \<Rightarrow> 'a list \<Rightarrow> 'a list list" where
  "chunks n xs = (if n = 0 \<or> xs = [] then [] else take n xs # chunks n (drop n xs))"
  by pat_completeness auto
termination
  by (relation "measure (\<lambda>(_, xs). length xs)") auto

declare chunks.simps [simp del]

definition device_status :: "poll_outcome \<Rightarrow> target_status" where
  "device_status o' =
     (case oc_result o' of
        Inr _ \<Rightarrow> \<lparr>ts_address = oc_address o', ts_status = Reachable, ts_error = None\<rparr>
      | Inl e \<Rightarrow> \<lparr>ts_address = oc_address o', ts_status = Unreachable,
                   ts_error = Some (take_chars max_string_chars (target_error_message e))\<rparr>)"

definition device_resources :: "poll_outcome list \<Rightarrow> collector_resource list" where
  "device_resources os =
     List.map_filter (\<lambda>o'. case oc_result o' of
        Inl _ \<Rightarrow> None | Inr d \<Rightarrow> Some ((dv_resource d)\<lparr>cr_target := Some (oc_address o')\<rparr>)) os"

definition device_report ::
  "'w report_env \<Rightarrow> collector \<Rightarrow> poll_outcome list \<Rightarrow> 'w \<Rightarrow> (string \<times> bytes) option \<times> 'w" where
  \<comment> \<open>one chunk's report; one that does not encode, or is too large, is left out\<close>
  "device_report renv c chunk w =
     (case e_fresh renv w of ((i, now), w) \<Rightarrow>
      (case e_to_vec renv (scoped_report_new i now (cl_id c) (cl_kind c) (map device_status chunk) True
              (device_resources chunk)) of
         None \<Rightarrow> None
       | Some body \<Rightarrow> if length body \<le> max_observation_bytes then Some (i, body) else None, w))"

fun device_reports_of ::
  "'w report_env \<Rightarrow> collector \<Rightarrow> poll_outcome list list \<Rightarrow> 'w \<Rightarrow> (string \<times> bytes) list \<times> 'w" where
  "device_reports_of renv c [] w = ([], w)"
| "device_reports_of renv c (chunk # rest) w =
     (case device_report renv c chunk w of (r, w) \<Rightarrow>
      case device_reports_of renv c rest w of (rs, w) \<Rightarrow> (case_option rs (\<lambda>r. r # rs) r, w))"

definition device_reports ::
  "'w report_env \<Rightarrow> collector \<Rightarrow> poll_outcome list \<Rightarrow> 'w \<Rightarrow> (string \<times> bytes) list \<times> 'w" where
  "device_reports renv c os w = device_reports_of renv c (chunks targets_per_report os) w"

section \<open>Telemetry batches\<close>

type_synonym known = "(string, string \<times> nat \<times> power_reading list) btree"

definition collector_sample ::
  "string \<Rightarrow> power_reading \<Rightarrow> sample_mapping \<Rightarrow> bool \<Rightarrow> system_time \<Rightarrow> nat \<Rightarrow> telemetry_sample" where
  "collector_sample tgt r mapping failed read_at fresh_for =
     (let (status, v, state) =
        (if failed then (''failed'', None, None)
         else (case pr_measurement r of
                 MValue x \<Rightarrow> if is_finite x then (''valid'', Some x, None) else (''failed'', None, None)
               | MState s \<Rightarrow> (''valid'', None, Some s)
               | MFailed \<Rightarrow> (''failed'', None, None)))
      in \<lparr>tm_target = Some tgt, tm_sensor = pr_sensor r, tm_boundary = pr_boundary r, tm_quantity = pr_quantity r,
          tm_unit = reading_unit r,
          tm_component = map_option (\<lambda>(kind, name). \<lparr>cmp_kind = kind, cmp_name = name\<rparr>) (pr_component r),
          tm_leg = pr_leg r, tm_coverage = reading_coverage r, tm_status = status, tm_origin = ''native'',
          tm_value = v, tm_state = state, tm_window = \<lparr>win_start = read_at, win_end = read_at\<rparr>,
          tm_event_at = read_at, tm_mapping = mapping, tm_fresh_for_seconds = fresh_for\<rparr>)"

definition outcome_samples :: "nat \<Rightarrow> poll_outcome \<Rightarrow> known \<Rightarrow> telemetry_sample list \<times> known" where
  \<comment> \<open>one turn of the loop over the outcomes\<close>
  "outcome_samples fresh_for o' known =
     (let address = oc_address o';
          samples = (\<lambda>mapping version rs failed.
            map (\<lambda>r. collector_sample address r \<lparr>sm_name = mapping, sm_version = version\<rparr> failed (oc_read_at o') fresh_for) rs)
      in case oc_result o' of
           Inr d \<Rightarrow>
             (samples (dv_mapping d) (dv_mapping_version d) (dv_readings d) False,
              btree_insert address (dv_mapping d, dv_mapping_version d, dv_readings d) known)
         | Inl _ \<Rightarrow>
             (case map_of known address of
                Some (mapping, version, rs) \<Rightarrow> (samples mapping version rs True, known)
              | None \<Rightarrow> ([], known)))"

fun poll_samples :: "nat \<Rightarrow> poll_outcome list \<Rightarrow> known \<Rightarrow> telemetry_sample list \<times> known" where
  "poll_samples fresh_for [] known = ([], known)"
| "poll_samples fresh_for (o' # os) known =
     (case outcome_samples fresh_for o' known of (ss, known) \<Rightarrow>
      case poll_samples fresh_for os known of (rest, known) \<Rightarrow> (ss @ rest, known))"

definition retain_known :: "poll_outcome list \<Rightarrow> known \<Rightarrow> known" where
  "retain_known os known = filter (\<lambda>(address, _). list_ex (\<lambda>o'. oc_address o' = address) os) known"

function split_batches ::
  "'w telemetry_env \<Rightarrow> collector \<Rightarrow> telemetry_sample list list \<Rightarrow> 'w \<Rightarrow> telemetry_batch list \<times> 'w" where
  \<comment> \<open>the stack of chunks still to send, its top first; a chunk is never empty\<close>
  "split_batches env c [] w = ([], w)"
| "split_batches env c (chunk # pending) w =
     (case te_uuid env w of (i, w) \<Rightarrow>
      let b = batch_collector i (cl_id c) (cl_kind c) chunk in
      if (case te_to_vec env b of Some body \<Rightarrow> length body \<le> max_telemetry_bytes | None \<Rightarrow> False)
      then (case split_batches env c pending w of (bs, w) \<Rightarrow> (b # bs, w))
      else if length chunk \<le> 1 then split_batches env c pending w
      else split_batches env c (take (length chunk div 2) chunk # drop (length chunk div 2) chunk # pending) w)"
  by pat_completeness auto
termination
  by (relation "measure (\<lambda>(_, _, cs, _). sum_list (map batch_weight cs))")
    (use batch_weight_split in \<open>auto simp: not_le\<close>)

definition batches ::
  "'w telemetry_env \<Rightarrow> collector \<Rightarrow> poll_outcome list \<Rightarrow> nat \<Rightarrow> known \<Rightarrow> 'w \<Rightarrow> telemetry_batch list \<times> known \<times> 'w" where
  "batches env c os fresh_for known w =
     (case poll_samples fresh_for os (retain_known os known) of (samples, known) \<Rightarrow>
      case split_batches env c (chunks samples_per_batch samples) w of (bs, w) \<Rightarrow> (bs, known, w))"

definition fresh_for_seconds :: "duration \<Rightarrow> nat" where
  "fresh_for_seconds interval =
     (let s = min u64_max (min u64_max (as_secs interval * 3) + as_secs flush_interval);
          s = max host_fresh_for_seconds (min max_fresh_for_seconds s)
      in if s \<le> u32_max then s else u32_max)"

section \<open>The loop\<close>

type_synonym shown = "(string \<times> string option) list"

definition shown_by :: "(collector_resource \<Rightarrow> string option) \<Rightarrow> poll_outcome list \<Rightarrow> shown" where
  "shown_by to_string os =
     map (\<lambda>o'. (oc_address o', case oc_result o' of Inl _ \<Rightarrow> None | Inr d \<Rightarrow> to_string (dv_resource d))) os"

definition retain_sources :: "collector_kind \<Rightarrow> string list \<Rightarrow> power_sources \<Rightarrow> power_sources" where
  "retain_sources kind collector_ids sources =
     retain_source (\<lambda>name. \<not> starts_with (collector_kind_as_str kind @ ''/'') name
        \<or> name \<in> set (map (collector_source kind) collector_ids)) sources"

record 'w collector_env =
  ce_telemetry :: "'w telemetry_env"
  ce_reports :: "'w report_env"
  ce_resource_json :: "collector_resource \<Rightarrow> string option"
  ce_poll :: "'w \<Rightarrow> poll_outcome list \<times> 'w"
  ce_observations :: "string \<Rightarrow> bytes \<Rightarrow> 'w \<Rightarrow> 'w"

record polling =
  pl_known :: known
  pl_reported :: "(instant \<times> shown) option"
  pl_sources :: power_sources

definition send_telemetry :: "'w telemetry_env \<Rightarrow> telemetry_batch \<Rightarrow> 'w \<Rightarrow> 'w" where
  "send_telemetry env b w = (case te_to_vec env b of Some body \<Rightarrow> te_sink env (bt_replay_id b) body w | None \<Rightarrow> w)"

definition report_due :: "'w collector_env \<Rightarrow> shown \<Rightarrow> (instant \<times> shown) option \<Rightarrow> 'w \<Rightarrow> bool \<times> 'w" where
  "report_due env now_shown reported w =
     (case reported of
        None \<Rightarrow> (True, w)
      | Some (since, before) \<Rightarrow>
          if before \<noteq> now_shown then (True, w)
          else (case te_now (ce_telemetry env) w of (now, w) \<Rightarrow> (inventory_interval \<le> now - since, w)))"

definition note_poll ::
  "'w collector_env \<Rightarrow> collector \<Rightarrow> nat \<Rightarrow> poll_outcome list \<Rightarrow> polling \<Rightarrow> 'w \<Rightarrow> polling \<times> 'w" where
  \<comment> \<open>everything one turn does with the poll's outcomes\<close>
  "note_poll env c fresh_for os p w =
     (let tenv = ce_telemetry env;
          sources = publish_source (collector_source (cl_kind c) (cl_id c)) (source_status os) (pl_sources p) in
      case batches tenv c os fresh_for (pl_known p) w of (bs, known, w) \<Rightarrow>
      let w = fold (send_telemetry tenv) bs w; now_shown = shown_by (ce_resource_json env) os in
      case report_due env now_shown (pl_reported p) w of (overdue, w) \<Rightarrow>
      if overdue
      then (case device_reports (ce_reports env) c os w of (rs, w) \<Rightarrow>
        let w = fold (\<lambda>(i, body). ce_observations env i body) rs w in
        case te_now tenv w of (now, w) \<Rightarrow>
        (\<lparr>pl_known = known, pl_reported = Some (now, now_shown), pl_sources = sources\<rparr>, w))
      else (\<lparr>pl_known = known, pl_reported = pl_reported p, pl_sources = sources\<rparr>, w))"

definition until_next_step :: "'w telemetry_env \<Rightarrow> instant \<Rightarrow> unit \<Rightarrow> 'w \<Rightarrow> (unit option \<times> unit \<times> 'w) option" where
  "until_next_step env next_poll u w =
     (case te_stopped env w of (stop, w) \<Rightarrow>
      if stop then Some (Some (), (), w)
      else (case te_now env w of (now, w) \<Rightarrow>
        if next_poll \<le> now then Some (Some (), (), w)
        else (case te_now env w of (now, w) \<Rightarrow>
          Some (None, (), te_sleep env (min host_wait_slice (next_poll - now)) w))))"

definition collector_step ::
  "'w collector_env \<Rightarrow> collector \<Rightarrow> duration \<Rightarrow> polling \<Rightarrow> 'w \<Rightarrow> (module_end option \<times> polling \<times> 'w) option" where
  "collector_step env c interval p w =
     (let tenv = ce_telemetry env in
      case te_stopped tenv w of (stop, w) \<Rightarrow>
      if stop then Some (Some Stopped, p, w)
      else (case te_now tenv w of (started, w) \<Rightarrow>
        case ce_poll env w of (os, w) \<Rightarrow>
        case te_stopped tenv w of (stop, w) \<Rightarrow>
        if stop then Some (Some Stopped, p, w)
        else (case note_poll env c (fresh_for_seconds interval) os p w of (p, w) \<Rightarrow>
          (case instant_add started interval of
             None \<Rightarrow> Some (Some Panicked, p, w)
           | Some next_poll \<Rightarrow>
               map_option (\<lambda>(_, _, w). (None, p, w)) (until_done (until_next_step tenv next_poll) () w)))))"

definition collector_run ::
  "'w collector_env \<Rightarrow> collector \<Rightarrow> duration \<Rightarrow> power_sources \<Rightarrow> 'w \<Rightarrow> (module_end \<times> polling \<times> 'w) option" where
  "collector_run env c interval sources w =
     until_done (collector_step env c interval) \<lparr>pl_known = [], pl_reported = None, pl_sources = sources\<rparr> w"

end
