(* ===== verification/Collector_Correct.thy ===== *)
theory Collector_Correct
  imports Power_Collector
begin

text \<open>
  A poll's samples reach the queue whole, in order and in batches the server accepts; and a
  target that stops answering reports as failed exactly the series it last served.
\<close>

section \<open>Splitting\<close>

definition fits_batch :: "'w telemetry_env \<Rightarrow> collector \<Rightarrow> string \<Rightarrow> telemetry_sample list \<Rightarrow> bool" where
  "fits_batch env c i samples =
     (case te_to_vec env (batch_collector i (cl_id c) (cl_kind c) samples) of
        Some body \<Rightarrow> length body \<le> max_telemetry_bytes | None \<Rightarrow> False)"

definition sendable :: "'w telemetry_env \<Rightarrow> collector \<Rightarrow> telemetry_sample \<Rightarrow> bool" where
  "sendable env c s = fits_batch env c (replicate 36 CHR ''0'') [s]"

definition batch_ok :: "'w telemetry_env \<Rightarrow> collector \<Rightarrow> telemetry_batch \<Rightarrow> bool" where
  "batch_ok env c b = (fits_batch env c (bt_replay_id b) (bt_samples b) \<and> bt_samples b \<noteq> []
     \<and> length (bt_samples b) \<le> samples_per_batch \<and> b = batch_collector (bt_replay_id b) (cl_id c) (cl_kind c) (bt_samples b))"

declare split_batches.simps(2) [simp del]

lemma split_batches_step:
  "split_batches env c (chunk # pending) w =
     (case te_uuid env w of (i, w) \<Rightarrow>
      if fits_batch env c i chunk
      then (case split_batches env c pending w of (bs, w) \<Rightarrow> (batch_collector i (cl_id c) (cl_kind c) chunk # bs, w))
      else if length chunk \<le> 1 then split_batches env c pending w
      else split_batches env c (take (length chunk div 2) chunk # drop (length chunk div 2) chunk # pending) w)"
  by (simp add: split_batches.simps(2) fits_batch_def Let_def)

lemma batch_collector_parts [simp]:
  "bt_replay_id (batch_collector i a k ss) = i" "bt_samples (batch_collector i a k ss) = ss"
  by (simp_all add: batch_collector_def batch_host_def)

lemma concat_chunks: "0 < n \<Longrightarrow> concat (chunks n xs) = xs"
proof (induction n xs rule: chunks.induct)
  case (1 n xs)
  show ?case
  proof (cases "xs = []")
    case True thus ?thesis by (subst chunks.simps) simp
  next
    case False
    hence "concat (chunks n (drop n xs)) = drop n xs" using 1 by simp
    thus ?thesis using False 1(2) by (simp add: chunks.simps[of n xs])
  qed
qed

lemma chunks_small: "ys \<in> set (chunks n xs) \<Longrightarrow> ys \<noteq> [] \<and> length ys \<le> n"
proof (induction n xs rule: chunks.induct)
  case (1 n xs)
  show ?case
  proof (cases "n = 0 \<or> xs = []")
    case True thus ?thesis using 1(2) by (simp add: chunks.simps[of n xs])
  next
    case False
    hence "ys = take n xs \<or> ys \<in> set (chunks n (drop n xs))" using 1(2) by (simp add: chunks.simps[of n xs])
    thus ?thesis using 1(1) False by auto
  qed
qed

definition size_laws :: "'w telemetry_env \<Rightarrow> collector \<Rightarrow> bool" where
  \<comment> \<open>the encoding's length does not depend on which identifier a batch has, and a part of a batch
    that fits fits too\<close>
  "size_laws env c = ((\<forall>i j ss. fits_batch env c i ss = fits_batch env c j ss)
     \<and> (\<forall>i ss ts. fits_batch env c i (ss @ ts) \<longrightarrow> fits_batch env c i ss \<and> fits_batch env c i ts))"

lemma fitting_are_sendable:
  assumes "size_laws env c" "fits_batch env c i ss" "s \<in> set ss"
  shows "sendable env c s"
proof -
  obtain as bs where ss: "ss = as @ [s] @ bs" using split_list[OF assms(3)] by auto
  hence "fits_batch env c i [s]" using assms(1,2) unfolding size_laws_def by blast
  thus ?thesis using assms(1) unfolding size_laws_def sendable_def by blast
qed

lemma split_batches_whole:
  assumes "size_laws env c" "split_batches env c pending w = (bs, w')"
    "list_all (\<lambda>ch. ch \<noteq> [] \<and> length ch \<le> samples_per_batch) pending"
  shows "concat (map bt_samples bs) = filter (sendable env c) (concat pending) \<and> list_all (batch_ok env c) bs"
  using assms
proof (induction env c pending w arbitrary: bs rule: split_batches.induct)
  case (2 env c chunk pending w)
  obtain i w1 where u: "te_uuid env w = (i, w1)" by fastforce
  let ?b = "batch_collector i (cl_id c) (cl_kind c) chunk" and ?n = "length chunk div 2"
  show ?case
  proof (cases "fits_batch env c i chunk")
    case True
    obtain bs' where bs: "split_batches env c pending w1 = (bs', w')" "bs = ?b # bs'"
      using "2.prems"(2) u True by (auto simp: split_batches_step split: prod.splits)
    have "filter (sendable env c) chunk = chunk"
      using fitting_are_sendable[OF "2.prems"(1) True] by (simp add: filter_id_conv)
    moreover have "batch_ok env c ?b" using True "2.prems"(3) by (simp add: batch_ok_def)
    ultimately show ?thesis
      using "2.IH"(1)[OF u[symmetric] refl _ "2.prems"(1) bs(1)] bs(2) "2.prems"(3) True u by (simp add: fits_batch_def)
  next
    case False
    show ?thesis
    proof (cases "length chunk \<le> 1")
      case True
      then obtain s where s: "chunk = [s]" using "2.prems"(3) by (cases chunk) auto
      have "\<not> sendable env c s" using False s "2.prems"(1) unfolding size_laws_def sendable_def by blast
      moreover have "split_batches env c pending w1 = (bs, w')"
        using "2.prems"(2) u False True by (simp add: split_batches_step)
      ultimately show ?thesis using "2.IH"(2)[OF u[symmetric] refl _ True "2.prems"(1)] False s "2.prems"(3)
        by (simp add: fits_batch_def)
    next
      case large: False
      have "split_batches env c (take ?n chunk # drop ?n chunk # pending) w1 = (bs, w')"
        using "2.prems"(2) u False large by (simp add: split_batches_step)
      moreover have "list_all (\<lambda>ch. ch \<noteq> [] \<and> length ch \<le> samples_per_batch) (take ?n chunk # drop ?n chunk # pending)"
        using large "2.prems"(3) by auto
      ultimately have "concat (map bt_samples bs) = filter (sendable env c) (concat (take ?n chunk # drop ?n chunk # pending))
          \<and> list_all (batch_ok env c) bs"
        using "2.IH"(3)[OF u[symmetric] refl _ large "2.prems"(1)] False by (simp add: fits_batch_def)
      moreover have "concat (take ?n chunk # drop ?n chunk # pending) = concat (chunk # pending)"
        by (metis append.assoc append_take_drop_id concat.simps(2))
      ultimately show ?thesis by (simp only:)
    qed
  qed
qed simp

lemma batches_whole:
  assumes "size_laws env c" "batches env c os fresh_for known w = (bs, known', w')"
  shows "concat (map bt_samples bs) = filter (sendable env c) (fst (poll_samples fresh_for os (retain_known os known)))
    \<and> list_all (batch_ok env c) bs \<and> known' = snd (poll_samples fresh_for os (retain_known os known))"
proof -
  obtain ss k where p: "poll_samples fresh_for os (retain_known os known) = (ss, k)" by fastforce
  have "split_batches env c (chunks samples_per_batch ss) w = (bs, w')" "known' = k"
    using assms(2) p by (auto simp: batches_def split: prod.splits)
  moreover have "list_all (\<lambda>ch. ch \<noteq> [] \<and> length ch \<le> samples_per_batch) (chunks samples_per_batch ss)"
    using chunks_small by (auto simp: list_all_iff)
  ultimately show ?thesis
    using split_batches_whole[OF assms(1)] p concat_chunks[of samples_per_batch ss] by (auto simp: samples_per_batch_def)
qed

section \<open>What a target last served\<close>

definition served :: "device \<Rightarrow> string \<times> nat \<times> power_reading list" where
  "served d = (dv_mapping d, dv_mapping_version d, dv_readings d)"

definition outcome_for :: "poll_outcome list \<Rightarrow> string \<Rightarrow> poll_outcome option" where
  "outcome_for os a = find (\<lambda>o'. oc_address o' = a) os"

fun last_served :: "poll_outcome list list \<Rightarrow> string \<Rightarrow> (string \<times> nat \<times> power_reading list) option" where
  \<comment> \<open>the polls, newest first, back to the one before the target was configured\<close>
  "last_served [] a = None"
| "last_served (os # older) a =
     (case outcome_for os a of
        None \<Rightarrow> None
      | Some o' \<Rightarrow> (case oc_result o' of Inr d \<Rightarrow> Some (served d) | Inl _ \<Rightarrow> last_served older a))"

fun known_after :: "nat \<Rightarrow> poll_outcome list list \<Rightarrow> known" where
  "known_after fresh_for [] = []"
| "known_after fresh_for (os # older) = snd (poll_samples fresh_for os (retain_known os (known_after fresh_for older)))"

definition polls_ok :: "poll_outcome list list \<Rightarrow> bool" where
  "polls_ok polls = list_all (\<lambda>os. distinct (map oc_address os)) polls"

lemma ordered_outcome_samples: "ordered k \<Longrightarrow> ordered (snd (outcome_samples fresh_for o' k))"
  by (simp add: outcome_samples_def Let_def split: sum.split option.split prod.split)

lemma ordered_poll_samples: "ordered k \<Longrightarrow> ordered (snd (poll_samples fresh_for os k))"
proof (induction os arbitrary: k)
  case (Cons o' os)
  obtain ss k1 where s: "outcome_samples fresh_for o' k = (ss, k1)" by fastforce
  obtain rest k2 where r: "poll_samples fresh_for os k1 = (rest, k2)" by fastforce
  show ?case using ordered_outcome_samples[OF Cons.prems, of fresh_for o'] Cons.IH[of k1] s r by simp
qed simp

lemma ordered_retain: "ordered k \<Longrightarrow> ordered (retain_known os k)"
  by (simp add: retain_known_def ordered_filter)

lemma ordered_known_after: "ordered (known_after fresh_for polls)"
  by (induction polls) (simp_all add: ordered_poll_samples ordered_retain)

definition remembered :: "poll_outcome option \<Rightarrow> 'v option \<Rightarrow> (device \<Rightarrow> 'v) \<Rightarrow> 'v option" where
  "remembered o' before f = (case o' of Some o' \<Rightarrow> (case oc_result o' of Inr d \<Rightarrow> Some (f d) | Inl _ \<Rightarrow> before) | None \<Rightarrow> before)"

lemma outcome_samples_known:
  assumes "ordered k"
  shows "map_of (snd (outcome_samples fresh_for o' k)) a
    = (if a = oc_address o' then remembered (Some o') (map_of k a) served else map_of k a)"
  using assms by (auto simp: outcome_samples_def Let_def remembered_def served_def split: sum.split option.split)

lemma poll_samples_known:
  assumes "distinct (map oc_address os)" "ordered k"
  shows "map_of (snd (poll_samples fresh_for os k)) a = remembered (outcome_for os a) (map_of k a) served"
  using assms
proof (induction os arbitrary: k)
  case (Cons o' os)
  obtain ss k1 where s: "outcome_samples fresh_for o' k = (ss, k1)" by fastforce
  have k1: "ordered k1" "map_of k1 a = (if a = oc_address o' then remembered (Some o') (map_of k a) served else map_of k a)"
    using ordered_outcome_samples[OF Cons.prems(2), of fresh_for o'] outcome_samples_known[OF Cons.prems(2), of fresh_for o' a] s
    by simp_all
  have "outcome_for os a = None" if "a = oc_address o'"
    using Cons.prems(1) that by (auto simp: outcome_for_def find_None_iff dest: image_eqI[OF sym])
  thus ?case using Cons.IH[OF _ k1(1)] Cons.prems(1) s k1(2)
    by (auto simp: outcome_for_def remembered_def split: prod.splits)
qed (simp add: outcome_for_def remembered_def)

lemma map_of_retain: "map_of (retain_known os k) a = (if outcome_for os a = None then None else map_of k a)"
proof -
  have "(outcome_for os a = None) = (\<not> list_ex (\<lambda>o'. oc_address o' = a) os)"
    by (auto simp: outcome_for_def find_None_iff list_ex_iff)
  moreover have "map_of (filter (\<lambda>(x, _). P x) k) a = (if P a then map_of k a else None)" for P
    by (induction k) auto
  ultimately show ?thesis by (simp add: retain_known_def)
qed

text \<open>What the module knows after any polls is what each target still configured last served.\<close>

lemma known_after_last_served:
  "polls_ok polls \<Longrightarrow> map_of (known_after fresh_for polls) a = last_served polls a"
proof (induction polls)
  case (Cons os polls)
  hence "map_of (known_after fresh_for (os # polls)) a
      = remembered (outcome_for os a) (if outcome_for os a = None then None else last_served polls a) served"
    using poll_samples_known[of os "retain_known os (known_after fresh_for polls)"]
    by (simp add: polls_ok_def ordered_retain ordered_known_after map_of_retain)
  thus ?case by (auto simp: remembered_def split: option.split sum.split)
qed simp

section \<open>What a poll sends\<close>

definition target_samples ::
  "nat \<Rightarrow> poll_outcome \<Rightarrow> (string \<times> nat \<times> power_reading list) option \<Rightarrow> telemetry_sample list" where
  \<comment> \<open>a device's readings as they are, or what its target last served, failed\<close>
  "target_samples fresh_for o' before =
     (let samples = (\<lambda>(mapping, version, rs) failed.
        map (\<lambda>r. collector_sample (oc_address o') r \<lparr>sm_name = mapping, sm_version = version\<rparr> failed (oc_read_at o') fresh_for) rs)
      in case oc_result o' of
           Inr d \<Rightarrow> samples (served d) False
         | Inl _ \<Rightarrow> (case before of None \<Rightarrow> [] | Some was \<Rightarrow> samples was True))"

lemma outcome_samples_alt: "fst (outcome_samples fresh_for o' k) = target_samples fresh_for o' (map_of k (oc_address o'))"
  by (auto simp: outcome_samples_def target_samples_def served_def Let_def split: sum.split option.split)

lemma poll_samples_alt:
  assumes "distinct (map oc_address os)" "ordered k"
  shows "fst (poll_samples fresh_for os k) = concat (map (\<lambda>o'. target_samples fresh_for o' (map_of k (oc_address o'))) os)"
  using assms
proof (induction os arbitrary: k)
  case (Cons p os)
  obtain ss k1 where s: "outcome_samples fresh_for p k = (ss, k1)" by fastforce
  obtain rest k2 where r: "poll_samples fresh_for os k1 = (rest, k2)" by fastforce
  have k1: "ordered k1" using ordered_outcome_samples[OF Cons.prems(2), of fresh_for p] s by simp
  have "map_of k1 (oc_address q) = map_of k (oc_address q)" if "q \<in> set os" for q
    using outcome_samples_known[OF Cons.prems(2), of fresh_for p "oc_address q"] s that Cons.prems(1)
    by (auto dest: image_eqI[OF sym])
  hence "concat (map (\<lambda>o'. target_samples fresh_for o' (map_of k1 (oc_address o'))) os)
      = concat (map (\<lambda>o'. target_samples fresh_for o' (map_of k (oc_address o'))) os)"
    by (intro arg_cong[where f = concat] map_cong) simp_all
  thus ?case using Cons.IH[OF _ k1] Cons.prems(1) s r outcome_samples_alt[of fresh_for p k] by simp
qed simp

lemma failed_sample: "tm_status (collector_sample a r m True t f) = ''failed'' \<and> tm_value (collector_sample a r m True t f) = None
    \<and> tm_state (collector_sample a r m True t f) = None"
  by (simp add: collector_sample_def)

section \<open>Properties\<close>

text \<open>
  C15. After any polls, the next poll's batches hold, in order and each within the size the server
  accepts, every sample of the poll: a device's readings as read, and for a target that did not
  answer exactly the series it last served since it was configured, marked failed. Only a sample
  that is too large on its own is left out. The module then knows what each target last served.
\<close>

theorem poll_is_sent_whole:
  assumes "size_laws env c" and "polls_ok (os # polls)"
    and "batches env c os fresh_for (known_after fresh_for polls) w = (bs, known, w')"
  shows "concat (map bt_samples bs) = filter (sendable env c)
        (concat (map (\<lambda>o'. target_samples fresh_for o' (last_served polls (oc_address o'))) os))
    \<and> list_all (batch_ok env c) bs \<and> map_of known = last_served (os # polls)"
proof -
  let ?k = "known_after fresh_for polls"
  have d: "distinct (map oc_address os)" "polls_ok polls" using assms(2) by (simp_all add: polls_ok_def)
  have "map_of (retain_known os ?k) (oc_address o') = last_served polls (oc_address o')" if "o' \<in> set os" for o'
    using that known_after_last_served[OF d(2)] by (auto simp: map_of_retain outcome_for_def find_None_iff)
  hence "fst (poll_samples fresh_for os (retain_known os ?k))
      = concat (map (\<lambda>o'. target_samples fresh_for o' (last_served polls (oc_address o'))) os)"
    using poll_samples_alt[OF d(1) ordered_retain[OF ordered_known_after], of fresh_for os fresh_for polls]
    by (simp cong: map_cong)
  moreover have "map_of (known_after fresh_for (os # polls)) = last_served (os # polls)"
    using known_after_last_served[OF assms(2)] by blast
  ultimately show ?thesis using batches_whole[OF assms(1,3)] by simp
qed

definition plain_telemetry :: "nat telemetry_env" where
  \<comment> \<open>every batch encodes as a thousand bytes a sample; the world counts identifiers\<close>
  "plain_telemetry = \<lparr>te_uuid = (\<lambda>w. (dec w, Suc w)), te_to_vec = (\<lambda>b. Some (concat (map (\<lambda>_. replicate 1000 CHR ''x'') (bt_samples b)))),
     te_sink = (\<lambda>_ _ w. w), te_checked_sub = (\<lambda>_ _. None), te_stopped = (\<lambda>w. (False, w)), te_now = (\<lambda>w. (0, w)),
     te_utc_now = (\<lambda>w. (0, w)), te_sleep = (\<lambda>_ w. w), te_sysfs = (\<lambda>w. (tiny_sysfs ''hwmon0'', w))\<rparr>"

definition rack :: collector where "rack = \<lparr>cl_id = ''rack'', cl_kind = PowerPoller\<rparr>"

definition inlet :: power_reading where
  "inlet = \<lparr>pr_sensor = ''inlet'', pr_boundary = ''feed'', pr_quantity = ''real_power'', pr_component = None, pr_leg = None,
     pr_measurement = MValue (Finite 80)\<rparr>"

definition answering :: poll_outcome where
  "answering = \<lparr>oc_address = ''pdu1'', oc_read_at = 5, oc_result = Inr \<lparr>dv_mapping = ''pdu'', dv_mapping_version = 1,
     dv_resource = \<lparr>cr_kind = Pdu, cr_target = None, cr_identifiers = \<lparr>ci_hostname = None, ci_serial_number = None,
        ci_dmi_uuid = None, ci_mac_address = []\<rparr>, cr_attributes = None, cr_interfaces = None\<rparr>, dv_readings = [inlet]\<rparr>\<rparr>"

definition silent :: poll_outcome where
  "silent = \<lparr>oc_address = ''pdu1'', oc_read_at = 65, oc_result = Inl (TargetUnreachable ''timed out'')\<rparr>"

lemma plain_fits: "fits_batch plain_telemetry c i ss = (1000 * length ss \<le> max_telemetry_bytes)"
proof -
  have "length (concat (map (\<lambda>_. replicate 1000 CHR ''x'') ss)) = 1000 * length ss" by (induction ss) simp_all
  thus ?thesis by (simp add: fits_batch_def plain_telemetry_def)
qed

lemma plain_size_laws: "size_laws plain_telemetry c"
  by (simp add: size_laws_def plain_fits)

theorem poll_is_sent_whole_witness:
  "concat (map bt_samples (fst (batches plain_telemetry rack [silent] 300 (known_after 300 [[answering]]) 0)))
   = [collector_sample ''pdu1'' inlet \<lparr>sm_name = ''pdu'', sm_version = 1\<rparr> True 65 300]"
proof -
  have ok: "polls_ok [[silent], [answering]]" by (simp add: polls_ok_def)
  obtain bs known w' where b: "batches plain_telemetry rack [silent] 300 (known_after 300 [[answering]]) 0 = (bs, known, w')"
    by (metis surj_pair)
  have "target_samples 300 silent (last_served [[answering]] (oc_address silent))
      = [collector_sample ''pdu1'' inlet \<lparr>sm_name = ''pdu'', sm_version = 1\<rparr> True 65 300]"
    by (simp add: target_samples_def silent_def answering_def outcome_for_def served_def)
  moreover have "sendable plain_telemetry rack s" for s by (simp add: sendable_def plain_fits max_telemetry_bytes_def)
  ultimately show ?thesis using poll_is_sent_whole[OF plain_size_laws ok b] b by simp
qed

end
