(* ===== verification/Exporter_Mapping.thy ===== *)
theory Exporter_Mapping
  imports Exposition Hwmon "HOL-Library.Product_Lexorder"
begin

text \<open>
  The fixed mapping from exporter metrics to power readings (\<open>exporters/mapping.rs\<close>).
\<close>

section \<open>Readings\<close>

definition node_exporter_name :: string where "node_exporter_name = ''node_exporter''"
definition ipmi_exporter_name :: string where "ipmi_exporter_name = ''ipmi_exporter''"
definition exporter_mapping_version :: nat where "exporter_mapping_version = 1"
definition node_chip_names :: string where "node_chip_names = ''node_hwmon_chip_names''"
definition node_sensor_label :: string where "node_sensor_label = ''node_hwmon_sensor_label''"
definition node_average_interval :: string where "node_average_interval = ''node_hwmon_power_average_interval_seconds''"
definition ipmi_dcmi :: string where "ipmi_dcmi = ''ipmi_dcmi_power_consumption_watts''"
definition ipmi_power :: string where "ipmi_power = ''ipmi_power_watts''"
definition ipmi_state :: string where "ipmi_state = ''ipmi_sensor_state''"

datatype exporter_measurement = EWatts "f64 option" | EState "string option"

fun measurement_quantity :: "exporter_measurement \<Rightarrow> string" where
  "measurement_quantity (EWatts _) = ''real_power''"
| "measurement_quantity (EState _) = ''state''"

fun measurement_unreadable :: "exporter_measurement \<Rightarrow> exporter_measurement" where
  "measurement_unreadable (EWatts _) = EWatts None"
| "measurement_unreadable (EState _) = EState None"

record exporter_reading =
  er_mapping :: string
  er_sensor :: string
  er_boundary :: boundary
  er_supply :: "string option"
  er_measurement :: exporter_measurement
  er_window_seconds :: f64

definition max_window_seconds :: f64 where "max_window_seconds = Finite 86400"
definition min_window_seconds :: f64 where "min_window_seconds = to_f64 (1 / 1000)"

section \<open>Metric names\<close>

definition node_power_element :: "string \<Rightarrow> string option" where
  "node_power_element name =
     Option.bind (strip_prefix ''node_hwmon_power'' name) (\<lambda>rest.
     Option.bind (case strip_suffix ''_watts'' rest of Some e \<Rightarrow> Some e | None \<Rightarrow> strip_suffix ''_watt'' rest) (\<lambda>element.
     if element = '''' \<or> element = ''_input'' then Some ''input''
     else if element = ''_average'' then Some ''average''
     else None))"

definition wanted :: "string \<Rightarrow> bool" where
  "wanted name =
     (name \<in> {node_chip_names, node_sensor_label, node_average_interval, ipmi_dcmi, ipmi_power, ipmi_state}
      \<or> node_power_element name \<noteq> None)"

section \<open>Values\<close>

definition watts :: "f64 \<Rightarrow> f64 option" where
  "watts v = (if is_finite v \<and> f64_le (Finite 0) v then Some v else None)"

definition supply_state :: "f64 \<Rightarrow> string option" where
  "supply_state v =
     (if f64_eq v (Finite 0) then Some ''ok''
      else if f64_eq v (Finite 1) then Some ''warning''
      else if f64_eq v (Finite 2) then Some ''failed''
      else None)"

fun split_by :: "(char \<Rightarrow> bool) \<Rightarrow> string \<Rightarrow> string list" where
  \<comment> \<open>\<open>str::split\<close> with a predicate\<close>
  "split_by P [] = [[]]"
| "split_by P (c # cs) =
     (if P c then [] # split_by P cs
      else (case split_by P cs of [] \<Rightarrow> [[c]] | w # ws \<Rightarrow> (c # w) # ws))"

definition supply_direction :: "string list \<Rightarrow> boundary option" where
  "supply_direction words =
     (if list_ex (\<lambda>w. w \<in> {''IN'', ''INPUT'', ''PIN''}) words then Some SupplyInput
      else if list_ex (\<lambda>w. w \<in> {''OUT'', ''OUTPUT'', ''POUT''}) words then Some SupplyOutput
      else None)"

definition supply_sensor :: "string \<Rightarrow> (string \<times> boundary option) option" where
  "supply_sensor name =
     (let upper = map to_ascii_uppercase (trim name) in
      Option.bind (case strip_prefix ''PSU'' upper of Some r \<Rightarrow> Some r | None \<Rightarrow> strip_prefix ''PS'' upper) (\<lambda>rest.
      let rest = trim_start rest; digits = takeWhile is_ascii_digit rest in
      if digits = [] then None
      else (let words = filter (\<lambda>w. w \<noteq> []) (split_by (\<lambda>c. \<not> is_ascii_alphanumeric c) (drop (length digits) rest));
                number = dropWhile (\<lambda>c. c = CHR ''0'') digits
            in Some (''PSU'' @ (if number = [] then ''0'' else number), supply_direction words))))"

section \<open>node\_exporter\<close>

definition label_or_empty :: "sample \<Rightarrow> string \<Rightarrow> string" where
  "label_or_empty s key = (case map_of (smp_labels s) key of None \<Rightarrow> [] | Some v \<Rightarrow> v)"

definition sensor_key :: "sample \<Rightarrow> string \<times> string" where
  "sensor_key s = (label_or_empty s ''chip'', label_or_empty s ''sensor'')"

definition chip_drivers :: "sample list \<Rightarrow> (string, string) btree" where
  "chip_drivers samples =
     btree_collect (map (\<lambda>s. (label_or_empty s ''chip'', label_or_empty s ''chip_name''))
       (filter (\<lambda>s. smp_name s = node_chip_names) samples))"

definition keyed :: "sample list \<Rightarrow> string \<Rightarrow> (string \<times> string, sample) btree" where
  "keyed samples name = btree_collect (map (\<lambda>s. (sensor_key s, s)) (filter (\<lambda>s. smp_name s = name) samples))"

definition note_power ::
  "sample \<Rightarrow> (string \<times> string, string \<times> sample) btree \<Rightarrow> (string \<times> string, string \<times> sample) btree" where
  "note_power s found =
     (case node_power_element (smp_name s) of
        None \<Rightarrow> found
      | Some element \<Rightarrow>
          if element = ''average'' \<or> map_of found (sensor_key s) = None
          then btree_insert (sensor_key s) (element, s) found else found)"

definition average_interval :: "(string \<times> string, sample) btree \<Rightarrow> string \<times> string \<Rightarrow> f64 option" where
  "average_interval intervals key =
     Option.bind (map_of intervals key) (\<lambda>s.
     if f64_le min_window_seconds (smp_value s) \<and> f64_le (smp_value s) max_window_seconds
     then Some (smp_value s) else None)"

definition node_reading ::
  "(string, string) btree \<Rightarrow> (string \<times> string, sample) btree \<Rightarrow> (string \<times> string, sample) btree
   \<Rightarrow> (string \<times> string) \<times> (string \<times> sample) \<Rightarrow> exporter_reading option" where
  "node_reading drivers named intervals = (\<lambda>((chip, sensor), (element, s)).
     Option.bind (map_of drivers chip) (\<lambda>driver.
     let sensor_label = Option.bind (map_of named (chip, sensor)) (\<lambda>l. map_of (smp_labels l) ''label'') in
     Option.bind (boundary_of driver sensor_label) (\<lambda>b.
     let (w, window) =
       (if element = ''average''
        then (case average_interval intervals (chip, sensor) of
                Some seconds \<Rightarrow> (watts (smp_value s), seconds)
              | None \<Rightarrow> (None, Finite 0))
        else (watts (smp_value s), Finite 0))
     in Some \<lparr>er_mapping = node_exporter_name, er_sensor = node_exporter_name @ ''/'' @ chip @ ''/'' @ sensor,
              er_boundary = b, er_supply = None, er_measurement = EWatts w, er_window_seconds = window\<rparr>)))"

definition node_exporter :: "sample list \<Rightarrow> exporter_reading list" where
  "node_exporter samples =
     List.map_filter (node_reading (chip_drivers samples) (keyed samples node_sensor_label) (keyed samples node_average_interval))
       (fold note_power samples [])"

section \<open>ipmi\_exporter\<close>

definition ipmi_sensor :: "sample \<Rightarrow> boundary \<Rightarrow> string \<Rightarrow> exporter_measurement \<Rightarrow> exporter_reading" where
  "ipmi_sensor s b supply measurement =
     \<lparr>er_mapping = ipmi_exporter_name, er_sensor = ipmi_exporter_name @ ''/sensor/'' @ label_or_empty s ''id'',
      er_boundary = b, er_supply = Some supply, er_measurement = measurement, er_window_seconds = Finite 0\<rparr>"

definition ipmi_reading :: "sample \<Rightarrow> exporter_reading option" where
  "ipmi_reading s =
     (if smp_name s = ipmi_dcmi
      then Some \<lparr>er_mapping = ipmi_exporter_name, er_sensor = ipmi_exporter_name @ ''/dcmi'', er_boundary = HostInput,
                 er_supply = None, er_measurement = EWatts (watts (smp_value s)), er_window_seconds = Finite 0\<rparr>
      else if smp_name s = ipmi_power
      then Option.bind (supply_sensor (label_or_empty s ''name'')) (\<lambda>(supply, direction).
             map_option (\<lambda>b. ipmi_sensor s b supply (EWatts (watts (smp_value s)))) direction)
      else if smp_name s = ipmi_state \<and> map_of (smp_labels s) ''type'' = Some ''Power Supply''
      then map_option (\<lambda>(supply, _). ipmi_sensor s SupplyInput supply (EState (supply_state (smp_value s))))
             (supply_sensor (label_or_empty s ''name''))
      else None)"

definition ipmi_exporter :: "sample list \<Rightarrow> exporter_reading list" where
  "ipmi_exporter samples = List.map_filter ipmi_reading samples"

definition map_samples :: "sample list \<Rightarrow> exporter_reading list" where
  "map_samples samples = node_exporter samples @ ipmi_exporter samples"

section \<open>What a reading may hold\<close>

definition window_ms :: "exporter_reading \<Rightarrow> int" where
  \<comment> \<open>\<open>exporters/mod.rs\<close>\<close>
  "window_ms r = f64_as_i64 (f64_scale (\<lambda>x. x * 1000) (er_window_seconds r))"

definition window_ok :: "f64 \<Rightarrow> bool" where
  "window_ok w = (w = Finite 0 \<or> f64_le min_window_seconds w \<and> f64_le w max_window_seconds)"

definition reading_ok :: "exporter_reading \<Rightarrow> bool" where
  "reading_ok r = (window_ok (er_window_seconds r)
     \<and> (case er_measurement r of EWatts (Some v) \<Rightarrow> is_finite v \<and> f64_le (Finite 0) v | _ \<Rightarrow> True))"

lemma watts_ok: "watts v = Some u \<Longrightarrow> is_finite u \<and> f64_le (Finite 0) u"
  by (auto simp: watts_def split: if_splits)

lemma node_reading_ok: "node_reading drivers named intervals p = Some r \<Longrightarrow> reading_ok r"
  by (auto simp: node_reading_def reading_ok_def window_ok_def average_interval_def bind_eq_Some_conv Let_def
      dest!: watts_ok split: prod.splits if_splits option.splits)

lemma ipmi_reading_ok: "ipmi_reading s = Some r \<Longrightarrow> reading_ok r"
  by (auto simp: ipmi_reading_def ipmi_sensor_def reading_ok_def window_ok_def bind_eq_Some_conv
      dest!: watts_ok split: if_splits option.splits)

lemma in_map_filter_iff: "y \<in> set (List.map_filter f xs) \<longleftrightarrow> (\<exists>x\<in>set xs. f x = Some y)"
  by (force simp: List.map_filter_def)

lemma map_samples_ok: "r \<in> set (map_samples samples) \<Longrightarrow> reading_ok r"
  using node_reading_ok ipmi_reading_ok
  by (fastforce simp: map_samples_def node_exporter_def ipmi_exporter_def in_map_filter_iff)

lemma min_window_large: "\<exists>m. min_window_seconds = Finite m \<and> 1 / 1000 \<le> m"
proof -
  have "nearest (1 / 1000) = 1152921504606847 * 2 powi (-60)"
  proof -
    have "ilog2 999 = 9" by (simp add: ilog2.simps)
    hence "last_place (1 / 1000) = -62" by (simp add: last_place_def magnitude_def)
    moreover have "\<lfloor>576460752303423488 / 125 :: rat\<rfloor> = 4611686018427387" by (rule floor_unique) simp_all
    ultimately show ?thesis by (simp add: nearest_def ties_to_even_def power_int_minus)
  qed
  thus ?thesis using to_f64_small[of "1 / 1000"] by (simp add: min_window_seconds_def power_int_minus)
qed

text \<open>A window fits the milliseconds Renga keeps: a day at most, and no averaged one is zero.\<close>

lemma window_ms_bounds:
  assumes "reading_ok r"
  shows "window_ms r = 0 \<and> er_window_seconds r = Finite 0 \<or> 1 \<le> window_ms r \<and> window_ms r \<le> 86400000"
proof (cases "er_window_seconds r = Finite 0")
  case True thus ?thesis by (simp add: window_ms_def to_f64_def)
next
  case False
  obtain m where m: "min_window_seconds = Finite m" "1 / 1000 \<le> m" using min_window_large by blast
  obtain q where q: "er_window_seconds r = Finite q" "m \<le> q" "q \<le> 86400"
    using assms[unfolded reading_ok_def window_ok_def max_window_seconds_def m(1)] False by (cases "er_window_seconds r") auto
  have p: "0 < q * 1000" "q * 1000 < 2 ^ 53" "of_int 1 \<le> q * 1000" "q * 1000 \<le> of_int 86400000" using m q by simp_all
  have "of_int 1 \<le> nearest (q * 1000)" "nearest (q * 1000) \<le> of_int 86400000"
    using nearest_ge[OF p(1-3)] nearest_le[OF p(1,2,4)] by blast+
  hence n: "1 \<le> nearest (q * 1000)" "nearest (q * 1000) \<le> 86400000" by simp_all
  have "window_ms r = max (- (2 ^ 63)) (min (2 ^ 63 - 1) \<lfloor>nearest (q * 1000)\<rfloor>)"
    using q(1) p(1,2) n(1) to_f64_small[of "q * 1000"] by (simp add: window_ms_def)
  moreover have "1 \<le> \<lfloor>nearest (q * 1000)\<rfloor>" "\<lfloor>nearest (q * 1000)\<rfloor> \<le> 86400000" using n by linarith+
  ultimately show ?thesis by simp
qed

end
