(* ===== verification/Exporters.thy ===== *)
theory Exporters
  imports Exporter_Mapping Telemetry
begin

text \<open>
  Local Prometheus exporters: their configuration and the scraper around each of them
  (\<open>exporters/mod.rs\<close>), and the narrow fetch a scrape is allowed (\<open>exporters/fetch.rs\<close>). The \<open>url\<close>
  crate's parser, the resolver, the HTTP client and the token file are parameters; a parsed URL
  is the parts the agent asks for. A sample's start time is not bounded from below, as no clock
  is within a day of the first date chrono represents.
\<close>

section \<open>Endpoints\<close>

definition exporters_max :: nat where "exporters_max = 16"
definition interval_default :: nat where "interval_default = 60"
definition exporter_timeout_default :: nat where "exporter_timeout_default = 10"
definition exporter_timeout_max :: nat where "exporter_timeout_max = 30"
definition max_response_bytes :: nat where "max_response_bytes = 8 * 1024 * 1024"
definition max_source_chars :: nat where "max_source_chars = 255"

record exporter_url =
  eu_text :: string
  eu_scheme :: string
  eu_username :: string
  eu_password :: "string option"
  eu_host :: "string option"
  eu_port :: "nat option"
  eu_path :: string
  eu_query :: "string option"

record exporter_endpoint =
  ep_url :: exporter_url
  ep_allow_remote :: bool
  ep_bearer_token_file :: "string option"
  ep_timeout :: duration
  ep_max_bytes :: nat

record raw_exporter =
  rx_url :: "string option"
  rx_allow_remote :: "bool option"
  rx_bearer_token_file :: "string option"
  rx_interval_seconds :: "nat option"
  rx_timeout_seconds :: "nat option"

record exporter =
  ex_endpoint :: exporter_endpoint
  ex_interval :: duration

definition exporter_source :: "exporter \<Rightarrow> string" where
  "exporter_source x = eu_text (ep_url (ex_endpoint x))"

definition series_prefix :: "exporter \<Rightarrow> string" where
  "series_prefix x =
     (let url = ep_url (ex_endpoint x);
          host = (case eu_host url of Some h \<Rightarrow> h | None \<Rightarrow> []);
          port = (case eu_port url of Some p \<Rightarrow> p | None \<Rightarrow> 0)
      in if eu_path url = ''/metrics'' then host @ '':'' @ dec port else host @ '':'' @ dec port @ eu_path url)"

definition check_exporter ::
  "(string \<Rightarrow> exporter_url option) \<Rightarrow> string \<Rightarrow> raw_exporter \<Rightarrow> exporter list \<Rightarrow> string + exporter" where
  \<comment> \<open>one entry of \<open>[[exporters]]\<close>, given those accepted before it; \<open>p\<close> names it in errors\<close>
  "check_exporter parse p raw accepted =
     (case rx_url raw of
        None \<Rightarrow> Inl (p @ ''.url is required'')
      | Some text \<Rightarrow>
          (case parse text of
             None \<Rightarrow> Inl (p @ ''.url is not a URL'')
           | Some url \<Rightarrow>
               let allow_remote = (case rx_allow_remote raw of Some b \<Rightarrow> b | None \<Rightarrow> False);
                   interval = (case rx_interval_seconds raw of Some n \<Rightarrow> n | None \<Rightarrow> interval_default);
                   timeout = (case rx_timeout_seconds raw of Some n \<Rightarrow> n | None \<Rightarrow> exporter_timeout_default)
               in if eu_scheme url \<notin> {''http'', ''https''} \<or> eu_host url = None
                  then Inl (p @ ''.url must be an http or https URL with a host'')
                  else if eu_username url \<noteq> [] \<or> eu_password url \<noteq> None \<or> eu_query url \<noteq> None
                  then Inl (p @ ''.url must not carry credentials or a query; use bearer_token_file'')
                  else if max_source_chars < char_count (eu_text url)
                  then Inl (p @ ''.url must be at most '' @ dec max_source_chars @ '' characters'')
                  else if rx_bearer_token_file raw \<noteq> None \<and> \<not> allow_remote
                  then Inl (p @ ''.bearer_token_file is only for a remote endpoint (allow_remote = true)'')
                  else if \<not> (10 \<le> interval \<and> interval \<le> 3600)
                  then Inl (p @ ''.interval_seconds must be between 10 and 3600'')
                  else if \<not> (1 \<le> timeout \<and> timeout \<le> exporter_timeout_max) \<or> interval \<le> timeout
                  then Inl (p @ ''.timeout_seconds must be between 1 and '' @ dec exporter_timeout_max @ '' and shorter than the interval'')
                  else if list_ex (\<lambda>x. exporter_source x = eu_text url) accepted
                  then Inl (p @ ''.url '' @ eu_text url @ '' is configured twice'')
                  else Inr \<lparr>ex_endpoint = \<lparr>ep_url = url, ep_allow_remote = allow_remote,
                              ep_bearer_token_file = rx_bearer_token_file raw, ep_timeout = secs timeout,
                              ep_max_bytes = max_response_bytes\<rparr>, ex_interval = secs interval\<rparr>))"

fun check_exporters ::
  "(string \<Rightarrow> exporter_url option) \<Rightarrow> nat \<Rightarrow> exporter list \<Rightarrow> raw_exporter list \<Rightarrow> string + exporter list" where
  "check_exporters parse index accepted [] = Inr accepted"
| "check_exporters parse index accepted (raw # rest) =
     (case check_exporter parse (''exporters['' @ dec index @ '']'') raw accepted of
        Inl e \<Rightarrow> Inl e
      | Inr x \<Rightarrow> check_exporters parse (index + 1) (accepted @ [x]) rest)"

definition exporters_from_raw :: "(string \<Rightarrow> exporter_url option) \<Rightarrow> raw_exporter list \<Rightarrow> string + exporter list" where
  "exporters_from_raw parse raw =
     (if exporters_max < length raw then Inl (''exporters must have at most '' @ dec exporters_max @ '' entries'')
      else check_exporters parse 0 [] raw)"

section \<open>Fetching\<close>

datatype ip_addr = IpV4 "32 word" | IpV6 "128 word"

fun is_loopback :: "ip_addr \<Rightarrow> bool" where
  "is_loopback (IpV4 a) = (drop_bit 24 a = 127)"
| "is_loopback (IpV6 a) = (a = 1)"

type_synonym socket_addr = "ip_addr \<times> nat"

datatype fetch_error = FetchNotPermitted error_text | FetchFailed error_text

record fetch_request =
  fr_url :: exporter_url
  fr_host :: string
  fr_pinned :: "socket_addr list"
  fr_timeout :: duration
  fr_authorization :: "string option"

record ('r, 'w) fetch_env =
  f_now :: "'w \<Rightarrow> instant \<times> 'w"
  f_parse_ip :: "string \<Rightarrow> ip_addr option"
  f_lookup :: "string \<Rightarrow> nat \<Rightarrow> instant \<Rightarrow> 'w \<Rightarrow> (error_text + socket_addr list) option \<times> 'w"
    \<comment> \<open>\<open>within\<close>: \<open>None\<close> when the lookup does not finish by the deadline\<close>
  f_build :: "string \<Rightarrow> socket_addr list \<Rightarrow> error_text option"
    \<comment> \<open>why the client, with its pinned TLS roots, cannot be built\<close>
  f_read_file :: "string \<Rightarrow> 'w \<Rightarrow> (error_text + string) \<times> 'w"
  f_header_value :: "string \<Rightarrow> bool"
  f_send :: "fetch_request \<Rightarrow> 'w \<Rightarrow> (error_text + 'r) \<times> 'w"
  f_peer :: "'r \<Rightarrow> socket_addr option"
  f_status :: "'r \<Rightarrow> nat"
  f_read_to_end :: "'r \<Rightarrow> nat \<Rightarrow> 'w \<Rightarrow> (error_text + bytes) \<times> 'w"
    \<comment> \<open>the body through \<open>take\<close>, which ends it after that many bytes\<close>

definition check_destination :: "socket_addr list \<Rightarrow> bool \<Rightarrow> error_text option" where
  "check_destination addresses allow_remote =
     (if list_all (\<lambda>(ip, _). is_loopback ip) addresses \<or> allow_remote then None
      else Some (Format ''{address} is not a loopback address; set allow_remote = true to scrape it'' []))"

definition trim_brackets :: "string \<Rightarrow> string" where
  "trim_brackets s = rev (dropWhile (\<lambda>c. c = CHR '']'') (rev (dropWhile (\<lambda>c. c = CHR ''['') s)))"

definition resolve_exporter ::
  "('r, 'w) fetch_env \<Rightarrow> string \<Rightarrow> nat \<Rightarrow> instant \<Rightarrow> 'w \<Rightarrow> (fetch_error + socket_addr list) \<times> 'w" where
  "resolve_exporter env host port until w =
     (case f_parse_ip env host of
        Some ip \<Rightarrow> (Inr [(ip, port)], w)
      | None \<Rightarrow>
          (case f_lookup env host port until w of
             (None, w) \<Rightarrow> (Inl (FetchFailed (Format ''resolving {host} timed out'' [host])), w)
           | (Some (Inl _), w) \<Rightarrow> (Inl (FetchFailed (Format ''cannot resolve {host}: {error}'' [host])), w)
           | (Some (Inr addresses), w) \<Rightarrow> (Inr addresses, w)))"

definition bearer :: "('r, 'w) fetch_env \<Rightarrow> exporter_endpoint \<Rightarrow> 'w \<Rightarrow> (fetch_error + string option) \<times> 'w" where
  "bearer env e w =
     (case ep_bearer_token_file e of
        None \<Rightarrow> (Inr None, w)
      | Some path \<Rightarrow>
          (case f_read_file env path w of
             (Inl _, w) \<Rightarrow> (Inl (FetchFailed (Format ''cannot read {}: {error}'' [path])), w)
           | (Inr token, w) \<Rightarrow>
               let v = ''Bearer '' @ trim token in
               (if f_header_value env v then Inr (Some v)
                else Inl (FetchFailed (Format ''{} does not hold a usable token'' [path])), w)))"

definition fetch_body :: "('r, 'w) fetch_env \<Rightarrow> exporter_endpoint \<Rightarrow> 'r \<Rightarrow> 'w \<Rightarrow> (fetch_error + string) \<times> 'w" where
  "fetch_body env e response w =
     (let url = eu_text (ep_url e); status = f_status env response in
      if status = 401 \<or> status = 403
      then (Inl (FetchNotPermitted (Format ''{} answered {status}'' [url, dec status])), w)
      else if \<not> (200 \<le> status \<and> status < 300)
      then (Inl (FetchFailed (Format ''{} answered {status}'' [url, dec status])), w)
      else (case f_read_to_end env response (ep_max_bytes e + 1) w of
              (Inl _, w) \<Rightarrow> (Inl (FetchFailed (Format ''cannot read {}: {error}'' [url])), w)
            | (Inr body, w) \<Rightarrow>
                (if ep_max_bytes e < length body
                 then Inl (FetchFailed (Format ''response exceeds {} bytes'' [dec (ep_max_bytes e)]))
                 else (case from_utf8 body of
                         Some text \<Rightarrow> Inr text
                       | None \<Rightarrow> Inl (FetchFailed (Text ''response is not UTF-8''))), w)))"

definition fetch_answer ::
  "('r, 'w) fetch_env \<Rightarrow> exporter_endpoint \<Rightarrow> socket_addr list \<Rightarrow> 'r \<Rightarrow> 'w \<Rightarrow> (fetch_error + string) \<times> 'w" where
  "fetch_answer env e addresses response w =
     (case f_peer env response of
        None \<Rightarrow> (Inl (FetchFailed (Text ''the exporter connection has no peer address'')), w)
      | Some peer \<Rightarrow>
          if peer \<notin> set addresses then (Inl (FetchFailed (Format ''connected to {peer}, which was not resolved'' [])), w)
          else (case check_destination [peer] (ep_allow_remote e) of
                  Some m \<Rightarrow> (Inl (FetchFailed m), w)
                | None \<Rightarrow> fetch_body env e response w))"

definition fetch_from ::
  "('r, 'w) fetch_env \<Rightarrow> exporter_endpoint \<Rightarrow> string \<Rightarrow> instant \<Rightarrow> socket_addr list \<Rightarrow> 'w \<Rightarrow> (fetch_error + string) \<times> 'w" where
  \<comment> \<open>the request, once the addresses are known\<close>
  "fetch_from env e host until addresses w =
     (if addresses = [] then (Inl (FetchFailed (Format ''{host} resolves to no address'' [host])), w)
      else (case check_destination addresses (ep_allow_remote e) of
        Some m \<Rightarrow> (Inl (FetchFailed m), w)
      | None \<Rightarrow>
        (case f_build env host addresses of
           Some _ \<Rightarrow> (Inl (FetchFailed (Format ''cannot build the exporter client: {error}'' [])), w)
         | None \<Rightarrow>
           (case f_now env w of (now, w) \<Rightarrow>
            if until \<le> now then (Inl (FetchFailed (Text ''the scrape timed out before connecting'')), w)
            else (case bearer env e w of
              (Inl err, w) \<Rightarrow> (Inl err, w)
            | (Inr authorization, w) \<Rightarrow>
                (case f_send env \<lparr>fr_url = ep_url e, fr_host = host, fr_pinned = addresses, fr_timeout = until - now,
                       fr_authorization = authorization\<rparr> w of
                   (Inl _, w) \<Rightarrow> (Inl (FetchFailed (Format ''cannot scrape {}: {error}'' [eu_text (ep_url e)])), w)
                 | (Inr response, w) \<Rightarrow> fetch_answer env e addresses response w))))))"

definition fetch :: "('r, 'w) fetch_env \<Rightarrow> exporter_endpoint \<Rightarrow> 'w \<Rightarrow> (fetch_error + string) \<times> 'w" where
  \<comment> \<open>an accepted timeout is at most 30 seconds, so the deadline is always representable\<close>
  "fetch env e w =
     (case f_now env w of (now, w) \<Rightarrow>
      let until = now + ep_timeout e in
      case eu_host (ep_url e) of
        None \<Rightarrow> (Inl (FetchFailed (Text ''the exporter URL has no host'')), w)
      | Some host \<Rightarrow>
          let host = trim_brackets host in
          (case eu_port (ep_url e) of
             None \<Rightarrow> (Inl (FetchFailed (Text ''the exporter URL has no port'')), w)
           | Some port \<Rightarrow>
               (case resolve_exporter env host port until w of
                  (Inl err, w) \<Rightarrow> (Inl err, w)
                | (Inr addresses, w) \<Rightarrow> fetch_from env e host until addresses w)))"

section \<open>Scraping\<close>

definition namespaced :: "exporter \<Rightarrow> exporter_reading list \<Rightarrow> exporter_reading list" where
  "namespaced x rs =
     List.map_filter (\<lambda>r.
       let local_part = (case strip_prefix (er_mapping r) (er_sensor r) of Some l \<Rightarrow> l | None \<Rightarrow> er_sensor r);
           sensor = er_mapping r @ ''/'' @ series_prefix x @ local_part
       in if max_sensor_chars < char_count sensor then None else Some (r\<lparr>er_sensor := sensor\<rparr>)) rs"

definition exporter_text_of ::
  "('r, 'w) fetch_env \<Rightarrow> exporter \<Rightarrow> 'w \<Rightarrow> (fetch_error + exporter_reading list) \<times> 'w" where
  "exporter_text_of env x w =
     (case fetch env (ex_endpoint x) w of
        (Inl e, w) \<Rightarrow> (Inl e, w)
      | (Inr body, w) \<Rightarrow>
          ((case parse_exposition body exposition_limits wanted of
              Inl e \<Rightarrow> Inl (FetchFailed (Format ''malformed response: {error}'' [e]))
            | Inr samples \<Rightarrow> Inr (namespaced x (map_samples samples))), w))"

definition series :: "exporter_reading \<Rightarrow> string \<times> string \<times> string \<times> int" where
  "series r = (er_sensor r, boundary_as_str (er_boundary r), measurement_quantity (er_measurement r), window_ms r)"

definition exporter_sample :: "exporter_reading \<Rightarrow> bool \<Rightarrow> system_time \<Rightarrow> telemetry_sample" where
  "exporter_sample r failed now =
     (let (unit_text, v, state) =
        (case er_measurement r of EWatts w \<Rightarrow> (Some ''W'', w, None) | EState s \<Rightarrow> (None, None, s));
          readable = (v \<noteq> None \<or> state \<noteq> None);
          status = (if failed \<or> \<not> readable then ''failed'' else ''valid'')
      in \<lparr>tm_target = None, tm_sensor = er_sensor r, tm_boundary = boundary_as_str (er_boundary r),
          tm_quantity = measurement_quantity (er_measurement r), tm_unit = unit_text,
          tm_component = map_option (\<lambda>name. \<lparr>cmp_kind = ''power_port'', cmp_name = name\<rparr>) (er_supply r),
          tm_leg = None, tm_coverage = None, tm_status = status, tm_origin = ''exporter'',
          tm_value = (if status = ''valid'' then v else None), tm_state = (if status = ''valid'' then state else None),
          tm_window = \<lparr>win_start = now - window_ms r * 1000000, win_end = now\<rparr>, tm_event_at = now,
          tm_mapping = \<lparr>sm_name = er_mapping r, sm_version = exporter_mapping_version\<rparr>,
          tm_fresh_for_seconds = host_fresh_for_seconds\<rparr>)"

definition exporter_batch ::
  "'w telemetry_env \<Rightarrow> exporter_reading list \<Rightarrow> bool \<Rightarrow> system_time \<Rightarrow> 'w \<Rightarrow> telemetry_batch \<times> 'w" where
  "exporter_batch env rs failed now w =
     (case te_uuid env w of (i, w) \<Rightarrow> (batch_host i (map (\<lambda>r. exporter_sample r failed now) rs), w))"

definition gone_readings :: "exporter_reading list \<Rightarrow> exporter_reading list \<Rightarrow> exporter_reading list" where
  \<comment> \<open>the series known before that the scrape no longer serves, with nothing readable in them\<close>
  "gone_readings known rs =
     map (\<lambda>old. old\<lparr>er_measurement := measurement_unreadable (er_measurement old)\<rparr>)
       (filter (\<lambda>old. \<not> list_ex (\<lambda>r. series r = series old) rs) known)"

definition scrape_outcome ::
  "fetch_error + exporter_reading list \<Rightarrow> exporter_reading list
   \<Rightarrow> exporter_reading list \<times> bool \<times> string \<times> exporter_reading list" where
  \<comment> \<open>the readings to send, whether they failed, the source's status, and what is known next\<close>
  "scrape_outcome result known =
     (case result of
        Inr rs \<Rightarrow> (rs @ gone_readings known rs, False, if rs = [] then ''not_present'' else ''available'', rs)
      | Inl (FetchNotPermitted _) \<Rightarrow> (known, True, ''not_permitted'', known)
      | Inl (FetchFailed _) \<Rightarrow> (known, True, ''unreachable'', known))"

definition scrape ::
  "'w telemetry_env \<Rightarrow> exporter \<Rightarrow> fetch_error + exporter_reading list \<Rightarrow> system_time
   \<Rightarrow> exporter_reading list \<times> power_sources \<Rightarrow> 'w \<Rightarrow> (exporter_reading list \<times> power_sources) \<times> 'w" where
  "scrape env x result now = (\<lambda>(known, sources) w.
     case scrape_outcome result known of (rs, failed, status, known) \<Rightarrow>
     let sources = publish_source (exporter_source x) status sources in
     if rs = [] then ((known, sources), w)
     else (case exporter_batch env rs failed now w of (b, w) \<Rightarrow> ((known, sources), queue_batch env b w)))"

definition scrape_step ::
  "('r, 'w) fetch_env \<Rightarrow> 'w telemetry_env \<Rightarrow> exporter \<Rightarrow> exporter_reading list \<times> power_sources \<Rightarrow> 'w
   \<Rightarrow> (unit option \<times> (exporter_reading list \<times> power_sources) \<times> 'w) option" where
  "scrape_step fenv env x s w =
     (case te_stopped env w of (stop, w) \<Rightarrow>
      if stop then Some (Some (), s, w)
      else (case te_now env w of (started, w) \<Rightarrow>
        case exporter_text_of fenv x w of (result, w) \<Rightarrow>
        case te_stopped env w of (stop, w) \<Rightarrow>
        if stop then Some (Some (), s, w)
        else (case te_utc_now env w of (now, w) \<Rightarrow>
          case scrape env x result now s w of (s, w) \<Rightarrow>
          map_option (\<lambda>(_, _, w). (None, s, w)) (until_done (wait_step env started (ex_interval x)) () w))))"

definition scraper_run ::
  "('r, 'w) fetch_env \<Rightarrow> 'w telemetry_env \<Rightarrow> exporter \<Rightarrow> power_sources \<Rightarrow> 'w
   \<Rightarrow> (unit \<times> (exporter_reading list \<times> power_sources) \<times> 'w) option" where
  "scraper_run fenv env x sources w = until_done (scrape_step fenv env x) ([], sources) w"

definition scrapers_start :: "exporter list \<Rightarrow> power_sources \<Rightarrow> power_sources" where
  \<comment> \<open>the sources a new set of scrapers starts with; then one thread per exporter runs\<close>
  "scrapers_start xs sources =
     retain_source (\<lambda>source. split_once_str ''://'' source = None \<or> source \<in> set (map exporter_source xs)) sources"

end
