(* ===== verification/Exporters_Correct.thy ===== *)
theory Exporters_Correct
  imports Exporters
begin

text \<open>
  A scrape of a local exporter stays on the host and carries no credential, and no series an
  exporter served disappears silently: the next scrape reports it, as a reading or as failed.
\<close>

section \<open>Accepted exporters\<close>

definition exporter_ok :: "exporter \<Rightarrow> bool" where
  "exporter_ok x =
     (let e = ex_endpoint x in (ep_bearer_token_file e \<noteq> None \<longrightarrow> ep_allow_remote e) \<and> ep_max_bytes e = max_response_bytes
        \<and> ep_timeout e < ex_interval x \<and> eu_host (ep_url e) \<noteq> None \<and> eu_query (ep_url e) = None)"

lemma check_exporter_ok:
  assumes "check_exporter parse p raw accepted = Inr x"
  shows "exporter_ok x \<and> exporter_source x \<notin> exporter_source ` set accepted"
proof -
  obtain t url where u: "rx_url raw = Some t" "parse t = Some url"
    using assms by (auto simp: check_exporter_def split: option.splits)
  show ?thesis
    using assms u by (auto simp: check_exporter_def exporter_ok_def exporter_source_def Let_def not_le list_ex_iff
        split: if_splits)
qed

lemma check_exporters_ok:
  assumes "check_exporters parse index accepted raws = Inr xs"
    and "list_all exporter_ok accepted" "distinct (map exporter_source accepted)"
  shows "list_all exporter_ok xs \<and> distinct (map exporter_source xs)"
  using assms
proof (induction raws arbitrary: index accepted)
  case (Cons raw raws)
  then obtain x where x: "check_exporter parse (''exporters['' @ dec index @ '']'') raw accepted = Inr x"
    "check_exporters parse (index + 1) (accepted @ [x]) raws = Inr xs" by (auto split: sum.splits)
  show ?case by (rule Cons.IH[OF x(2)]) (use check_exporter_ok[OF x(1)] Cons.prems in auto)
qed simp

text \<open>Accepted exporters are distinct sources, so no two share a series.\<close>

lemma exporters_from_raw_ok:
  "exporters_from_raw parse raws = Inr xs \<Longrightarrow> list_all exporter_ok xs \<and> distinct (map exporter_source xs)"
  using check_exporters_ok[of parse 0 "[]" raws xs] by (auto simp: exporters_from_raw_def split: if_splits)

section \<open>What a fetch sends\<close>

type_synonym sent = "fetch_request \<times> socket_addr option"

definition lift_sent :: "('w \<Rightarrow> 'a \<times> 'w) \<Rightarrow> 'w \<times> sent list \<Rightarrow> 'a \<times> 'w \<times> sent list" where
  "lift_sent f s = (case f (fst s) of (a, w) \<Rightarrow> (a, w, snd s))"

definition logged_fetch :: "('r, 'w) fetch_env \<Rightarrow> ('r, 'w \<times> sent list) fetch_env" where
  \<comment> \<open>the same network, with every request and the peer that answered it written down\<close>
  "logged_fetch env = \<lparr>f_now = lift_sent (f_now env), f_parse_ip = f_parse_ip env,
     f_lookup = (\<lambda>h p t. lift_sent (f_lookup env h p t)), f_build = f_build env,
     f_read_file = (\<lambda>p. lift_sent (f_read_file env p)), f_header_value = f_header_value env,
     f_send = (\<lambda>q s. case f_send env q (fst s) of (a, w) \<Rightarrow>
        (a, w, snd s @ [(q, case a of Inl _ \<Rightarrow> None | Inr r \<Rightarrow> f_peer env r)])),
     f_peer = f_peer env, f_status = f_status env, f_read_to_end = (\<lambda>r n. lift_sent (f_read_to_end env r n))\<rparr>"

lemma logged_fetch_simps [simp]:
  "f_now (logged_fetch env) = lift_sent (f_now env)" "f_parse_ip (logged_fetch env) = f_parse_ip env"
  "f_lookup (logged_fetch env) h p t = lift_sent (f_lookup env h p t)" "f_build (logged_fetch env) = f_build env"
  "f_read_file (logged_fetch env) q = lift_sent (f_read_file env q)" "f_header_value (logged_fetch env) = f_header_value env"
  "f_peer (logged_fetch env) = f_peer env" "f_status (logged_fetch env) = f_status env"
  "f_read_to_end (logged_fetch env) r n = lift_sent (f_read_to_end env r n)"
  by (simp_all add: logged_fetch_def)

lemma lift_sent_log: "lift_sent f s = (a, s') \<Longrightarrow> snd s' = snd s"
  by (auto simp: lift_sent_def split: prod.splits)

definition request_ok :: "exporter_endpoint \<Rightarrow> fetch_request \<Rightarrow> bool" where
  "request_ok e q = (fr_url q = ep_url e \<and> fr_pinned q \<noteq> []
     \<and> (ep_allow_remote e \<or> list_all (\<lambda>(ip, _). is_loopback ip) (fr_pinned q))
     \<and> (ep_bearer_token_file e = None \<longrightarrow> fr_authorization q = None))"

definition answer_ok :: "exporter_endpoint \<Rightarrow> fetch_error + string \<Rightarrow> sent list \<Rightarrow> bool" where
  "answer_ok e r trace = (list_all (request_ok e \<circ> fst) trace \<and> length trace \<le> 1
     \<and> (case r of Inl _ \<Rightarrow> True
        | Inr text \<Rightarrow> length text \<le> ep_max_bytes e \<and> valid_utf8 text
            \<and> (\<exists>q peer. trace = [(q, Some peer)] \<and> peer \<in> set (fr_pinned q))))"

lemma fetch_body_ok:
  assumes "fetch_body (logged_fetch env) e response s = (r, s')"
  shows "snd s' = snd s \<and> (case r of Inl _ \<Rightarrow> True | Inr text \<Rightarrow> length text \<le> ep_max_bytes e \<and> valid_utf8 text)"
proof -
  obtain b s1 where b: "lift_sent (f_read_to_end env response (ep_max_bytes e + 1)) s = (b, s1)" by (meson surj_pair)
  show ?thesis using assms b lift_sent_log[OF b]
    by (auto simp: fetch_body_def Let_def from_utf8_def split: if_splits sum.splits)
qed

lemma fetch_answer_ok:
  assumes "fetch_answer (logged_fetch env) e addresses response s = (r, s')"
  shows "snd s' = snd s \<and> (case r of Inl _ \<Rightarrow> True | Inr text \<Rightarrow> length text \<le> ep_max_bytes e \<and> valid_utf8 text
    \<and> (\<exists>peer. f_peer env response = Some peer \<and> peer \<in> set addresses))"
  using assms fetch_body_ok[of env e response s r s']
  by (auto simp: fetch_answer_def split: option.splits if_splits sum.splits)

lemma bearer_ok:
  assumes "bearer (logged_fetch env) e s = (a, s')"
  shows "snd s' = snd s \<and> (ep_bearer_token_file e = None \<longrightarrow> a = Inr None)"
proof (cases "ep_bearer_token_file e")
  case (Some path)
  obtain t s1 where t: "lift_sent (f_read_file env path) s = (t, s1)" by (meson surj_pair)
  show ?thesis using assms Some t lift_sent_log[OF t] by (auto simp: bearer_def Let_def split: sum.splits if_splits)
qed (use assms in \<open>simp add: bearer_def\<close>)

lemma resolve_exporter_log: "resolve_exporter (logged_fetch env) host port until s = (a, s') \<Longrightarrow> snd s' = snd s"
proof -
  assume a: "resolve_exporter (logged_fetch env) host port until s = (a, s')"
  obtain l s1 where l: "lift_sent (f_lookup env host port until) s = (l, s1)" by (meson surj_pair)
  show ?thesis using a l lift_sent_log[OF l] by (auto simp: resolve_exporter_def split: option.splits sum.splits)
qed

lemma check_destination_None:
  "check_destination addresses allow = None \<longleftrightarrow> allow \<or> list_all (\<lambda>(ip, _). is_loopback ip) addresses"
  by (auto simp: check_destination_def)

lemma fetch_from_ok:
  assumes "fetch_from (logged_fetch env) e host until addresses s = (r, s')" "snd s = []"
  shows "answer_ok e r (snd s')"
proof (cases "addresses = [] \<or> check_destination addresses (ep_allow_remote e) \<noteq> None \<or> f_build env host addresses \<noteq> None")
  case True
  hence "isl r \<and> s' = s" using assms(1) by (auto simp: fetch_from_def split: option.splits if_splits)
  thus ?thesis using assms(2) by (cases r) (simp_all add: answer_ok_def)
next
  case False
  obtain now s1 where n: "lift_sent (f_now env) s = (now, s1)" by (meson surj_pair)
  obtain au s2 where b: "bearer (logged_fetch env) e s1 = (au, s2)" by (meson surj_pair)
  have logs: "snd s1 = []" "snd s2 = []" "ep_bearer_token_file e = None \<longrightarrow> au = Inr None"
    using lift_sent_log[OF n] bearer_ok[OF b] assms(2) by simp_all
  show ?thesis
  proof (cases "until \<le> now \<or> isl au")
    case True
    hence "isl r \<and> snd s' = []" using assms(1) False n b logs
      by (cases au) (auto simp: fetch_from_def split: if_splits)
    thus ?thesis by (cases r) (simp_all add: answer_ok_def)
  next
    case sends: False
    then obtain au' where au: "au = Inr au'" by (cases au) auto
    let ?q = "\<lparr>fr_url = ep_url e, fr_host = host, fr_pinned = addresses, fr_timeout = until - now, fr_authorization = au'\<rparr>"
    obtain a w3 where a: "f_send env ?q (fst s2) = (a, w3)" by fastforce
    have q: "request_ok e ?q" using False logs(3) au by (auto simp: request_ok_def check_destination_None)
    show ?thesis
    proof (cases a)
      case (Inl m)
      hence "isl r \<and> snd s' = [(?q, None)]"
        using assms(1) False n b sends au a logs(2) by (auto simp: fetch_from_def logged_fetch_def)
      thus ?thesis using q by (cases r) (simp_all add: answer_ok_def)
    next
      case (Inr response)
      hence f: "fetch_answer (logged_fetch env) e addresses response (w3, [(?q, f_peer env response)]) = (r, s')"
        using assms(1) False n b sends au a logs(2) by (auto simp: fetch_from_def) (simp add: logged_fetch_def)
      show ?thesis using fetch_answer_ok[OF f] q by (auto simp: answer_ok_def split: sum.splits)
    qed
  qed
qed

lemma fetch_ok:
  assumes "fetch (logged_fetch env) e (w, []) = (r, s')"
  shows "answer_ok e r (snd s')"
proof -
  obtain now s1 where n: "lift_sent (f_now env) (w, []) = (now, s1)" by (meson surj_pair)
  have s1: "snd s1 = []" using lift_sent_log[OF n] by simp
  have failed: "answer_ok e (Inl x) []" for x by (simp add: answer_ok_def)
  show ?thesis
  proof (cases "eu_host (ep_url e) = None \<or> eu_port (ep_url e) = None")
    case True
    thus ?thesis using assms n s1 failed by (auto simp: fetch_def Let_def split: option.splits)
  next
    case False
    then obtain host port where hp: "eu_host (ep_url e) = Some host" "eu_port (ep_url e) = Some port" by auto
    obtain a s2 where a: "resolve_exporter (logged_fetch env) (trim_brackets host) port (now + ep_timeout e) s1 = (a, s2)"
      by (meson surj_pair)
    have s2: "snd s2 = []" using resolve_exporter_log[OF a] s1 by simp
    show ?thesis
    proof (cases a)
      case (Inl x) thus ?thesis using assms n hp a s2 failed by (auto simp: fetch_def Let_def)
    next
      case (Inr addresses)
      hence "fetch_from (logged_fetch env) e (trim_brackets host) (now + ep_timeout e) addresses s2 = (r, s')"
        using assms n hp a by (simp add: fetch_def Let_def)
      thus ?thesis using fetch_from_ok s2 by blast
    qed
  qed
qed

section \<open>What a scrape reports\<close>

fun served_last :: "(fetch_error + exporter_reading list) list \<Rightarrow> exporter_reading list" where
  \<comment> \<open>what the last successful scrape served; the newest result comes first\<close>
  "served_last [] = []"
| "served_last (Inr rs # older) = rs"
| "served_last (Inl _ # older) = served_last older"

definition sample_series :: "telemetry_sample \<Rightarrow> string \<times> string \<times> string \<times> int" where
  "sample_series s = (tm_sensor s, tm_boundary s, tm_quantity s, win_end (tm_window s) - win_start (tm_window s))"

definition reading_series :: "exporter_reading \<Rightarrow> string \<times> string \<times> string \<times> int" where
  "reading_series r = (case series r of (s, b, q, ms) \<Rightarrow> (s, b, q, ms * 1000000))"

lemma sample_series_exporter [simp]: "sample_series (exporter_sample r failed now) = reading_series r"
  by (auto simp: sample_series_def reading_series_def series_def exporter_sample_def Let_def split: prod.split)

lemma quantity_unreadable [simp]: "measurement_quantity (measurement_unreadable m) = measurement_quantity m"
  by (cases m) simp_all

lemma gone_series: "series ` set (gone_readings known rs) = series ` set known - series ` set rs"
proof -
  have "series (r\<lparr>er_measurement := measurement_unreadable (er_measurement r)\<rparr>) = series r" for r
    by (simp add: series_def window_ms_def)
  hence "series ` set (gone_readings known rs) = series ` {old \<in> set known. \<forall>r\<in>set rs. series r \<noteq> series old}"
    by (simp add: gone_readings_def image_image list_ex_iff)
  thus ?thesis by (auto simp: image_iff) metis
qed

lemma gone_failed: "r \<in> set (gone_readings known rs) \<Longrightarrow> tm_status (exporter_sample r failed now) = ''failed''"
proof -
  assume "r \<in> set (gone_readings known rs)"
  then obtain old where "r = old\<lparr>er_measurement := measurement_unreadable (er_measurement old)\<rparr>" by (auto simp: gone_readings_def)
  thus ?thesis by (cases "er_measurement old") (simp_all add: exporter_sample_def)
qed

lemma failed_status: "tm_status (exporter_sample r True now) = ''failed''"
  by (simp add: exporter_sample_def Let_def split: prod.split)

lemma scrape_outcome_Inr:
  "scrape_outcome (Inr fresh) known = (fresh @ gone_readings known fresh, False, if fresh = [] then ''not_present'' else ''available'', fresh)"
  by (simp add: scrape_outcome_def)

lemma scrape_outcome_Inl: "\<exists>status. scrape_outcome (Inl e) known = (known, True, status, known)"
  by (cases e) (simp_all add: scrape_outcome_def)

definition reports_all :: "fetch_error + exporter_reading list \<Rightarrow> exporter_reading list \<Rightarrow> telemetry_sample list \<Rightarrow> bool" where
  \<comment> \<open>every series known before or served now is among the samples, and only what was served now
    may be valid\<close>
  "reports_all result known ss =
     (let fresh = (case result of Inl _ \<Rightarrow> [] | Inr rs \<Rightarrow> rs) in
      reading_series ` (set known \<union> set fresh) = sample_series ` set ss
      \<and> (\<forall>s\<in>set ss. tm_status s = ''failed'' \<and> tm_value s = None \<and> tm_state s = None
            \<or> sample_series s \<in> reading_series ` set fresh))"

lemma reading_series_image: "reading_series ` A = (\<lambda>(s, b, q, ms). (s, b, q, ms * 1000000)) ` series ` A"
  by (simp add: reading_series_def image_image)

lemma failed_no_value:
  "tm_status (exporter_sample r failed now) = ''failed'' \<Longrightarrow>
    tm_value (exporter_sample r failed now) = None \<and> tm_state (exporter_sample r failed now) = None"
  by (auto simp: exporter_sample_def Let_def split: prod.splits if_splits)

lemma scrape_outcome_reports:
  assumes "scrape_outcome result known = (rs, failed, status, known')"
  shows "reports_all result known (map (\<lambda>r. exporter_sample r failed now) rs)"
proof (cases result)
  case (Inl e)
  hence "rs = known" "failed" using assms scrape_outcome_Inl[of e known] by auto
  thus ?thesis using Inl failed_status failed_no_value by (simp add: reports_all_def image_image)
next
  case (Inr fresh)
  hence r: "rs = fresh @ gone_readings known fresh" "\<not> failed" using assms scrape_outcome_Inr by auto
  have "series ` (set known \<union> set fresh) = series ` set rs" using gone_series[of known fresh] r by auto
  hence "reading_series ` (set known \<union> set fresh) = reading_series ` set rs" by (simp add: reading_series_image)
  moreover have "\<forall>r\<in>set rs. tm_status (exporter_sample r failed now) = ''failed'' \<or> r \<in> set fresh"
    using gone_failed r by auto
  ultimately show ?thesis using Inr failed_no_value by (auto simp: reports_all_def image_image)
qed

lemma known_next:
  "scrape_outcome result (served_last history) = (rs, failed, status, known) \<Longrightarrow> known = served_last (result # history)"
  using scrape_outcome_Inr scrape_outcome_Inl by (cases result) (auto, metis prod.inject)

section \<open>Properties\<close>

text \<open>
  C16. Whatever an accepted exporter's host resolves to, a scrape sends at most one request, to
  addresses it pinned beforehand. Unless the operator allowed a remote endpoint, these are all
  loopback addresses and the request carries no credential. A body it returns came from one of the
  pinned addresses, is UTF-8, and is within the response limit.
\<close>

theorem local_exporter_stays_local:
  assumes "exporters_from_raw parse raws = Inr xs" and "x \<in> set xs"
    and "fetch (logged_fetch env) (ex_endpoint x) (w, []) = (r, w', trace)"
  shows "length trace \<le> 1
    \<and> list_all (\<lambda>(q, _). fr_pinned q \<noteq> [] \<and> (ep_allow_remote (ex_endpoint x)
        \<or> fr_authorization q = None \<and> list_all (\<lambda>(ip, _). is_loopback ip) (fr_pinned q))) trace
    \<and> (\<forall>text. r = Inr text \<longrightarrow> length text \<le> max_response_bytes \<and> valid_utf8 text
        \<and> (\<exists>q peer. trace = [(q, Some peer)] \<and> peer \<in> set (fr_pinned q)))"
proof -
  have x: "exporter_ok x" using exporters_from_raw_ok[OF assms(1)] assms(2) by (simp add: list_all_iff)
  have a: "answer_ok (ex_endpoint x) r trace" using fetch_ok[OF assms(3)] by simp
  have "fr_pinned q \<noteq> [] \<and> (ep_allow_remote (ex_endpoint x)
        \<or> fr_authorization q = None \<and> list_all (\<lambda>(ip, _). is_loopback ip) (fr_pinned q))" if "request_ok (ex_endpoint x) q" for q
    using x that by (auto simp: exporter_ok_def request_ok_def Let_def)
  hence "list_all (\<lambda>(q, _). fr_pinned q \<noteq> [] \<and> (ep_allow_remote (ex_endpoint x)
        \<or> fr_authorization q = None \<and> list_all (\<lambda>(ip, _). is_loopback ip) (fr_pinned q))) trace"
    using a by (simp add: answer_ok_def list_all_iff case_prod_unfold)
  thus ?thesis using x a by (auto simp: exporter_ok_def answer_ok_def Let_def)
qed

text \<open>
  C17. No series an exporter served disappears silently. After any results, the next scrape's batch
  has a sample for every series the last successful scrape served and every series served now,
  and for no other; what is not served now is marked failed and has no value. The scraper then
  knows what the last successful scrape served.
\<close>

theorem served_series_are_reported:
  assumes "scrape env x result now (served_last history, sources) w = ((known, sources'), w')"
  shows "known = served_last (result # history)
    \<and> (\<exists>ss. reports_all result (served_last history) ss
        \<and> w' = (if ss = [] then w else case te_uuid env w of (i, w) \<Rightarrow> queue_batch env (batch_host i ss) w))"
proof -
  obtain rs failed status k where o: "scrape_outcome result (served_last history) = (rs, failed, status, k)"
    by (metis surj_pair)
  let ?ss = "map (\<lambda>r. exporter_sample r failed now) rs"
  have "known = k \<and> w' = (if ?ss = [] then w else case te_uuid env w of (i, w) \<Rightarrow> queue_batch env (batch_host i ?ss) w)"
    using assms o by (auto simp: scrape_def exporter_batch_def Let_def split: if_splits prod.splits)
  thus ?thesis using scrape_outcome_reports[OF o] known_next[OF o] by blast
qed

definition home_url :: exporter_url where
  "home_url = \<lparr>eu_text = ''http://node/metrics'', eu_scheme = ''http'', eu_username = [], eu_password = None,
     eu_host = Some ''node'', eu_port = Some 9100, eu_path = ''/metrics'', eu_query = None\<rparr>"

definition home_raw :: raw_exporter where
  "home_raw = \<lparr>rx_url = Some ''http://node/metrics'', rx_allow_remote = None, rx_bearer_token_file = None,
     rx_interval_seconds = None, rx_timeout_seconds = None\<rparr>"

definition home_exporter :: exporter where
  "home_exporter = \<lparr>ex_endpoint = \<lparr>ep_url = home_url, ep_allow_remote = False, ep_bearer_token_file = None,
     ep_timeout = secs 10, ep_max_bytes = max_response_bytes\<rparr>, ex_interval = secs 60\<rparr>"

definition home_network :: "(unit, nat) fetch_env" where
  \<comment> \<open>the name resolves to 127.0.0.1, which answers an empty body\<close>
  "home_network = \<lparr>f_now = (\<lambda>w. (w, w + 1)), f_parse_ip = (\<lambda>_. None),
     f_lookup = (\<lambda>_ p _ w. (Some (Inr [(IpV4 0x7F000001, p)]), w)), f_build = (\<lambda>_ _. None),
     f_read_file = (\<lambda>_ w. (Inl (Text []), w)), f_header_value = (\<lambda>_. True), f_send = (\<lambda>_ w. (Inr (), w)),
     f_peer = (\<lambda>_. Some (IpV4 0x7F000001, 9100)), f_status = (\<lambda>_. 200), f_read_to_end = (\<lambda>_ _ w. (Inr [], w))\<rparr>"

lemma home_accepted: "exporters_from_raw (\<lambda>_. Some home_url) [home_raw] = Inr [home_exporter]"
  by (simp add: exporters_from_raw_def check_exporter_def home_raw_def home_url_def home_exporter_def exporters_max_def
      max_source_chars_def char_count_def is_continuation_def byte_of_def interval_default_def exporter_timeout_default_def
      exporter_timeout_max_def max_response_bytes_def)

definition home_request :: fetch_request where
  "home_request = \<lparr>fr_url = home_url, fr_host = ''node'', fr_pinned = [(IpV4 0x7F000001, 9100)],
     fr_timeout = secs 10 - 1, fr_authorization = None\<rparr>"

lemma home_fetched: "fetch (logged_fetch home_network) (ex_endpoint home_exporter) (0, [])
    = (Inr [], 2, [(home_request, Some (IpV4 0x7F000001, 9100))])"
  by (simp add: fetch_def fetch_from_def fetch_answer_def fetch_body_def resolve_exporter_def bearer_def check_destination_def
      logged_fetch_def lift_sent_def home_network_def home_exporter_def home_url_def home_request_def trim_brackets_def
      from_utf8_def valid_utf8.simps secs_def)

theorem local_exporter_stays_local_witness:
  "fr_authorization home_request = None \<and> list_all (\<lambda>(ip, _). is_loopback ip) (fr_pinned home_request)"
  using local_exporter_stays_local[OF home_accepted _ home_fetched] by (simp add: home_exporter_def)

definition dcmi :: exporter_reading where
  "dcmi = \<lparr>er_mapping = ipmi_exporter_name, er_sensor = ''ipmi_exporter/node:9100/dcmi'', er_boundary = HostInput,
     er_supply = None, er_measurement = EWatts (Some (Finite 250)), er_window_seconds = Finite 0\<rparr>"

definition quiet_telemetry :: "nat telemetry_env" where
  "quiet_telemetry = \<lparr>te_uuid = (\<lambda>w. (dec w, Suc w)), te_to_vec = (\<lambda>_. Some []), te_sink = (\<lambda>_ _ w. w + 10),
     te_checked_sub = (\<lambda>_ _. None), te_stopped = (\<lambda>w. (False, w)), te_now = (\<lambda>w. (0, w)), te_utc_now = (\<lambda>w. (0, w)),
     te_sleep = (\<lambda>_ w. w), te_sysfs = (\<lambda>w. (tiny_sysfs ''hwmon0'', w))\<rparr>"

theorem served_series_are_reported_witness:
  "\<exists>ss. reports_all (Inr []) [dcmi] ss
    \<and> (11 :: nat) = (if ss = [] then 0 else case te_uuid quiet_telemetry 0 of (i, w) \<Rightarrow> queue_batch quiet_telemetry (batch_host i ss) w)"
proof -
  have "scrape quiet_telemetry home_exporter (Inr []) 60 (served_last [Inr [dcmi]], []) 0
      = (([], publish_source (exporter_source home_exporter) ''not_present'' []), 11)"
    by (simp add: scrape_def scrape_outcome_def gone_readings_def exporter_batch_def quiet_telemetry_def queue_batch_def max_telemetry_bytes_def)
  from served_series_are_reported[OF this] show ?thesis by simp
qed

end
