(* ===== verification/Exposition_Correct.thy ===== *)
theory Exposition_Correct
  imports Exposition
begin

text \<open>
  What an exporter writes in the text exposition format is what the agent's reader gives back,
  whatever the label values hold, and no response makes the reader keep more than its limits.
\<close>

section \<open>Trimming\<close>

definition graphic :: "char \<Rightarrow> bool" where
  "graphic c = (33 \<le> byte_of c \<and> byte_of c \<le> 126)"

lemma ws_len_graphic: "graphic c \<Longrightarrow> ws_len (map byte_of (c # cs)) = 0"
  by (cases cs; cases "tl cs") (auto simp: graphic_def)

lemma trim_start_graphic: "graphic c \<Longrightarrow> trim_start (c # cs) = c # cs"
  by (subst trim_start.simps) (simp add: ws_len_graphic del: list.map)

lemma ws_len_rev_eats: "x \<in> set (take (ws_len_rev bs) bs) \<Longrightarrow> \<not> (33 \<le> x \<and> x \<le> 126)"
  by (cases bs rule: ws_len_rev.cases) (auto split: if_splits)

lemma trim_start_rev_graphic:
  assumes "graphic c"
  shows "\<exists>ys. trim_start_rev (xs @ [c]) = ys @ [c]"
proof (induction "length xs" arbitrary: xs rule: less_induct)
  case less
  let ?s = "xs @ [c]" and ?n = "ws_len_rev (map byte_of (xs @ [c]))"
  show ?case
  proof (cases "?n = 0")
    case True thus ?thesis by (subst trim_start_rev.simps) (simp add: Let_def)
  next
    case False
    have "?n \<le> length xs"
    proof (rule ccontr)
      assume "\<not> ?n \<le> length xs"
      hence "byte_of c \<in> set (take ?n (map byte_of ?s))" by (simp add: take_map)
      thus False using ws_len_rev_eats assms by (fastforce simp: graphic_def)
    qed
    hence d: "drop ?n ?s = drop ?n xs @ [c]" "length (drop ?n xs) < length xs" using False by auto
    have "trim_start_rev ?s = trim_start_rev (drop ?n ?s)" using False by (subst trim_start_rev.simps) (simp add: Let_def)
    thus ?thesis using less[OF d(2)] d(1) by simp
  qed
qed

lemma trim_end_graphic: "graphic c \<Longrightarrow> trim_end (s @ [c]) = s @ [c]"
proof -
  assume c: "graphic c"
  have "ws_len_rev (map byte_of (c # rev s)) = 0"
    using c by (cases "rev s"; cases "tl (rev s)") (auto simp: graphic_def)
  hence "trim_start_rev (c # rev s) = c # rev s" by (subst trim_start_rev.simps) (simp add: Let_def del: list.map)
  thus ?thesis by (simp add: trim_end_def)
qed

lemma trim_kept:
  assumes "s \<noteq> []" "graphic (hd s)" "graphic (last s)"
  shows "trim s = s"
proof -
  obtain c cs where s: "s = c # cs" using assms(1) by (cases s) auto
  have "trim_start s = s" using trim_start_graphic assms s by simp
  thus ?thesis using trim_end_graphic[of "last s" "butlast s"] assms by (simp add: trim_def)
qed

lemma trim_comment: "\<exists>t. trim (CHR ''#'' # s) = CHR ''#'' # t"
proof -
  have h: "graphic (CHR ''#'')" by (simp add: graphic_def byte_of_def)
  obtain ys where "trim_start_rev (rev s @ [CHR ''#'']) = ys @ [CHR ''#'']" using trim_start_rev_graphic[OF h] by blast
  hence "trim (CHR ''#'' # s) = CHR ''#'' # rev ys" using trim_start_graphic[OF h] by (simp add: trim_def trim_end_def)
  thus ?thesis by blast
qed

section \<open>The format\<close>

fun escape :: "string \<Rightarrow> string" where
  "escape [] = []"
| "escape (c # cs) =
     (if c = newline then [backslash, CHR ''n'']
      else if c = backslash then [backslash, backslash]
      else if c = quote_char then [backslash, quote_char]
      else [c]) @ escape cs"

definition write_label :: "string \<times> string \<Rightarrow> string" where
  "write_label l = fst l @ ''='' @ [quote_char] @ escape (snd l) @ [quote_char]"

fun write_labels :: "(string \<times> string) list \<Rightarrow> string" where
  "write_labels [] = ''}''"
| "write_labels [l] = write_label l @ ''}''"
| "write_labels (l # ls) = write_label l @ '','' @ write_labels ls"

datatype exposed = Comment string | Series sample string
  \<comment> \<open>a series with the text of its value\<close>

fun write_line :: "exposed \<Rightarrow> string" where
  "write_line (Comment c) = ''#'' @ c"
| "write_line (Series s v) =
     smp_name s @ (if smp_labels s = [] then [] else ''{'' @ write_labels (smp_labels s)) @ '' '' @ v"

definition write_exposition :: "exposed list \<Rightarrow> string" where
  "write_exposition ls = concat (map (\<lambda>l. write_line l @ [newline]) ls)"

definition label_name :: "string \<Rightarrow> bool" where
  "label_name n = (valid_metric_name n \<and> CHR '':'' \<notin> set n)"

fun exposable :: "exposed \<Rightarrow> bool" where
  "exposable (Comment c) = (newline \<notin> set c)"
| "exposable (Series s v) =
     (valid_metric_name (smp_name s) \<and> ordered (smp_labels s) \<and> list_all (label_name \<circ> fst) (smp_labels s)
      \<and> v \<noteq> [] \<and> list_all graphic v \<and> parse_value v = Some (smp_value s))"

fun series_of :: "exposed list \<Rightarrow> sample list" where
  "series_of [] = []"
| "series_of (Comment _ # ls) = series_of ls"
| "series_of (Series s _ # ls) = s # series_of ls"

section \<open>Names\<close>

lemma name_char_graphic: "name_char c \<Longrightarrow> graphic c" "name_start c \<Longrightarrow> name_char c"
  by (auto simp: name_char_def name_start_def graphic_def is_ascii_alphanumeric_def is_ascii_alphabetic_def
      is_ascii_digit_def is_ascii_lowercase_def is_ascii_uppercase_def byte_of_def)

lemma name_char_plain: "name_char c \<Longrightarrow> \<not> ends_name c \<and> c \<noteq> CHR ''='' \<and> c \<noteq> newline \<and> c \<noteq> CHR ''}'' \<and> c \<noteq> CHR ''#''"
  by (auto simp: name_char_def ends_name_def newline_def is_ascii_whitespace_def is_ascii_alphanumeric_def
      is_ascii_alphabetic_def is_ascii_digit_def is_ascii_lowercase_def is_ascii_uppercase_def byte_of_def)

lemma metric_name:
  assumes "valid_metric_name s"
  shows "s \<noteq> []" "list_all name_char s" "graphic (hd s)" "graphic (last s)"
proof -
  show n: "s \<noteq> []" "list_all name_char s"
    using assms name_char_graphic(2) by (auto simp: valid_metric_name_def split: list.splits)
  thus "graphic (hd s)" "graphic (last s)"
    using name_char_graphic(1) by (auto simp: list_all_iff)
qed

lemma trim_metric_name: "valid_metric_name s \<Longrightarrow> trim s = s"
  using trim_kept metric_name by blast

section \<open>Reading labels\<close>

lemma label_value_escape: "label_value acc (escape v @ quote_char # rest) = Inr (acc @ v, rest)"
  by (induction v arbitrary: acc) (auto simp: newline_def backslash_def quote_char_def)

lemma graphic_marks: "graphic quote_char" "graphic (CHR '','')" "graphic (CHR ''}'')"
  by (simp_all add: graphic_def quote_char_def byte_of_def)

lemma one_label_written:
  assumes "label_name n"
  shows "one_label (write_label (n, v) @ rest) = Inr (n, v, rest)"
proof -
  have n: "valid_metric_name n" "CHR '':'' \<notin> set n" using assms by (simp_all add: label_name_def)
  have "CHR ''='' \<notin> set n" using metric_name(2)[OF n(1)] name_char_plain by (auto simp: list_all_iff)
  hence "split_once (CHR ''='') (write_label (n, v) @ rest) = Some (n, quote_char # escape v @ quote_char # rest)"
    using split_once_append[of "CHR ''=''" n] by (simp add: write_label_def)
  thus ?thesis using n trim_metric_name trim_start_graphic[OF graphic_marks(1)] label_value_escape[of "[]"]
    by (simp add: one_label_def)
qed

lemma written_labels_start:
  assumes "list_all (label_name \<circ> fst) (l # ls)"
  shows "\<exists>c cs. write_labels (l # ls) = c # cs \<and> name_char c"
proof -
  have "valid_metric_name (fst l)" using assms by (simp add: label_name_def)
  hence "fst l \<noteq> []" "list_all name_char (fst l)" using metric_name(1,2) by blast+
  then obtain c cs where "fst l = c # cs" "name_char c" by (cases "fst l") auto
  thus ?thesis by (cases ls) (simp_all add: write_label_def)
qed

lemma labels_written:
  assumes "list_all (label_name \<circ> fst) ls" "ordered (acc @ ls)" "length acc + length ls \<le> m"
  shows "labels m acc (write_labels ls @ rest) = Inr (acc @ ls, rest)"
  using assms
proof (induction ls arbitrary: acc)
  case Nil
  thus ?case using trim_start_graphic[OF graphic_marks(3), of rest] by (subst labels.simps) (simp add: Let_def)
next
  case (Cons l ls)
  obtain n v where l: "l = (n, v)" by fastforce
  obtain c cs where c: "write_labels (l # ls) = c # cs" "name_char c" using written_labels_start Cons.prems(1) by blast
  have t: "trim_start (write_labels (l # ls) @ rest) = write_labels (l # ls) @ rest" "c \<noteq> CHR ''}''"
    using c trim_start_graphic name_char_graphic(1) name_char_plain by simp_all
  let ?tail = "(case ls of [] \<Rightarrow> ''}'' | _ \<Rightarrow> '','' @ write_labels ls)"
  have w: "write_labels (l # ls) = write_label l @ ?tail" by (cases ls) simp_all
  have o: "one_label (write_labels (l # ls) @ rest) = Inr (n, v, ?tail @ rest)"
  proof -
    have "write_labels (l # ls) @ rest = write_label (n, v) @ ?tail @ rest" using w l by simp
    thus ?thesis using one_label_written[of n v "?tail @ rest"] Cons.prems(1) l by (simp only:) simp
  qed
  have s: "skip_comma (?tail @ rest) = write_labels ls @ rest"
    using trim_start_graphic[OF graphic_marks(2)] trim_start_graphic[OF graphic_marks(3)]
    by (cases ls) (simp_all add: skip_comma_def)
  have "btree_insert n v acc = acc @ [l]"
    using btree_insert_last[of acc n v] Cons.prems(2) l by (simp add: ordered_def sorted_wrt_append)
  hence "labels m acc (write_labels (l # ls) @ rest) = labels m (acc @ [l]) (write_labels ls @ rest)"
    using t o s c Cons.prems(3) by (subst labels.simps) (simp add: Let_def)
  also have "\<dots> = Inr ((acc @ [l]) @ ls, rest)" by (rule Cons.IH) (use Cons.prems in auto)
  finally show ?case by simp
qed

section \<open>Reading lines\<close>

lemma takeWhile_name:
  assumes "list_all name_char n" "ends_name c"
  shows "takeWhile (\<lambda>c. \<not> ends_name c) (n @ c # rest) = n" "dropWhile (\<lambda>c. \<not> ends_name c) (n @ c # rest) = c # rest"
  using assms name_char_plain by (induction n) auto

lemma first_word_graphic:
  assumes "v \<noteq> []" "list_all graphic v"
  shows "first_word ('' '' @ v) = Some v"
proof -
  have w: "\<not> is_ascii_whitespace c" if "graphic c" for c using that by (auto simp: graphic_def is_ascii_whitespace_def)
  obtain c cs where v: "v = c # cs" using assms(1) by (cases v) auto
  have d: "dropWhile is_ascii_whitespace ('' '' @ v) = v"
    using w assms(2) v by (simp add: is_ascii_whitespace_def byte_of_def)
  have t: "takeWhile (\<lambda>c. \<not> is_ascii_whitespace c) v = v" using w assms(2) by (simp add: takeWhile_eq_all_conv list_all_iff)
  show ?thesis unfolding first_word_def d t using assms(1) by simp
qed

lemma parse_sample_written:
  assumes "exposable (Series s v)" "length (smp_labels s) \<le> lim_labels lims"
  shows "parse_sample lims wanted number (write_line (Series s v)) = Inr (if wanted (smp_name s) then Some s else None)"
proof -
  have n: "valid_metric_name (smp_name s)" "list_all name_char (smp_name s)" using assms(1) metric_name by auto
  have "\<exists>c rest. write_line (Series s v) = smp_name s @ c # rest \<and> ends_name c
      \<and> labels_of lims (c # rest) = Inr (smp_labels s, '' '' @ v)"
  proof (cases "smp_labels s = []")
    case True
    thus ?thesis by (intro exI[of _ "CHR '' ''"] exI[of _ v])
        (simp add: labels_of_def starts_with_def ends_name_def is_ascii_whitespace_def byte_of_def)
  next
    case False
    thus ?thesis using labels_written[of "smp_labels s" "[]" "lim_labels lims" "'' '' @ v"] assms
      by (intro exI[of _ "CHR ''{''"] exI[of _ "write_labels (smp_labels s) @ '' '' @ v"])
        (simp add: labels_of_def starts_with_def ends_name_def)
  qed
  then obtain c rest where w: "write_line (Series s v) = smp_name s @ c # rest" "ends_name c"
    "labels_of lims (c # rest) = Inr (smp_labels s, '' '' @ v)" by blast
  have "first_word ('' '' @ v) = Some v" using first_word_graphic assms(1) by simp
  thus ?thesis using w n takeWhile_name[OF n(2) w(2)] assms(1)
    by (simp add: parse_sample_def Let_def del: write_line.simps append.simps)
qed

lemma newline_neq [simp]:
  "newline \<noteq> quote_char" "newline \<noteq> backslash" "newline \<noteq> CHR ''n''" "newline \<noteq> CHR ''=''" "newline \<noteq> CHR '',''"
  "newline \<noteq> CHR ''{''" "newline \<noteq> CHR ''}''" "newline \<noteq> CHR '' ''" "newline \<noteq> CHR ''#''"
  by (simp_all add: newline_def backslash_def quote_char_def)

lemma escape_no_newline: "newline \<notin> set (escape v)"
  by (induction v) simp_all

lemma write_label_no_newline:
  assumes "label_name (fst l)"
  shows "newline \<notin> set (write_label l)"
proof -
  have "newline \<notin> set (fst l)"
    using metric_name(2)[of "fst l"] assms name_char_plain[of newline] by (auto simp: label_name_def list_all_iff)
  thus ?thesis by (simp add: write_label_def escape_no_newline)
qed

lemma labels_no_newline: "list_all (label_name \<circ> fst) ls \<Longrightarrow> newline \<notin> set (write_labels ls)"
  by (induction ls rule: write_labels.induct) (simp_all add: write_label_no_newline)

lemma write_line_no_newline: "exposable l \<Longrightarrow> newline \<notin> set (write_line l)"
proof (cases l)
  case (Series s v)
  assume "exposable l"
  hence e: "valid_metric_name (smp_name s)" "list_all (label_name \<circ> fst) (smp_labels s)" "list_all graphic v"
    using Series by auto
  have "newline \<notin> set (smp_name s)" using metric_name(2)[OF e(1)] name_char_plain[of newline] by (auto simp: list_all_iff)
  moreover have "\<not> graphic newline" by (simp add: graphic_def newline_def byte_of_def)
  hence "newline \<notin> set v" using e(3) by (auto simp: list_all_iff)
  ultimately show ?thesis using labels_no_newline[OF e(2)] Series by simp
qed simp

lemma str_lines_written:
  "list_all exposable ls \<Longrightarrow> str_lines (write_exposition ls) = map (without_return \<circ> write_line) ls"
proof (induction ls)
  case (Cons l ls)
  have "write_exposition (l # ls) = write_line l @ newline # write_exposition ls" by (simp add: write_exposition_def)
  thus ?case using Cons write_line_no_newline[of l] by (subst str_lines.simps) simp
qed (simp add: write_exposition_def str_lines.simps)

lemma series_line:
  assumes "exposable (Series s v)"
  shows "trim (without_return (write_line (Series s v))) = write_line (Series s v)"
    "write_line (Series s v) \<noteq> []" "\<not> starts_with ''#'' (write_line (Series s v))"
proof -
  have n: "smp_name s \<noteq> []" "list_all name_char (smp_name s)" "graphic (hd (smp_name s))"
    using metric_name assms by auto
  have v: "graphic (last v)" "v \<noteq> []" using assms by (auto simp: list_all_iff)
  hence "last v \<noteq> carriage_return" by (auto simp: graphic_def carriage_return_def byte_of_def)
  moreover have "last (write_line (Series s v)) = last v" using v by simp
  ultimately have "strip_suffix [carriage_return] (write_line (Series s v)) = None"
    by (cases "strip_suffix [carriage_return] (write_line (Series s v))") (auto simp: strip_suffix_iff simp del: write_line.simps)
  hence "without_return (write_line (Series s v)) = write_line (Series s v)" by (simp add: without_return_def)
  thus "trim (without_return (write_line (Series s v))) = write_line (Series s v)"
    using trim_kept[of "write_line (Series s v)"] n v by simp
  obtain c cs where c: "smp_name s = c # cs" "name_char c" using n by (cases "smp_name s") auto
  thus "write_line (Series s v) \<noteq> []" "\<not> starts_with ''#'' (write_line (Series s v))"
    using name_char_plain by (auto simp: starts_with_def)
qed

lemma comment_line: "\<exists>t. trim (without_return (write_line (Comment c))) = CHR ''#'' # t"
proof -
  have "\<exists>r. without_return (CHR ''#'' # c) = CHR ''#'' # r"
  proof (cases "strip_suffix [carriage_return] (CHR ''#'' # c)")
    case (Some r)
    hence "CHR ''#'' # c = r @ [carriage_return]" by (simp add: strip_suffix_iff)
    hence "\<exists>r'. r = CHR ''#'' # r'" by (cases r) (auto simp: carriage_return_def)
    thus ?thesis using Some by (auto simp: without_return_def)
  qed (simp add: without_return_def)
  thus ?thesis using trim_comment by auto
qed

lemma parse_lines_written:
  assumes "list_all exposable ls" "list_all (\<lambda>s. length (smp_labels s) \<le> lim_labels lims) (series_of ls)"
    "n + length (series_of ls) \<le> lim_series lims"
    "length acc + length (filter (wanted \<circ> smp_name) (series_of ls)) \<le> lim_samples lims"
  shows "parse_lines lims wanted number n acc (map (without_return \<circ> write_line) ls)
    = Inr (acc @ filter (wanted \<circ> smp_name) (series_of ls))"
  using assms
proof (induction ls arbitrary: number n acc)
  case (Cons l ls)
  show ?case
  proof (cases l)
    case (Comment c)
    obtain t where "trim (without_return (write_line l)) = CHR ''#'' # t" using comment_line Comment by blast
    thus ?thesis using Cons.IH[of n acc "number + 1"] Cons.prems Comment by (simp add: starts_with_def comp_def del: write_line.simps)
  next
    case (Series s v)
    have e: "exposable (Series s v)" "length (smp_labels s) \<le> lim_labels lims" using Cons.prems Series by auto
    note line = series_line[OF e(1)] parse_sample_written[OF e, of wanted number]
    show ?thesis
    proof (cases "wanted (smp_name s)")
      case True
      have "parse_lines lims wanted (number + 1) (n + 1) (acc @ [s]) (map (without_return \<circ> write_line) ls)
        = Inr ((acc @ [s]) @ filter (wanted \<circ> smp_name) (series_of ls))"
        by (rule Cons.IH) (use Cons.prems Series True in auto)
      thus ?thesis using line True Series Cons.prems by (simp add: Let_def comp_def del: write_line.simps)
    next
      case False
      have "parse_lines lims wanted (number + 1) (n + 1) acc (map (without_return \<circ> write_line) ls)
        = Inr (acc @ filter (wanted \<circ> smp_name) (series_of ls))"
        by (rule Cons.IH) (use Cons.prems Series False in auto)
      thus ?thesis using line False Series Cons.prems by (simp add: Let_def comp_def del: write_line.simps)
    qed
  qed
qed simp

section \<open>Any response\<close>

lemma length_btree_insert: "length (btree_insert k v m) \<le> Suc (length m)"
  by (induction k v m rule: btree_insert.induct) auto

lemma labels_bounded:
  assumes "labels m ls rest = Inr (ls', rest')" "length ls \<le> m" "ordered ls"
  shows "length ls' \<le> m \<and> ordered ls'"
  using assms
proof (induction m ls rest rule: labels.induct)
  case (1 m ls rest)
  show ?case
  proof (cases "strip_prefix ''}'' (trim_start rest)")
    case (Some after)
    thus ?thesis using 1 by (simp add: labels.simps[of m ls rest] Let_def)
  next
    case None
    then obtain n v r where o: "one_label (trim_start rest) = Inr (n, v, r)"
      using "1.prems"(1) by (auto simp: labels.simps[of m ls rest] Let_def split: sum.splits)
    hence i: "length ls \<noteq> m" "labels m (btree_insert n v ls) (skip_comma r) = Inr (ls', rest')"
      using "1.prems"(1) None by (auto simp: labels.simps[of m ls rest] Let_def split: if_splits)
    moreover have "length (btree_insert n v ls) \<le> m" using length_btree_insert[of n v ls] i(1) "1.prems"(2) by simp
    ultimately show ?thesis using "1.IH"[OF refl None o refl refl] "1.prems"(3) by blast
  qed
qed

definition acceptable :: "limits \<Rightarrow> (string \<Rightarrow> bool) \<Rightarrow> sample \<Rightarrow> bool" where
  "acceptable lims wanted s = (wanted (smp_name s) \<and> valid_metric_name (smp_name s)
     \<and> length (smp_labels s) \<le> lim_labels lims \<and> ordered (smp_labels s))"

lemma parse_sample_acceptable:
  assumes "parse_sample lims wanted number line = Inr (Some s)"
  shows "acceptable lims wanted s"
proof -
  let ?n = "takeWhile (\<lambda>c. \<not> ends_name c) line" and ?r = "dropWhile (\<lambda>c. \<not> ends_name c) line"
  obtain ls rest v where l: "labels_of lims ?r = Inr (ls, rest)" "s = \<lparr>smp_name = ?n, smp_labels = ls, smp_value = v\<rparr>"
    "valid_metric_name ?n" "wanted ?n"
    using assms by (auto simp: parse_sample_def Let_def split: if_splits sum.splits option.splits)
  have "length ls \<le> lim_labels lims \<and> ordered ls"
    using l(1) labels_bounded by (auto simp: labels_of_def split: if_splits)
  thus ?thesis using l by (simp add: acceptable_def)
qed

text \<open>No response makes the reader keep more samples or labels than its limits, or one nobody wants.\<close>

lemma parse_lines_bounded:
  assumes "parse_lines lims wanted number n acc lines = Inr ss" "length acc \<le> lim_samples lims"
    "list_all (acceptable lims wanted) acc"
  shows "length ss \<le> lim_samples lims \<and> list_all (acceptable lims wanted) ss"
  using assms
proof (induction lims wanted number n acc lines rule: parse_lines.induct)
  case (2 lims wanted number n acc line lines)
  thus ?case using parse_sample_acceptable
    by (auto simp: Let_def split: if_splits sum.splits option.splits)
qed simp

lemma parse_exposition_bounded:
  "parse_exposition text lims wanted = Inr ss \<Longrightarrow> length ss \<le> lim_samples lims \<and> list_all (acceptable lims wanted) ss"
  using parse_lines_bounded by (fastforce simp: parse_exposition_def)

section \<open>Properties\<close>

text \<open>
  C19. What an exporter writes in the text exposition format, with comments and any text in its
  label values, is read back exactly: the wanted series with their names, labels and values, in
  order, whenever the response is within the reader's limits.
\<close>

theorem exposition_round_trip:
  assumes "list_all exposable ls"
    and "list_all (\<lambda>s. length (smp_labels s) \<le> lim_labels lims) (series_of ls)"
    and "length (series_of ls) \<le> lim_series lims"
    and "length (filter (wanted \<circ> smp_name) (series_of ls)) \<le> lim_samples lims"
  shows "parse_exposition (write_exposition ls) lims wanted = Inr (filter (wanted \<circ> smp_name) (series_of ls))"
  using parse_lines_written[of ls lims 0 "[]" wanted 0] assms by (simp add: parse_exposition_def str_lines_written)

lemma parse_one: "parse_value ''1'' = Some (Finite 1)"
proof -
  have "to_f64 1 = Finite 1" using f64_of_u64_exact[of 1] by (simp add: f64_of_u64_def)
  moreover have "parse_number ''1'' = Some 1"
    by (simp add: parse_number_def parse_exponent_def is_ascii_digit_def byte_of_def decimal_value_def digit_value_def)
  ultimately show ?thesis by (simp add: parse_value_def parse_f64_def take_sign_def to_ascii_lowercase_def
        is_ascii_uppercase_def byte_of_def)
qed

theorem exposition_round_trip_witness:
  "parse_exposition (write_exposition [Comment '' HELP up Whether it is up.'',
      Series \<lparr>smp_name = ''up'', smp_labels = [(''job'', ''a'' @ [newline, quote_char])], smp_value = Finite 1\<rparr> ''1''])
      exposition_limits (\<lambda>_. True)
   = Inr [\<lparr>smp_name = ''up'', smp_labels = [(''job'', ''a'' @ [newline, quote_char])], smp_value = Finite 1\<rparr>]"
proof -
  let ?s = "\<lparr>smp_name = ''up'', smp_labels = [(''job'', ''a'' @ [newline, quote_char])], smp_value = Finite 1\<rparr>"
  have "exposable (Comment '' HELP up Whether it is up.'')" by (simp add: newline_def)
  moreover have "exposable (Series ?s ''1'')"
    by (simp add: parse_one valid_metric_name_def label_name_def name_start_def name_char_def graphic_def
        is_ascii_alphanumeric_def is_ascii_alphabetic_def is_ascii_lowercase_def byte_of_def ordered_def)
  ultimately show ?thesis
    using exposition_round_trip[of "[Comment '' HELP up Whether it is up.'', Series ?s ''1'']" exposition_limits "\<lambda>_. True"]
    by (simp add: exposition_limits_def)
qed

end
