(* ===== verification/Pdu_Mibs.thy ===== *)
theory Pdu_Mibs
  imports Snmp_Mibs Power_Collector
begin

text \<open>
  Turning what a PDU answered into its identity and power readings (\<open>power/pdu/mibs.rs\<close>): Raritan's
  PDU2-MIB and APC's rPDU2 tables. An OID component is a \<open>u32\<close>, here a \<open>nat\<close>.
\<close>

section \<open>Object identifiers\<close>

definition pdu_mapping_version :: nat where "pdu_mapping_version = 1"
definition sys_object_id :: oid where "sys_object_id = [1, 3, 6, 1, 2, 1, 1, 2, 0]"
definition pdu_scalars :: "oid list" where "pdu_scalars = [sys_object_id, sys_name]"
definition max_readings :: nat where "max_readings = 1000"

definition raritan_enterprise :: oid where "raritan_enterprise = [1, 3, 6, 1, 4, 1, 13742]"
definition apc_enterprise :: oid where "apc_enterprise = [1, 3, 6, 1, 4, 1, 318]"
definition px_manufacturer :: oid where "px_manufacturer = [1, 3, 6, 1, 4, 1, 13742, 6, 3, 2, 1, 1, 2]"
definition px_model :: oid where "px_model = [1, 3, 6, 1, 4, 1, 13742, 6, 3, 2, 1, 1, 3]"
definition px_serial :: oid where "px_serial = [1, 3, 6, 1, 4, 1, 13742, 6, 3, 2, 1, 1, 4]"
definition px_inlet_label :: oid where "px_inlet_label = [1, 3, 6, 1, 4, 1, 13742, 6, 3, 3, 3, 1, 2]"
definition px_inlet_pole_line :: oid where "px_inlet_pole_line = [1, 3, 6, 1, 4, 1, 13742, 6, 3, 3, 5, 1, 1]"
definition px_inlet_digits :: oid where "px_inlet_digits = [1, 3, 6, 1, 4, 1, 13742, 6, 3, 3, 4, 1, 7]"
definition px_inlet_pole_digits :: oid where "px_inlet_pole_digits = [1, 3, 6, 1, 4, 1, 13742, 6, 3, 3, 6, 1, 7]"
definition px_outlet_label :: oid where "px_outlet_label = [1, 3, 6, 1, 4, 1, 13742, 6, 3, 5, 3, 1, 2]"
definition px_outlet_digits :: oid where "px_outlet_digits = [1, 3, 6, 1, 4, 1, 13742, 6, 3, 5, 4, 1, 7]"
definition px_inlet_available :: oid where "px_inlet_available = [1, 3, 6, 1, 4, 1, 13742, 6, 5, 2, 3, 1, 2]"
definition px_inlet_state :: oid where "px_inlet_state = [1, 3, 6, 1, 4, 1, 13742, 6, 5, 2, 3, 1, 3]"
definition px_inlet_value :: oid where "px_inlet_value = [1, 3, 6, 1, 4, 1, 13742, 6, 5, 2, 3, 1, 4]"
definition px_inlet_pole_available :: oid where "px_inlet_pole_available = [1, 3, 6, 1, 4, 1, 13742, 6, 5, 2, 4, 1, 2]"
definition px_inlet_pole_state :: oid where "px_inlet_pole_state = [1, 3, 6, 1, 4, 1, 13742, 6, 5, 2, 4, 1, 3]"
definition px_inlet_pole_value :: oid where "px_inlet_pole_value = [1, 3, 6, 1, 4, 1, 13742, 6, 5, 2, 4, 1, 4]"
definition px_outlet_available :: oid where "px_outlet_available = [1, 3, 6, 1, 4, 1, 13742, 6, 5, 4, 3, 1, 2]"
definition px_outlet_state :: oid where "px_outlet_state = [1, 3, 6, 1, 4, 1, 13742, 6, 5, 4, 3, 1, 3]"
definition px_outlet_value :: oid where "px_outlet_value = [1, 3, 6, 1, 4, 1, 13742, 6, 5, 4, 3, 1, 4]"
definition apc_ident_module :: oid where "apc_ident_module = [1, 3, 6, 1, 4, 1, 318, 1, 1, 26, 2, 1, 2]"
definition apc_ident_model :: oid where "apc_ident_model = [1, 3, 6, 1, 4, 1, 318, 1, 1, 26, 2, 1, 8]"
definition apc_ident_serial :: oid where "apc_ident_serial = [1, 3, 6, 1, 4, 1, 318, 1, 1, 26, 2, 1, 9]"
definition apc_device_module :: oid where "apc_device_module = [1, 3, 6, 1, 4, 1, 318, 1, 1, 26, 4, 3, 1, 2]"
definition apc_device_power :: oid where "apc_device_power = [1, 3, 6, 1, 4, 1, 318, 1, 1, 26, 4, 3, 1, 5]"
definition apc_device_apparent_power :: oid where "apc_device_apparent_power = [1, 3, 6, 1, 4, 1, 318, 1, 1, 26, 4, 3, 1, 16]"
definition apc_phase_module :: oid where "apc_phase_module = [1, 3, 6, 1, 4, 1, 318, 1, 1, 26, 6, 3, 1, 2]"
definition apc_phase_number :: oid where "apc_phase_number = [1, 3, 6, 1, 4, 1, 318, 1, 1, 26, 6, 3, 1, 3]"
definition apc_phase_current :: oid where "apc_phase_current = [1, 3, 6, 1, 4, 1, 318, 1, 1, 26, 6, 3, 1, 5]"
definition apc_metered_module :: oid where "apc_metered_module = [1, 3, 6, 1, 4, 1, 318, 1, 1, 26, 9, 4, 3, 1, 2]"
definition apc_metered_number :: oid where "apc_metered_number = [1, 3, 6, 1, 4, 1, 318, 1, 1, 26, 9, 4, 3, 1, 4]"
definition apc_metered_current :: oid where "apc_metered_current = [1, 3, 6, 1, 4, 1, 318, 1, 1, 26, 9, 4, 3, 1, 6]"
definition apc_metered_power :: oid where "apc_metered_power = [1, 3, 6, 1, 4, 1, 318, 1, 1, 26, 9, 4, 3, 1, 7]"
definition apc_switched_module :: oid where "apc_switched_module = [1, 3, 6, 1, 4, 1, 318, 1, 1, 26, 9, 2, 3, 1, 2]"
definition apc_switched_number :: oid where "apc_switched_number = [1, 3, 6, 1, 4, 1, 318, 1, 1, 26, 9, 2, 3, 1, 4]"
definition apc_switched_state :: oid where "apc_switched_state = [1, 3, 6, 1, 4, 1, 318, 1, 1, 26, 9, 2, 3, 1, 5]"

definition raritan_columns :: "oid list" where
  "raritan_columns =
     [px_manufacturer, px_model, px_serial, px_inlet_label, px_inlet_pole_line, px_inlet_digits,
     px_inlet_pole_digits, px_outlet_label, px_outlet_digits, px_inlet_available, px_inlet_state,
     px_inlet_value, px_inlet_pole_available, px_inlet_pole_state, px_inlet_pole_value, px_outlet_available,
     px_outlet_state, px_outlet_value]"

definition apc_columns :: "oid list" where
  "apc_columns =
     [apc_ident_module, apc_ident_model, apc_ident_serial, apc_device_module, apc_device_power,
     apc_device_apparent_power, apc_phase_module, apc_phase_number, apc_phase_current, apc_metered_module,
     apc_metered_number, apc_metered_current, apc_metered_power, apc_switched_module, apc_switched_number,
     apc_switched_state]"

definition px_rms_current :: nat where "px_rms_current = 1"
definition px_active_power :: nat where "px_active_power = 5"
definition px_apparent_power :: nat where "px_apparent_power = 6"
definition px_power_factor :: nat where "px_power_factor = 7"
definition px_on_off_type :: nat where "px_on_off_type = 14"
definition px_state_unavailable :: int where "px_state_unavailable = -1"
definition px_state_on :: int where "px_state_on = 7"
definition px_state_off :: int where "px_state_off = 8"
definition truth_true :: int where "truth_true = 1"

section \<open>Vendors\<close>

datatype vendor = Raritan | Apc

definition detect_vendor :: "answers \<Rightarrow> vendor option" where
  "detect_vendor answers =
     (case scalar answers sys_object_id of
        Some (ObjectId oid) \<Rightarrow>
          if prefix raritan_enterprise oid then Some Raritan
          else if prefix apc_enterprise oid then Some Apc
          else None
      | _ \<Rightarrow> None)"

fun vendor_columns :: "vendor \<Rightarrow> oid list" where
  "vendor_columns Raritan = raritan_columns"
| "vendor_columns Apc = apc_columns"

fun vendor_mapping :: "vendor \<Rightarrow> string" where
  "vendor_mapping Raritan = ''raritan_pdu2''"
| "vendor_mapping Apc = ''apc_rpdu2''"

record pdu_facts =
  pd_mapping :: string
  pd_vendor :: "string option"
  pd_model :: "string option"
  pd_serial_number :: string
  pd_hostname :: "string option"
  pd_readings :: "power_reading list"

section \<open>Rows\<close>

fun strip_index :: "nat list \<Rightarrow> nat list \<Rightarrow> nat list option" where
  \<comment> \<open>\<open>slice::strip_prefix\<close>\<close>
  "strip_index [] xs = Some xs"
| "strip_index (p # ps) [] = None"
| "strip_index (p # ps) (x # xs) = (if p = x then strip_index ps xs else None)"

definition rows_under :: "answers \<Rightarrow> oid \<Rightarrow> nat list \<Rightarrow> (nat list, snmp_value) btree" where
  "rows_under answers col pre =
     btree_collect (List.map_filter (\<lambda>(index, v). map_option (\<lambda>rest. (rest, v)) (strip_index pre index)) (column answers col))"

definition by_first :: "(nat list, snmp_value) btree \<Rightarrow> (snmp_value \<Rightarrow> 'a option) \<Rightarrow> (nat, 'a) btree" where
  "by_first rows read =
     btree_collect (List.map_filter (\<lambda>(index, v). case index of [i] \<Rightarrow> map_option (\<lambda>x. (i, x)) (read v) | _ \<Rightarrow> None) rows)"

definition row_value :: "answers \<Rightarrow> oid \<Rightarrow> nat \<Rightarrow> snmp_value option" where
  "row_value answers col row = map_option snd (find (\<lambda>(index, _). index = [row]) (column answers col))"

section \<open>Raritan\<close>

record px_measurement =
  px_state :: "int option"
  px_raw :: "int option"

definition lookup_integer :: "(nat list, snmp_value) btree \<Rightarrow> nat list \<Rightarrow> int option" where
  "lookup_integer rows index = Option.bind (map_of rows index) integer_of"

definition px_digits :: "int option \<Rightarrow> nat option" where
  \<comment> \<open>\<open>u32::try_from\<close>\<close>
  "px_digits d = Option.bind d (\<lambda>d. if 0 \<le> d \<and> d \<le> int u32_max then Some (nat d) else None)"

definition px_sensors ::
  "answers \<Rightarrow> oid \<Rightarrow> oid \<Rightarrow> oid \<Rightarrow> oid \<Rightarrow> (nat list \<times> px_measurement \<times> nat option) list" where
  "px_sensors answers available state value_col digits =
     (let states = rows_under answers state [1]; vals = rows_under answers value_col [1];
          digits = rows_under answers digits [1]
      in map (\<lambda>(index, _). (index, \<lparr>px_state = lookup_integer states index, px_raw = lookup_integer vals index\<rparr>,
                            px_digits (lookup_integer digits index)))
           (filter (\<lambda>(_, present). integer_of present = Some truth_true) (rows_under answers available [1])))"

definition px_quantity :: "nat \<Rightarrow> string option" where
  "px_quantity sensor_type =
     (if sensor_type = px_rms_current then Some ''current''
      else if sensor_type = px_active_power then Some ''real_power''
      else if sensor_type = px_apparent_power then Some ''apparent_power''
      else if sensor_type = px_power_factor then Some ''power_factor''
      else None)"

definition f64_of_i64 :: "int \<Rightarrow> f64" where
  "f64_of_i64 v = to_f64 (of_int v)"

definition px_value :: "px_measurement \<Rightarrow> nat option \<Rightarrow> measurement" where
  "px_value m digits =
     (case (px_state m, px_raw m, digits) of
        (Some state, Some v, Some d) \<Rightarrow>
          if state \<noteq> px_state_unavailable \<and> d \<le> 6 then MValue (f64_scale (\<lambda>x. x / 10 ^ d) (f64_of_i64 v)) else MFailed
      | _ \<Rightarrow> MFailed)"

definition px_on_off :: "px_measurement \<Rightarrow> measurement" where
  "px_on_off m =
     (if px_state m = Some px_state_on then MState ''on''
      else if px_state m = Some px_state_off then MState ''off''
      else MFailed)"

record inlets =
  in_labels :: "(nat, string) btree"
  in_several :: bool

definition inlets_of :: "answers \<Rightarrow> inlets" where
  "inlets_of answers =
     (let inlet_names = by_first (rows_under answers px_inlet_label [1]) text_of;
          measured = remdups (List.map_filter (\<lambda>(index, _). case index of i # _ \<Rightarrow> Some i | [] \<Rightarrow> None)
            (rows_under answers px_inlet_available [1]))
      in \<lparr>in_labels = inlet_names, in_several = (1 < max (length inlet_names) (length measured))\<rparr>)"

definition inlet_component :: "inlets \<Rightarrow> nat \<Rightarrow> (string \<times> string) option" where
  "inlet_component inl inlet =
     (if in_several inl
      then Some (''power_port'', case map_of (in_labels inl) inlet of Some l \<Rightarrow> l | None \<Rightarrow> ''I'' @ dec inlet)
      else None)"

definition inlet_reading :: "inlets \<Rightarrow> nat list \<times> px_measurement \<times> nat option \<Rightarrow> power_reading option" where
  "inlet_reading inl = (\<lambda>(index, m, digits).
     case index of
       [inlet, sensor_type] \<Rightarrow>
         map_option (\<lambda>quantity. \<lparr>pr_sensor = ''inlet/'' @ dec inlet, pr_boundary = ''feed'', pr_quantity = quantity,
           pr_component = inlet_component inl inlet, pr_leg = None, pr_measurement = px_value m digits\<rparr>)
           (px_quantity sensor_type)
     | _ \<Rightarrow> None)"

definition pole_leg :: "int option \<Rightarrow> string option" where
  "pole_leg line =
     (if line = Some 1 then Some ''a'' else if line = Some 2 then Some ''b'' else if line = Some 3 then Some ''c'' else None)"

definition three_phase :: "(nat list, snmp_value) btree \<Rightarrow> nat \<Rightarrow> bool" where
  "three_phase pole_lines inlet =
     list_all (\<lambda>line. list_ex (\<lambda>(index, v). (case index of i # _ \<Rightarrow> i = inlet | [] \<Rightarrow> False) \<and> integer_of v = Some line) pole_lines)
       [1, 2, 3]"

definition pole_reading ::
  "inlets \<Rightarrow> (nat list, snmp_value) btree \<Rightarrow> nat list \<times> px_measurement \<times> nat option \<Rightarrow> power_reading option" where
  "pole_reading inl pole_lines = (\<lambda>(index, m, digits).
     case index of
       [inlet, pole, sensor_type] \<Rightarrow>
         Option.bind (pole_leg (lookup_integer pole_lines [inlet, pole])) (\<lambda>leg.
         if sensor_type \<noteq> px_rms_current \<or> \<not> three_phase pole_lines inlet then None
         else Some \<lparr>pr_sensor = ''inlet/'' @ dec inlet @ ''/pole/'' @ dec pole, pr_boundary = ''leg'',
                    pr_quantity = ''current'', pr_component = inlet_component inl inlet, pr_leg = Some leg,
                    pr_measurement = px_value m digits\<rparr>)
     | _ \<Rightarrow> None)"

definition outlet_reading :: "(nat, string) btree \<Rightarrow> nat list \<times> px_measurement \<times> nat option \<Rightarrow> power_reading option" where
  "outlet_reading outlet_names = (\<lambda>(index, m, digits).
     case index of
       [outlet, sensor_type] \<Rightarrow>
         (let name = (case map_of outlet_names outlet of Some l \<Rightarrow> l | None \<Rightarrow> dec outlet);
              found = (if sensor_type = px_on_off_type then Some (''state'', px_on_off m)
                       else map_option (\<lambda>quantity. (quantity, px_value m digits)) (px_quantity sensor_type))
          in map_option (\<lambda>(quantity, measured). \<lparr>pr_sensor = ''outlet/'' @ dec outlet, pr_boundary = ''outlet'',
               pr_quantity = quantity, pr_component = Some (''power_outlet'', name), pr_leg = None,
               pr_measurement = measured\<rparr>) found)
     | _ \<Rightarrow> None)"

definition raritan_readings :: "answers \<Rightarrow> power_reading list" where
  "raritan_readings answers =
     (let inl = inlets_of answers in
      List.map_filter (inlet_reading inl)
        (px_sensors answers px_inlet_available px_inlet_state px_inlet_value px_inlet_digits)
      @ List.map_filter (pole_reading inl (rows_under answers px_inlet_pole_line [1]))
        (px_sensors answers px_inlet_pole_available px_inlet_pole_state px_inlet_pole_value px_inlet_pole_digits)
      @ List.map_filter (outlet_reading (by_first (rows_under answers px_outlet_label [1]) text_of))
        (px_sensors answers px_outlet_available px_outlet_state px_outlet_value px_outlet_digits))"

definition raritan :: "answers \<Rightarrow> map_error + pdu_facts" where
  "raritan answers =
     (let one = (\<lambda>col. Option.bind (map_of (rows_under answers col [1]) []) text_of) in
      case one px_serial of
        None \<Rightarrow> Inl (MapError (Text ''the PDU answered PDU2-MIB without a serial number''))
      | Some serial \<Rightarrow>
          Inr \<lparr>pd_mapping = vendor_mapping Raritan, pd_vendor = one px_manufacturer, pd_model = one px_model,
               pd_serial_number = serial, pd_hostname = Option.bind (scalar answers sys_name) text_of,
               pd_readings = raritan_readings answers\<rparr>)"

section \<open>APC\<close>

definition int_dec :: "int \<Rightarrow> string" where
  \<comment> \<open>\<open>i64::to_string\<close>\<close>
  "int_dec i = (if i < 0 then ''-'' @ dec (nat (- i)) else dec (nat i))"

definition apc_rows :: "answers \<Rightarrow> oid \<Rightarrow> int \<Rightarrow> nat list" where
  "apc_rows answers col unit_id =
     List.map_filter (\<lambda>(index, v). case index of [row] \<Rightarrow> if integer_of v = Some unit_id then Some row else None | _ \<Rightarrow> None)
       (column answers col)"

definition apc_value :: "answers \<Rightarrow> oid \<Rightarrow> nat \<Rightarrow> rat \<Rightarrow> rat \<Rightarrow> measurement option" where
  "apc_value answers col row multiplier divisor =
     (case row_value answers col row of
        None \<Rightarrow> None
      | Some v \<Rightarrow>
          (case integer_of v of
             Some i \<Rightarrow>
               if i = -1 then None
               else if 0 \<le> i then Some (MValue (f64_scale (\<lambda>x. x / divisor) (f64_scale (\<lambda>x. x * multiplier) (f64_of_i64 i))))
               else Some MFailed
           | None \<Rightarrow> Some MFailed))"

definition apc_outlet :: "int \<Rightarrow> string \<Rightarrow> measurement \<Rightarrow> power_reading" where
  "apc_outlet outlet quantity measured =
     \<lparr>pr_sensor = ''outlet/'' @ int_dec outlet, pr_boundary = ''outlet'', pr_quantity = quantity,
      pr_component = Some (''power_outlet'', int_dec outlet), pr_leg = None, pr_measurement = measured\<rparr>"

fun min_row :: "(nat \<times> int) list \<Rightarrow> (nat \<times> int) option" where
  \<comment> \<open>\<open>min_by_key\<close>: the first of the smallest\<close>
  "min_row [] = None"
| "min_row (r # rs) = (case min_row rs of None \<Rightarrow> Some r | Some s \<Rightarrow> if fst s < fst r then Some s else Some r)"

definition apc_host :: "answers \<Rightarrow> (nat \<times> int) option" where
  "apc_host answers =
     min_row (List.map_filter (\<lambda>(index, v). case index of [row] \<Rightarrow> map_option (\<lambda>m. (row, m)) (integer_of v) | _ \<Rightarrow> None)
       (column answers apc_ident_module))"

definition apc_device_readings :: "answers \<Rightarrow> int \<Rightarrow> power_reading list" where
  "apc_device_readings answers unit_id =
     (case apc_rows answers apc_device_module unit_id of
        [] \<Rightarrow> []
      | row # _ \<Rightarrow>
          List.map_filter (\<lambda>(col, quantity). map_option (\<lambda>m. \<lparr>pr_sensor = ''device'', pr_boundary = ''feed'',
             pr_quantity = quantity, pr_component = None, pr_leg = None, pr_measurement = m\<rparr>)
             (apc_value answers col row 10 1))
            [(apc_device_power, ''real_power''), (apc_device_apparent_power, ''apparent_power'')])"

definition apc_phases :: "answers \<Rightarrow> int \<Rightarrow> (int, nat) btree" where
  "apc_phases answers unit_id =
     btree_collect (List.map_filter (\<lambda>row. map_option (\<lambda>phase. (phase, row))
       (Option.bind (row_value answers apc_phase_number row) integer_of)) (apc_rows answers apc_phase_module unit_id))"

definition phase_place :: "(int, nat) btree \<Rightarrow> int \<Rightarrow> (string \<times> string option) option" where
  "phase_place phases phase =
     (let three = list_all (\<lambda>p. map_of phases p \<noteq> None) [1, 2, 3] in
      if \<not> three \<and> phase = 1 \<and> length phases = 1 then Some (''feed'', None)
      else if three \<and> phase = 1 then Some (''leg'', Some ''a'')
      else if three \<and> phase = 2 then Some (''leg'', Some ''b'')
      else if three \<and> phase = 3 then Some (''leg'', Some ''c'')
      else None)"

definition apc_phase_readings :: "answers \<Rightarrow> int \<Rightarrow> power_reading list" where
  "apc_phase_readings answers unit_id =
     (let phases = apc_phases answers unit_id in
      List.map_filter (\<lambda>(phase, row).
        Option.bind (phase_place phases phase) (\<lambda>(b, leg).
        map_option (\<lambda>m. \<lparr>pr_sensor = ''phase/'' @ int_dec phase, pr_boundary = b, pr_quantity = ''current'',
          pr_component = None, pr_leg = leg, pr_measurement = m\<rparr>) (apc_value answers apc_phase_current row 1 10))) phases)"

definition apc_metered_readings :: "answers \<Rightarrow> int \<Rightarrow> power_reading list" where
  "apc_metered_readings answers unit_id =
     List.map_filter (\<lambda>(row, col, quantity, multiplier, divisor).
       Option.bind (Option.bind (row_value answers apc_metered_number row) integer_of) (\<lambda>outlet.
       map_option (apc_outlet outlet quantity) (apc_value answers col row multiplier divisor)))
       (concat (map (\<lambda>row. [(row, apc_metered_power, ''real_power'', 1, 1), (row, apc_metered_current, ''current'', 1, 10)])
          (apc_rows answers apc_metered_module unit_id)))"

definition apc_switched_readings :: "answers \<Rightarrow> int \<Rightarrow> power_reading list" where
  "apc_switched_readings answers unit_id =
     List.map_filter (\<lambda>row.
       map_option (\<lambda>outlet.
         let state = Option.bind (row_value answers apc_switched_state row) integer_of in
         apc_outlet outlet ''state''
           (if state = Some 1 then MState ''off'' else if state = Some 2 then MState ''on'' else MFailed))
         (Option.bind (row_value answers apc_switched_number row) integer_of))
       (apc_rows answers apc_switched_module unit_id)"

definition apc :: "answers \<Rightarrow> map_error + pdu_facts" where
  "apc answers =
     (let host = apc_host answers;
          ident = (\<lambda>col. Option.bind (Option.bind host (\<lambda>(row, _). row_value answers col row)) text_of);
          unit_id = (case host of Some (_, m) \<Rightarrow> m | None \<Rightarrow> 1)
      in case ident apc_ident_serial of
           None \<Rightarrow> Inl (MapError (Text ''the PDU answered rPDU2 without a serial number''))
         | Some serial \<Rightarrow>
             Inr \<lparr>pd_mapping = vendor_mapping Apc, pd_vendor = Some ''APC'', pd_model = ident apc_ident_model,
                  pd_serial_number = serial, pd_hostname = Option.bind (scalar answers sys_name) text_of,
                  pd_readings = apc_device_readings answers unit_id @ apc_phase_readings answers unit_id
                    @ apc_metered_readings answers unit_id @ apc_switched_readings answers unit_id\<rparr>)"

definition pdu_of :: "vendor \<Rightarrow> answers \<Rightarrow> map_error + pdu_facts" where
  "pdu_of v answers =
     (case (case v of Raritan \<Rightarrow> raritan answers | Apc \<Rightarrow> apc answers) of
        Inl e \<Rightarrow> Inl e
      | Inr p \<Rightarrow>
          if max_readings < length (pd_readings p)
          then Inl (MapError (Format ''the PDU reported more than {MAX_READINGS} readings'' [dec max_readings]))
          else Inr p)"

section \<open>Polling a PDU\<close>

text \<open>The module around the mapping (\<open>power/pdu/mod.rs\<close>).\<close>

definition pdu_budget_timeouts :: nat where "pdu_budget_timeouts = 12"

definition poll_pdu ::
  "(error_text \<Rightarrow> string) \<Rightarrow> (target \<Rightarrow> 'w \<Rightarrow> (poll_error + 'w snmp_session) \<times> 'w) \<Rightarrow> ('w \<Rightarrow> instant \<times> 'w)
   \<Rightarrow> target \<Rightarrow> duration \<Rightarrow> 'w \<Rightarrow> (target_error + pdu_facts) \<times> 'w" where
  \<comment> \<open>\<open>display\<close> is the text of an error\<close>
  "poll_pdu display open' clock tgt budget w =
     (case clock w of (now, w) \<Rightarrow>
      let until = now + budget; unreachable = (\<lambda>e. case e of PollError m \<Rightarrow> TargetUnreachable (display m)) in
      case open' tgt w of
        (Inl e, w) \<Rightarrow> (Inl (unreachable e), w)
      | (Inr s, w) \<Rightarrow>
          (case read_device s until pdu_scalars [] w of
             (Inl e, w) \<Rightarrow> (Inl (unreachable e), w)
           | (Inr identity, w) \<Rightarrow>
               (case detect_vendor identity of
                  None \<Rightarrow> (Inl (TargetUnsupported ''the device answers neither Raritan PDU2-MIB nor APC PowerNet-MIB rPDU2''), w)
                | Some v \<Rightarrow>
                    (case read_device s until [] (vendor_columns v) w of
                       (Inl e, w) \<Rightarrow> (Inl (unreachable e), w)
                     | (Inr answers, w) \<Rightarrow>
                         ((case pdu_of v (fold (\<lambda>(oid, x). btree_insert oid x) identity answers) of
                             Inl (MapError m) \<Rightarrow> Inl (TargetUnsupported (display m))
                           | Inr p \<Rightarrow> Inr p), w)))))"

definition pdu_device :: "pdu_facts \<Rightarrow> device" where
  "pdu_device p =
     \<lparr>dv_mapping = pd_mapping p, dv_mapping_version = pdu_mapping_version,
      dv_resource = \<lparr>cr_kind = Pdu, cr_target = None,
        cr_identifiers = \<lparr>ci_hostname = pd_hostname p, ci_serial_number = Some (pd_serial_number p), ci_dmi_uuid = None,
          ci_mac_address = []\<rparr>,
        cr_attributes = Some \<lparr>ha_hostname = None, ha_fqdn = None, ha_vendor = pd_vendor p, ha_model = pd_model p,
          ha_asset_tag = None\<rparr>,
        cr_interfaces = None\<rparr>,
      dv_readings = pd_readings p\<rparr>"

definition poll_pdu_target ::
  "(target \<Rightarrow> bool) \<Rightarrow> (target \<Rightarrow> target_error + pdu_facts) \<Rightarrow> (target \<Rightarrow> system_time) \<Rightarrow> target \<Rightarrow> poll_outcome" where
  \<comment> \<open>what \<open>poll\<close> runs for one target: whether the module was stopped by then, the poll, and its time\<close>
  "poll_pdu_target stopped poll read_at tgt =
     \<lparr>oc_address = t_address tgt, oc_read_at = read_at tgt,
      oc_result = (if stopped tgt then Inl (TargetUnreachable ''polling was cancelled'') else map_ok pdu_device (poll tgt))\<rparr>"

section \<open>Series of a PDU\<close>

text \<open>
  A reading is stored under its sensor and quantity, so a Raritan PDU must not report two readings
  under one of them. A table lists a sensor once and the index can be read back from the name.
\<close>

definition series_of :: "power_reading \<Rightarrow> string \<times> string" where
  "series_of r = (pr_sensor r, pr_quantity r)"

lemma distinct_map_filter:
  assumes "distinct (map k xs)"
    and "\<And>x y a b. \<lbrakk>x \<in> set xs; y \<in> set xs; g x = Some a; g y = Some b; h a = h b\<rbrakk> \<Longrightarrow> k x = k y"
  shows "distinct (map h (List.map_filter g xs))"
  using assms
proof (induction xs)
  case (Cons x xs)
  have IH: "distinct (map h (List.map_filter g xs))"
  proof (rule Cons.IH)
    show "distinct (map k xs)" using Cons.prems(1) by simp
    show "k y = k z" if "y \<in> set xs" "z \<in> set xs" "g y = Some a" "g z = Some b" "h a = h b" for y z a b
      using Cons.prems(2) [of y z a b] that by simp
  qed
  show ?case
  proof (cases "g x")
    case None
    thus ?thesis using IH by (simp add: map_filter_simps)
  next
    case (Some a)
    have "h a \<notin> h ` set (List.map_filter g xs)"
    proof
      assume "h a \<in> h ` set (List.map_filter g xs)"
      then obtain y b where "y \<in> set xs" "g y = Some b" "h b = h a"
        by (fastforce simp: map_filter_def)
      hence "k x = k y" using Cons.prems(2) [of x y a b] Some by simp
      thus False using Cons.prems(1) \<open>y \<in> set xs\<close> by force
    qed
    thus ?thesis using IH Some by (simp add: map_filter_simps)
  qed
qed (simp add: map_filter_simps)

lemma disjoint_map_filter:
  assumes "\<And>x y a b. \<lbrakk>g x = Some a; g' y = Some b\<rbrakk> \<Longrightarrow> h a \<noteq> h b"
  shows "h ` set (List.map_filter g xs) \<inter> h ` set (List.map_filter g' ys) = {}"
proof -
  have "h a \<noteq> h b" if "a \<in> set (List.map_filter g xs)" "b \<in> set (List.map_filter g' ys)" for a b
    using that assms by (fastforce simp: map_filter_def)
  thus ?thesis by blast
qed

lemma dec_eq_iff [simp]: "dec a = dec b \<longleftrightarrow> a = b"
  by (metis decimal_value_dec)

lemma slash_not_in_dec: "CHR ''/'' \<notin> set (dec n)"
  using dec_digits [of n] by (auto simp: list_all_iff is_ascii_digit_def byte_of_def)

lemma before_slash: "takeWhile (\<lambda>c. c \<noteq> CHR ''/'') (dec a @ CHR ''/'' # xs) = dec a"
  using slash_not_in_dec [of a] by (subst takeWhile_append2) auto

lemma dec_slash_eq: "dec a @ CHR ''/'' # xs = dec b @ CHR ''/'' # ys \<longleftrightarrow> a = b \<and> xs = ys"
  by (metis append_same_eq before_slash dec_eq_iff list.inject same_append_eq)

lemma dec_not_slash: "dec a \<noteq> dec b @ CHR ''/'' # xs"
  using slash_not_in_dec [of a] by (metis in_set_conv_decomp)

lemma px_quantity_inj: "\<lbrakk>px_quantity a = Some q; px_quantity b = Some q\<rbrakk> \<Longrightarrow> a = b"
  by (auto simp: px_quantity_def split: if_splits)

lemma px_quantity_state: "px_quantity a \<noteq> Some ''state''"
  by (simp add: px_quantity_def)

lemma distinct_px_sensors: "distinct (map fst (px_sensors answers available state v digits))"
proof -
  have "distinct (map fst (filter P (rows_under answers available [1])))" for P
    by (rule ordered_distinct) (auto simp: rows_under_def)
  thus ?thesis by (simp add: px_sensors_def Let_def comp_def case_prod_unfold)
qed

lemma inlet_readingD:
  "inlet_reading inl x = Some r
   \<Longrightarrow> \<exists>i t q. fst x = [i, t] \<and> px_quantity t = Some q \<and> series_of r = (''inlet/'' @ dec i, q)"
  by (auto simp: inlet_reading_def series_of_def split: prod.splits list.splits)

lemma pole_readingD:
  "pole_reading inl pole_lines x = Some r
   \<Longrightarrow> \<exists>i p. fst x = [i, p, px_rms_current] \<and> series_of r = (''inlet/'' @ dec i @ ''/pole/'' @ dec p, ''current'')"
  by (auto simp: pole_reading_def series_of_def bind_eq_Some_conv split: prod.splits list.splits if_splits)

lemma outlet_readingD:
  "outlet_reading outlet_names x = Some r
   \<Longrightarrow> \<exists>i t q. fst x = [i, t] \<and> series_of r = (''outlet/'' @ dec i, q)
         \<and> (t = px_on_off_type \<and> q = ''state'' \<or> px_quantity t = Some q)"
  by (auto simp: outlet_reading_def series_of_def Let_def split: prod.splits list.splits if_splits)

lemma distinct_series:
  assumes "\<And>x y a b. \<lbrakk>g x = Some a; g y = Some b; series_of a = series_of b\<rbrakk> \<Longrightarrow> fst x = fst y"
  shows "distinct (map series_of (List.map_filter g (px_sensors answers available state v digits)))"
  by (rule distinct_map_filter [OF distinct_px_sensors]) (rule assms)

lemma raritan_series_distinct: "distinct (map series_of (raritan_readings answers))"
proof -
  let ?inl = "inlets_of answers" and ?poles = "rows_under answers px_inlet_pole_line [1]"
    and ?names = "by_first (rows_under answers px_outlet_label [1]) text_of"
  have inlet: "fst x = fst y" if "inlet_reading ?inl x = Some a" "inlet_reading ?inl y = Some b" "series_of a = series_of b" for x y a b
    using that by (auto dest!: inlet_readingD dest: px_quantity_inj)
  have pole: "fst x = fst y" if "pole_reading ?inl ?poles x = Some a" "pole_reading ?inl ?poles y = Some b" "series_of a = series_of b" for x y a b
    using that by (auto dest!: pole_readingD simp: dec_slash_eq)
  have outlet: "fst x = fst y" if "outlet_reading ?names x = Some a" "outlet_reading ?names y = Some b" "series_of a = series_of b" for x y a b
    using that by (auto dest!: outlet_readingD dest: px_quantity_inj simp: px_quantity_state)
  have ip: "series_of a \<noteq> series_of b" if "inlet_reading ?inl x = Some a" "pole_reading ?inl ?poles y = Some b" for x y a b
    using inlet_readingD [OF that(1)] pole_readingD [OF that(2)] by (auto simp: dec_not_slash dec_not_slash [symmetric])
  have io: "series_of a \<noteq> series_of b" if "inlet_reading ?inl x = Some a" "outlet_reading ?names y = Some b" for x y a b
    using inlet_readingD [OF that(1)] outlet_readingD [OF that(2)] by force
  have po: "series_of a \<noteq> series_of b" if "pole_reading ?inl ?poles x = Some a" "outlet_reading ?names y = Some b" for x y a b
    using pole_readingD [OF that(1)] outlet_readingD [OF that(2)] by force
  show ?thesis
    unfolding raritan_readings_def Let_def map_append distinct_append set_map set_append image_Un
      Int_Un_distrib Un_empty
    by (intro conjI distinct_series disjoint_map_filter) (fact inlet pole outlet ip io po)+
qed

lemma pdu_of_bounded: "pdu_of v answers = Inr p \<Longrightarrow> length (pd_readings p) \<le> max_readings"
  by (auto simp: pdu_of_def split: sum.splits if_splits)

text \<open>The report matches the PDU by the serial number it answered, whichever vendor it is.\<close>

lemma poll_pdu_target_resource:
  assumes "oc_result (poll_pdu_target stopped poll read_at tgt) = Inr d"
  shows "\<exists>p. poll tgt = Inr p \<and> ci_serial_number (cr_identifiers (dv_resource d)) = Some (pd_serial_number p)
     \<and> dv_readings d = pd_readings p \<and> \<not> stopped tgt"
  using assms by (cases "poll tgt") (auto simp: poll_pdu_target_def pdu_device_def split: if_splits)

end
