(* ===== verification/Spec2Isabelle.thy ===== *)
theory Spec2Isabelle
  imports Queue_Faults Transport_Correct Delivery_Correct Worker_Correct Thrift_Correct Sql_Correct Sql_Table
    Config_Correct Snmp_Correct Mibs_Correct Switch_Correct Snmp_Config Daemon_Correct Notices_Correct Smbios
    Collector_Correct Exporters_Correct Exposition_Correct Pdu_Mibs
begin

text \<open>
  \<^bold>\<open>The Renga host agent.\<close> The agent (\<open>src/agent/src\<close>, written in Rust) runs on a host, collects
  inventory and power readings, delivers them to a Renga server over HTTPS, and runs the jobs the
  server leases to it when the operator's local policy allows them. The server itself, in Elixir, is
  the network of this development.

  \<^bold>\<open>How the parts interact.\<close> The daemon loop (\<open>main.rs\<close>) asks the scheduler which of four periodic
  jobs is due: a check-in, an inventory report, a job pass, a queue flush. Reports and telemetry are
  first put on disk, in two bounded queues (\<open>queue.rs\<close>), and delivered from there by the HTTP client
  (\<open>transport.rs\<close>), which retries within a budget. A job pass (\<open>jobs/worker.rs\<close>) leases jobs, notes
  each in a durable record (\<open>jobs/record.rs\<close>) before it starts, and reports on it. The notice socket
  (\<open>notices.rs\<close>) wakes the loop when jobs wait. Collector modules poll switches, PDUs, hwmon sensors
  and local exporters on their own threads, and put what they find into the queues. A reload replaces
  the configuration (\<open>config.rs\<close>), and a server that says the organization moved makes the agent
  resolve its home deployment (\<open>home.rs\<close>) again.

  \<^bold>\<open>Conventions.\<close> A string is the list of its UTF-8 bytes. An \<open>Instant\<close> and a \<open>Duration\<close> are
  nanoseconds as \<open>nat\<close>, a \<open>SystemTime\<close> is an \<open>int\<close>. Where adding to an instant can panic in
  reach of an accepted configuration, the operation returns an option and the panic is \<open>None\<close>.
  Integers keep their width where they can wrap. An \<open>f64\<close> is a rational, an infinity or NaN, and every
  operation on it rounds to the nearest binary64 number with ties to even. A fallible operation returns
  \<open>error + 'a\<close>. A \<open>BTreeMap\<close> is the list of its entries in key order. Code outside the repository
  (reqwest, serde, url, chrono, snmp2, tungstenite, toml, uuid) is a parameter of the definitions that
  use it. Operations on the outside (clock, network, threads, kernel files) are fields of an
  environment record over a world \<open>'w\<close>; where a property is about traffic or about what was started,
  a logging copy of the environment makes it part of the world.

  \<^bold>\<open>Shared theories.\<close> \<open>Agent_Prelude\<close>: time, strings and the results of I/O. \<open>Decimal\<close>: printing and
  parsing of unsigned numbers. \<open>Text_Json\<close>: UTF-8 and JSON values. \<open>Ordered_Map\<close>: \<open>BTreeMap\<close>.
  \<open>Files\<close>: a directory whose every system call may fail or be raced. \<open>Loops\<close>: a loop that may not end,
  with an invariant rule and a variant rule. \<open>Float64\<close>: binary64 rounding, decimal parsing and casts.
  \<open>Report_Types\<close>: the resources collectors report (\<open>payload.rs\<close>).

  \<^bold>\<open>Queue\<close> (\<open>queue.rs\<close>). \<open>Disk_Queue\<close> models every operation of \<open>DiskQueue\<close>: open, enqueue with
  eviction, drain, expiry, the monitor. \<open>Queue_Correct\<close> shows, on an undisturbed directory, that an
  enqueue keeps the newest entries within both limits, and that a drain refines a list-level
  specification and sends oldest first. \<open>Queue_Faults\<close> lets any system call fail: an entry is never
  torn, and only queue entries are ever removed.

  \<^bold>\<open>Transport\<close> (\<open>transport.rs\<close>, \<open>scheduler.rs\<close>, \<open>cancellation.rs\<close>). \<open>Retry\<close> models failure classes and
  the retry loop and shows that requests fit the budget, respect Retry-After and stop at the first
  verdict; its locale \<open>retry_invariant\<close> carries an invariant through the loop and is interpreted in
  \<open>Transport_Correct\<close> for deliveries, home resolution and move signals. \<open>Transport\<close> models the client,
  with the cells that clones share as addresses into a store. \<open>Transport_Correct\<close>: a throttled
  class of requests waits for its deadline, and resolving the home sends no credential. \<open>Scheduler\<close>
  models the four deadlines and the cancellation token.

  \<^bold>\<open>Delivery\<close> (\<open>main.rs\<close>). \<open>Delivery\<close> models the pair of queues, the inventory and flush passes and the
  sinks. \<open>Delivery_Correct\<close>: an observation is accepted, rejected as a payload or still queued, and a
  flush offers observations before a bounded number of telemetry batches.

  \<^bold>\<open>Jobs\<close> (\<open>jobs/mod.rs\<close>, \<open>jobs/record.rs\<close>, \<open>jobs/worker.rs\<close>). \<open>Capabilities\<close> models capability keys and
  the operator's policy. \<open>Job_Records\<close> models the durable record; \<open>Records_Correct\<close> states what
  the worker needs of it as the locale \<open>job_store_laws\<close>, interpreted on the store on disk, and shows that a
  write is atomic under failures. \<open>Job_Worker\<close> models passes, leased jobs and the supervising loop;
  \<open>Worker_Log\<close>, \<open>Worker_Ends\<close> and \<open>Worker_Correct\<close> show that only authorised work runs, an
  imperative job runs once, reports are numbered and in order, a success is in time, and a pass ends.

  \<^bold>\<open>Operational queries\<close> (\<open>jobs/queries/mod.rs\<close>, \<open>jobs/queries/sql.rs\<close>, \<open>osquery/thrift.rs\<close>).
  \<open>Query_Sql\<close> models the bounded result list, the statement scanner, the policy checks and the result
  table; \<open>Sql_Correct\<close> and \<open>Sql_Table\<close> show that the scanner is exact, that a statement runs only after
  every check, and that a result is within its bounds. \<open>Thrift\<close> models the encoder and the bounded
  decoder; \<open>Thrift_Correct\<close> has the round trip and the bounds for arbitrary input.

  \<^bold>\<open>Configuration and home\<close> (\<open>config.rs\<close>, \<open>home.rs\<close>). \<open>Config\<close> models loading, overrides and validation;
  \<open>Config_Correct\<close> shows what an accepted configuration guarantees, and that an accepted inventory
  interval can be too large for the scheduler. \<open>Home\<close> models the persisted home and its resolution.

  \<^bold>\<open>Daemon\<close> (\<open>main.rs\<close>, \<open>jobs/inventory_collect.rs\<close>). \<open>Daemon\<close> models start-up, one turn of the loop with
  reloads, moves, job passes and the notice socket, and shutdown. \<open>Daemon_Correct\<close> proves two
  invariants of every reachable state through the locale \<open>loop_invariant\<close>: the client, the socket, the
  modules and the current pass agree with the configuration in effect, and the home on disk is the one in
  effect, or none while a move is pending.

  \<^bold>\<open>Notice socket\<close> (\<open>notices.rs\<close>). \<open>Notices\<close> models reconnecting, resolution, staggered connections, the
  handshake, joining and listening. \<open>Notices_Correct\<close>: a connection follows the protocol
  automaton, and a silent socket is given up.

  \<^bold>\<open>Switches\<close> (\<open>snmp/*.rs\<close>, \<open>switch_report.rs\<close>). \<open>Snmp_Client\<close> and \<open>Snmp_Walk\<close> model reading a device;
  \<open>Snmp_Correct\<close> shows that a read is exact for a device that answers in order and makes a bounded number of
  requests for any device. \<open>Snmp_Mibs\<close> maps the answers to a switch and \<open>Mibs_Correct\<close> shows the limits
  every reported switch keeps, with the one case in which a VLAN is repeated. \<open>Switch_Report\<close> models
  reports, concurrent polling and the module loop; \<open>Switch_Correct\<close> shows that reports cover every target
  once and that concurrent polling gives the sequential result under any interleaving.
  \<open>Snmp_Config\<close> validates the tables and applies reloads.

  \<^bold>\<open>Power\<close> (\<open>power/*.rs\<close>, \<open>exporters/*.rs\<close>, \<open>smbios/table.rs\<close>). \<open>Hwmon\<close> models the sensor scan and shows
  that series do not depend on how the kernel numbers chips. \<open>Telemetry\<close> models batches, source
  statuses and the host sampling loop. \<open>Power_Collector\<close> models what PDU and BMC polling share, and
  \<open>Collector_Correct\<close> shows that a poll is sent whole and that a silent target's series are reported as
  failed. \<open>Pdu_Mibs\<close> models both PDU vendor mappings and the poll of one PDU, and shows that a Raritan PDU
  reports each series once. \<open>Exposition\<close> models the text format reader, with its round trip in
  \<open>Exposition_Correct\<close>. \<open>Exporter_Mapping\<close> and \<open>Exporters\<close> model the metric mapping, the fetch, one scrape and the
  scraper; \<open>Exporters_Correct\<close> shows that a local exporter is only asked on the host without a
  credential, and that no served series disappears silently. \<open>Smbios\<close> models the table walk and shows that it
  reads back what firmware wrote.

  \<^bold>\<open>Bounds and fuel.\<close> No loop is cut off by a fixed fuel. Loops over data are structural recursion or
  have a termination proof. Loops that wait for the outside are \<open>until_done\<close> or another
  \<open>partial_function (option)\<close>, for which not returning is \<open>None\<close>; that the job pass returns
  (\<open>Worker_Ends\<close>) and that a silent socket is left (\<open>Notices_Correct\<close>) are theorems, under a clock that
  advances while the program waits. The bounds in the statements are the constants of the source.

  \<^bold>\<open>Not modelled.\<close> The installation identity and key, host fact collectors and the commands they run, the
  fixed queries, the osquery socket client and the SMBIOS snapshot helper are operating system calls and
  cryptography whose results are parameters here. The gNMI, libvirt and BMC modules are not modelled;
  their reports go through the modelled \<open>switch_report.rs\<close>, the delivery sinks and \<open>power/collector.rs\<close>.
  Log lines, file permissions and spawning of threads are left out throughout. The Elixir server, the UI
  library and the build files are outside the agent.
\<close>

end
